(* ===== verification/Prelude.thy ===== *)
theory Prelude
  imports Main "HOL-Library.Word" "HOL-Library.Multiset" "HOL-Library.Sublist"
begin

text \<open>
  Shared vocabulary of the development.

  \<^item> A Rust byte (\<^verbatim>\<open>u8\<close>) is a HOL \<^typ>\<open>char\<close>, which has exactly 256 values; a byte slice or
    vector is a list of them. A Rust \<^verbatim>\<open>str\<close> or \<^verbatim>\<open>String\<close> is its UTF-8 encoding, so it is a
    byte list too and \<^verbatim>\<open>len()\<close> is \<^const>\<open>length\<close>; a path is a string.
  \<^item> \<^verbatim>\<open>usize\<close> and \<^verbatim>\<open>u64\<close> values are naturals; every operation of the source that saturates,
    checks or wraps at the width writes the bound out (\<open>u64_max\<close>, \<open>sat_add\<close>, \<open>checked_add\<close>).
    \<^verbatim>\<open>i64\<close> values are integers.
  \<^item> \<^verbatim>\<open>Result<T, E>\<close> is the sum \<open>'e + 't\<close>, the error on the left; \<open>try_bind\<close> is the \<^verbatim>\<open>?\<close> operator.
  \<^item> The named collections carry the component proofs: \<open>std_defs\<close> (standard-library functions),
    \<open>const_defs\<close> (constants of \<^verbatim>\<open>core::constants\<close>) and \<open>frame_simps\<close> (what an operation
    leaves alone).
\<close>

section \<open>Types\<close>

type_synonym byte = char
type_synonym bytes = "char list"
type_synonym path = string

named_theorems std_defs \<open>definitions of the modelled standard library\<close>
named_theorems const_defs \<open>definitions of the program's constants\<close>
named_theorems frame_simps \<open>what an operation leaves alone\<close>

section \<open>Machine integers\<close>

definition u64_max :: nat where
  "u64_max = 2 ^ 64 - 1"

definition i64_max :: int where
  "i64_max = 2 ^ 63 - 1"

definition i64_min :: int where
  "i64_min = - (2 ^ 63)"

definition sat_add :: "nat \<Rightarrow> nat \<Rightarrow> nat" where
  "sat_add a b = min (a + b) u64_max"

definition checked_add :: "nat \<Rightarrow> nat \<Rightarrow> nat option" where
  "checked_add a b = (if a + b \<le> u64_max then Some (a + b) else None)"

definition wrap64 :: "nat \<Rightarrow> nat" where
  "wrap64 n = n mod 2 ^ 64"

text \<open>For evaluation the bounds are compared as binary numerals.\<close>

lemma u64_max_code [code_unfold]:
  "n \<le> u64_max \<longleftrightarrow> int n \<le> 18446744073709551615"
  "min n u64_max = (if int n \<le> 18446744073709551615 then n else u64_max)"
  by (auto simp: u64_max_def min_def)

lemma wrap64_code [code]: "wrap64 n = (if int n \<le> 18446744073709551615 then n else n mod 2 ^ 64)"
  by (auto simp: wrap64_def)

lemma sat_add_le_max [simp]: "sat_add a b \<le> u64_max"
  by (simp add: sat_add_def)

lemma sat_add_ge_left: "a \<le> u64_max \<Longrightarrow> a \<le> sat_add a b"
  by (simp add: sat_add_def)

lemma sat_add_exact: "a + b \<le> u64_max \<Longrightarrow> sat_add a b = a + b"
  by (simp add: sat_add_def)

lemma checked_add_Some_iff: "checked_add a b = Some c \<longleftrightarrow> c = a + b \<and> c \<le> u64_max"
  by (auto simp: checked_add_def)

section \<open>Results\<close>

definition try_bind :: "'e + 'a \<Rightarrow> ('a \<Rightarrow> 'e + 'b) \<Rightarrow> 'e + 'b" where
  "try_bind r f = (case r of Inl e \<Rightarrow> Inl e | Inr a \<Rightarrow> f a)"

definition ok_opt :: "'e + 'a \<Rightarrow> 'a option" where
  "ok_opt r = (case r of Inl _ \<Rightarrow> None | Inr a \<Rightarrow> Some a)"

lemma try_bind_simps [simp]:
  "try_bind (Inl e) f = Inl e"
  "try_bind (Inr a) f = f a"
  by (simp_all add: try_bind_def)

lemma try_bind_Inr_iff: "try_bind r f = Inr b \<longleftrightarrow> (\<exists>a. r = Inr a \<and> f a = Inr b)"
  by (cases r) auto

lemma try_bind_Inl_iff:
  "try_bind r f = Inl e \<longleftrightarrow> r = Inl e \<or> (\<exists>a. r = Inr a \<and> f a = Inl e)"
  by (cases r) auto

lemma ok_opt_simps [simp]:
  "ok_opt (Inl e) = None"
  "ok_opt (Inr a) = Some a"
  by (simp_all add: ok_opt_def)

lemma ok_opt_Some_iff [simp]: "ok_opt r = Some a \<longleftrightarrow> r = Inr a"
  by (cases r) auto

section \<open>Lists\<close>

text \<open>The first element with a property, as \<^verbatim>\<open>Iterator::find\<close> gives it.\<close>

lemma find_Some_split:
  assumes "find P xs = Some x"
  shows "x \<in> set xs \<and> P x"
  using assms by (auto simp: find_Some_iff)

lemma find_in_set: "find P xs = Some x \<Longrightarrow> x \<in> set xs"
  by (auto simp: find_Some_iff)

lemma find_satisfies: "find P xs = Some x \<Longrightarrow> P x"
  by (auto simp: find_Some_iff)

lemma find_Some_ex: "x \<in> set xs \<Longrightarrow> P x \<Longrightarrow> \<exists>y. find P xs = Some y"
  by (cases "find P xs") (auto simp: find_None_iff)

lemma length_filter_le_all: "length (filter P xs) \<le> length xs"
  by simp

lemma set_drop_subset_self: "x \<in> set (drop n xs) \<Longrightarrow> x \<in> set xs"
  by (rule in_set_dropD)

lemma take_drop_disjoint:
  assumes "distinct xs" and "x \<in> set (take n xs)"
  shows "x \<notin> set (drop n xs)"
proof -
  have "distinct (take n xs @ drop n xs)"
    using assms(1) by simp
  then show ?thesis
    using assms(2) by (metis disjoint_iff distinct_append)
qed

lemma sorted_wrt_take_drop:
  assumes "sorted_wrt R xs" and "a \<in> set (take n xs)" and "b \<in> set (drop n xs)"
  shows "R a b"
proof -
  have "sorted_wrt R (take n xs @ drop n xs)"
    using assms(1) by simp
  then show ?thesis
    using assms(2,3) by (simp only: sorted_wrt_append)
qed


lemma take_append_drop_part: "m \<le> k \<Longrightarrow> take m xs @ take (k - m) (drop m xs) = take k xs"
  by (metis le_add_diff_inverse take_add)

end
