(* ===== verification/Constants.thy ===== *)
theory Constants
  imports Prelude
begin

text \<open>
  The constants of \<^verbatim>\<open>crates/core/src/constants.rs\<close>, under their own names. They are plain definitions collected in \<open>const_defs\<close>; the two compile-time assertions
  of the source that concern them are lemmas at the end.
\<close>

section \<open>Storage and IPC\<close>

definition DB_DIR_NAME :: string where [const_defs]: "DB_DIR_NAME = ''y4p''"
definition DB_FILE_NAME :: string where [const_defs]: "DB_FILE_NAME = ''y4p.sqlite''"
definition DEFAULT_MAX_HISTORY :: nat where [const_defs]: "DEFAULT_MAX_HISTORY = 256"
definition ENV_MAX_HISTORY :: string where [const_defs]: "ENV_MAX_HISTORY = ''Y4P_MAX_HISTORY''"

definition IPC_CMD_RESTORE :: byte where [const_defs]: "IPC_CMD_RESTORE = CHR 0x01"
definition IPC_CMD_EXIT :: byte where [const_defs]: "IPC_CMD_EXIT = CHR 0x02"
definition IPC_CMD_STATUS :: byte where [const_defs]: "IPC_CMD_STATUS = CHR 0x03"
definition IPC_CMD_PAUSE :: byte where [const_defs]: "IPC_CMD_PAUSE = CHR 0x04"
definition IPC_CMD_RESUME :: byte where [const_defs]: "IPC_CMD_RESUME = CHR 0x05"
definition IPC_DELIMITER :: byte where [const_defs]: "IPC_DELIMITER = CHR 0x0A"
definition SOCKET_FILE_NAME :: string where [const_defs]: "SOCKET_FILE_NAME = ''y4p.sock''"

section \<open>Payload sizes\<close>

definition MAX_PAYLOAD_BYTES :: nat where [const_defs]: "MAX_PAYLOAD_BYTES = 256 * 1024 * 1024"
definition INLINE_PAYLOAD_THRESHOLD_BYTES :: nat where [const_defs]:
  "INLINE_PAYLOAD_THRESHOLD_BYTES = 4096"
definition PAYLOAD_PREALLOC_CAP_BYTES :: nat where [const_defs]:
  "PAYLOAD_PREALLOC_CAP_BYTES = 16 * 1024 * 1024"
definition SPLICE_CHUNK_BYTES :: nat where [const_defs]: "SPLICE_CHUNK_BYTES = 64 * 1024"
definition PIPE_TARGET_BYTES :: nat where [const_defs]: "PIPE_TARGET_BYTES = 1024 * 1024"
definition SPLICE_ROUND_BYTES :: nat where [const_defs]: "SPLICE_ROUND_BYTES = PIPE_TARGET_BYTES"
definition CDC_MIN_CHUNK_BYTES :: nat where [const_defs]: "CDC_MIN_CHUNK_BYTES = 4 * 1024"
definition CDC_AVG_CHUNK_BYTES :: nat where [const_defs]: "CDC_AVG_CHUNK_BYTES = 16 * 1024"
definition CDC_MAX_CHUNK_BYTES :: nat where [const_defs]: "CDC_MAX_CHUNK_BYTES = 64 * 1024"
definition SPOOL_DIR_NAME :: string where [const_defs]: "SPOOL_DIR_NAME = ''spool''"
definition SPOOL_FILE_EXTENSION :: string where [const_defs]: "SPOOL_FILE_EXTENSION = ''part''"
definition CACHE_FILE_EXTENSION :: string where [const_defs]: "CACHE_FILE_EXTENSION = ''cache''"
definition DIGEST_LEN :: nat where [const_defs]: "DIGEST_LEN = 32"

section \<open>Ingestion bounds\<close>

definition INGEST_QUEUE_CAPACITY :: nat where [const_defs]: "INGEST_QUEUE_CAPACITY = 64"
definition INGEST_QUEUE_BYTE_BUDGET :: nat where [const_defs]:
  "INGEST_QUEUE_BYTE_BUDGET = 64 * 1024 * 1024"
definition INGEST_MAX_CONCURRENT_READERS :: nat where [const_defs]:
  "INGEST_MAX_CONCURRENT_READERS = 8"
definition INGEST_ENQUEUE_WAIT_MS :: nat where [const_defs]: "INGEST_ENQUEUE_WAIT_MS = 2000"
definition INGEST_ENQUEUE_POLL_MS :: nat where [const_defs]: "INGEST_ENQUEUE_POLL_MS = 5"

section \<open>Image pipeline\<close>

definition PIPELINE_CHUNK_BYTES :: nat where [const_defs]: "PIPELINE_CHUNK_BYTES = 64 * 1024"
definition PIPELINE_STDERR_CAP_BYTES :: nat where [const_defs]:
  "PIPELINE_STDERR_CAP_BYTES = 8 * 1024"
definition SCRATCH_DIR_NAME :: string where [const_defs]: "SCRATCH_DIR_NAME = ''y4p-magick''"
definition SCRATCH_FALLBACK_ROOT :: string where [const_defs]: "SCRATCH_FALLBACK_ROOT = ''/tmp''"
definition IMAGE_LIMIT_WIDTH_PX :: string where [const_defs]: "IMAGE_LIMIT_WIDTH_PX = ''16384''"
definition IMAGE_LIMIT_HEIGHT_PX :: string where [const_defs]: "IMAGE_LIMIT_HEIGHT_PX = ''16384''"
definition IMAGE_LIMIT_MEMORY :: string where [const_defs]: "IMAGE_LIMIT_MEMORY = ''256MiB''"
definition IMAGE_LIMIT_MAP :: string where [const_defs]: "IMAGE_LIMIT_MAP = ''512MiB''"
definition IMAGE_LIMIT_DISK :: string where [const_defs]: "IMAGE_LIMIT_DISK = ''1GiB''"
definition IMAGE_LIMIT_TIME_SECS :: string where [const_defs]: "IMAGE_LIMIT_TIME_SECS = ''10''"
definition IMAGE_QUALITY_MIN :: nat where [const_defs]: "IMAGE_QUALITY_MIN = 1"
definition IMAGE_QUALITY_MAX :: nat where [const_defs]: "IMAGE_QUALITY_MAX = 100"
definition IMAGE_QUALITY_DEFAULT :: nat where [const_defs]: "IMAGE_QUALITY_DEFAULT = 80"
definition IMAGE_TRANSCODE_TIMEOUT_SECS :: nat where [const_defs]:
  "IMAGE_TRANSCODE_TIMEOUT_SECS = 15"
definition IMAGE_BREAKER_THRESHOLD :: nat where [const_defs]: "IMAGE_BREAKER_THRESHOLD = 3"
definition IMAGE_BREAKER_COOLDOWN_SECS :: nat where [const_defs]:
  "IMAGE_BREAKER_COOLDOWN_SECS = 30"
definition IMAGE_CONCURRENCY_LIMIT :: nat where [const_defs]: "IMAGE_CONCURRENCY_LIMIT = 2"
definition IMAGE_OUTPUT_HINT_CAP_BYTES :: nat where [const_defs]:
  "IMAGE_OUTPUT_HINT_CAP_BYTES = 16 * 1024 * 1024"
definition MAGICK_PROGRAM :: string where [const_defs]: "MAGICK_PROGRAM = ''magick''"

section \<open>MIME tables\<close>

definition SENSITIVE_MIME_HINTS :: "string list" where [const_defs]:
  "SENSITIVE_MIME_HINTS =
     [''x-kde-passwordManagerHint'', ''password'', ''secret'', ''x-gnome-cliptrace'',
      ''keepass'', ''1password'', ''bitwarden'', ''concealed'']"

definition DEFAULT_MIME :: string where [const_defs]: "DEFAULT_MIME = ''text/plain;charset=utf-8''"
definition PREVIEW_CHARS :: nat where [const_defs]: "PREVIEW_CHARS = 100"

definition TEXT_LIKE_MIME_HINTS :: "string list" where [const_defs]:
  "TEXT_LIKE_MIME_HINTS =
     [''text'', ''json'', ''xml'', ''xhtml'', ''utf8'', ''string'', ''uri-list'']"

definition TEXT_MIME_ALTS :: "string list" where [const_defs]:
  "TEXT_MIME_ALTS =
     [''text/plain;charset=utf-8'', ''text/plain'', ''UTF8_STRING'', ''STRING'', ''TEXT'']"

definition MIME_URI_LIST :: string where [const_defs]: "MIME_URI_LIST = ''text/uri-list''"

definition MIME_PRIORITY_ORDER :: "string list" where [const_defs]:
  "MIME_PRIORITY_ORDER =
     [''image/png'', ''image/webp'', ''image/jpeg'', ''image/gif'', ''image/svg+xml'',
      ''image/avif'', ''image/bmp'', MIME_URI_LIST, ''text/plain;charset=utf-8'', ''text/plain'',
      ''UTF8_STRING'', ''STRING'', ''TEXT'', ''text/html'', ''application/xhtml+xml'',
      ''text/markdown'', ''application/json'', ''application/xml'']"

definition HTML_MIME_ALTS :: "string list" where [const_defs]:
  "HTML_MIME_ALTS =
     [''text/html'', ''application/xhtml+xml'', ''text/plain;charset=utf-8'', ''text/plain'',
      ''UTF8_STRING'', ''STRING'', ''TEXT'']"

section \<open>Display\<close>

definition PREVIEW_WIDTH :: nat where [const_defs]: "PREVIEW_WIDTH = 42"
definition ELLIPSIS :: string where [const_defs]: "ELLIPSIS = ''...''"
definition LABEL_IMAGE :: string where [const_defs]: "LABEL_IMAGE = ''[IMG]''"
definition LABEL_TEXT :: string where [const_defs]: "LABEL_TEXT = ''[TXT]''"
definition LABEL_DATA :: string where [const_defs]: "LABEL_DATA = ''[BIN]''"
definition LABEL_FILE :: string where [const_defs]: "LABEL_FILE = ''[FIL]''"
definition TIME_UNIT_SEC :: string where [const_defs]: "TIME_UNIT_SEC = ''s ago''"
definition TIME_UNIT_MIN :: string where [const_defs]: "TIME_UNIT_MIN = ''m ago''"
definition TIME_UNIT_HOUR :: string where [const_defs]: "TIME_UNIT_HOUR = ''h ago''"
definition TABLE_LINE_CHAR :: string where [const_defs]: "TABLE_LINE_CHAR = ''-''"
definition LIST_HEADER_ID :: string where [const_defs]: "LIST_HEADER_ID = ''ID''"
definition LIST_HEADER_WHEN :: string where [const_defs]: "LIST_HEADER_WHEN = ''WHEN''"
definition LIST_HEADER_SIZE :: string where [const_defs]: "LIST_HEADER_SIZE = ''SIZE''"
definition LIST_HEADER_CONTENT :: string where [const_defs]: "LIST_HEADER_CONTENT = ''CONTENT''"

section \<open>Waiting times and aliases\<close>

definition MAX_HISTORY :: nat where [const_defs]: "MAX_HISTORY = DEFAULT_MAX_HISTORY"
definition SQLITE_TIMEOUT_MS :: nat where [const_defs]: "SQLITE_TIMEOUT_MS = 5000"
definition RECONNECT_DELAY_MS :: nat where [const_defs]: "RECONNECT_DELAY_MS = 500"
definition IPC_STATUS_TIMEOUT_MS :: nat where [const_defs]: "IPC_STATUS_TIMEOUT_MS = 1000"
definition PIPE_DEFAULT_BYTES :: nat where [const_defs]: "PIPE_DEFAULT_BYTES = 64 * 1024"
definition IMAGE_THROTTLE_WAIT_MS :: nat where [const_defs]: "IMAGE_THROTTLE_WAIT_MS = 1000"

section \<open>Messages\<close>

definition MSG_DAEMON_START :: string where [const_defs]: "MSG_DAEMON_START = ''starting y4p daemon...''"
definition MSG_DAEMON_READY :: string where [const_defs]:
  "MSG_DAEMON_READY = ''daemon operational; listening for clipboard and IPC events.''"
definition MSG_DAEMON_STOP :: string where [const_defs]: "MSG_DAEMON_STOP = ''daemon process terminated.''"
definition MSG_DAEMON_START_FAILED :: string where [const_defs]:
  "MSG_DAEMON_START_FAILED = ''daemon failed to start (see error above).''"
definition MSG_WAYLAND_CONN_FAIL :: string where [const_defs]:
  "MSG_WAYLAND_CONN_FAIL = ''failed to connect to wayland compositor. is DISPLAY/WAYLAND_DISPLAY set?''"
definition MSG_MONITOR_PAUSED :: string where [const_defs]: "MSG_MONITOR_PAUSED = ''clipboard monitoring paused.''"
definition MSG_MONITOR_RESUMED :: string where [const_defs]: "MSG_MONITOR_RESUMED = ''clipboard monitoring resumed.''"
definition MSG_IMAGE_TOOL_MISSING :: string where [const_defs]:
  "MSG_IMAGE_TOOL_MISSING = ''`magick` (ImageMagick) is unavailable; images are saved unmodified, metadata included.''"

section \<open>Compile-time assertions of the source\<close>

definition ingest_assertion :: bool where
  "ingest_assertion \<longleftrightarrow> 1 \<le> INGEST_QUEUE_CAPACITY \<and> 1 \<le> INGEST_MAX_CONCURRENT_READERS \<and> 1 \<le> INGEST_QUEUE_BYTE_BUDGET"

lemma ingest_bounds_admit_one: ingest_assertion
  by (simp add: ingest_assertion_def const_defs)

lemma cdc_bounds_ordered:
  "CDC_MIN_CHUNK_BYTES < CDC_AVG_CHUNK_BYTES" "CDC_AVG_CHUNK_BYTES < CDC_MAX_CHUNK_BYTES"
  "0 < CDC_MIN_CHUNK_BYTES"
  by (simp_all add: const_defs)

end
