(* ===== verification/RustStd.thy ===== *)
theory RustStd
  imports Prelude
begin

text \<open>
  The part of Rust's standard library that the modelled code calls on strings and byte slices:
  ASCII case folding, searching, splitting, trimming, integer parsing and printing. Strings are
  UTF-8 byte lists, so the Unicode-aware \<^verbatim>\<open>str::trim\<close> works on the encodings of the White_Space
  code points, while \<^verbatim>\<open>trim_ascii\<close> only looks at single bytes.
\<close>

section \<open>ASCII case\<close>

definition byte_val :: "byte \<Rightarrow> nat" where [std_defs]:
  "byte_val c = of_char c"

definition to_ascii_lower :: "byte \<Rightarrow> byte" where [std_defs]:
  "to_ascii_lower c =
     (if 65 \<le> byte_val c \<and> byte_val c \<le> 90 then char_of (byte_val c + 32) else c)"

text \<open>For evaluation: on the bits of a byte.\<close>

lemma to_ascii_lower_bits [code]:
  "to_ascii_lower (Char b0 b1 b2 b3 b4 b5 b6 b7) =
     (if \<not> b7 \<and> b6 \<and> \<not> b5 \<and> (b0 \<or> b1 \<or> b2 \<or> b3 \<or> b4) \<and> \<not> (b4 \<and> b3 \<and> (b2 \<or> b1 \<and> b0))
      then Char b0 b1 b2 b3 b4 True b6 b7 else Char b0 b1 b2 b3 b4 b5 b6 b7)"
  by (cases b0; cases b1; cases b2; cases b3; cases b4; cases b5; cases b6; cases b7)
    (simp_all add: to_ascii_lower_def byte_val_def char_of_def bit_0)

definition to_ascii_lowercase :: "bytes \<Rightarrow> bytes" where [std_defs]:
  "to_ascii_lowercase s = map to_ascii_lower s"

definition eq_ignore_ascii_case :: "bytes \<Rightarrow> bytes \<Rightarrow> bool" where [std_defs]:
  "eq_ignore_ascii_case a b \<longleftrightarrow> to_ascii_lowercase a = to_ascii_lowercase b"

lemma byte_val_less [simp]: "byte_val c < 256"
  using nat_of_char_less_256 [of c] by (simp add: byte_val_def)

lemma byte_val_inject [simp]: "byte_val c = byte_val d \<longleftrightarrow> c = d"
  by (simp add: byte_val_def)

lemma byte_val_char_of [simp]: "n < 256 \<Longrightarrow> byte_val (char_of n) = n"
  by (simp add: byte_val_def)

lemma to_ascii_lower_idem [simp]: "to_ascii_lower (to_ascii_lower c) = to_ascii_lower c"
  by (simp add: to_ascii_lower_def)

lemma to_ascii_lowercase_idem [simp]:
  "to_ascii_lowercase (to_ascii_lowercase s) = to_ascii_lowercase s"
  by (simp add: to_ascii_lowercase_def comp_def)

lemma length_to_ascii_lowercase [simp]: "length (to_ascii_lowercase s) = length s"
  by (simp add: to_ascii_lowercase_def)

lemma to_ascii_lowercase_append:
  "to_ascii_lowercase (a @ b) = to_ascii_lowercase a @ to_ascii_lowercase b"
  by (simp add: to_ascii_lowercase_def)

lemma eq_ignore_ascii_case_refl [simp]: "eq_ignore_ascii_case a a"
  by (simp add: eq_ignore_ascii_case_def)

lemma eq_ignore_ascii_case_sym: "eq_ignore_ascii_case a b \<longleftrightarrow> eq_ignore_ascii_case b a"
  by (auto simp: eq_ignore_ascii_case_def)

lemma eq_ignore_ascii_case_trans:
  "eq_ignore_ascii_case a b \<Longrightarrow> eq_ignore_ascii_case b c \<Longrightarrow> eq_ignore_ascii_case a c"
  by (simp add: eq_ignore_ascii_case_def)

section \<open>Searching and slicing\<close>

fun contains_str :: "bytes \<Rightarrow> bytes \<Rightarrow> bool" where
  "contains_str [] p = (p = [])"
| "contains_str (c # s) p = (prefix p (c # s) \<or> contains_str s p)"

lemma contains_str_iff: "contains_str s p \<longleftrightarrow> (\<exists>a b. s = a @ p @ b)"
proof (induction s)
  case Nil
  show ?case by auto
next
  case (Cons c s)
  have "(\<exists>a b. c # s = a @ p @ b) \<longleftrightarrow> prefix p (c # s) \<or> (\<exists>a b. s = a @ p @ b)"
    by (auto simp: prefix_def Cons_eq_append_conv)
  with Cons show ?case by simp
qed

lemma contains_str_self [simp]: "contains_str p p"
  by (auto simp: contains_str_iff intro: exI [of _ "[]"])

lemma prefix_contains_str: "prefix p s \<Longrightarrow> contains_str s p"
  by (auto simp: contains_str_iff prefix_def intro: exI [of _ "[]"])

text \<open>\<^verbatim>\<open>s.windows(n)\<close>: every contiguous sub-slice of length \<open>n\<close> (\<open>n\<close> is never zero here).\<close>

fun windows :: "nat \<Rightarrow> bytes \<Rightarrow> bytes list" where
  "windows n [] = []"
| "windows n (c # s) = (if length (c # s) < n then [] else take n (c # s) # windows n s)"

lemma windows_member:
  "0 < n \<Longrightarrow> w \<in> set (windows n s) \<longleftrightarrow> length w = n \<and> (\<exists>a b. s = a @ w @ b)"
proof (induction s)
  case Nil
  then show ?case by auto
next
  case (Cons c s)
  show ?case
  proof (cases "length (c # s) < n")
    case True
    then show ?thesis by (auto dest: arg_cong [where f = length])
  next
    case False
    have "(length w = n \<and> (\<exists>a b. c # s = a @ w @ b)) \<longleftrightarrow>
        w = take n (c # s) \<or> length w = n \<and> (\<exists>a b. s = a @ w @ b)" (is "?L \<longleftrightarrow> ?R")
    proof
      assume ?L
      then obtain a b where ab: "c # s = a @ w @ b" "length w = n" by blast
      show ?R
      proof (cases a)
        case Nil
        with ab show ?thesis by simp
      next
        case (Cons d a')
        with ab show ?thesis by auto
      qed
    next
      assume ?R
      then show ?L
      proof
        assume w: "w = take n (c # s)"
        then have "length w = n" and "c # s = [] @ w @ drop n (c # s)"
          using False by simp_all
        then show ?L by blast
      next
        assume "length w = n \<and> (\<exists>a b. s = a @ w @ b)"
        then obtain a b where "length w = n" and "c # s = (c # a) @ w @ b" by auto
        then show ?L by blast
      qed
    qed
    with False Cons show ?thesis by auto
  qed
qed

text \<open>\<^verbatim>\<open>strip_prefix\<close>.\<close>

definition strip_prefix :: "bytes \<Rightarrow> bytes \<Rightarrow> bytes option" where [std_defs]:
  "strip_prefix p s = (if prefix p s then Some (drop (length p) s) else None)"

lemma strip_prefix_Some_iff: "strip_prefix p s = Some t \<longleftrightarrow> s = p @ t"
  by (auto simp: strip_prefix_def prefix_def)

text \<open>\<^verbatim>\<open>iter().position\<close>.\<close>

fun position :: "('a \<Rightarrow> bool) \<Rightarrow> 'a list \<Rightarrow> nat option" where
  "position P [] = None"
| "position P (x # xs) = (if P x then Some 0 else map_option Suc (position P xs))"

lemma position_Some: "position P xs = Some i \<Longrightarrow> i < length xs \<and> P (xs ! i)"
  by (induction xs arbitrary: i) (auto split: if_splits)

section \<open>Splitting\<close>

fun split_on :: "byte \<Rightarrow> bytes \<Rightarrow> bytes list" where
  "split_on d [] = [[]]"
| "split_on d (c # s) =
     (if c = d then [] # split_on d s
      else (case split_on d s of [] \<Rightarrow> [[c]] | p # ps \<Rightarrow> (c # p) # ps))"

lemma split_on_not_Nil [simp]: "split_on d s \<noteq> []"
  by (induction s) (auto split: list.splits)

lemma split_on_pieces: "p \<in> set (split_on d s) \<Longrightarrow> d \<notin> set p"
  by (induction s arbitrary: p) (auto split: if_splits list.splits)

fun join_with :: "bytes \<Rightarrow> bytes list \<Rightarrow> bytes" where
  "join_with sep [] = []"
| "join_with sep [p] = p"
| "join_with sep (p # q # ps) = p @ sep @ join_with sep (q # ps)"

lemma join_split_on: "join_with [d] (split_on d s) = s"
proof (induction s)
  case Nil
  show ?case by simp
next
  case (Cons c s)
  obtain p ps where ps: "split_on d s = p # ps"
    by (cases "split_on d s") simp_all
  with Cons show ?case by (cases ps) auto
qed

lemma hd_split_on: "hd (split_on d s) = takeWhile (\<lambda>c. c \<noteq> d) s"
  by (induction s) (auto split: list.splits dest: split_on_not_Nil [THEN notE])

text \<open>\<^verbatim>\<open>split_once\<close>: at the first occurrence.\<close>

fun split_once :: "byte \<Rightarrow> bytes \<Rightarrow> (bytes \<times> bytes) option" where
  "split_once d [] = None"
| "split_once d (c # s) =
     (if c = d then Some ([], s)
      else map_option (\<lambda>(a, b). (c # a, b)) (split_once d s))"

lemma split_once_Some: "split_once d s = Some (a, b) \<Longrightarrow> s = a @ d # b \<and> d \<notin> set a"
  by (induction s arbitrary: a) (auto split: if_splits)

lemma split_once_None: "split_once d s = None \<longleftrightarrow> d \<notin> set s"
  by (induction s) auto

lemma split_once_first: "d \<notin> set a \<Longrightarrow> split_once d (a @ d # b) = Some (a, b)"
  by (induction a) auto

text \<open>
  \<^verbatim>\<open>str::lines\<close>: pieces between line feeds, without a final empty piece, each without the
  carriage return that directly precedes its line feed.
\<close>

definition strip_cr :: "bytes \<Rightarrow> bytes" where [std_defs]:
  "strip_cr l = (if l \<noteq> [] \<and> last l = CHR 0x0D then butlast l else l)"

definition str_lines :: "bytes \<Rightarrow> bytes list" where [std_defs]:
  "str_lines s =
     (let ps = split_on (CHR 0x0A) s in
      map strip_cr (butlast ps) @ (if last ps = [] then [] else [last ps]))"

section \<open>Trimming\<close>

definition is_ascii_whitespace :: "byte \<Rightarrow> bool" where [std_defs]:
  "is_ascii_whitespace c \<longleftrightarrow> byte_val c \<in> {9, 10, 12, 13, 32}"

lemma is_ascii_whitespace_bits [code]:
  "is_ascii_whitespace (Char b0 b1 b2 b3 b4 b5 b6 b7) \<longleftrightarrow>
     \<not> b7 \<and> \<not> b6 \<and> \<not> b4 \<and> (b5 \<and> \<not> b3 \<and> \<not> b2 \<and> \<not> b1 \<and> \<not> b0 \<or> \<not> b5 \<and> b3 \<and> (if b2 then \<not> b1 else b0 \<noteq> b1))"
  by (cases b0; cases b1; cases b2; cases b3; cases b4; cases b5; cases b6; cases b7) (simp_all add: is_ascii_whitespace_def byte_val_def)

definition trim_ascii_start :: "bytes \<Rightarrow> bytes" where [std_defs]:
  "trim_ascii_start s = dropWhile is_ascii_whitespace s"

definition trim_ascii :: "bytes \<Rightarrow> bytes" where [std_defs]:
  "trim_ascii s = rev (dropWhile is_ascii_whitespace (rev (trim_ascii_start s)))"

text \<open>
  The UTF-8 encodings of the White_Space code points: \<^verbatim>\<open>U+0009-000D\<close>, \<^verbatim>\<open>U+0020\<close>, \<^verbatim>\<open>U+0085\<close>,
  \<^verbatim>\<open>U+00A0\<close>, \<^verbatim>\<open>U+1680\<close>, \<^verbatim>\<open>U+2000-200A\<close>, \<^verbatim>\<open>U+2028\<close>, \<^verbatim>\<open>U+2029\<close>, \<^verbatim>\<open>U+202F\<close>, \<^verbatim>\<open>U+205F\<close>, \<^verbatim>\<open>U+3000\<close>.
\<close>

definition ws1 :: "byte \<Rightarrow> bool" where [std_defs]:
  "ws1 a \<longleftrightarrow> 9 \<le> byte_val a \<and> byte_val a \<le> 13 \<or> byte_val a = 32"

lemma ws1_bits [code]:
  "ws1 (Char b0 b1 b2 b3 b4 b5 b6 b7) \<longleftrightarrow>
     \<not> b7 \<and> \<not> b6 \<and> \<not> b4 \<and> (b5 \<and> \<not> b3 \<and> \<not> b2 \<and> \<not> b1 \<and> \<not> b0 \<or> \<not> b5 \<and> b3 \<and> (if b2 then \<not> b1 else b0 \<or> b1))"
  by (cases b0; cases b1; cases b2; cases b3; cases b4; cases b5; cases b6; cases b7) (simp_all add: ws1_def byte_val_def)

definition ws2 :: "byte \<Rightarrow> byte \<Rightarrow> bool" where [std_defs]:
  "ws2 a b \<longleftrightarrow> byte_val a = 0xC2 \<and> (byte_val b = 0x85 \<or> byte_val b = 0xA0)"

definition ws3 :: "byte \<Rightarrow> byte \<Rightarrow> byte \<Rightarrow> bool" where [std_defs]:
  "ws3 a b c \<longleftrightarrow>
     byte_val a = 0xE1 \<and> byte_val b = 0x9A \<and> byte_val c = 0x80 \<or>
     byte_val a = 0xE2 \<and> byte_val b = 0x80 \<and>
       (0x80 \<le> byte_val c \<and> byte_val c \<le> 0x8A \<or> byte_val c \<in> {0xA8, 0xA9, 0xAF}) \<or>
     byte_val a = 0xE2 \<and> byte_val b = 0x81 \<and> byte_val c = 0x9F \<or>
     byte_val a = 0xE3 \<and> byte_val b = 0x80 \<and> byte_val c = 0x80"

lemma byte_val_iff: "n < 256 \<Longrightarrow> byte_val c = n \<longleftrightarrow> c = char_of n"
  by (auto simp: byte_val_def)

lemma ws2_chars [code]: "ws2 a b \<longleftrightarrow> (if a = CHR 0xC2 then b = CHR 0x85 \<or> b = CHR 0xA0 else False)"
  by (simp add: ws2_def byte_val_iff char_of_def bit_0)

lemma ws3_chars [code]:
  "ws3 a b c \<longleftrightarrow>
     (if a = CHR 0xE1 then b = CHR 0x9A \<and> c = CHR 0x80
      else if a = CHR 0xE2
        then (if b = CHR 0x80 then 0x80 \<le> byte_val c \<and> byte_val c \<le> 0x8A \<or> byte_val c \<in> {0xA8, 0xA9, 0xAF} else b = CHR 0x81 \<and> c = CHR 0x9F)
      else if a = CHR 0xE3 then b = CHR 0x80 \<and> c = CHR 0x80 else False)"
  by (auto simp: ws3_def byte_val_iff char_of_def bit_0)

fun trim_start :: "bytes \<Rightarrow> bytes" where
  "trim_start (a # b # c # s) =
     (if ws1 a then trim_start (b # c # s)
      else if ws2 a b then trim_start (c # s)
      else if ws3 a b c then trim_start s
      else a # b # c # s)"
| "trim_start [a, b] =
     (if ws1 a then trim_start [b] else if ws2 a b then [] else [a, b])"
| "trim_start [a] = (if ws1 a then [] else [a])"
| "trim_start [] = []"

fun trim_end_rev :: "bytes \<Rightarrow> bytes" where
  "trim_end_rev (a # b # c # s) =
     (if ws1 a then trim_end_rev (b # c # s)
      else if ws2 b a then trim_end_rev (c # s)
      else if ws3 c b a then trim_end_rev s
      else a # b # c # s)"
| "trim_end_rev [a, b] =
     (if ws1 a then trim_end_rev [b] else if ws2 b a then [] else [a, b])"
| "trim_end_rev [a] = (if ws1 a then [] else [a])"
| "trim_end_rev [] = []"

definition trim :: "bytes \<Rightarrow> bytes" where [std_defs]:
  "trim s = rev (trim_end_rev (rev (trim_start s)))"

lemma trim_start_suffix: "suffix (trim_start s) s"
proof (induction s rule: trim_start.induct)
  case (1 a b c s)
  then show ?case by (auto intro: suffix_ConsI)
qed (auto simp: suffix_ConsI)

lemma trim_end_rev_suffix: "suffix (trim_end_rev s) s"
proof (induction s rule: trim_end_rev.induct)
  case (1 a b c s)
  then show ?case by (auto intro: suffix_ConsI)
qed (auto simp: suffix_ConsI)

lemma trim_infix: "\<exists>a b. s = a @ trim s @ b"
proof -
  obtain a where a: "s = a @ trim_start s"
    using trim_start_suffix [of s] by (auto simp: suffix_def)
  obtain b where b: "rev (trim_start s) = b @ trim_end_rev (rev (trim_start s))"
    using trim_end_rev_suffix [of "rev (trim_start s)"] by (auto simp: suffix_def)
  have "trim_start s = trim s @ rev b"
    using arg_cong [OF b, of rev] by (simp add: trim_def)
  with a show ?thesis by metis
qed

lemma trim_subset: "set (trim s) \<subseteq> set s"
proof -
  obtain a b where s: "s = a @ trim s @ b" using trim_infix by blast
  have "set s = set a \<union> set (trim s) \<union> set b" by (subst s) auto
  then show ?thesis by blast
qed

lemma trim_start_id: "s \<noteq> [] \<Longrightarrow> byte_val (hd s) < 128 \<Longrightarrow> \<not> ws1 (hd s) \<Longrightarrow> trim_start s = s"
  by (cases s rule: trim_start.cases) (auto simp: ws2_def ws3_def)

lemma trim_end_rev_id:
  "s \<noteq> [] \<Longrightarrow> byte_val (hd s) < 128 \<Longrightarrow> \<not> ws1 (hd s) \<Longrightarrow> trim_end_rev s = s"
  by (cases s rule: trim_end_rev.cases) (auto simp: ws2_def ws3_def)

lemma trim_id:
  assumes "s \<noteq> []" and "byte_val (hd s) < 128" and "\<not> ws1 (hd s)"
    and "byte_val (last s) < 128" and "\<not> ws1 (last s)"
  shows "trim s = s"
  using assms by (simp add: trim_def trim_start_id trim_end_rev_id hd_rev)

lemma trim_Nil [simp]: "trim [] = []"
  by (simp add: trim_def)

section \<open>Powers of two\<close>

text \<open>\<^verbatim>\<open>is_power_of_two\<close> of the unsigned types.\<close>

fun is_power_of_two :: "nat \<Rightarrow> bool" where
  "is_power_of_two n = (if n = 0 then False else if n = 1 then True else even n \<and> is_power_of_two (n div 2))"

declare is_power_of_two.simps [simp del]

lemma is_power_of_two_iff: "is_power_of_two n \<longleftrightarrow> (\<exists>k. n = 2 ^ k)"
proof (induction n rule: is_power_of_two.induct)
  case (1 n)
  have pow: "(\<exists>k. n = 2 ^ k) \<longleftrightarrow> n = 1 \<or> even n \<and> n \<noteq> 0 \<and> (\<exists>k. n div 2 = 2 ^ k)"
  proof
    assume "\<exists>k. n = 2 ^ k"
    then obtain k where k: "n = 2 ^ k" by blast
    then show "n = 1 \<or> even n \<and> n \<noteq> 0 \<and> (\<exists>k. n div 2 = 2 ^ k)" by (cases k) auto
  next
    assume "n = 1 \<or> even n \<and> n \<noteq> 0 \<and> (\<exists>k. n div 2 = 2 ^ k)"
    then show "\<exists>k. n = 2 ^ k" by (metis dvd_mult_div_cancel power_0 power_Suc)
  qed
  show ?case using 1 pow by (subst is_power_of_two.simps) auto
qed

end
