(* ===== verification/RustNum.thy ===== *)
theory RustNum
  imports RustStd
begin

text \<open>
  \<^verbatim>\<open>str::parse\<close> and \<^verbatim>\<open>to_string\<close> on the integer types the program uses. Parsing accepts one optional
  leading \<^verbatim>\<open>+\<close> (and \<^verbatim>\<open>-\<close> for a signed type), needs at least one digit, and fails on any other
  byte and on a value outside the type. Printing is plain decimal.
\<close>

definition digit_val :: "byte \<Rightarrow> nat option" where [std_defs]:
  "digit_val c =
     (if 48 \<le> byte_val c \<and> byte_val c \<le> 57 then Some (byte_val c - 48) else None)"

fun digits_val :: "nat \<Rightarrow> bytes \<Rightarrow> nat option" where
  "digits_val acc [] = Some acc"
| "digits_val acc (c # s) =
     (case digit_val c of None \<Rightarrow> None | Some d \<Rightarrow> digits_val (10 * acc + d) s)"

definition parse_digits :: "bytes \<Rightarrow> nat option" where [std_defs]:
  "parse_digits s = (if s = [] then None else digits_val 0 s)"

definition parse_unsigned :: "nat \<Rightarrow> bytes \<Rightarrow> nat option" where [std_defs]:
  "parse_unsigned hi s =
     (case parse_digits (if s \<noteq> [] \<and> hd s = CHR ''+'' then tl s else s) of
        None \<Rightarrow> None
      | Some n \<Rightarrow> if n \<le> hi then Some n else None)"

definition parse_usize :: "bytes \<Rightarrow> nat option" where [std_defs]:
  "parse_usize s = parse_unsigned u64_max s"

lemma parse_usize_code [code]:
  "parse_usize s =
     (case parse_digits (if s \<noteq> [] \<and> hd s = CHR ''+'' then tl s else s) of
        None \<Rightarrow> None
      | Some n \<Rightarrow> if n \<le> u64_max then Some n else None)"
  by (simp only: parse_usize_def parse_unsigned_def)

definition parse_signed :: "int \<Rightarrow> int \<Rightarrow> bytes \<Rightarrow> int option" where [std_defs]:
  "parse_signed lo hi s =
     (if s \<noteq> [] \<and> hd s = CHR ''-''
      then (case parse_digits (tl s) of
              None \<Rightarrow> None
            | Some n \<Rightarrow> if lo \<le> - int n then Some (- int n) else None)
      else (case parse_digits (if s \<noteq> [] \<and> hd s = CHR ''+'' then tl s else s) of
              None \<Rightarrow> None
            | Some n \<Rightarrow> if int n \<le> hi then Some (int n) else None))"

definition parse_i64 :: "bytes \<Rightarrow> int option" where [std_defs]:
  "parse_i64 s = parse_signed i64_min i64_max s"

definition parse_i32 :: "bytes \<Rightarrow> int option" where [std_defs]:
  "parse_i32 s = parse_signed (- (2 ^ 31)) (2 ^ 31 - 1) s"

fun show_nat :: "nat \<Rightarrow> bytes" where
  "show_nat n =
     (if n < 10 then [char_of (48 + n)] else show_nat (n div 10) @ [char_of (48 + n mod 10)])"

definition show_int :: "int \<Rightarrow> bytes" where [std_defs]:
  "show_int i = (if i < 0 then CHR ''-'' # show_nat (nat (- i)) else show_nat (nat i))"

declare show_nat.simps [simp del]

lemma digit_val_char_of [simp]: "d < 10 \<Longrightarrow> digit_val (char_of (48 + d)) = Some d"
  by (simp add: digit_val_def)

lemma digit_val_less: "digit_val c = Some d \<Longrightarrow> d < 10"
  by (auto simp: digit_val_def split: if_splits)

lemma digits_val_append:
  "digits_val acc (s @ t) = (case digits_val acc s of None \<Rightarrow> None | Some n \<Rightarrow> digits_val n t)"
  by (induction s arbitrary: acc) (auto split: option.splits)

lemma show_nat_not_Nil [simp]: "show_nat n \<noteq> []"
  by (subst show_nat.simps) simp

lemma digits_val_show_nat: "digits_val 0 (show_nat n) = Some n"
proof (induction n rule: show_nat.induct)
  case (1 n)
  show ?case
  proof (cases "n < 10")
    case True
    then show ?thesis by (subst show_nat.simps) simp
  next
    case False
    then have "digits_val 0 (show_nat (n div 10)) = Some (n div 10)" using 1 by simp
    moreover have "n mod 10 < 10" by simp
    ultimately show ?thesis
      using False by (subst show_nat.simps) (simp add: digits_val_append)
  qed
qed

lemma parse_digits_show_nat [simp]: "parse_digits (show_nat n) = Some n"
  by (simp add: parse_digits_def digits_val_show_nat)

definition is_digit :: "byte \<Rightarrow> bool" where [std_defs]:
  "is_digit c \<longleftrightarrow> 48 \<le> byte_val c \<and> byte_val c \<le> 57"

lemma is_digit_bits [code]:
  "is_digit (Char b0 b1 b2 b3 b4 b5 b6 b7) \<longleftrightarrow> \<not> b7 \<and> \<not> b6 \<and> b5 \<and> b4 \<and> (b3 \<longrightarrow> \<not> b2 \<and> \<not> b1)"
  by (cases b0; cases b1; cases b2; cases b3; cases b4; cases b5; cases b6; cases b7) (simp_all add: is_digit_def byte_val_def)

lemma is_digit_char_of [simp]: "(d :: nat) < 10 \<Longrightarrow> is_digit (char_of (48 + d))"
  by (simp add: is_digit_def)

lemma show_nat_digits: "c \<in> set (show_nat n) \<Longrightarrow> is_digit c"
proof (induction n rule: show_nat.induct)
  case (1 n)
  show ?case
  proof (cases "n < 10")
    case True
    then show ?thesis using 1(2) by (subst (asm) show_nat.simps) auto
  next
    case False
    with 1(2) have "c \<in> set (show_nat (n div 10)) \<or> c = char_of (48 + n mod 10)"
      by (subst (asm) show_nat.simps) auto
    then show ?thesis
    proof
      assume "c \<in> set (show_nat (n div 10))"
      with 1(1) False show ?thesis by simp
    next
      assume "c = char_of (48 + n mod 10)"
      moreover have "n mod 10 < 10" by simp
      ultimately show ?thesis by (metis is_digit_char_of)
    qed
  qed
qed

lemma is_digit_facts:
  assumes "is_digit c"
  shows "c \<noteq> CHR ''-''" "c \<noteq> CHR ''+''" "\<not> ws1 c" "byte_val c < 128" "c \<noteq> CHR 0x0A"
  using assms by (auto simp: is_digit_def byte_val_def ws1_def)

lemma hd_show_nat_digit: "is_digit (hd (show_nat n))"
  by (rule show_nat_digits [of _ n]) simp

lemma last_show_nat_digit: "is_digit (last (show_nat n))"
  by (rule show_nat_digits [of _ n]) simp

lemma parse_signed_show_int:
  assumes "lo \<le> i" and "i \<le> hi"
  shows "parse_signed lo hi (show_int i) = Some i"
proof (cases "i < 0")
  case True
  with assms show ?thesis by (simp add: show_int_def parse_signed_def)
next
  case False
  have "hd (show_nat (nat i)) \<noteq> CHR ''-''" "hd (show_nat (nat i)) \<noteq> CHR ''+''"
    using is_digit_facts [OF hd_show_nat_digit] by auto
  with False assms show ?thesis by (simp add: show_int_def parse_signed_def)
qed

lemma parse_i64_show_int: "i64_min \<le> i \<Longrightarrow> i \<le> i64_max \<Longrightarrow> parse_i64 (show_int i) = Some i"
  by (simp add: parse_i64_def parse_signed_show_int)

lemma parse_usize_show_nat: "n \<le> u64_max \<Longrightarrow> parse_usize (show_nat n) = Some n"
  using is_digit_facts(2) [OF hd_show_nat_digit, of n]
  by (simp add: parse_usize_def parse_unsigned_def)

lemma parse_usize_le: "parse_usize s = Some n \<Longrightarrow> n \<le> u64_max"
  by (auto simp: parse_usize_def parse_unsigned_def split: option.splits if_splits)

lemma parse_i64_range: "parse_i64 s = Some i \<Longrightarrow> i64_min \<le> i \<and> i \<le> i64_max"
  by (auto simp: parse_i64_def parse_signed_def i64_min_def i64_max_def
      split: option.splits if_splits)

lemma show_int_bytes: "c \<in> set (show_int i) \<Longrightarrow> c = CHR ''-'' \<or> is_digit c"
  by (auto simp: show_int_def dest: show_nat_digits split: if_splits)

lemma show_int_not_Nil [simp]: "show_int i \<noteq> []"
  by (simp add: show_int_def)

lemma trim_show_int [simp]: "trim (show_int i) = show_int i"
proof (rule trim_id)
  have minus: "byte_val (CHR ''-'') < 128" "\<not> ws1 (CHR ''-'')"
    by (simp_all add: byte_val_def ws1_def)
  have h: "hd (show_int i) = CHR ''-'' \<or> is_digit (hd (show_int i))"
    by (rule show_int_bytes [of _ i]) simp
  have l: "last (show_int i) = CHR ''-'' \<or> is_digit (last (show_int i))"
    by (rule show_int_bytes [of _ i]) simp
  show "byte_val (hd (show_int i)) < 128" "\<not> ws1 (hd (show_int i))"
    using h minus is_digit_facts by auto
  show "byte_val (last (show_int i)) < 128" "\<not> ws1 (last (show_int i))"
    using l minus is_digit_facts by auto
qed simp

end
