(* ===== verification/Utf8.thy ===== *)
theory Utf8
  imports RustStd
begin

text \<open>
  \<^verbatim>\<open>std::str::from_utf8\<close>, \<^verbatim>\<open>String::from_utf8_lossy\<close> and \<^verbatim>\<open>str::chars\<close> over byte lists: a decoder that
  splits any byte list into well-formed characters and maximal ill-formed pieces, as the standard
  library's chunk iterator does. A piece that is not well formed becomes U+FFFD.
\<close>

datatype utf8_step = Good nat | Bad nat

definition utf8_width :: "byte \<Rightarrow> nat" where [std_defs]:
  "utf8_width a =
     (let x = byte_val a in
      if x < 0x80 then 1
      else if 0xC2 \<le> x \<and> x \<le> 0xDF then 2
      else if 0xE0 \<le> x \<and> x \<le> 0xEF then 3
      else if 0xF0 \<le> x \<and> x \<le> 0xF4 then 4
      else 0)"

definition is_cont :: "byte \<Rightarrow> bool" where [std_defs]:
  "is_cont b \<longleftrightarrow> 0x80 \<le> byte_val b \<and> byte_val b \<le> 0xBF"

lemma is_cont_bits [code]: "is_cont (Char b0 b1 b2 b3 b4 b5 b6 b7) \<longleftrightarrow> b7 \<and> \<not> b6"
  by (cases b0; cases b1; cases b2; cases b3; cases b4; cases b5; cases b6; cases b7) (simp_all add: is_cont_def byte_val_def)

definition second_ok :: "byte \<Rightarrow> byte \<Rightarrow> bool" where [std_defs]:
  "second_ok a b =
     (let x = byte_val a; y = byte_val b in
      if x = 0xE0 then 0xA0 \<le> y \<and> y \<le> 0xBF
      else if x = 0xED then 0x80 \<le> y \<and> y \<le> 0x9F
      else if x = 0xF0 then 0x90 \<le> y \<and> y \<le> 0xBF
      else if x = 0xF4 then 0x80 \<le> y \<and> y \<le> 0x8F
      else is_cont b)"

fun utf8_next :: "bytes \<Rightarrow> utf8_step" where
  "utf8_next [] = Bad 0"
| "utf8_next (a # s) =
     (if utf8_width a = 0 then Bad 1
      else if utf8_width a = 1 then Good 1
      else (case s of [] \<Rightarrow> Bad 1 | b # s' \<Rightarrow>
        if \<not> second_ok a b then Bad 1
        else if utf8_width a = 2 then Good 2
        else (case s' of [] \<Rightarrow> Bad 2 | c # s'' \<Rightarrow>
          if \<not> is_cont c then Bad 2
          else if utf8_width a = 3 then Good 3
          else (case s'' of [] \<Rightarrow> Bad 3 | d # _ \<Rightarrow> if is_cont d then Good 4 else Bad 3))))"

definition step_ok :: "utf8_step \<Rightarrow> bool" where [std_defs]:
  "step_ok r = (case r of Good _ \<Rightarrow> True | Bad _ \<Rightarrow> False)"

definition step_len :: "utf8_step \<Rightarrow> nat" where [std_defs]:
  "step_len r = (case r of Good n \<Rightarrow> n | Bad n \<Rightarrow> n)"

lemma step_len_pos: "s \<noteq> [] \<Longrightarrow> 0 < step_len (utf8_next s)"
  by (cases s) (auto simp: step_len_def split: list.splits)

lemma step_len_le: "step_len (utf8_next s) \<le> length s"
  by (cases s) (auto simp: step_len_def split: list.splits)

function utf8_chunks :: "bytes \<Rightarrow> (bool \<times> bytes) list" where
  "utf8_chunks [] = []"
| "utf8_chunks (a # s) =
     (let r = utf8_next (a # s) in
      (step_ok r, take (step_len r) (a # s)) # utf8_chunks (drop (step_len r) (a # s)))"
  by pat_completeness auto
termination
  by (relation "measure length") (simp_all add: step_len_pos del: utf8_next.simps)

declare utf8_chunks.simps(2) [simp del]

definition replacement_char :: bytes where [std_defs]:
  "replacement_char = [CHR 0xEF, CHR 0xBF, CHR 0xBD]"

definition from_utf8_lossy :: "bytes \<Rightarrow> bytes" where [std_defs]:
  "from_utf8_lossy s = concat (map (\<lambda>(ok, p). if ok then p else replacement_char) (utf8_chunks s))"

definition valid_utf8 :: "bytes \<Rightarrow> bool" where [std_defs]:
  "valid_utf8 s \<longleftrightarrow> list_all fst (utf8_chunks s)"

definition str_chars :: "bytes \<Rightarrow> bytes list" where [std_defs]:
  "str_chars s = map snd (utf8_chunks s)"

lemma concat_utf8_chunks: "concat (map snd (utf8_chunks s)) = s"
proof (induction s rule: utf8_chunks.induct)
  case (2 a s)
  then show ?case by (simp add: utf8_chunks.simps(2) Let_def)
qed simp

lemma concat_str_chars [simp]: "concat (str_chars s) = s"
  by (simp add: str_chars_def concat_utf8_chunks)

lemma utf8_next_Good_take:
  "utf8_next s = Good n \<Longrightarrow> utf8_next (take n s @ t) = Good n"
proof (cases s)
  case (Cons a u)
  assume good: "utf8_next s = Good n"
  show ?thesis
  proof (cases "utf8_width a = 1")
    case True
    with Cons good have "n = 1" by simp
    with True Cons show ?thesis by simp
  next
    case False
    with Cons good have "n \<in> {2, 3, 4}" by (auto split: if_splits list.splits)
    with Cons good False show ?thesis by (auto split: if_splits list.splits)
  qed
qed simp

lemma utf8_next_Good_len: "utf8_next s = Good n \<Longrightarrow> 0 < n \<and> n \<le> length s"
  using step_len_pos [of s] step_len_le [of s] by (cases s) (auto simp: step_len_def)

lemma utf8_chunks_Good:
  assumes "utf8_next s = Good n"
  shows "utf8_chunks (take n s @ t) = (True, take n s) # utf8_chunks t"
proof -
  obtain a u where au: "take n s @ t = a # u"
    using utf8_next_Good_len [OF assms] by (cases "take n s @ t") auto
  have good: "utf8_next (a # u) = Good n"
    using utf8_next_Good_take [OF assms, of t] au by simp
  have len: "length (take n s) = n" using utf8_next_Good_len [OF assms] by simp
  have "take n (a # u) = take n s" "drop n (a # u) = t"
    using au [symmetric] len by simp_all
  with good show ?thesis
    by (simp add: au utf8_chunks.simps(2) Let_def step_ok_def step_len_def del: utf8_next.simps)
qed

text \<open>A piece the decoder marks as good is one character wherever it stands.\<close>

lemma good_piece:
  "(True, p) \<in> set (utf8_chunks s) \<Longrightarrow> utf8_chunks (p @ t) = (True, p) # utf8_chunks t"
proof (induction s rule: utf8_chunks.induct)
  case (2 a s)
  let ?r = "utf8_next (a # s)"
  from 2(2) consider
      (here) "step_ok ?r" "p = take (step_len ?r) (a # s)"
    | (later) "(True, p) \<in> set (utf8_chunks (drop (step_len ?r) (a # s)))"
    by (auto simp: utf8_chunks.simps(2) Let_def simp del: utf8_next.simps)
  then show ?case
  proof cases
    case here
    then obtain n where "?r = Good n" by (auto simp: step_ok_def split: utf8_step.splits)
    with here show ?thesis
      using utf8_chunks_Good [of "a # s" n t] by (simp add: step_len_def del: utf8_next.simps)
  next
    case later
    then show ?thesis by (rule 2(1) [OF refl])
  qed
qed simp

lemma utf8_chunks_good_pieces:
  assumes "\<forall>p \<in> set ps. \<exists>s. (True, p) \<in> set (utf8_chunks s)"
  shows "utf8_chunks (concat ps) = map (Pair True) ps"
  using assms
proof (induction ps)
  case (Cons p ps)
  then show ?case using good_piece [of p _ "concat ps"] by auto
qed simp

lemma replacement_char_good: "(True, replacement_char) \<in> set (utf8_chunks replacement_char)"
  by code_simp

lemma utf8_chunks_lossy:
  "utf8_chunks (from_utf8_lossy s) =
     map (\<lambda>(ok, p). (True, if ok then p else replacement_char)) (utf8_chunks s)"
proof -
  let ?f = "\<lambda>(ok, p). if ok then p else replacement_char"
  have "utf8_chunks (concat (map ?f (utf8_chunks s))) = map (Pair True) (map ?f (utf8_chunks s))"
  proof (rule utf8_chunks_good_pieces, rule ballI)
    fix p assume "p \<in> set (map ?f (utf8_chunks s))"
    then have "(True, p) \<in> set (utf8_chunks s) \<or> p = replacement_char" by auto
    then show "\<exists>u. (True, p) \<in> set (utf8_chunks u)"
      using replacement_char_good by blast
  qed
  then show ?thesis by (simp add: from_utf8_lossy_def comp_def case_prod_unfold)
qed

lemma valid_from_utf8_lossy [simp]: "valid_utf8 (from_utf8_lossy s)"
  by (auto simp: valid_utf8_def utf8_chunks_lossy list_all_iff)

lemma from_utf8_lossy_id:
  assumes "valid_utf8 s"
  shows "from_utf8_lossy s = s"
proof -
  have "map (\<lambda>(ok, p). if ok then p else replacement_char) (utf8_chunks s) =
      map snd (utf8_chunks s)"
    using assms by (auto simp: valid_utf8_def list_all_iff)
  then show ?thesis unfolding from_utf8_lossy_def by (metis concat_utf8_chunks)
qed

lemma valid_take_chars:
  assumes "valid_utf8 s"
  shows "valid_utf8 (concat (take n (str_chars s)))"
    and "str_chars (concat (take n (str_chars s))) = take n (str_chars s)"
proof -
  have good: "\<forall>p \<in> set (take n (str_chars s)). \<exists>u. (True, p) \<in> set (utf8_chunks u)"
  proof
    fix p assume "p \<in> set (take n (str_chars s))"
    then obtain ok where "(ok, p) \<in> set (utf8_chunks s)"
      by (auto simp: str_chars_def dest!: in_set_takeD)
    with assms have "(True, p) \<in> set (utf8_chunks s)"
      by (auto simp: valid_utf8_def list_all_iff)
    then show "\<exists>u. (True, p) \<in> set (utf8_chunks u)" by blast
  qed
  from utf8_chunks_good_pieces [OF this]
  have *: "utf8_chunks (concat (take n (str_chars s))) = map (Pair True) (take n (str_chars s))" .
  show "valid_utf8 (concat (take n (str_chars s)))"
    unfolding valid_utf8_def * by (simp add: list_all_iff)
  show "str_chars (concat (take n (str_chars s))) = take n (str_chars s)"
    unfolding str_chars_def [of "concat _"] * by (simp add: comp_def)
qed

end
