(* ===== verification/Fs.thy ===== *)
theory Fs
  imports RustStd
begin

text \<open>
  The file system the components share: regular files with their bytes, directories with the mode
  they were created with. Operations of \<^verbatim>\<open>std::fs\<close> that the kernel may refuse take its answer as an
  argument, so that a statement about them holds for every answer. \<open>path_push\<close> is
  \<^verbatim>\<open>PathBuf::push\<close>.
\<close>

record fsys =
  fs_files :: "path \<Rightarrow> bytes option"
  fs_dirs :: "path \<Rightarrow> nat option"

definition empty_fs :: fsys where
  "empty_fs = \<lparr> fs_files = (\<lambda>_. None), fs_dirs = (\<lambda>_. None) \<rparr>"

definition path_exists :: "fsys \<Rightarrow> path \<Rightarrow> bool" where [std_defs]:
  "path_exists fs p \<longleftrightarrow> fs_files fs p \<noteq> None \<or> fs_dirs fs p \<noteq> None"

definition path_push :: "path \<Rightarrow> path \<Rightarrow> path" where [std_defs]:
  "path_push base p =
     (if p \<noteq> [] \<and> hd p = CHR ''/'' then p
      else if base = [] \<or> last base = CHR ''/'' then base @ p
      else base @ CHR ''/'' # p)"

definition write_file :: "path \<Rightarrow> bytes \<Rightarrow> fsys \<Rightarrow> fsys" where [std_defs]:
  "write_file p d fs = fs\<lparr> fs_files := (fs_files fs)(p := Some d) \<rparr>"

definition remove_file :: "path \<Rightarrow> fsys \<Rightarrow> fsys" where [std_defs]:
  "remove_file p fs = fs\<lparr> fs_files := (fs_files fs)(p := None) \<rparr>"

text \<open>The directories \<^verbatim>\<open>DirBuilder::recursive\<close> has to make for \<open>p\<close>, outermost first.\<close>

fun ancestors_from :: "path \<Rightarrow> path \<Rightarrow> path list" where
  "ancestors_from acc [] = (if acc = [] then [] else [acc])"
| "ancestors_from acc (c # s) =
     (if c = CHR ''/'' \<and> acc \<noteq> [] then acc # ancestors_from (acc @ [c]) s
      else ancestors_from (acc @ [c]) s)"

definition missing_dirs :: "fsys \<Rightarrow> path \<Rightarrow> path list" where [std_defs]:
  "missing_dirs fs p = filter (\<lambda>d. \<not> path_exists fs d) (ancestors_from [] p)"

definition make_dirs :: "nat \<Rightarrow> path list \<Rightarrow> fsys \<Rightarrow> fsys" where [std_defs]:
  "make_dirs mode ds fs =
     fs\<lparr> fs_dirs := (\<lambda>d. if d \<in> set ds then Some mode else fs_dirs fs d) \<rparr>"

text \<open>
  \<^verbatim>\<open>DirBuilder::new().recursive(true).mode(mode).create(p)\<close>: the kernel lets \<open>granted\<close> of the missing
  directories be made, and the call fails when that is not all of them.
\<close>

definition create_dir_all :: "nat \<Rightarrow> nat \<Rightarrow> path \<Rightarrow> fsys \<Rightarrow> bool \<times> fsys" where [std_defs]:
  "create_dir_all mode granted p fs =
     (let ds = missing_dirs fs p
      in (length ds \<le> granted, make_dirs mode (take granted ds) fs))"

lemma fs_files_write [simp]: "fs_files (write_file p d fs) = (fs_files fs)(p := Some d)"
  by (simp add: write_file_def)

lemma fs_files_remove [simp]: "fs_files (remove_file p fs) = (fs_files fs)(p := None)"
  by (simp add: remove_file_def)

lemma fs_dirs_write [frame_simps]: "fs_dirs (write_file p d fs) = fs_dirs fs"
  by (simp add: write_file_def)

lemma fs_dirs_remove [frame_simps]: "fs_dirs (remove_file p fs) = fs_dirs fs"
  by (simp add: remove_file_def)

lemma fs_files_create [frame_simps]: "fs_files (snd (create_dir_all m g p fs)) = fs_files fs"
  by (simp add: create_dir_all_def make_dirs_def Let_def)

lemma create_dir_all_mode:
  assumes "fs_dirs (snd (create_dir_all m g p fs)) d = Some k" and "fs_dirs fs d = None"
  shows "k = m"
  using assms by (auto simp: create_dir_all_def make_dirs_def Let_def split: if_splits)

lemma create_dir_all_keeps: "fs_dirs fs d = Some k \<Longrightarrow> fs_dirs (snd (create_dir_all m g p fs)) d = Some k"
  by (auto simp: create_dir_all_def make_dirs_def missing_dirs_def path_exists_def Let_def
      dest: in_set_takeD)

end
