(* ===== verification/Config.thy ===== *)
theory Config
  imports Constants RustNum Utf8 Fs
begin

text \<open>
  \<^verbatim>\<open>crates/core/src/config.rs\<close> and the path and retention helpers of \<^verbatim>\<open>crates/core/src/lib.rs\<close>. The
  environment is a partial map from variable names to their (valid UTF-8) values, as
  \<^verbatim>\<open>std::env::var(..).ok()\<close> gives them; the file system is that of \<^verbatim>\<open>Fs\<close>.
\<close>

type_synonym env = "string \<Rightarrow> string option"

section \<open>Configuration values\<close>

record general_config =
  cfg_max_history :: nat

record mime_config =
  cfg_drop_rtf :: bool

record config =
  cfg_general :: general_config
  cfg_mime :: mime_config

definition default_config :: config where
  "default_config =
     \<lparr> cfg_general = \<lparr> cfg_max_history = DEFAULT_MAX_HISTORY \<rparr>, cfg_mime = \<lparr> cfg_drop_rtf = True \<rparr> \<rparr>"

definition should_drop_rtf :: "config \<Rightarrow> bool" where
  "should_drop_rtf c = cfg_drop_rtf (cfg_mime c)"

section \<open>The parser\<close>

fun strip_comment_from :: "bool \<Rightarrow> string \<Rightarrow> string" where
  "strip_comment_from in_string [] = []"
| "strip_comment_from in_string (b # rest) =
     (if b = CHR 0x22 then b # strip_comment_from (\<not> in_string) rest
      else if b = CHR ''#'' \<and> \<not> in_string then []
      else b # strip_comment_from in_string rest)"

definition strip_comment :: "string \<Rightarrow> string" where
  "strip_comment line = strip_comment_from False line"

definition parse_bool :: "string \<Rightarrow> bool option" where
  "parse_bool v = (if v = ''true'' then Some True else if v = ''false'' then Some False else None)"

definition config_parse_usize :: "string \<Rightarrow> nat option" where
  "config_parse_usize v =
     (case parse_usize v of None \<Rightarrow> None | Some n \<Rightarrow> if 0 < n then Some n else None)"

definition apply_kv :: "config \<Rightarrow> string \<Rightarrow> string \<Rightarrow> string \<Rightarrow> config" where
  "apply_kv c sec key v =
     (if sec = ''general'' \<and> key = ''max_history'' then
        (case config_parse_usize v of
           Some n \<Rightarrow> c\<lparr> cfg_general := (cfg_general c)\<lparr> cfg_max_history := n \<rparr> \<rparr>
         | None \<Rightarrow> c)
      else if sec = ''mime'' \<and> key = ''drop_rtf'' then
        (case parse_bool v of
           Some b \<Rightarrow> c\<lparr> cfg_mime := (cfg_mime c)\<lparr> cfg_drop_rtf := b \<rparr> \<rparr>
         | None \<Rightarrow> c)
      else c)"

text \<open>One round of the loop of \<^verbatim>\<open>Config::parse\<close>: the configuration and the current section.\<close>

definition parse_line :: "string \<Rightarrow> config \<times> string \<Rightarrow> config \<times> string" where
  "parse_line raw st =
     (let (c, sec) = st; line = trim (strip_comment raw) in
      if line = [] then st
      else if hd line = CHR ''['' \<and> last line = CHR '']'' \<and> CHR ''='' \<notin> set line
        then (c, trim (butlast (tl line)))
      else (case split_once (CHR ''='') line of
              None \<Rightarrow> st
            | Some (key, v) \<Rightarrow> (apply_kv c sec (trim key) (trim v), sec)))"

definition config_parse :: "string \<Rightarrow> config" where
  "config_parse content = fst (fold parse_line (str_lines content) (default_config, []))"

section \<open>Loading\<close>

definition build_config_path :: "string option \<Rightarrow> string option \<Rightarrow> path" where
  "build_config_path xdg_config_home home =
     (let base = (case xdg_config_home of
                    Some xdg \<Rightarrow> xdg
                  | None \<Rightarrow> (case home of Some h \<Rightarrow> path_push h ''.config'' | None \<Rightarrow> ''.''))
      in path_push (path_push base ''y4p'') ''y4p.toml'')"

definition get_config_path :: "env \<Rightarrow> path" where
  "get_config_path env = build_config_path (env ''XDG_CONFIG_HOME'') (env ''HOME'')"

text \<open>\<^verbatim>\<open>std::fs::read_to_string\<close>: fails on a missing file and on bytes that are not UTF-8.\<close>

definition read_to_string :: "fsys \<Rightarrow> path \<Rightarrow> string option" where [std_defs]:
  "read_to_string fs p =
     (case fs_files fs p of None \<Rightarrow> None | Some d \<Rightarrow> if valid_utf8 d then Some d else None)"

definition config_load :: "env \<Rightarrow> fsys \<Rightarrow> config" where
  "config_load env fs =
     (case read_to_string fs (get_config_path env) of
        Some content \<Rightarrow> config_parse content
      | None \<Rightarrow> default_config)"

definition get_max_history :: "env \<Rightarrow> fsys \<Rightarrow> nat" where
  "get_max_history env fs =
     (case (case env ENV_MAX_HISTORY of None \<Rightarrow> None | Some v \<Rightarrow> parse_i64 (trim v)) of
        Some n \<Rightarrow> if 0 < n then nat n else cfg_max_history (cfg_general (config_load env fs))
      | None \<Rightarrow> cfg_max_history (cfg_general (config_load env fs)))"

section \<open>Private directories\<close>

text \<open>
  \<^verbatim>\<open>0o700\<close>. The directory is made only when it does not exist, and a refusal (\<open>granted\<close> fewer than
  needed) is ignored.
\<close>

definition private_mode :: nat where "private_mode = 7 * 8 * 8"

definition ensure_private_dir :: "nat \<Rightarrow> path \<Rightarrow> fsys \<Rightarrow> fsys" where
  "ensure_private_dir granted p fs =
     (if path_exists fs p then fs else snd (create_dir_all private_mode granted p fs))"

definition get_db_path :: "env \<Rightarrow> nat \<Rightarrow> fsys \<Rightarrow> path \<times> fsys" where
  "get_db_path env granted fs =
     (let base = (case env ''XDG_DATA_HOME'' of
                    Some x \<Rightarrow> x
                  | None \<Rightarrow> (case env ''HOME'' of
                               Some h \<Rightarrow> path_push (path_push h ''.local'') ''share''
                             | None \<Rightarrow> ''.''));
          dir = path_push base DB_DIR_NAME
      in (path_push dir DB_FILE_NAME, ensure_private_dir granted dir fs))"

definition get_cache_dir :: "env \<Rightarrow> nat \<Rightarrow> fsys \<Rightarrow> path \<times> fsys" where
  "get_cache_dir env granted fs =
     (let base = (case env ''XDG_CACHE_HOME'' of
                    Some x \<Rightarrow> x
                  | None \<Rightarrow> (case env ''HOME'' of
                               Some h \<Rightarrow> path_push h ''.cache''
                             | None \<Rightarrow> ''.''));
          dir = path_push base DB_DIR_NAME
      in (dir, ensure_private_dir granted dir fs))"

definition spool_dir_path :: "env \<Rightarrow> nat \<Rightarrow> fsys \<Rightarrow> path \<times> fsys" where
  "spool_dir_path env granted fs =
     (let (dir, fs') = get_cache_dir env granted fs in (path_push dir SPOOL_DIR_NAME, fs'))"

definition get_socket_path :: "env \<Rightarrow> nat \<Rightarrow> nat \<Rightarrow> fsys \<Rightarrow> path \<times> fsys" where
  "get_socket_path env uid granted fs =
     (case env ''XDG_RUNTIME_DIR'' of
        Some r \<Rightarrow>
          (let dir = path_push r DB_DIR_NAME
           in (path_push dir SOCKET_FILE_NAME, ensure_private_dir granted dir fs))
      | None \<Rightarrow> (''/tmp/'' @ DB_DIR_NAME @ ''.'' @ show_nat uid @ ''.sock'', fs))"

text \<open>\<^verbatim>\<open>SocketGuard\<close>: dropping it removes the socket file.\<close>

record socket_guard =
  guard_path :: path

definition socket_guard_drop :: "socket_guard \<Rightarrow> fsys \<Rightarrow> fsys" where
  "socket_guard_drop g fs = remove_file (guard_path g) fs"

section \<open>The retention cap is always usable\<close>

definition config_ok :: "config \<Rightarrow> bool" where
  "config_ok c \<longleftrightarrow> 0 < cfg_max_history (cfg_general c) \<and> cfg_max_history (cfg_general c) \<le> u64_max"

lemma config_ok_default: "config_ok default_config"
  by (simp add: config_ok_def default_config_def const_defs u64_max_def)

lemma apply_kv_ok: "config_ok c \<Longrightarrow> config_ok (apply_kv c sec key v)"
  by (auto simp: apply_kv_def config_ok_def config_parse_usize_def dest: parse_usize_le
      split: option.splits if_splits)

lemma parse_line_ok: "config_ok (fst st) \<Longrightarrow> config_ok (fst (parse_line raw st))"
  by (auto simp: parse_line_def Let_def apply_kv_ok split: option.splits prod.splits)

lemma fold_parse_line_ok: "config_ok (fst st) \<Longrightarrow> config_ok (fst (fold parse_line ls st))"
  by (induction ls arbitrary: st) (simp_all add: parse_line_ok)

lemma config_parse_ok: "config_ok (config_parse content)"
  by (simp add: config_parse_def fold_parse_line_ok config_ok_default)

lemma config_load_ok: "config_ok (config_load env fs)"
  by (simp add: config_load_def config_parse_ok config_ok_default split: option.splits)

text \<open>whatever the environment and the configuration file hold, the retention cap is a positive
  \<^verbatim>\<open>usize\<close>, and a positive value of \<^verbatim>\<open>Y4P_MAX_HISTORY\<close> takes precedence over the file.\<close>

lemma get_max_history_positive:
  "0 < get_max_history env fs \<and> get_max_history env fs \<le> u64_max \<and>
   (case env ENV_MAX_HISTORY of
      None \<Rightarrow> True
    | Some v \<Rightarrow> (case parse_i64 (trim v) of
                  None \<Rightarrow> True
                | Some n \<Rightarrow> n \<le> 0 \<or> get_max_history env fs = nat n))"
proof -
  have "n \<le> i64_max" if "parse_i64 s = Some n" for s n
    using parse_i64_range that by blast
  moreover have "nat i64_max \<le> u64_max"
    by (simp add: i64_max_def u64_max_def)
  ultimately have "nat n \<le> u64_max" if "parse_i64 s = Some n" for s n
    using that by (meson le_trans nat_mono)
  then show ?thesis
    using config_load_ok [of env fs]
    by (auto simp: get_max_history_def config_ok_def split: option.splits)
qed

section \<open>Later settings win over anything before them\<close>

definition config_text :: "config \<Rightarrow> string" where
  "config_text c =
     join_with [CHR 0x0A]
       [''[general]'', ''max_history = '' @ show_nat (cfg_max_history (cfg_general c)), ''[mime]'',
        ''drop_rtf = '' @ (if cfg_drop_rtf (cfg_mime c) then ''true'' else ''false'')]"

lemma split_on_sep: "split_on d (a @ d # b) = split_on d a @ split_on d b"
  by (induction a) (auto split: list.splits)

lemma split_on_plain: "d \<notin> set a \<Longrightarrow> split_on d a = [a]"
  by (induction a) auto

lemma str_lines_sep:
  "str_lines (a @ CHR 0x0A # b) = map strip_cr (split_on (CHR 0x0A) a) @ str_lines b"
  by (simp add: str_lines_def split_on_sep butlast_append Let_def)

lemma str_lines_plain: "CHR 0x0A \<notin> set a \<Longrightarrow> a \<noteq> [] \<Longrightarrow> str_lines a = [a]"
  by (simp add: str_lines_def split_on_plain Let_def)

lemma strip_comment_id: "CHR ''#'' \<notin> set s \<Longrightarrow> strip_comment s = s"
proof -
  have "CHR ''#'' \<notin> set s \<Longrightarrow> strip_comment_from q s = s" for q
    by (induction s arbitrary: q) auto
  then show "CHR ''#'' \<notin> set s \<Longrightarrow> strip_comment s = s" by (simp add: strip_comment_def)
qed

lemma show_nat_no_special:
  "CHR ''#'' \<notin> set (show_nat n)" "CHR 0x0A \<notin> set (show_nat n)" "CHR 0x0D \<notin> set (show_nat n)"
  "CHR ''='' \<notin> set (show_nat n)"
  by (auto dest!: show_nat_digits simp: is_digit_def byte_val_def)

lemma trim_show_nat: "trim (show_nat n) = show_nat n"
  using trim_show_int [of "int n"] by (simp add: show_int_def)

lemma trim_space_show_nat: "trim (CHR '' '' # show_nat n) = show_nat n"
proof -
  obtain c s where cs: "show_nat n = c # s" by (cases "show_nat n") simp_all
  have sp: "ws1 (CHR '' '')" by (simp add: ws1_def byte_val_def)
  have "trim_start (CHR '' '' # c # s) = trim_start (c # s)"
    using sp by (cases s) simp_all
  then show ?thesis using trim_show_nat [of n] by (simp add: cs trim_def)
qed

lemma parse_line_max_history:
  assumes "0 < n" and "n \<le> u64_max"
  shows "parse_line (''max_history = '' @ show_nat n) (c, ''general'') =
    (c\<lparr> cfg_general := (cfg_general c)\<lparr> cfg_max_history := n \<rparr> \<rparr>, ''general'')"
proof -
  let ?l = "''max_history = '' @ show_nat n"
  have l: "trim (strip_comment ?l) = ?l"
  proof -
    have "strip_comment ?l = ?l" using show_nat_no_special by (intro strip_comment_id) auto
    moreover have "trim ?l = ?l"
      using is_digit_facts [OF last_show_nat_digit [of n]]
      by (intro trim_id) (auto simp: byte_val_def ws1_def)
    ultimately show ?thesis by simp
  qed
  have sp: "split_once (CHR ''='') ?l = Some (''max_history '', CHR '' '' # show_nat n)"
    using split_once_first [of "CHR ''=''" "''max_history ''" "CHR '' '' # show_nat n"] by simp
  have key: "trim ''max_history '' = ''max_history''" by code_simp
  show ?thesis
    using assms l sp
    by (simp add: parse_line_def Let_def key trim_space_show_nat apply_kv_def config_parse_usize_def
        parse_usize_show_nat)
qed

lemma parse_line_general: "parse_line ''[general]'' (c, sec) = (c, ''general'')"
proof -
  have "trim (strip_comment ''[general]'') = ''[general]''" "trim ''general'' = ''general''"
    by code_simp+
  then show ?thesis by (simp add: parse_line_def)
qed

lemma parse_line_mime: "parse_line ''[mime]'' (c, sec) = (c, ''mime'')"
proof -
  have "trim (strip_comment ''[mime]'') = ''[mime]''" "trim ''mime'' = ''mime''"
    by code_simp+
  then show ?thesis by (simp add: parse_line_def)
qed

lemma parse_line_drop_rtf:
  "parse_line (''drop_rtf = '' @ (if b then ''true'' else ''false'')) (c, ''mime'') =
    (c\<lparr> cfg_mime := (cfg_mime c)\<lparr> cfg_drop_rtf := b \<rparr> \<rparr>, ''mime'')"
proof -
  have t: "trim (strip_comment ''drop_rtf = true'') = ''drop_rtf = true''"
    "trim (strip_comment ''drop_rtf = false'') = ''drop_rtf = false''"
    "trim ''drop_rtf '' = ''drop_rtf''" "trim '' true'' = ''true''" "trim '' false'' = ''false''"
    by code_simp+
  show ?thesis
    by (cases b) (simp_all add: parse_line_def Let_def t apply_kv_def parse_bool_def)
qed

lemma str_lines_config_text:
  "str_lines (config_text c) =
     [''[general]'', ''max_history = '' @ show_nat (cfg_max_history (cfg_general c)), ''[mime]'',
      ''drop_rtf = '' @ (if cfg_drop_rtf (cfg_mime c) then ''true'' else ''false'')]"
proof -
  let ?h = "''max_history = '' @ show_nat (cfg_max_history (cfg_general c))"
  let ?r = "''drop_rtf = '' @ (if cfg_drop_rtf (cfg_mime c) then ''true'' else ''false'')"
  have txt_eq: "config_text c = ''[general]'' @ CHR 0x0A # ?h @ CHR 0x0A # ''[mime]'' @ CHR 0x0A # ?r"
    by (simp add: config_text_def)
  have h: "split_on (CHR 0x0A) ?h = [?h]"
    using show_nat_no_special by (intro split_on_plain) auto
  have hcr: "strip_cr ?h = ?h"
    using last_show_nat_digit [of "cfg_max_history (cfg_general c)"]
    by (auto simp: strip_cr_def is_digit_def byte_val_def)
  have lits: "split_on (CHR 0x0A) ''[general]'' = [''[general]'']" "strip_cr ''[general]'' = ''[general]''"
    "split_on (CHR 0x0A) ''[mime]'' = [''[mime]'']" "strip_cr ''[mime]'' = ''[mime]''"
    by code_simp+
  have r: "str_lines ?r = [?r]" by (intro str_lines_plain) auto
  show ?thesis
    unfolding txt_eq str_lines_sep h r lits by (simp only: list.map hcr lits) simp
qed

text \<open>C38: the parser accepts whatever precedes (malformed, unknown, half a section) without losing
  what follows: a well-formed block written after any content sets exactly its values.\<close>

theorem config_parse_later_block_wins:
  assumes "config_ok c"
  shows "config_parse (content @ CHR 0x0A # config_text c) = c"
proof -
  let ?pre = "fold parse_line (map strip_cr (split_on (CHR 0x0A) content)) (default_config, [])"
  obtain c0 sec where pre: "?pre = (c0, sec)" by fastforce
  have n: "0 < cfg_max_history (cfg_general c)" "cfg_max_history (cfg_general c) \<le> u64_max"
    using assms by (simp_all add: config_ok_def)
  have "config_parse (content @ CHR 0x0A # config_text c) =
      fst (fold parse_line (str_lines (config_text c)) (c0, sec))"
    by (simp add: config_parse_def str_lines_sep pre)
  also have "\<dots> = (c0\<lparr> cfg_general := (cfg_general c0)\<lparr> cfg_max_history := cfg_max_history (cfg_general c) \<rparr>,
      cfg_mime := (cfg_mime c0)\<lparr> cfg_drop_rtf := cfg_drop_rtf (cfg_mime c) \<rparr> \<rparr>)"
    unfolding str_lines_config_text
    by (simp only: fold_simps comp_apply parse_line_general parse_line_max_history [OF n] parse_line_mime
        parse_line_drop_rtf) simp
  also have "\<dots> = c" by simp
  finally show ?thesis .
qed

theorem config_parse_witness:
  "config_parse (''[general'' @ CHR 0x0A #
     config_text \<lparr> cfg_general = \<lparr> cfg_max_history = 7 \<rparr>, cfg_mime = \<lparr> cfg_drop_rtf = False \<rparr> \<rparr>) =
   \<lparr> cfg_general = \<lparr> cfg_max_history = 7 \<rparr>, cfg_mime = \<lparr> cfg_drop_rtf = False \<rparr> \<rparr>"
  by (rule config_parse_later_block_wins) (simp add: config_ok_def u64_max_def)

section \<open>Directories made are private\<close>

lemma ensure_private_dir_mode:
  assumes "fs_dirs (ensure_private_dir g p fs) d = Some k"
  shows "fs_dirs fs d = Some k \<or> k = private_mode"
  using assms create_dir_all_mode [of private_mode g p fs d k]
    create_dir_all_keeps [of fs d _ private_mode g p]
  by (cases "fs_dirs fs d") (auto simp: ensure_private_dir_def split: if_splits)

lemma ensure_private_dir_files [frame_simps]: "fs_files (ensure_private_dir g p fs) = fs_files fs"
  by (simp add: ensure_private_dir_def frame_simps)

end
