(* ===== verification/Utils.thy ===== *)
theory Utils
  imports Constants RustStd Utf8
begin

text \<open>
  \<^verbatim>\<open>crates/core/src/utils.rs\<close>: the URI-list normaliser, the HTML tag remover and the MIME helpers
  every other component asks. The \<^verbatim>\<open>percent-encoding\<close> crate is outside the repository, so
  percent-decoding is an argument of \<open>normalize_uri_list\<close>.
\<close>

section \<open>URI lists\<close>

definition strip_file_scheme :: "bytes \<Rightarrow> bytes" where
  "strip_file_scheme line =
     (case strip_prefix ''file:'' line of
        None \<Rightarrow> line
      | Some rest \<Rightarrow>
          (case strip_prefix ''//'' rest of
             Some after \<Rightarrow>
               if prefix ''/'' after then after
               else (case position (\<lambda>b. b = CHR ''/'') after of
                       Some i \<Rightarrow> drop i after
                     | None \<Rightarrow> [])
           | None \<Rightarrow> rest))"

text \<open>The loop over lines, with the output buffer and the \<^verbatim>\<open>wrote_any\<close> flag as its state.\<close>

fun uri_lines :: "(bytes \<Rightarrow> bytes) \<Rightarrow> bytes list \<Rightarrow> bytes \<Rightarrow> bool \<Rightarrow> bytes" where
  "uri_lines percent_decode [] out wrote_any = out"
| "uri_lines percent_decode (raw_line # rest) out wrote_any =
     (let line = trim_ascii raw_line in
      if line = [] \<or> hd line = CHR ''#'' then uri_lines percent_decode rest out wrote_any
      else
        let decoded = percent_decode (strip_file_scheme line) in
        if decoded = [] then uri_lines percent_decode rest out wrote_any
        else uri_lines percent_decode rest
               ((if wrote_any then out @ [CHR 0x0A] else out) @ decoded) True)"

definition normalize_uri_list :: "(bytes \<Rightarrow> bytes) \<Rightarrow> bytes \<Rightarrow> bytes" where
  "normalize_uri_list percent_decode data =
     uri_lines percent_decode (split_on (CHR 0x0A) data) [] False"

section \<open>Markup\<close>

fun strip_tags_from :: "bool \<Rightarrow> bytes \<Rightarrow> bytes" where
  "strip_tags_from in_tag [] = []"
| "strip_tags_from in_tag (b # data) =
     (if b = CHR ''<'' then strip_tags_from True data
      else if b = CHR ''>'' \<and> in_tag then strip_tags_from False data
      else if \<not> in_tag then b # strip_tags_from in_tag data
      else strip_tags_from in_tag data)"

definition strip_html_tags :: "bytes \<Rightarrow> bytes" where
  "strip_html_tags data = strip_tags_from False data"

section \<open>MIME helpers\<close>

definition mime_base :: "string \<Rightarrow> string" where
  "mime_base mime = trim (hd (split_on (CHR '';'') mime))"

definition mime_base_eq :: "string \<Rightarrow> string \<Rightarrow> bool" where
  "mime_base_eq a b \<longleftrightarrow> eq_ignore_ascii_case (mime_base a) (mime_base b)"

text \<open>\<^verbatim>\<open>s.get(..n)\<close>: \<open>None\<close> past the end and inside a multi-byte character.\<close>

definition str_get_to :: "nat \<Rightarrow> string \<Rightarrow> string option" where [std_defs]:
  "str_get_to n s =
     (if n \<le> length s \<and> (n = length s \<or> \<not> is_cont (s ! n)) then Some (take n s) else None)"

definition starts_with_ignore_ascii_case :: "string \<Rightarrow> string \<Rightarrow> bool" where
  "starts_with_ignore_ascii_case s p =
     (case str_get_to (length p) s of None \<Rightarrow> False | Some head \<Rightarrow> eq_ignore_ascii_case head p)"

definition slice :: "nat \<Rightarrow> nat \<Rightarrow> bytes \<Rightarrow> bytes" where [std_defs]:
  "slice i j data = take (j - i) (drop i data)"

definition detect_image_mime :: "bytes \<Rightarrow> string option" where
  "detect_image_mime data =
     (let svg = (let head = trim_ascii_start data in
                 if prefix ''<?xml'' head \<or> prefix ''<svg'' head then Some ''image/svg+xml''
                 else None)
      in if 4 \<le> length data then
           (if take 4 data = [CHR 0x89, CHR 0x50, CHR 0x4E, CHR 0x47] then Some ''image/png''
            else if take 3 data = [CHR 0xFF, CHR 0xD8, CHR 0xFF] then Some ''image/jpeg''
            else if take 4 data = [CHR 0x47, CHR 0x49, CHR 0x46, CHR 0x38] then Some ''image/gif''
            else if take 4 data = ''RIFF'' \<and> 12 \<le> length data \<and> slice 8 12 data = ''WEBP''
              then Some ''image/webp''
            else if 12 \<le> length data \<and> slice 4 8 data = ''ftyp'' \<and>
                    (slice 8 12 data = ''avif'' \<or> slice 8 12 data = ''avis'')
              then Some ''image/avif''
            else svg)
         else svg)"

definition is_animated_webp :: "bytes \<Rightarrow> bool" where
  "is_animated_webp data \<longleftrightarrow>
     21 \<le> length data \<and> slice 0 4 data = ''RIFF'' \<and> slice 8 12 data = ''WEBP'' \<and>
     slice 12 16 data = ''VP8X'' \<and> odd (byte_val (data ! 20) div 2)"

definition is_html_mime :: "string \<Rightarrow> bool" where
  "is_html_mime mime \<longleftrightarrow>
     (let base = mime_base mime in
      eq_ignore_ascii_case base ''text/html'' \<or> eq_ignore_ascii_case base ''application/xhtml+xml'')"

definition is_rtf_mime :: "string \<Rightarrow> bool" where
  "is_rtf_mime mime \<longleftrightarrow>
     (let base = mime_base mime in
      eq_ignore_ascii_case base ''text/rtf'' \<or> eq_ignore_ascii_case base ''application/rtf'')"

definition is_text_like_mime :: "string \<Rightarrow> bool" where
  "is_text_like_mime mime \<longleftrightarrow>
     (let base = mime_base mime in
      if starts_with_ignore_ascii_case base ''image/'' \<or>
         starts_with_ignore_ascii_case base ''audio/'' \<or>
         starts_with_ignore_ascii_case base ''video/''
      then False
      else list_ex (\<lambda>hint. length hint \<le> length base \<and>
             list_ex (\<lambda>w. eq_ignore_ascii_case w hint) (windows (length hint) base))
             TEXT_LIKE_MIME_HINTS)"

section \<open>URI-list normalisation against its reference\<close>

text \<open>What RFC 2483 asks for: the decoded paths of the lines that are neither blank nor comments.\<close>

definition uri_paths :: "(bytes \<Rightarrow> bytes) \<Rightarrow> bytes \<Rightarrow> bytes list" where
  "uri_paths percent_decode data =
     filter (\<lambda>p. p \<noteq> [])
       (map (\<lambda>line. percent_decode (strip_file_scheme line))
         (filter (\<lambda>line. line \<noteq> [] \<and> hd line \<noteq> CHR ''#'')
           (map trim_ascii (split_on (CHR 0x0A) data))))"

lemma join_with_append:
  "xs \<noteq> [] \<Longrightarrow> ys \<noteq> [] \<Longrightarrow> join_with sep (xs @ ys) = join_with sep xs @ sep @ join_with sep ys"
  by (induction sep xs rule: join_with.induct) (auto simp: neq_Nil_conv)

lemma uri_lines_spec:
  "uri_lines pd ls out wrote =
     (let ps = filter (\<lambda>p. p \<noteq> []) (map (\<lambda>l. pd (strip_file_scheme l))
                 (filter (\<lambda>l. l \<noteq> [] \<and> hd l \<noteq> CHR ''#'') (map trim_ascii ls)))
      in if ps = [] then out
         else if wrote then out @ [CHR 0x0A] @ join_with [CHR 0x0A] ps
         else out @ join_with [CHR 0x0A] ps)"
proof (induction ls arbitrary: out wrote)
  case (Cons l ls)
  let ?ps = "filter (\<lambda>p. p \<noteq> []) (map (\<lambda>l. pd (strip_file_scheme l))
               (filter (\<lambda>l. l \<noteq> [] \<and> hd l \<noteq> CHR ''#'') (map trim_ascii ls)))"
  have join: "join_with [CHR 0x0A] (p # ?ps) =
      (if ?ps = [] then p else p @ [CHR 0x0A] @ join_with [CHR 0x0A] ?ps)" for p
    by (cases ?ps) simp_all
  show ?case by (simp add: Cons.IH Let_def join)
qed simp

lemma normalize_uri_list_paths:
  "normalize_uri_list pd data = join_with [CHR 0x0A] (uri_paths pd data)"
  unfolding normalize_uri_list_def uri_lines_spec uri_paths_def by (simp add: Let_def)

lemma uri_paths_nonempty: "p \<in> set (uri_paths pd data) \<Longrightarrow> p \<noteq> []"
  by (simp add: uri_paths_def)

lemma join_with_Nil_iff: "(\<forall>p \<in> set ps. p \<noteq> []) \<Longrightarrow> join_with sep ps = [] \<longleftrightarrow> ps = []"
  by (induction sep ps rule: join_with.induct) auto

lemma normalize_uri_list_empty_iff: "normalize_uri_list pd data = [] \<longleftrightarrow> uri_paths pd data = []"
  by (simp add: normalize_uri_list_paths join_with_Nil_iff uri_paths_nonempty)


text \<open>\<^verbatim>\<open>normalize_uri_list\<close> yields exactly the percent-decoded paths of the lines that are neither
  blank nor comments, in order and joined by single line feeds, whatever the decoder; in particular
  the output is empty exactly when no line carries a path.\<close>

lemma normalize_uri_list_correct:
  "normalize_uri_list pd data = join_with [CHR 0x0A] (uri_paths pd data) \<and>
   (normalize_uri_list pd data = [] \<longleftrightarrow> uri_paths pd data = [])"
  by (simp add: normalize_uri_list_empty_iff normalize_uri_list_paths [symmetric])

section \<open>Tag removal\<close>

lemma strip_tags_no_lt: "CHR ''<'' \<notin> set (strip_tags_from in_tag data)"
  by (induction in_tag data rule: strip_tags_from.induct) auto

lemma strip_tags_id: "CHR ''<'' \<notin> set data \<Longrightarrow> strip_tags_from False data = data"
  by (induction data) auto

lemma strip_tags_sublist: "subseq (strip_tags_from in_tag data) data"
  by (induction in_tag data rule: strip_tags_from.induct) auto

lemma strip_tags_inside: "CHR ''>'' \<notin> set t \<Longrightarrow> strip_tags_from True (t @ rest) = strip_tags_from True rest"
  by (induction t) auto

lemma strip_tags_append:
  "CHR ''<'' \<notin> set a \<Longrightarrow> strip_tags_from False (a @ rest) = a @ strip_tags_from False rest"
  by (induction a) auto

text \<open>\<^verbatim>\<open>strip_html_tags\<close> removes each tag and nothing else: text before a tag is kept as it is, the
  tag from its opening to its first closing bracket disappears, and the scan goes on behind it; the
  result has no opening bracket, only bytes of the input in their order, and removing tags again
  changes nothing.\<close>

lemma strip_html_tags_correct:
  assumes "CHR ''<'' \<notin> set a" and "CHR ''>'' \<notin> set t"
  shows "strip_html_tags (a @ CHR ''<'' # t @ CHR ''>'' # rest) = a @ strip_html_tags rest \<and>
    strip_html_tags a = a \<and>
    CHR ''<'' \<notin> set (strip_html_tags data) \<and>
    subseq (strip_html_tags data) data \<and>
    strip_html_tags (strip_html_tags data) = strip_html_tags data"
  using assms
  by (simp add: strip_html_tags_def strip_tags_append strip_tags_inside strip_tags_no_lt
      strip_tags_id strip_tags_sublist)

theorem strip_html_tags_witness:
  "strip_html_tags (''if x > 3 '' @ CHR ''<'' # ''b'' @ CHR ''>'' # ''y'') = ''if x > 3 y''"
  using strip_html_tags_correct [of "''if x > 3 ''" "''b''" "''y''" "[]"]
    strip_html_tags_correct [of "''y''" "[]" "[]" "[]"] by simp

section \<open>MIME classification\<close>

lemma is_cont_lower [simp]: "is_cont (to_ascii_lower c) = is_cont c"
  by (auto simp: is_cont_def to_ascii_lower_def)

lemma nth_lowercase: "n < length s \<Longrightarrow> to_ascii_lowercase s ! n = to_ascii_lower (s ! n)"
  by (simp add: to_ascii_lowercase_def)

lemma take_lowercase: "take n (to_ascii_lowercase s) = to_ascii_lowercase (take n s)"
  by (simp add: to_ascii_lowercase_def take_map)

lemma starts_with_lower:
  "starts_with_ignore_ascii_case (to_ascii_lowercase s) p = starts_with_ignore_ascii_case s p"
  by (auto simp: starts_with_ignore_ascii_case_def str_get_to_def eq_ignore_ascii_case_def
      nth_lowercase take_lowercase)

lemma windows_lower: "windows n (to_ascii_lowercase s) = map to_ascii_lowercase (windows n s)"
proof (induction s)
  case Nil
  show ?case by (simp add: to_ascii_lowercase_def)
next
  case (Cons c s)
  have "to_ascii_lowercase (c # s) = to_ascii_lower c # to_ascii_lowercase s"
    by (simp add: to_ascii_lowercase_def)
  then show ?case using Cons take_lowercase [of n "c # s"] by simp
qed

definition text_like_base :: "string \<Rightarrow> bool" where
  "text_like_base base \<longleftrightarrow>
     (if starts_with_ignore_ascii_case base ''image/'' \<or>
         starts_with_ignore_ascii_case base ''audio/'' \<or>
         starts_with_ignore_ascii_case base ''video/''
      then False
      else list_ex (\<lambda>hint. length hint \<le> length base \<and>
             list_ex (\<lambda>w. eq_ignore_ascii_case w hint) (windows (length hint) base))
             TEXT_LIKE_MIME_HINTS)"

lemma is_text_like_mime_base: "is_text_like_mime m = text_like_base (mime_base m)"
  by (simp add: is_text_like_mime_def text_like_base_def Let_def)

lemma text_like_base_lower: "text_like_base (to_ascii_lowercase b) = text_like_base b"
  by (simp add: text_like_base_def starts_with_lower windows_lower list_ex_iff
      eq_ignore_ascii_case_def)

lemma text_like_cong: "mime_base_eq a b \<Longrightarrow> is_text_like_mime a = is_text_like_mime b"
  by (metis is_text_like_mime_base mime_base_eq_def eq_ignore_ascii_case_def text_like_base_lower)

lemma html_bases_text_like:
  "text_like_base ''text/html''" "text_like_base ''application/xhtml+xml''"
  by code_simp+

lemma html_is_text_like: "is_html_mime m \<Longrightarrow> is_text_like_mime m"
proof -
  assume "is_html_mime m"
  then have "to_ascii_lowercase (mime_base m) = to_ascii_lowercase ''text/html'' \<or>
      to_ascii_lowercase (mime_base m) = to_ascii_lowercase ''application/xhtml+xml''"
    by (simp add: is_html_mime_def eq_ignore_ascii_case_def Let_def)
  then show ?thesis
    by (metis html_bases_text_like is_text_like_mime_base text_like_base_lower)
qed

text \<open>the classification of a MIME label depends on its base type only: labels that agree up to
  case, surrounding blanks and parameters are all HTML, all RTF or all text-like together, and every
  HTML label is text-like (so a captured HTML payload always gets a preview and is searched).\<close>

lemma mime_classification_by_base:
  assumes "mime_base_eq a b"
  shows "is_html_mime a = is_html_mime b \<and> is_rtf_mime a = is_rtf_mime b \<and>
         is_text_like_mime a = is_text_like_mime b \<and>
         (is_html_mime a \<longrightarrow> is_text_like_mime b)"
  using assms text_like_cong [OF assms] html_is_text_like [of a]
  by (simp add: is_html_mime_def is_rtf_mime_def mime_base_eq_def eq_ignore_ascii_case_def Let_def)

theorem mime_classification_witness:
  "is_text_like_mime '' Text/HTML ; charset=utf-8'' \<and> is_html_mime ''text/html''"
proof -
  have eq: "mime_base_eq ''text/html'' '' Text/HTML ; charset=utf-8''" by code_simp
  have "is_html_mime ''text/html''" by code_simp
  then show ?thesis using mime_classification_by_base [OF eq] by blast
qed

end
