(* ===== verification/Payload.thy ===== *)
theory Payload
  imports Utils Fs RustNum
begin

text \<open>
  \<^verbatim>\<open>crates/core/src/payload.rs\<close>: where the bytes of a clipboard payload live and the one bounded
  read every materialisation goes through. A reader is the list of answers its \<^verbatim>\<open>read\<close> calls get:
  some bytes, an interruption (which \<^verbatim>\<open>read_to_end\<close> retries) or an error; the end of the list and
  an answer without bytes are the end of the stream. The bytes a call does not have room for stay in
  the reader.
\<close>

section \<open>Readers\<close>

datatype io_error = NotFound | BrokenPipe | ConnectionReset | WouldBlock | Interrupted | TimedOut | Unsupported
  | InvalidInput | WriteZero
  | OtherError string

datatype rd_event = RdData bytes | RdIntr | RdErr io_error

type_synonym reader = "rd_event list"

text \<open>\<^verbatim>\<open>reader.take(n).read_to_end(..)\<close>.\<close>

fun take_read_to_end :: "nat \<Rightarrow> reader \<Rightarrow> io_error + bytes" where
  "take_read_to_end n [] = Inr []"
| "take_read_to_end n (ev # evs) =
     (if n = 0 then Inr []
      else (case ev of
              RdIntr \<Rightarrow> take_read_to_end n evs
            | RdErr e \<Rightarrow> Inl e
            | RdData d \<Rightarrow>
                if d = [] then Inr []
                else if n \<le> length d then Inr (take n d)
                else (case take_read_to_end (n - length d) evs of
                        Inl e \<Rightarrow> Inl e
                      | Inr rest \<Rightarrow> Inr (d @ rest))))"

text \<open>What the stream delivers before it ends, and the error it ends with, if any.\<close>

fun stream_bytes :: "reader \<Rightarrow> bytes" where
  "stream_bytes [] = []"
| "stream_bytes (RdData d # evs) = (if d = [] then [] else d @ stream_bytes evs)"
| "stream_bytes (RdIntr # evs) = stream_bytes evs"
| "stream_bytes (RdErr e # evs) = []"

fun stream_error :: "reader \<Rightarrow> io_error option" where
  "stream_error [] = None"
| "stream_error (RdData d # evs) = (if d = [] then None else stream_error evs)"
| "stream_error (RdIntr # evs) = stream_error evs"
| "stream_error (RdErr e # evs) = Some e"

section \<open>Payloads\<close>

record stream_descriptor =
  sd_reader :: reader
  sd_len_hint :: "nat option"

record spooled_file =
  sp_path :: path
  sp_len :: nat
  sp_digest :: bytes
  sp_owned :: bool

datatype payload =
    Memory bytes
  | Stream stream_descriptor
  | PFile path
  | Spooled spooled_file

datatype payload_error = PEmpty | TooLarge nat | PIo io_error

datatype payload_reader =
    RMemory bytes
  | RStream stream_descriptor
  | RFile bytes "nat option"

definition spooled_new :: "path \<Rightarrow> nat \<Rightarrow> bytes \<Rightarrow> spooled_file" where
  "spooled_new p len digest = \<lparr> sp_path = p, sp_len = len, sp_digest = digest, sp_owned = True \<rparr>"

text \<open>\<^verbatim>\<open>Drop for SpooledFile\<close>, and \<^verbatim>\<open>into_path\<close>, which disarms it before the value is dropped.\<close>

definition spooled_drop :: "spooled_file \<Rightarrow> fsys \<Rightarrow> fsys" where
  "spooled_drop s fs = (if sp_owned s then remove_file (sp_path s) fs else fs)"

definition spooled_into_path :: "spooled_file \<Rightarrow> fsys \<Rightarrow> path \<times> fsys" where
  "spooled_into_path s fs = (sp_path s, spooled_drop (s\<lparr> sp_owned := False, sp_path := [] \<rparr>) fs)"

definition hex_digits :: string where "hex_digits = ''0123456789abcdef''"

definition to_hex :: "bytes \<Rightarrow> string" where
  "to_hex bs =
     concat (map (\<lambda>b. [hex_digits ! (byte_val b div 16), hex_digits ! (byte_val b mod 16)]) bs)"

definition hex_digest :: "spooled_file \<Rightarrow> string" where
  "hex_digest s = to_hex (sp_digest s)"

definition payload_len_hint :: "payload \<Rightarrow> nat option" where
  "payload_len_hint p =
     (case p of
        Memory d \<Rightarrow> Some (length d)
      | Stream s \<Rightarrow> sd_len_hint s
      | PFile _ \<Rightarrow> None
      | Spooled s \<Rightarrow> Some (sp_len s))"

definition payload_as_bytes :: "payload \<Rightarrow> bytes option" where
  "payload_as_bytes p = (case p of Memory d \<Rightarrow> Some d | _ \<Rightarrow> None)"

text \<open>\<open>dup_err\<close> is the answer of \<^verbatim>\<open>dup(2)\<close>: \<open>None\<close> when it succeeds.\<close>

definition payload_try_clone :: "io_error option \<Rightarrow> payload \<Rightarrow> io_error + payload" where
  "payload_try_clone dup_err p =
     (case p of
        Memory d \<Rightarrow> Inr (Memory d)
      | Stream s \<Rightarrow> (case dup_err of None \<Rightarrow> Inr (Stream s) | Some e \<Rightarrow> Inl e)
      | PFile q \<Rightarrow> Inr (PFile q)
      | Spooled _ \<Rightarrow> Inl Unsupported)"

text \<open>Dropping a payload: only an owned spool file touches the file system.\<close>

definition payload_drop :: "payload \<Rightarrow> fsys \<Rightarrow> fsys" where
  "payload_drop p fs = (case p of Spooled s \<Rightarrow> spooled_drop s fs | _ \<Rightarrow> fs)"

definition file_open :: "fsys \<Rightarrow> path \<Rightarrow> io_error + bytes" where [std_defs]:
  "file_open fs p = (case fs_files fs p of None \<Rightarrow> Inl NotFound | Some d \<Rightarrow> Inr d)"

text \<open>\<open>stat_ok\<close> says whether \<^verbatim>\<open>metadata()\<close> answers.\<close>

definition into_reader :: "bool \<Rightarrow> payload \<Rightarrow> fsys \<Rightarrow> (io_error + payload_reader) \<times> fsys" where
  "into_reader stat_ok p fs =
     (case p of
        Memory d \<Rightarrow> (Inr (RMemory d), fs)
      | Stream s \<Rightarrow> (Inr (RStream s), fs)
      | PFile q \<Rightarrow>
          (try_bind (file_open fs q)
             (\<lambda>d. Inr (RFile d (if stat_ok then Some (length d) else None))), fs)
      | Spooled s \<Rightarrow>
          (try_bind (file_open fs (sp_path s)) (\<lambda>d. Inr (RFile d (Some (sp_len s)))),
           spooled_drop s fs))"

definition reader_len_hint :: "payload_reader \<Rightarrow> nat option" where
  "reader_len_hint r =
     (case r of RMemory d \<Rightarrow> Some (length d) | RStream s \<Rightarrow> sd_len_hint s | RFile _ len \<Rightarrow> len)"

definition reader_events :: "payload_reader \<Rightarrow> reader" where
  "reader_events r = (case r of RMemory d \<Rightarrow> [RdData d] | RStream s \<Rightarrow> sd_reader s | RFile d _ \<Rightarrow> [RdData d])"

section \<open>Bounded reads\<close>

text \<open>
  The capacity hint only pre-sizes the buffer: \<open>prealloc\<close> is the number of bytes asked for, and no
  result depends on it.
\<close>

definition prealloc :: "nat \<Rightarrow> nat option \<Rightarrow> nat" where
  "prealloc limit capacity_hint =
     (case capacity_hint of
        None \<Rightarrow> 0
      | Some hint \<Rightarrow> min (min hint limit) PAYLOAD_PREALLOC_CAP_BYTES)"

definition read_bounded :: "reader \<Rightarrow> nat \<Rightarrow> payload_error + bytes" where
  "read_bounded r limit =
     (case take_read_to_end (sat_add limit 1) r of
        Inl e \<Rightarrow> Inl (PIo e)
      | Inr payload \<Rightarrow>
          if payload = [] then Inl PEmpty
          else if limit < length payload then Inl (TooLarge limit)
          else Inr payload)"

definition payload_read_bounded ::
    "bool \<Rightarrow> payload \<Rightarrow> nat \<Rightarrow> fsys \<Rightarrow> (payload_error + bytes) \<times> fsys" where
  "payload_read_bounded stat_ok p limit fs =
     (case p of
        Memory d \<Rightarrow>
          (if d = [] then Inl PEmpty
           else if limit < length d then Inl (TooLarge limit)
           else Inr d, fs)
      | Stream s \<Rightarrow> (read_bounded (sd_reader s) limit, fs)
      | PFile q \<Rightarrow>
          (case file_open fs q of
             Inl e \<Rightarrow> (Inl (PIo e), fs)
           | Inr d \<Rightarrow>
               (if stat_ok \<and> limit < length d then Inl (TooLarge limit)
                else read_bounded [RdData d] limit, fs))
      | Spooled s \<Rightarrow>
          (if limit < sp_len s then Inl (TooLarge limit)
           else (case file_open fs (sp_path s) of
                   Inl e \<Rightarrow> Inl (PIo e)
                 | Inr d \<Rightarrow> read_bounded [RdData d] limit), spooled_drop s fs))"

section \<open>Routing\<close>

datatype payload_route = Inline | RouteStream

definition route_payload :: "string \<Rightarrow> nat option \<Rightarrow> payload_route" where
  "route_payload mime_label len_hint =
     (case len_hint of
        Some len \<Rightarrow> if len \<le> INLINE_PAYLOAD_THRESHOLD_BYTES then Inline else RouteStream
      | None \<Rightarrow> if is_text_like_mime mime_label then Inline else RouteStream)"

section \<open>A bounded read never truncates\<close>

lemma take_read_ok:
  "take_read_to_end n r = Inr d \<Longrightarrow>
     d = take n (stream_bytes r) \<and> (length d < n \<longrightarrow> stream_error r = None)"
proof (induction r arbitrary: n d)
  case (Cons ev r)
  show ?case
  proof (cases ev)
    case (RdData c)
    show ?thesis
    proof (cases "n = 0 \<or> c = [] \<or> n \<le> length c")
      case True
      with Cons.prems RdData show ?thesis by (auto split: if_splits)
    next
      case False
      with Cons.prems RdData obtain d' where d': "take_read_to_end (n - length c) r = Inr d'" "d = c @ d'"
        by (auto split: sum.splits)
      with Cons.IH [OF d'(1)] False RdData show ?thesis by auto
    qed
  next
    case RdIntr
    with Cons show ?thesis by (cases "n = 0") auto
  next
    case (RdErr e)
    with Cons.prems show ?thesis by (cases "n = 0") auto
  qed
qed simp

lemma take_read_fail:
  "take_read_to_end n r = Inl e \<Longrightarrow> stream_error r = Some e \<and> length (stream_bytes r) < n"
proof (induction r arbitrary: n)
  case (Cons ev r)
  show ?case
  proof (cases ev)
    case (RdData c)
    with Cons.prems have "n \<noteq> 0" "c \<noteq> []" "\<not> n \<le> length c" "take_read_to_end (n - length c) r = Inl e"
      by (auto split: if_splits sum.splits)
    with Cons.IH [of "n - length c"] RdData show ?thesis by auto
  next
    case RdIntr
    with Cons show ?thesis by (cases "n = 0") auto
  next
    case (RdErr e')
    with Cons.prems show ?thesis by (cases "n = 0") auto
  qed
qed simp

lemma read_bounded_spec:
  assumes lim: "limit < u64_max"
  shows "read_bounded r limit =
     (if limit < length (stream_bytes r) then Inl (TooLarge limit)
      else (case stream_error r of
              Some e \<Rightarrow> Inl (PIo e)
            | None \<Rightarrow> if stream_bytes r = [] then Inl PEmpty else Inr (stream_bytes r)))"
proof (cases "take_read_to_end (sat_add limit 1) r")
  case (Inl e)
  with take_read_fail [OF Inl] lim show ?thesis
    by (simp add: read_bounded_def sat_add_exact)
next
  case (Inr d)
  have n: "sat_add limit 1 = Suc limit" using lim by (simp add: sat_add_exact)
  have d: "d = take (Suc limit) (stream_bytes r)" "length d < Suc limit \<longrightarrow> stream_error r = None"
    using take_read_ok [OF Inr] n by simp_all
  show ?thesis
  proof (cases "limit < length (stream_bytes r)")
    case True
    with d have "length d = Suc limit" by simp
    with True Inr show ?thesis by (auto simp: read_bounded_def)
  next
    case False
    with d have "d = stream_bytes r" "stream_error r = None" by simp_all
    with False Inr show ?thesis by (simp add: read_bounded_def)
  qed
qed

text \<open>a bounded read is all or nothing: it returns the whole stream when the stream is non-empty,
  ends without an error and fits the limit, and otherwise says which of the three failed; the bytes
  of an oversized transfer are never kept as a shorter payload.\<close>

lemma read_bounded_never_truncates:
  assumes "limit < u64_max"
  shows "read_bounded r limit =
     (if limit < length (stream_bytes r) then Inl (TooLarge limit)
      else (case stream_error r of
              Some e \<Rightarrow> Inl (PIo e)
            | None \<Rightarrow> if stream_bytes r = [] then Inl PEmpty else Inr (stream_bytes r)))"
  by (rule read_bounded_spec [OF assms])

theorem read_bounded_witness:
  "read_bounded [RdData ''ab'', RdIntr, RdData ''c'', RdData [], RdErr BrokenPipe] 3 = Inr ''abc'' \<and>
   read_bounded [RdData ''ab'', RdIntr, RdData ''cd'', RdErr BrokenPipe] 3 = Inl (TooLarge 3)"
  using read_bounded_never_truncates [of 3 "[RdData ''ab'', RdIntr, RdData ''c'', RdData [], RdErr BrokenPipe]"]
    read_bounded_never_truncates [of 3 "[RdData ''ab'', RdIntr, RdData ''cd'', RdErr BrokenPipe]"]
  by (simp add: u64_max_def)

section \<open>Ownership of spool files\<close>

text \<open>The content a payload stands for in a file system.\<close>

definition payload_content :: "fsys \<Rightarrow> payload \<Rightarrow> io_error + bytes" where
  "payload_content fs p =
     (case p of
        Memory d \<Rightarrow> Inr d
      | Stream s \<Rightarrow> (case stream_error (sd_reader s) of Some e \<Rightarrow> Inl e | None \<Rightarrow> Inr (stream_bytes (sd_reader s)))
      | PFile q \<Rightarrow> file_open fs q
      | Spooled s \<Rightarrow> file_open fs (sp_path s))"

definition spooled_ok :: "fsys \<Rightarrow> spooled_file \<Rightarrow> bool" where
  "spooled_ok fs s \<longleftrightarrow> sp_owned s \<and> map_option length (fs_files fs (sp_path s)) = Some (sp_len s)"

definition payload_wf :: "fsys \<Rightarrow> payload \<Rightarrow> bool" where
  "payload_wf fs p = (case p of Spooled s \<Rightarrow> spooled_ok fs s | _ \<Rightarrow> True)"

lemma stream_file [simp]: "stream_bytes [RdData d] = d" "stream_error [RdData d] = None"
  by (cases d; simp)+

text \<open>materialising a payload gives exactly the bytes it stands for, whichever of the four places
  they are in and whether or not the file could be stated, and consumes it: an owned spool file is
  gone afterwards, every other file is as it was.\<close>

lemma payload_read_bounded_content:
  assumes "limit < u64_max" and "payload_wf fs p"
    and "payload_read_bounded stat_ok p limit fs = (r, fs')"
  shows "(\<forall>d. r = Inr d \<longleftrightarrow> payload_content fs p = Inr d \<and> d \<noteq> [] \<and> length d \<le> limit) \<and>
    fs' = payload_drop p fs"
proof (cases p)
  case (Spooled s)
  then obtain d where "fs_files fs (sp_path s) = Some d" "sp_len s = length d"
    using assms(2) by (auto simp: payload_wf_def spooled_ok_def)
  with Spooled assms(1,3) show ?thesis
    by (auto simp: payload_read_bounded_def payload_content_def payload_drop_def file_open_def
        read_bounded_spec split: if_splits)
qed (use assms(1,3) in \<open>auto simp: payload_read_bounded_def payload_content_def payload_drop_def
    file_open_def read_bounded_spec split: if_splits option.splits\<close>)

theorem payload_read_bounded_witness:
  "fst (payload_read_bounded True (Spooled (spooled_new ''/s/1.part'' 2 ''x'')) 10
      (write_file ''/s/1.part'' ''ab'' empty_fs)) = Inr ''ab''"
proof -
  let ?fs = "write_file ''/s/1.part'' ''ab'' empty_fs"
  let ?p = "Spooled (spooled_new ''/s/1.part'' 2 ''x'')"
  have "payload_wf ?fs ?p" by (simp add: payload_wf_def spooled_ok_def spooled_new_def)
  then show ?thesis
    using payload_read_bounded_content [of 10 ?fs ?p True
        "fst (payload_read_bounded True ?p 10 ?fs)" "snd (payload_read_bounded True ?p 10 ?fs)"]
    by (simp add: u64_max_def payload_content_def file_open_def spooled_new_def)
qed

section \<open>Hexadecimal fingerprints\<close>

lemma length_to_hex [simp]: "length (to_hex bs) = 2 * length bs"
  by (induction bs) (simp_all add: to_hex_def)

lemma hex_digits_distinct: "distinct hex_digits" "length hex_digits = 16"
  by code_simp+

lemma to_hex_Cons:
  "to_hex (b # bs) = hex_digits ! (byte_val b div 16) # hex_digits ! (byte_val b mod 16) # to_hex bs"
  by (simp add: to_hex_def)

lemma to_hex_inject: "to_hex a = to_hex b \<longleftrightarrow> a = b"
proof (induction a arbitrary: b)
  case Nil
  show ?case by (cases b) (simp_all add: to_hex_def)
next
  case (Cons x a)
  show ?case
  proof (cases b)
    case Nil
    then show ?thesis by (simp add: to_hex_def)
  next
    case (Cons y b')
    have lt: "byte_val c div 16 < 16" "byte_val c mod 16 < 16" for c
      using byte_val_less [of c] by (simp_all add: less_mult_imp_div_less)
    have "hex_digits ! (byte_val x div 16) = hex_digits ! (byte_val y div 16) \<longleftrightarrow>
        byte_val x div 16 = byte_val y div 16"
      "hex_digits ! (byte_val x mod 16) = hex_digits ! (byte_val y mod 16) \<longleftrightarrow>
        byte_val x mod 16 = byte_val y mod 16"
      using hex_digits_distinct lt by (auto simp: nth_eq_iff_index_eq)
    moreover have "byte_val x div 16 = byte_val y div 16 \<and> byte_val x mod 16 = byte_val y mod 16 \<longleftrightarrow> x = y"
      by (metis byte_val_inject div_mult_mod_eq)
    ultimately show ?thesis using Cons Cons.IH by (auto simp: to_hex_Cons)
  qed
qed

end
