(* ===== verification/Splice.thy ===== *)
theory Splice
  imports Payload
begin

text \<open>
  \<^verbatim>\<open>crates/core/src/splice.rs\<close>: draining a pipe into a file. The source is a blocking stream, so its
  state is the bytes it will still deliver; the kernel's answers to \<^verbatim>\<open>tee\<close>, \<^verbatim>\<open>splice\<close>, \<^verbatim>\<open>read\<close> and
  \<^verbatim>\<open>write\<close> are a list consumed one call at a time (short transfers, interruptions, refusals and errors
  in any order), after which every call transfers all it can. A transfer from a non-empty source
  moves at least one byte, as the blocking calls do; zero is end of stream.
\<close>

section \<open>System calls\<close>

datatype kernel_answer = KMove nat | KIntr | KRefuse | KFail io_error

datatype sys_error = EUnsupported | EIo io_error

record copy_state =
  cp_src :: bytes
  cp_dst :: bytes
  cp_tap :: bytes
  cp_answers :: "kernel_answer list"
  cp_len :: nat
  cp_kernel_bytes :: nat

definition is_unsupported :: "sys_error \<Rightarrow> bool" where
  "is_unsupported e \<longleftrightarrow> e = EUnsupported"

text \<open>One call that asks for \<open>len\<close> of \<open>avail\<close> bytes; \<^verbatim>\<open>EINTR\<close> is retried.\<close>

fun transfer :: "kernel_answer list \<Rightarrow> nat \<Rightarrow> nat \<Rightarrow> (sys_error + nat) \<times> kernel_answer list" where
  "transfer [] len avail = (Inr (min len avail), [])"
| "transfer (KIntr # as) len avail = transfer as len avail"
| "transfer (KMove k # as) len avail = (Inr (min (max 1 k) (min len avail)), as)"
| "transfer (KRefuse # as) len avail = (Inl EUnsupported, as)"
| "transfer (KFail e # as) len avail = (Inl (EIo e), as)"

definition splice_once :: "nat \<Rightarrow> copy_state \<Rightarrow> (sys_error + nat) \<times> copy_state" where
  "splice_once len st =
     (case transfer (cp_answers st) len (length (cp_src st)) of
        (Inl e, as) \<Rightarrow> (Inl e, st\<lparr> cp_answers := as \<rparr>)
      | (Inr n, as) \<Rightarrow>
          (Inr n, st\<lparr> cp_answers := as, cp_src := drop n (cp_src st),
                      cp_dst := cp_dst st @ take n (cp_src st) \<rparr>))"

text \<open>\<^verbatim>\<open>tee\<close> duplicates into the scratch pipe and consumes nothing.\<close>

definition tee_once :: "nat \<Rightarrow> copy_state \<Rightarrow> (sys_error + nat) \<times> copy_state" where
  "tee_once len st =
     (case transfer (cp_answers st) len (length (cp_src st)) of
        (r, as) \<Rightarrow> (r, st\<lparr> cp_answers := as \<rparr>))"

definition try_splice :: "nat \<Rightarrow> copy_state \<Rightarrow> (io_error + nat option) \<times> copy_state" where
  "try_splice len st =
     (if len = 0 then (Inr (Some 0), st)
      else (case splice_once len st of
              (Inr moved, st') \<Rightarrow> (Inr (Some moved), st')
            | (Inl EUnsupported, st') \<Rightarrow> (Inr None, st')
            | (Inl (EIo e), st') \<Rightarrow> (Inl e, st')))"

datatype splice_failure = Refused | SpliceIo io_error

definition unexpected_eof :: io_error where "unexpected_eof = OtherError ''unexpected end of file''"
definition einval :: io_error where "einval = OtherError ''invalid argument''"

definition sys_io :: "sys_error \<Rightarrow> io_error" where
  "sys_io e = (case e of EUnsupported \<Rightarrow> einval | EIo e' \<Rightarrow> e')"

function splice_exact :: "nat \<Rightarrow> nat \<Rightarrow> copy_state \<Rightarrow> (splice_failure + unit) \<times> copy_state" where
  "splice_exact n moved st =
     (if moved < n then
        (case splice_once (n - moved) st of
           (Inr m, st') \<Rightarrow>
             if m = 0 then (Inl (SpliceIo unexpected_eof), st') else splice_exact n (moved + m) st'
         | (Inl e, st') \<Rightarrow>
             if is_unsupported e \<and> moved = 0 then (Inl Refused, st')
             else (Inl (SpliceIo (sys_io e)), st'))
      else (Inr (), st))"
  by pat_completeness auto
termination
  by (relation "measure (\<lambda>(n, moved, st). n - moved)") auto

declare splice_exact.simps [simp del]

section \<open>The kernel path\<close>

datatype kernel_end = Eof | KUnsupported

definition allowance :: "nat \<Rightarrow> nat" where
  "allowance limit = sat_add limit 1"

text \<open>The answer to a call that either completes or fails (a staging read, a \<^verbatim>\<open>write_all\<close>).\<close>

definition next_failure :: "kernel_answer list \<Rightarrow> io_error option" where
  "next_failure as = (case as of KFail e # _ \<Rightarrow> Some e | _ \<Rightarrow> None)"

text \<open>
  The scratch copy of a round is read back in staging-buffer pieces for the tap; \<open>data\<close> is what the
  scratch pipe holds.
\<close>

function tap_round :: "nat \<Rightarrow> bytes \<Rightarrow> copy_state \<Rightarrow> (io_error + unit) \<times> copy_state" where
  "tap_round left data st =
     (if 0 < left then
        (let n = min left SPLICE_CHUNK_BYTES in
         case next_failure (cp_answers st) of
           Some e \<Rightarrow> (Inl e, st\<lparr> cp_answers := tl (cp_answers st) \<rparr>)
         | None \<Rightarrow> tap_round (left - n) (drop n data)
                    (st\<lparr> cp_answers := tl (cp_answers st), cp_tap := cp_tap st @ take n data \<rparr>))
      else (Inr (), st))"
  by pat_completeness auto
termination
  by (relation "measure (\<lambda>(left, data, st). left)") (auto simp: const_defs)

declare tap_round.simps [simp del]

definition kernel_round :: "bool \<Rightarrow> nat \<Rightarrow> copy_state \<Rightarrow> (payload_error + kernel_end + nat) \<times> copy_state" where
  "kernel_round observes want st =
     (if observes then
        (case tee_once want st of
           (Inl e, st1) \<Rightarrow>
             if is_unsupported e then (Inr (Inl KUnsupported), st1) else (Inl (PIo (sys_io e)), st1)
         | (Inr n, st1) \<Rightarrow>
             if n = 0 then (Inr (Inl Eof), st1)
             else (case splice_exact n 0 st1 of
                     (Inl Refused, st2) \<Rightarrow> (Inr (Inl KUnsupported), st2)
                   | (Inl (SpliceIo e), st2) \<Rightarrow> (Inl (PIo e), st2)
                   | (Inr _, st2) \<Rightarrow>
                       (case tap_round n (take n (cp_src st1)) st2 of
                          (Inl e, st3) \<Rightarrow> (Inl (PIo e), st3)
                        | (Inr _, st3) \<Rightarrow> (Inr (Inr n), st3))))
      else
        (case splice_once want st of
           (Inl e, st1) \<Rightarrow>
             if is_unsupported e then (Inr (Inl KUnsupported), st1) else (Inl (PIo (sys_io e)), st1)
         | (Inr n, st1) \<Rightarrow> if n = 0 then (Inr (Inl Eof), st1) else (Inr (Inr n), st1)))"

lemma transfer_bound: "transfer as len avail = (Inr n, as') \<Longrightarrow> n \<le> len \<and> n \<le> avail"
  by (induction as len avail rule: transfer.induct) auto

lemma transfer_zero: "transfer as len avail = (Inr 0, as') \<Longrightarrow> 0 < len \<Longrightarrow> avail = 0"
  by (induction as len avail rule: transfer.induct) (auto simp: min_def split: if_splits)

lemma splice_once_ok:
  assumes "splice_once len st = (Inr n, st')"
  shows "n \<le> len" "n \<le> length (cp_src st)" "cp_src st' = drop n (cp_src st)"
    "cp_dst st' = cp_dst st @ take n (cp_src st)" "cp_tap st' = cp_tap st" "cp_len st' = cp_len st"
    "cp_kernel_bytes st' = cp_kernel_bytes st" "0 < len \<Longrightarrow> n = 0 \<Longrightarrow> cp_src st = []"
  using assms transfer_bound transfer_zero
  by (fastforce simp: splice_once_def split: prod.splits sum.splits)+

lemma splice_once_err:
  assumes "splice_once len st = (Inl e, st')"
  shows "cp_src st' = cp_src st" "cp_dst st' = cp_dst st" "cp_tap st' = cp_tap st"
    "cp_len st' = cp_len st" "cp_kernel_bytes st' = cp_kernel_bytes st"
  using assms by (auto simp: splice_once_def split: prod.splits sum.splits)

lemma tee_once_frame:
  assumes "tee_once len st = (r, st')"
  shows "cp_src st' = cp_src st" "cp_dst st' = cp_dst st" "cp_tap st' = cp_tap st"
    "cp_len st' = cp_len st" "cp_kernel_bytes st' = cp_kernel_bytes st"
  using assms by (auto simp: tee_once_def split: prod.splits)

lemma tee_once_ok:
  assumes "tee_once len st = (Inr n, st')"
  shows "n \<le> len" "n \<le> length (cp_src st)" "0 < len \<Longrightarrow> n = 0 \<Longrightarrow> cp_src st = []"
  using assms transfer_bound transfer_zero
  by (fastforce simp: tee_once_def split: prod.splits)+

lemma splice_exact_ok:
  "splice_exact n moved st = (Inr u, st') \<Longrightarrow> moved \<le> n \<Longrightarrow>
     n - moved \<le> length (cp_src st) \<and> cp_src st' = drop (n - moved) (cp_src st) \<and>
     cp_dst st' = cp_dst st @ take (n - moved) (cp_src st) \<and> cp_tap st' = cp_tap st \<and>
     cp_len st' = cp_len st \<and> cp_kernel_bytes st' = cp_kernel_bytes st"
proof (induction n moved st rule: splice_exact.induct)
  case (1 n moved st)
  show ?case
  proof (cases "moved < n")
    case True
    obtain r st1 where once: "splice_once (n - moved) st = (r, st1)" by fastforce
    with 1(2) True obtain m where r: "r = Inr m" and m: "m \<noteq> 0"
        and rec: "splice_exact n (moved + m) st1 = (Inr u, st')"
      by (subst (asm) splice_exact.simps) (auto split: sum.splits if_splits)
    note ok = splice_once_ok [OF once [unfolded r]]
    have "moved + m \<le> n" using ok(1) True by simp
    have IH: "n - (moved + m) \<le> length (cp_src st1) \<and>
        cp_src st' = drop (n - (moved + m)) (cp_src st1) \<and>
        cp_dst st' = cp_dst st1 @ take (n - (moved + m)) (cp_src st1) \<and> cp_tap st' = cp_tap st1 \<and>
        cp_len st' = cp_len st1 \<and> cp_kernel_bytes st' = cp_kernel_bytes st1"
      by (rule 1(1) [OF True once [symmetric] r m rec \<open>moved + m \<le> n\<close>])
    have k: "n - (moved + m) = (n - moved) - m" and k': "(n - moved) - m + m = n - moved"
      using ok(1) by simp_all
    show ?thesis
      using IH ok take_append_drop_part [OF ok(1), of "cp_src st"] unfolding k
      by (auto simp: drop_drop k' simp del: diff_diff_left)
  next
    case False
    with 1 show ?thesis by (subst (asm) splice_exact.simps) auto
  qed
qed

lemma splice_exact_refused_start: "splice_exact n moved st = (Inl Refused, st') \<Longrightarrow> moved = 0"
proof (induction n moved st rule: splice_exact.induct)
  case (1 n moved st)
  obtain r st1 where once: "splice_once (n - moved) st = (r, st1)" by fastforce
  show ?case
  proof (rule ccontr)
    assume "moved \<noteq> 0"
    with 1(2) once obtain m where "moved < n" "r = Inr m" "m \<noteq> 0"
        "splice_exact n (moved + m) st1 = (Inl Refused, st')"
      by (subst (asm) splice_exact.simps) (auto split: sum.splits if_splits)
    with 1(1) once have "moved + m = 0" by metis
    with \<open>moved \<noteq> 0\<close> show False by simp
  qed
qed

lemma splice_exact_refused:
  assumes "splice_exact n 0 st = (Inl Refused, st')"
  shows "cp_src st' = cp_src st" "cp_dst st' = cp_dst st" "cp_tap st' = cp_tap st"
    "cp_len st' = cp_len st" "cp_kernel_bytes st' = cp_kernel_bytes st"
proof -
  obtain r st1 where once: "splice_once n st = (r, st1)" by fastforce
  have "r = Inr m \<Longrightarrow> m \<noteq> 0 \<Longrightarrow> splice_exact n m st1 \<noteq> (Inl Refused, st')" for m
    using splice_exact_refused_start by fastforce
  with assms once have "st' = st1 \<and> (\<exists>e. r = Inl e)"
    by (subst (asm) splice_exact.simps) (auto split: sum.splits if_splits)
  then show "cp_src st' = cp_src st" "cp_dst st' = cp_dst st" "cp_tap st' = cp_tap st"
    "cp_len st' = cp_len st" "cp_kernel_bytes st' = cp_kernel_bytes st"
    using splice_once_err once by auto
qed

lemma tap_round_ok:
  "tap_round left data st = (Inr u, st') \<Longrightarrow>
     cp_tap st' = cp_tap st @ take left data \<and> cp_src st' = cp_src st \<and> cp_dst st' = cp_dst st \<and>
     cp_len st' = cp_len st \<and> cp_kernel_bytes st' = cp_kernel_bytes st"
proof (induction left data st rule: tap_round.induct)
  case (1 left data st)
  show ?case
  proof (cases "0 < left")
    case True
    let ?n = "min left SPLICE_CHUNK_BYTES"
    let ?st = "st\<lparr> cp_answers := tl (cp_answers st), cp_tap := cp_tap st @ take ?n data \<rparr>"
    have "next_failure (cp_answers st) = None \<and> tap_round (left - ?n) (drop ?n data) ?st = (Inr u, st')"
      using 1(2) True by (simp add: tap_round.simps [of left data st] Let_def split: option.splits)
    then have ok: "next_failure (cp_answers st) = None"
      and rec: "tap_round (left - ?n) (drop ?n data) ?st = (Inr u, st')" by blast+
    have IH: "cp_tap st' = cp_tap ?st @ take (left - ?n) (drop ?n data) \<and> cp_src st' = cp_src ?st \<and>
        cp_dst st' = cp_dst ?st \<and> cp_len st' = cp_len ?st \<and> cp_kernel_bytes st' = cp_kernel_bytes ?st"
      by (rule 1(1) [OF True refl ok rec])
    have "take ?n data @ take (left - ?n) (drop ?n data) = take left data"
      by (rule take_append_drop_part) simp
    with IH show ?thesis by simp
  next
    case False
    with 1 show ?thesis by (subst (asm) tap_round.simps) auto
  qed
qed


lemma kernel_round_progress:
  assumes "kernel_round observes want st = (Inr (Inr n), st')"
  shows "0 < n" "n \<le> want" "n \<le> length (cp_src st)" "cp_src st' = drop n (cp_src st)"
    "cp_dst st' = cp_dst st @ take n (cp_src st)"
    "cp_tap st' = (if observes then cp_tap st @ take n (cp_src st) else cp_tap st)"
    "cp_len st' = cp_len st" "cp_kernel_bytes st' = cp_kernel_bytes st"
proof -
  have "0 < n \<and> n \<le> want \<and> n \<le> length (cp_src st) \<and> cp_src st' = drop n (cp_src st) \<and>
    cp_dst st' = cp_dst st @ take n (cp_src st) \<and>
    cp_tap st' = (if observes then cp_tap st @ take n (cp_src st) else cp_tap st) \<and>
    cp_len st' = cp_len st \<and> cp_kernel_bytes st' = cp_kernel_bytes st"
  proof (cases observes)
    case True
    obtain st1 st2 where t: "tee_once want st = (Inr n, st1)" and n: "n \<noteq> 0"
        and x: "splice_exact n 0 st1 = (Inr (), st2)" and y: "tap_round n (take n (cp_src st1)) st2 = (Inr (), st')"
      using assms True
      by (auto simp: kernel_round_def split: prod.splits sum.splits if_splits splice_failure.splits)
    from tee_once_ok [OF t] tee_once_frame [OF t] splice_exact_ok [OF x] tap_round_ok [OF y] n True
    show ?thesis by simp
  next
    case False
    then have o: "splice_once want st = (Inr n, st')" and "n \<noteq> 0"
      using assms by (auto simp: kernel_round_def split: prod.splits sum.splits if_splits)
    with False splice_once_ok [OF o] show ?thesis by simp
  qed
  then show "0 < n" "n \<le> want" "n \<le> length (cp_src st)" "cp_src st' = drop n (cp_src st)"
    "cp_dst st' = cp_dst st @ take n (cp_src st)"
    "cp_tap st' = (if observes then cp_tap st @ take n (cp_src st) else cp_tap st)"
    "cp_len st' = cp_len st" "cp_kernel_bytes st' = cp_kernel_bytes st" by blast+
qed

lemma kernel_round_end:
  assumes "kernel_round observes want st = (Inr (Inl k), st')"
  shows "cp_src st' = cp_src st" "cp_dst st' = cp_dst st" "cp_tap st' = cp_tap st"
    "cp_len st' = cp_len st" "cp_kernel_bytes st' = cp_kernel_bytes st"
    "k = Eof \<Longrightarrow> 0 < want \<Longrightarrow> cp_src st = []"
proof -
  have "cp_src st' = cp_src st \<and> cp_dst st' = cp_dst st \<and> cp_tap st' = cp_tap st \<and>
    cp_len st' = cp_len st \<and> cp_kernel_bytes st' = cp_kernel_bytes st \<and>
    (k = Eof \<longrightarrow> 0 < want \<longrightarrow> cp_src st = [])"
  proof (cases observes)
    case True
    obtain r st1 where t: "tee_once want st = (r, st1)" by fastforce
    show ?thesis
    proof (cases r)
      case (Inl e)
      with t True assms tee_once_frame [OF t] show ?thesis
        by (auto simp: kernel_round_def split: if_splits)
    next
      case (Inr n)
      show ?thesis
      proof (cases "n = 0")
        case True
        with \<open>observes\<close> t Inr assms tee_once_frame [OF t] tee_once_ok [OF t [unfolded Inr]] show ?thesis
          by (auto simp: kernel_round_def)
      next
        case False
        with \<open>observes\<close> t Inr assms have "k = KUnsupported" "splice_exact n 0 st1 = (Inl Refused, st')"
          by (auto simp: kernel_round_def split: prod.splits sum.splits splice_failure.splits)
        with splice_exact_refused [OF this(2)] tee_once_frame [OF t] show ?thesis by simp
      qed
    qed
  next
    case False
    obtain r st1 where o: "splice_once want st = (r, st1)" by fastforce
    show ?thesis
    proof (cases r)
      case (Inl e)
      with o False assms splice_once_err [of want st e st1] show ?thesis
        by (auto simp: kernel_round_def split: if_splits)
    next
      case (Inr n)
      with o False assms splice_once_ok [of want st n st1] show ?thesis
        by (auto simp: kernel_round_def split: if_splits)
    qed
  qed
  then show "cp_src st' = cp_src st" "cp_dst st' = cp_dst st" "cp_tap st' = cp_tap st"
    "cp_len st' = cp_len st" "cp_kernel_bytes st' = cp_kernel_bytes st"
    "k = Eof \<Longrightarrow> 0 < want \<Longrightarrow> cp_src st = []" by blast+
qed


function kernel_loop :: "bool \<Rightarrow> nat \<Rightarrow> copy_state \<Rightarrow> (payload_error + kernel_end) \<times> copy_state" where
  "kernel_loop observes limit st =
     (let want = min (allowance limit - cp_len st) SPLICE_ROUND_BYTES in
      case kernel_round observes want st of
        (Inl e, st') \<Rightarrow> (Inl e, st')
      | (Inr (Inl k), st') \<Rightarrow> (Inr k, st')
      | (Inr (Inr n), st') \<Rightarrow>
          (let st'' = st'\<lparr> cp_len := cp_len st' + n, cp_kernel_bytes := cp_kernel_bytes st' + n \<rparr>
           in if limit < cp_len st'' then (Inl (TooLarge limit), st'')
              else kernel_loop observes limit st''))"
  by pat_completeness auto
termination
proof (relation "measure (\<lambda>(observes, limit, st). length (cp_src st))")
  fix observes limit st want r st' rr n st''
  assume "(r, st') = kernel_round observes want st" and "r = Inr rr" and "rr = Inr n"
    and "st'' = st'\<lparr> cp_len := cp_len st' + n, cp_kernel_bytes := cp_kernel_bytes st' + n \<rparr>"
  then show "((observes, limit, st''), observes, limit, st)
      \<in> measure (\<lambda>(observes, limit, st). length (cp_src st))"
    using kernel_round_progress [of observes want st n st'] by auto
qed simp

declare kernel_loop.simps [simp del]

section \<open>The buffered path\<close>

text \<open>
  \<^verbatim>\<open>src.read\<close> into the stack buffer, \<^verbatim>\<open>dst.write_all\<close> of what came, then the tap. A failed write may
  have written any prefix; the partial copy is the caller's to discard, and the model keeps none.
\<close>

function buffered_loop :: "bool \<Rightarrow> nat \<Rightarrow> copy_state \<Rightarrow> (payload_error + unit) \<times> copy_state" where
  "buffered_loop observes limit st =
     (let want = min (allowance limit - cp_len st) SPLICE_CHUNK_BYTES in
      case transfer (cp_answers st) want (length (cp_src st)) of
        (Inl e, as) \<Rightarrow> (Inl (PIo (sys_io e)), st\<lparr> cp_answers := as \<rparr>)
      | (Inr n, as) \<Rightarrow>
          if n = 0 then (Inr (), st\<lparr> cp_answers := as \<rparr>)
          else
            (let chunk = take n (cp_src st);
                 st1 = st\<lparr> cp_answers := tl as, cp_src := drop n (cp_src st) \<rparr>
             in case next_failure as of
                  Some e \<Rightarrow> (Inl (PIo e), st1)
                | None \<Rightarrow>
                    (let st2 = st1\<lparr> cp_dst := cp_dst st @ chunk,
                                    cp_tap := (if observes then cp_tap st @ chunk else cp_tap st),
                                    cp_len := cp_len st + n \<rparr>
                     in if limit < cp_len st2 then (Inl (TooLarge limit), st2)
                        else buffered_loop observes limit st2)))"
  by pat_completeness auto
termination
  by (relation "measure (\<lambda>(observes, limit, st). length (cp_src st))")
    (auto dest!: transfer_bound [OF sym])

declare buffered_loop.simps [simp del]

record copied =
  copied_len :: nat
  copied_kernel_bytes :: nat

definition finish :: "copy_state \<Rightarrow> payload_error + copied" where
  "finish st =
     (if cp_len st = 0 then Inl PEmpty
      else Inr \<lparr> copied_len = cp_len st, copied_kernel_bytes = cp_kernel_bytes st \<rparr>)"

text \<open>\<^verbatim>\<open>buffered_loop(..)?; finish(copied)\<close>.\<close>

definition buffered_finish :: "bool \<Rightarrow> nat \<Rightarrow> copy_state \<Rightarrow> (payload_error + copied) \<times> copy_state" where
  "buffered_finish observes limit st =
     (case buffered_loop observes limit st of
        (Inl e, st') \<Rightarrow> (Inl e, st')
      | (Inr _, st') \<Rightarrow> (finish st', st'))"

definition copy_to_file_buffered ::
    "bool \<Rightarrow> nat \<Rightarrow> copy_state \<Rightarrow> (payload_error + copied) \<times> copy_state" where
  "copy_to_file_buffered observes limit st =
     buffered_finish observes limit (st\<lparr> cp_len := 0, cp_kernel_bytes := 0 \<rparr>)"

text \<open>
  \<open>is_pipe\<close> is the answer of the \<^verbatim>\<open>fstat\<close>, \<open>scratch_ok\<close> whether the scratch pipe could be made.
\<close>

definition copy_to_file ::
    "io_error + bool \<Rightarrow> bool \<Rightarrow> bool \<Rightarrow> nat \<Rightarrow> copy_state \<Rightarrow> (payload_error + copied) \<times> copy_state" where
  "copy_to_file is_pipe scratch_ok observes limit st0 =
     (let st = st0\<lparr> cp_len := 0, cp_kernel_bytes := 0 \<rparr>
      in case is_pipe of
           Inl e \<Rightarrow> (Inl (PIo e), st)
         | Inr False \<Rightarrow> buffered_finish observes limit st
         | Inr True \<Rightarrow>
             if observes \<and> \<not> scratch_ok then buffered_finish observes limit st
             else (case kernel_loop observes limit st of
                     (Inl e, st') \<Rightarrow> (Inl e, st')
                   | (Inr Eof, st') \<Rightarrow> (finish st', st')
                   | (Inr KUnsupported, st') \<Rightarrow> buffered_finish observes limit st'))"

section \<open>Every byte exactly once, in order, on every path\<close>

text \<open>The state between rounds: everything copied so far is a prefix of the stream.\<close>

definition copying :: "bytes \<Rightarrow> bytes \<Rightarrow> bytes \<Rightarrow> bool \<Rightarrow> nat \<Rightarrow> copy_state \<Rightarrow> bool" where
  "copying data dst0 tap0 observes limit st \<longleftrightarrow>
     cp_len st \<le> length data \<and> cp_len st \<le> limit \<and> cp_src st = drop (cp_len st) data \<and>
     cp_dst st = dst0 @ take (cp_len st) data \<and>
     cp_tap st = (if observes then tap0 @ take (cp_len st) data else tap0) \<and>
     cp_kernel_bytes st \<le> cp_len st"

lemma allowance_pos: "limit < u64_max \<Longrightarrow> n \<le> limit \<Longrightarrow> 0 < allowance limit - n"
  by (simp add: allowance_def sat_add_exact)

lemma copying_advance:
  assumes "copying data dst0 tap0 observes limit st" and "n \<le> length (cp_src st)"
    and "cp_src st' = drop n (cp_src st)" and "cp_dst st' = cp_dst st @ take n (cp_src st)"
    and "cp_tap st' = (if observes then cp_tap st @ take n (cp_src st) else cp_tap st)"
    and "cp_len st' = cp_len st + n" and "cp_kernel_bytes st' \<le> cp_kernel_bytes st + n"
    and "cp_len st + n \<le> limit"
  shows "copying data dst0 tap0 observes limit st'"
proof -
  have "drop n (drop (cp_len st) data) = drop (cp_len st + n) data" by (simp add: add.commute)
  with assms show ?thesis by (auto simp: copying_def take_add)
qed

definition ends_well :: "bytes \<Rightarrow> nat \<Rightarrow> payload_error \<Rightarrow> bool" where
  "ends_well data limit e =
     (case e of PEmpty \<Rightarrow> data = [] | TooLarge l \<Rightarrow> l = limit \<and> limit < length data | PIo _ \<Rightarrow> True)"

lemma kernel_loop_outcome:
  "limit < u64_max \<Longrightarrow> copying data dst0 tap0 observes limit st \<Longrightarrow> kernel_loop observes limit st = (r, st') \<Longrightarrow>
    (case r of Inl e \<Rightarrow> ends_well data limit e \<and> e \<noteq> PEmpty
     | Inr k \<Rightarrow> copying data dst0 tap0 observes limit st' \<and> (k = Eof \<longrightarrow> cp_src st' = []))"
proof (induction observes limit st rule: kernel_loop.induct)
  case (1 observes limit st)
  let ?want = "min (allowance limit - cp_len st) SPLICE_ROUND_BYTES"
  have len: "cp_len st \<le> limit" using 1(3) by (simp add: copying_def)
  obtain q st1 where round: "kernel_round observes ?want st = (q, st1)" by fastforce
  consider (err) e where "q = Inl e" | (fin) k where "q = Inr (Inl k)" | (go) n where "q = Inr (Inr n)"
    by (metis sum.exhaust)
  then show ?case
  proof cases
    case err
    have "e \<noteq> PEmpty" "e \<noteq> TooLarge l" for l
      using round err
      by (auto simp: kernel_round_def split: prod.splits sum.splits if_splits splice_failure.splits)
    moreover have "r = Inl e" using 1(4) round err by (simp add: kernel_loop.simps [of observes limit st])
    ultimately show ?thesis by (auto simp: ends_well_def split: payload_error.splits)
  next
    case fin
    have "0 < ?want" using allowance_pos [OF 1(2) len] by (simp add: const_defs)
    moreover have "r = Inr k" "st' = st1"
      using 1(4) round fin by (simp_all add: kernel_loop.simps [of observes limit st])
    ultimately show ?thesis
      using 1(3) kernel_round_end [OF round [unfolded fin]] by (simp add: copying_def)
  next
    case go
    let ?st = "st1\<lparr> cp_len := cp_len st1 + n, cp_kernel_bytes := cp_kernel_bytes st1 + n \<rparr>"
    note ok = kernel_round_progress [OF round [unfolded go]]
    show ?thesis
    proof (cases "limit < cp_len ?st")
      case True
      then have "r = Inl (TooLarge limit)"
        using 1(4) round go by (simp add: kernel_loop.simps [of observes limit st] Let_def)
      with True ok 1(3) show ?thesis by (auto simp: ends_well_def copying_def)
    next
      case False
      have "copying data dst0 tap0 observes limit ?st"
        using False ok by (intro copying_advance [OF 1(3), of n]) auto
      moreover have "kernel_loop observes limit ?st = (r, st')"
        using 1(4) round go False by (simp add: kernel_loop.simps [of observes limit st] Let_def)
      ultimately show ?thesis
        using 1(1) [OF refl round [symmetric] go refl refl False 1(2)] by blast
    qed
  qed
qed

lemma buffered_loop_outcome:
  "limit < u64_max \<Longrightarrow> copying data dst0 tap0 observes limit st \<Longrightarrow> buffered_loop observes limit st = (r, st') \<Longrightarrow>
    (case r of Inl e \<Rightarrow> ends_well data limit e \<and> e \<noteq> PEmpty
     | Inr k \<Rightarrow> copying data dst0 tap0 observes limit st' \<and> cp_src st' = [])"
proof (induction observes limit st rule: buffered_loop.induct)
  case (1 observes limit st)
  let ?want = "min (allowance limit - cp_len st) SPLICE_CHUNK_BYTES"
  have len: "cp_len st \<le> limit" using 1(3) by (simp add: copying_def)
  have want: "0 < ?want" using allowance_pos [OF 1(2) len] by (simp add: const_defs)
  obtain q as where t: "transfer (cp_answers st) ?want (length (cp_src st)) = (q, as)" by fastforce
  note unfold = buffered_loop.simps [of observes limit st]
  show ?case
  proof (cases q)
    case (Inl e)
    then show ?thesis using 1(4) t by (auto simp: unfold ends_well_def)
  next
    case (Inr n)
    note b = transfer_bound [OF t [unfolded Inr]]
    let ?st1 = "st\<lparr> cp_answers := tl as, cp_src := drop n (cp_src st) \<rparr>"
    let ?st2 = "?st1\<lparr> cp_dst := cp_dst st @ take n (cp_src st),
        cp_tap := (if observes then cp_tap st @ take n (cp_src st) else cp_tap st), cp_len := cp_len st + n \<rparr>"
    consider (eof) "n = 0" | (wr) e where "n \<noteq> 0" "next_failure as = Some e"
      | (over) "n \<noteq> 0" "next_failure as = None" "limit < cp_len ?st2"
      | (go) "n \<noteq> 0" "next_failure as = None" "\<not> limit < cp_len ?st2"
      by fastforce
    then show ?thesis
    proof cases
      case eof
      with Inr t transfer_zero want have "cp_src st = []" by blast
      moreover have "r = Inr ()" "st' = st\<lparr> cp_answers := as \<rparr>" using 1(4) t Inr eof by (simp_all add: unfold)
      ultimately show ?thesis using 1(3) by (simp add: copying_def)
    next
      case wr
      then have "r = Inl (PIo e)" using 1(4) t Inr by (simp add: unfold Let_def)
      then show ?thesis by (simp add: ends_well_def)
    next
      case over
      then have "r = Inl (TooLarge limit)" using 1(4) t Inr by (simp add: unfold Let_def)
      then show ?thesis using over b 1(3) by (auto simp: ends_well_def copying_def)
    next
      case go
      have "copying data dst0 tap0 observes limit ?st2"
        using go b by (intro copying_advance [OF 1(3), of n]) auto
      moreover have "buffered_loop observes limit ?st2 = (r, st')"
        using 1(4) t Inr go by (simp add: unfold Let_def)
      ultimately show ?thesis
        using 1(1) [OF refl t [symmetric] Inr go(1) refl refl go(2) refl go(3) 1(2)] by blast
    qed
  qed
qed


section \<open>A kernel without failures delivers\<close>

definition benign :: "kernel_answer list \<Rightarrow> bool" where
  "benign as = list_all (\<lambda>a. case a of KMove _ \<Rightarrow> True | KIntr \<Rightarrow> True | _ \<Rightarrow> False) as"

lemma benign_tl: "benign as \<Longrightarrow> benign (tl as)"
  by (cases as) (simp_all add: benign_def)

lemma benign_next: "benign as \<Longrightarrow> next_failure as = None"
  by (auto simp: benign_def next_failure_def split: list.splits kernel_answer.splits)

lemma benign_transfer: "benign as \<Longrightarrow> transfer as len avail = (r, as') \<Longrightarrow> (\<exists>n. r = Inr n) \<and> benign as'"
  by (induction as len avail rule: transfer.induct) (auto simp: benign_def)

lemma benign_splice_once:
  "benign (cp_answers st) \<Longrightarrow> splice_once len st = (r, st') \<Longrightarrow> (\<exists>n. r = Inr n) \<and> benign (cp_answers st')"
  using benign_transfer by (fastforce simp: splice_once_def split: prod.splits sum.splits)

lemma benign_splice_exact:
  "benign (cp_answers st) \<Longrightarrow> n - moved \<le> length (cp_src st) \<Longrightarrow> splice_exact n moved st = (r, st') \<Longrightarrow>
     r = Inr () \<and> benign (cp_answers st')"
proof (induction n moved st rule: splice_exact.induct)
  case (1 n moved st)
  show ?case
  proof (cases "moved < n")
    case True
    obtain q st1 where once: "splice_once (n - moved) st = (q, st1)" by fastforce
    obtain m where q: "q = Inr m" and b: "benign (cp_answers st1)"
      using benign_splice_once [OF 1(2) once] by blast
    note ok = splice_once_ok [OF once [unfolded q]]
    have "m \<noteq> 0" using ok(8) True 1(3) by (cases "m = 0") simp_all
    moreover have "splice_exact n (moved + m) st1 = (r, st')"
      using 1(4) True once q \<open>m \<noteq> 0\<close> by (simp add: splice_exact.simps [of n moved st])
    moreover have "n - (moved + m) \<le> length (cp_src st1)" using ok 1(3) by simp
    ultimately show ?thesis using 1(1) [OF True once [symmetric] q] b by blast
  next
    case False
    with 1 show ?thesis by (simp add: splice_exact.simps [of n moved st])
  qed
qed

lemma benign_tap_round:
  "benign (cp_answers st) \<Longrightarrow> tap_round left data st = (r, st') \<Longrightarrow> r = Inr () \<and> benign (cp_answers st')"
proof (induction left data st rule: tap_round.induct)
  case (1 left data st)
  show ?case
  proof (cases "0 < left")
    case True
    have ok: "next_failure (cp_answers st) = None" using 1(2) by (rule benign_next)
    show ?thesis
      by (rule 1(1) [OF True refl ok])
        (use 1 True ok in \<open>simp_all add: benign_tl tap_round.simps [of left data st] Let_def\<close>)
  next
    case False
    with 1 show ?thesis by (simp add: tap_round.simps [of left data st])
  qed
qed

lemma benign_kernel_round:
  assumes "benign (cp_answers st)" and "kernel_round observes want st = (r, st')"
  shows "r = Inr (Inl Eof) \<or> (\<exists>n. r = Inr (Inr n)) \<and> benign (cp_answers st')"
proof (cases observes)
  case True
  obtain q st1 where t: "tee_once want st = (q, st1)" by fastforce
  obtain n where q: "q = Inr n" and b: "benign (cp_answers st1)"
    using benign_transfer [OF assms(1)] t by (fastforce simp: tee_once_def split: prod.splits)
  obtain q2 st2 where x: "splice_exact n 0 st1 = (q2, st2)" by fastforce
  obtain q3 st3 where y: "tap_round n (take n (cp_src st1)) st2 = (q3, st3)" by fastforce
  have "n \<le> length (cp_src st1)"
    using tee_once_ok [OF t [unfolded q]] tee_once_frame [OF t] by simp
  then have b2: "q2 = Inr ()" "benign (cp_answers st2)" using benign_splice_exact [OF b _ x] by auto
  with benign_tap_round [OF b2(2) y] True t q x y assms(2) show ?thesis
    by (auto simp: kernel_round_def split: if_splits)
next
  case False
  obtain q st1 where o: "splice_once want st = (q, st1)" by fastforce
  with benign_splice_once [OF assms(1) o] False assms(2) show ?thesis
    by (auto simp: kernel_round_def split: if_splits)
qed

lemma benign_kernel_loop:
  "benign (cp_answers st) \<Longrightarrow> kernel_loop observes limit st = (r, st') \<Longrightarrow>
     r = Inr Eof \<or> r = Inl (TooLarge limit)"
proof (induction observes limit st rule: kernel_loop.induct)
  case (1 observes limit st)
  let ?want = "min (allowance limit - cp_len st) SPLICE_ROUND_BYTES"
  obtain q st1 where round: "kernel_round observes ?want st = (q, st1)" by fastforce
  note unfold = kernel_loop.simps [of observes limit st]
  from benign_kernel_round [OF 1(2) round] show ?case
  proof
    assume "q = Inr (Inl Eof)"
    with 1(3) round show ?thesis by (simp add: unfold)
  next
    assume "(\<exists>n. q = Inr (Inr n)) \<and> benign (cp_answers st1)"
    then obtain n where q: "q = Inr (Inr n)" and b: "benign (cp_answers st1)" by blast
    let ?st = "st1\<lparr> cp_len := cp_len st1 + n, cp_kernel_bytes := cp_kernel_bytes st1 + n \<rparr>"
    show ?thesis
    proof (cases "limit < cp_len ?st")
      case True
      with 1(3) round q show ?thesis by (simp add: unfold Let_def)
    next
      case False
      with 1(3) round q have "kernel_loop observes limit ?st = (r, st')" by (simp add: unfold Let_def)
      with 1(1) [OF refl round [symmetric] q refl refl False] b show ?thesis by simp
    qed
  qed
qed

lemma benign_buffered_loop:
  "benign (cp_answers st) \<Longrightarrow> buffered_loop observes limit st = (r, st') \<Longrightarrow>
     r = Inr () \<or> r = Inl (TooLarge limit)"
proof (induction observes limit st rule: buffered_loop.induct)
  case (1 observes limit st)
  let ?want = "min (allowance limit - cp_len st) SPLICE_CHUNK_BYTES"
  obtain q as where t: "transfer (cp_answers st) ?want (length (cp_src st)) = (q, as)" by fastforce
  obtain n where q: "q = Inr n" and b: "benign as" using benign_transfer [OF 1(2) t] by blast
  let ?st2 = "st\<lparr> cp_answers := tl as, cp_src := drop n (cp_src st), cp_dst := cp_dst st @ take n (cp_src st),
      cp_tap := (if observes then cp_tap st @ take n (cp_src st) else cp_tap st), cp_len := cp_len st + n \<rparr>"
  note unfold = buffered_loop.simps [of observes limit st]
  show ?case
  proof (cases "n = 0 \<or> limit < cp_len st + n")
    case True
    with 1(3) t q benign_next [OF b] show ?thesis by (auto simp: unfold Let_def split: if_splits)
  next
    case False
    then have n: "n \<noteq> 0" and over: "\<not> limit < cp_len ?st2" by simp_all
    have "buffered_loop observes limit ?st2 = (r, st')"
      using 1(3) t q n over benign_next [OF b] by (simp add: unfold Let_def)
    with 1(1) [OF refl t [symmetric] q n refl refl benign_next [OF b] refl] over benign_tl [OF b]
    show ?thesis by simp
  qed
qed


section \<open>The copy as a whole\<close>

definition copy_start :: "bytes \<Rightarrow> kernel_answer list \<Rightarrow> copy_state" where
  "copy_start data as =
     \<lparr> cp_src = data, cp_dst = [], cp_tap = [], cp_answers = as, cp_len = 0, cp_kernel_bytes = 0 \<rparr>"

lemma copying_start: "copying data [] [] observes limit (copy_start data as)"
  by (simp add: copying_def copy_start_def)

lemma copy_start_reset [simp]:
  "(copy_start data as)\<lparr> cp_len := 0, cp_kernel_bytes := 0 \<rparr> = copy_start data as"
  by (simp add: copy_start_def)

definition copy_complete :: "bytes \<Rightarrow> bool \<Rightarrow> copied \<Rightarrow> copy_state \<Rightarrow> bool" where
  "copy_complete data observes c st \<longleftrightarrow>
     copied_len c = length data \<and> copied_kernel_bytes c \<le> copied_len c \<and> cp_dst st = data \<and>
     cp_tap st = (if observes then data else [])"

definition copy_outcome :: "bytes \<Rightarrow> bool \<Rightarrow> nat \<Rightarrow> (payload_error + copied) \<times> copy_state \<Rightarrow> bool" where
  "copy_outcome data observes limit res =
     (case res of
        (Inr c, st) \<Rightarrow> copy_complete data observes c st \<and> data \<noteq> [] \<and> length data \<le> limit
      | (Inl e, st) \<Rightarrow> ends_well data limit e \<and> (e = PEmpty \<longrightarrow> cp_dst st = [] \<and> cp_tap st = []))"

lemma finish_outcome:
  assumes "copying data [] [] observes limit st" and "cp_src st = []"
  shows "copy_outcome data observes limit (finish st, st)"
  using assms by (auto simp: copying_def finish_def copy_outcome_def copy_complete_def ends_well_def)

lemma buffered_outcome:
  assumes "limit < u64_max" and "copying data [] [] observes limit st"
  shows "copy_outcome data observes limit (buffered_finish observes limit st)"
proof -
  obtain r st' where b: "buffered_loop observes limit st = (r, st')" by fastforce
  show ?thesis
    using buffered_loop_outcome [OF assms b] finish_outcome [of data observes limit st'] b
    by (cases r) (auto simp: buffered_finish_def copy_outcome_def)
qed

lemma copy_to_file_kernel:
  "(observes \<longrightarrow> scratch_ok) \<Longrightarrow> copy_to_file (Inr True) scratch_ok observes limit (copy_start data as) =
     (case kernel_loop observes limit (copy_start data as) of
        (Inl e, st') \<Rightarrow> (Inl e, st')
      | (Inr Eof, st') \<Rightarrow> (finish st', st')
      | (Inr KUnsupported, st') \<Rightarrow> buffered_finish observes limit st')"
  by (auto simp: copy_to_file_def Let_def)

lemma copy_to_file_plain:
  "\<not> (observes \<longrightarrow> scratch_ok) \<Longrightarrow> copy_to_file (Inr True) scratch_ok observes limit (copy_start data as) =
     buffered_finish observes limit (copy_start data as)"
  "copy_to_file (Inr False) scratch_ok observes limit (copy_start data as) =
     buffered_finish observes limit (copy_start data as)"
  "copy_to_file (Inl e) scratch_ok observes limit (copy_start data as) = (Inl (PIo e), copy_start data as)"
  by (simp_all add: copy_to_file_def Let_def)

lemma is_pipe_cases:
  obtains (kernel) "is_pipe = Inr True" "observes \<longrightarrow> scratch_ok"
  | (plain) b where "is_pipe = Inr b" "\<not> (b \<and> (observes \<longrightarrow> scratch_ok))"
  | (stat) e where "is_pipe = Inl (e :: io_error)"
  by (cases is_pipe) auto

lemma copy_to_file_outcome:
  assumes lim: "limit < u64_max"
  shows "copy_outcome data observes limit (copy_to_file is_pipe scratch_ok observes limit (copy_start data as))"
proof (cases rule: is_pipe_cases [of is_pipe observes scratch_ok])
  case kernel
  obtain r st' where k: "kernel_loop observes limit (copy_start data as) = (r, st')" by fastforce
  note out = kernel_loop_outcome [OF lim copying_start k]
  show ?thesis
  proof (cases r)
    case (Inl e)
    with k out show ?thesis by (simp add: kernel copy_to_file_kernel copy_outcome_def)
  next
    case (Inr ke)
    with k out finish_outcome [of data observes limit st'] buffered_outcome [OF lim, of data observes st']
    show ?thesis by (cases ke) (simp_all add: kernel copy_to_file_kernel)
  qed
next
  case (plain b)
  then show ?thesis
    using buffered_outcome [OF lim copying_start, of data observes as]
    by (cases b) (simp_all add: copy_to_file_plain)
next
  case stat
  then show ?thesis by (simp add: copy_to_file_plain copy_outcome_def ends_well_def)
qed

text \<open>
  The kernel serves the copy when no call fails: short transfers and interruptions only, possibly
  after one refusal of the very first call on the kernel path (the pair cannot be spliced).
\<close>

definition kernel_serves :: "io_error + bool \<Rightarrow> bool \<Rightarrow> bool \<Rightarrow> kernel_answer list \<Rightarrow> bool" where
  "kernel_serves is_pipe scratch_ok observes as \<longleftrightarrow>
     is_pipe \<noteq> Inr True \<and> (\<exists>b. is_pipe = Inr b) \<and> benign as \<or>
     is_pipe = Inr True \<and> (benign as \<or>
       (observes \<longrightarrow> scratch_ok) \<and> as \<noteq> [] \<and> hd as = KRefuse \<and> benign (tl as))"

lemma kernel_loop_refused:
  "kernel_loop observes limit (copy_start data (KRefuse # as)) = (Inr KUnsupported, copy_start data as)"
  by (subst kernel_loop.simps, cases observes)
    (simp_all add: kernel_round_def tee_once_def splice_once_def copy_start_def is_unsupported_def Let_def)

lemma finish_no_io: "finish st \<noteq> Inl (PIo e)"
  by (simp add: finish_def)

lemma buffered_delivers:
  assumes "benign as"
  shows "fst (buffered_finish observes limit (copy_start data as)) \<noteq> Inl (PIo e)"
proof -
  obtain r st' where b: "buffered_loop observes limit (copy_start data as) = (r, st')" by fastforce
  have "benign (cp_answers (copy_start data as))" using assms by (simp add: copy_start_def)
  from benign_buffered_loop [OF this b] b show ?thesis
    by (auto simp: buffered_finish_def finish_no_io)
qed

lemma copy_to_file_delivers:
  assumes serves: "kernel_serves is_pipe scratch_ok observes as"
  shows "fst (copy_to_file is_pipe scratch_ok observes limit (copy_start data as)) \<noteq> Inl (PIo e)"
proof (cases rule: is_pipe_cases [of is_pipe observes scratch_ok])
  case kernel
  from serves kernel consider (ok) "benign as" | (refused) as' where "as = KRefuse # as'" "benign as'"
    by (cases as) (auto simp: kernel_serves_def)
  then show ?thesis
  proof cases
    case ok
    then have b: "benign (cp_answers (copy_start data as))" by (simp add: copy_start_def)
    obtain r st' where k: "kernel_loop observes limit (copy_start data as) = (r, st')" by fastforce
    from benign_kernel_loop [OF b k] k show ?thesis
      by (auto simp: kernel copy_to_file_kernel finish_no_io)
  next
    case refused
    then show ?thesis
      by (simp add: kernel copy_to_file_kernel kernel_loop_refused buffered_delivers)
  qed
next
  case (plain b)
  with serves have "benign as" by (auto simp: kernel_serves_def)
  with plain show ?thesis by (cases b) (simp_all add: copy_to_file_plain buffered_delivers)
next
  case stat
  with serves show ?thesis by (simp add: kernel_serves_def)
qed

text \<open>C22: \<^verbatim>\<open>copy_to_file\<close> shows the tap every byte of the stream exactly once and in order and leaves the
  same bytes in the destination, however the kernel splits, interrupts or refuses the transfers and
  wherever the switch from \<^verbatim>\<open>splice\<close> to the buffered path happens; it reports an empty stream and a
  stream over the limit as such, never as a shorter copy; and when no call fails it does return the
  copy or one of these two verdicts.\<close>

theorem copy_to_file_exact:
  assumes "limit < u64_max"
  shows "(case copy_to_file is_pipe scratch_ok observes limit (copy_start data as) of
       (Inr c, st) \<Rightarrow> copied_len c = length data \<and> copied_kernel_bytes c \<le> copied_len c \<and>
         cp_dst st = data \<and> cp_tap st = (if observes then data else []) \<and>
         data \<noteq> [] \<and> length data \<le> limit
     | (Inl PEmpty, st) \<Rightarrow> data = []
     | (Inl (TooLarge l), st) \<Rightarrow> l = limit \<and> limit < length data
     | (Inl (PIo e), st) \<Rightarrow> \<not> kernel_serves is_pipe scratch_ok observes as)"
proof -
  obtain r st where c: "copy_to_file is_pipe scratch_ok observes limit (copy_start data as) = (r, st)"
    by fastforce
  show ?thesis
    using copy_to_file_outcome [OF assms, of data observes is_pipe scratch_ok as]
      copy_to_file_delivers [of is_pipe scratch_ok observes as limit data]
    unfolding c
    by (auto simp: copy_outcome_def copy_complete_def ends_well_def split: sum.splits payload_error.splits)
qed

theorem copy_to_file_witness:
  "(case copy_to_file (Inr True) True True 4 (copy_start ''abc'' [KRefuse, KMove 2, KIntr]) of
      (Inr c, st) \<Rightarrow> copied_len c = 3 \<and> cp_dst st = ''abc'' \<and> cp_tap st = ''abc''
    | _ \<Rightarrow> False)"
  using copy_to_file_exact [where limit = 4 and observes = True and data = "''abc''" and
      is_pipe = "Inr True" and scratch_ok = True and as = "[KRefuse, KMove 2, KIntr]"]
  by (auto simp: u64_max_def kernel_serves_def benign_def split: prod.splits sum.splits payload_error.splits)

section \<open>Moving a whole stream\<close>

function splice_all_from :: "nat \<Rightarrow> copy_state \<Rightarrow> (io_error + nat option) \<times> copy_state" where
  "splice_all_from tot st =
     (case try_splice PIPELINE_CHUNK_BYTES st of
        (Inl e, st') \<Rightarrow> (Inl e, st')
      | (Inr None, st') \<Rightarrow>
          if tot = 0 then (Inr None, st')
          else (Inl (OtherError ''splice became unsupported''), st')
      | (Inr (Some moved), st') \<Rightarrow>
          if moved = 0 then (Inr (Some tot), st') else splice_all_from (tot + moved) st')"
  by pat_completeness auto
termination
proof (relation "measure (\<lambda>(tot, st). length (cp_src st))")
  fix tot st r st' ro moved
  assume "(r, st') = try_splice PIPELINE_CHUNK_BYTES st" and "r = Inr ro" and "ro = Some moved"
    and "moved \<noteq> 0"
  then have "splice_once PIPELINE_CHUNK_BYTES st = (Inr moved, st')"
    by (auto simp: try_splice_def split: if_splits prod.splits sum.splits sys_error.splits)
  from splice_once_ok [OF this] \<open>moved \<noteq> 0\<close>
  show "((tot + moved, st'), tot, st) \<in> measure (\<lambda>(tot, st). length (cp_src st))" by auto
qed simp

definition splice_all :: "copy_state \<Rightarrow> (io_error + nat option) \<times> copy_state" where
  "splice_all st = splice_all_from 0 st"


lemma splice_all_from_spec:
  "splice_all_from tot st = (r, st') \<Longrightarrow>
     (case r of
        Inr (Some n) \<Rightarrow> n = tot + length (cp_src st) \<and> cp_dst st' = cp_dst st @ cp_src st \<and> cp_src st' = []
      | Inr None \<Rightarrow> tot = 0 \<and> cp_src st' = cp_src st \<and> cp_dst st' = cp_dst st
      | Inl e \<Rightarrow> True)"
proof (induction tot st rule: splice_all_from.induct)
  case (1 tot st)
  note unfold = splice_all_from.simps [of tot st]
  have pos: "0 < PIPELINE_CHUNK_BYTES" by (simp add: const_defs)
  obtain q st1 where t: "try_splice PIPELINE_CHUNK_BYTES st = (q, st1)" by fastforce
  consider (err) e where "q = Inl e" | (refused) "q = Inr None" | (moved) n where "q = Inr (Some n)"
    by (metis sum.exhaust option.exhaust)
  then show ?case
  proof cases
    case err
    with 1(2) t show ?thesis by (auto simp: unfold simp del: splice_all_from.simps)
  next
    case refused
    then obtain e where o: "splice_once PIPELINE_CHUNK_BYTES st = (Inl e, st1)"
      using t pos by (auto simp: try_splice_def split: if_splits prod.splits sum.splits sys_error.splits)
    show ?thesis
      using 1(2) t refused splice_once_err [OF o] by (auto simp: unfold simp del: splice_all_from.simps split: if_splits)
  next
    case moved
    then have o: "splice_once PIPELINE_CHUNK_BYTES st = (Inr n, st1)"
      using t pos by (auto simp: try_splice_def split: if_splits prod.splits sum.splits sys_error.splits)
    note ok = splice_once_ok [OF o]
    show ?thesis
    proof (cases "n = 0")
      case True
      with ok(8) pos have "cp_src st = []" by simp
      then show ?thesis using 1(2) t moved True ok by (auto simp: unfold simp del: splice_all_from.simps)
    next
      case False
      then have "splice_all_from (tot + n) st1 = (r, st')"
        using 1(2) t moved by (simp add: unfold del: splice_all_from.simps)
      from 1(1) [OF t [symmetric] moved refl False this] ok show ?thesis
        using False by (auto split: sum.splits option.splits)
    qed
  qed
qed

lemma splice_all_spec:
  assumes "splice_all st = (r, st')"
  shows "(case r of
        Inr (Some n) \<Rightarrow> n = length (cp_src st) \<and> cp_dst st' = cp_dst st @ cp_src st \<and> cp_src st' = []
      | Inr None \<Rightarrow> cp_src st' = cp_src st \<and> cp_dst st' = cp_dst st
      | Inl e \<Rightarrow> True)"
  using splice_all_from_spec [of 0 st r st'] assms
  by (auto simp: splice_all_def simp del: splice_all_from.simps split: sum.splits option.splits)

end
