(* ===== verification/Pipe.thy ===== *)
theory Pipe
  imports Constants
begin

text \<open>
  \<^verbatim>\<open>crates/core/src/pipe.rs\<close>: raising a pipe's capacity. The kernel is two answer functions of the
  attempt number: \<open>set_ans\<close> for \<^verbatim>\<open>F_SETPIPE_SZ\<close> (given the size asked for) and \<open>cap_ans\<close> for
  \<^verbatim>\<open>F_GETPIPE_SZ\<close> (\<open>None\<close> when the descriptor is not a pipe). The sizes asked for are recorded.
\<close>

datatype set_answer = SetTo nat | SetEperm | SetEnomem | SetEintr | SetOther

definition MAX_ATTEMPTS :: nat where "MAX_ATTEMPTS = 16"

definition c_int_max :: nat where "c_int_max = 2 ^ 31 - 1"

text \<open>The \<^verbatim>\<open>for\<close> loop: \<open>left\<close> attempts remain, \<open>i\<close> is the number of calls made so far.\<close>

fun grow_loop ::
    "(nat \<Rightarrow> nat \<Rightarrow> set_answer) \<Rightarrow> (nat \<Rightarrow> nat option) \<Rightarrow> nat \<Rightarrow> nat \<Rightarrow> nat \<Rightarrow> nat \<Rightarrow> nat \<times> nat list" where
  "grow_loop set_ans cap_ans 0 i ask current = (current, [])"
| "grow_loop set_ans cap_ans (Suc left) i ask current =
     (if ask \<le> current then (current, [])
      else if c_int_max < ask then grow_loop set_ans cap_ans left i (ask div 2) current
      else
        let current' = (case cap_ans (Suc i) of Some c \<Rightarrow> c | None \<Rightarrow> current);
            cont = (\<lambda>ask'. let (r, asks) = grow_loop set_ans cap_ans left (Suc i) ask' current'
                          in (r, ask # asks))
        in (case set_ans i ask of
              SetTo now \<Rightarrow> (max now current, [ask])
            | SetEperm \<Rightarrow> cont (ask div 2)
            | SetEnomem \<Rightarrow> cont (ask div 2)
            | SetEintr \<Rightarrow> cont ask
            | SetOther \<Rightarrow> (current, [ask])))"

definition grow_raw ::
    "(nat \<Rightarrow> nat \<Rightarrow> set_answer) \<Rightarrow> (nat \<Rightarrow> nat option) \<Rightarrow> nat \<Rightarrow> (nat \<times> nat list) option" where
  "grow_raw set_ans cap_ans target =
     (case cap_ans 0 of
        None \<Rightarrow> None
      | Some current \<Rightarrow> Some (grow_loop set_ans cap_ans MAX_ATTEMPTS 0 target current))"

definition grow :: "(nat \<Rightarrow> nat \<Rightarrow> set_answer) \<Rightarrow> (nat \<Rightarrow> nat option) \<Rightarrow> (nat \<times> nat list) option" where
  "grow set_ans cap_ans = grow_raw set_ans cap_ans PIPE_TARGET_BYTES"

section \<open>Bounded, never shrinking, never past the target\<close>

lemma grow_loop_asks:
  assumes "grow_loop set_ans cap_ans left i ask current = (r, asks)"
  shows "length asks \<le> left" "a \<in> set asks \<Longrightarrow> a \<le> ask \<and> a \<le> c_int_max"
proof -
  have "length asks \<le> left \<and> (\<forall>a \<in> set asks. a \<le> ask \<and> a \<le> c_int_max)"
    using assms
  proof (induction left arbitrary: i ask current r asks)
    case (Suc left)
    show ?case
    proof (cases "ask \<le> current \<or> c_int_max < ask")
      case True
      with Suc.prems Suc.IH [of i "ask div 2" current r asks] show ?thesis
        by (fastforce split: if_splits)
    next
      case False
      let ?c = "case cap_ans (Suc i) of Some c \<Rightarrow> c | None \<Rightarrow> current"
      have rec: "length as \<le> left \<and> (\<forall>a \<in> set as. a \<le> ask' \<and> a \<le> c_int_max)"
        if "grow_loop set_ans cap_ans left (Suc i) ask' ?c = (r, as)" for ask' as
        using Suc.IH [OF that] .
      show ?thesis
        using False Suc.prems
        by (fastforce simp: Let_def split: set_answer.splits prod.splits dest!: rec)
    qed
  qed simp
  then show "length asks \<le> left" "a \<in> set asks \<Longrightarrow> a \<le> ask \<and> a \<le> c_int_max" by blast+
qed

text \<open>A kernel whose reported capacity never goes down below \<open>c\<close>.\<close>

lemma grow_loop_ge:
  assumes "\<And>j d. cap_ans j = Some d \<Longrightarrow> c \<le> d"
  shows "c \<le> current \<Longrightarrow> grow_loop set_ans cap_ans left i ask current = (r, asks) \<Longrightarrow> c \<le> r"
proof (induction left arbitrary: i ask current asks)
  case (Suc left)
  let ?c = "case cap_ans (Suc i) of Some c \<Rightarrow> c | None \<Rightarrow> current"
  have "c \<le> ?c" using assms Suc.prems(1) by (auto split: option.splits)
  with Suc show ?case
    by (auto simp: Let_def split: set_answer.splits prod.splits if_splits)
qed simp

lemma grow_at_target:
  "cap_ans 0 = Some c \<Longrightarrow> PIPE_TARGET_BYTES \<le> c \<Longrightarrow> grow set_ans cap_ans = Some (c, [])"
  by (simp add: grow_def grow_raw_def MAX_ATTEMPTS_def numeral_eq_Suc)

end
