(* ===== verification/Cdc.thy ===== *)
theory Cdc
  imports Constants RustStd
begin

unbundle bit_operations_syntax

text \<open>
  \<^verbatim>\<open>crates/core/src/cdc.rs\<close>: content-defined chunking. The gear hash and its table are computed on
  64-bit words with the source's wrapping arithmetic; the iterator \<^verbatim>\<open>FastCdc\<close> is \<open>cdc_next\<close>, one
  call of \<^verbatim>\<open>next\<close> on the remaining slice, and \<open>chunks\<close> is what collecting it gives.
\<close>

section \<open>Masks and gear table\<close>

definition NORMALISATION_LEVEL :: nat where "NORMALISATION_LEVEL = 2"

text \<open>\<^verbatim>\<open>CDC_AVG_CHUNK_BYTES.trailing_zeros()\<close>.\<close>

fun trailing_zeros :: "nat \<Rightarrow> nat" where
  "trailing_zeros n = (if n = 0 \<or> odd n then 0 else Suc (trailing_zeros (n div 2)))"

declare trailing_zeros.simps [simp del]

definition AVG_BITS :: nat where "AVG_BITS = trailing_zeros CDC_AVG_CHUNK_BYTES"

definition top_mask :: "nat \<Rightarrow> 64 word" where
  "top_mask bits = push_bit (64 - bits) (NOT 0)"

definition MASK_STRICT :: "64 word" where "MASK_STRICT = top_mask (AVG_BITS + NORMALISATION_LEVEL)"
definition MASK_LOOSE :: "64 word" where "MASK_LOOSE = top_mask (AVG_BITS - NORMALISATION_LEVEL)"

text \<open>The assertions the compiler checks: the masks below are only right for an average that is a power of two, and stay within the word.\<close>

definition cdc_assertion :: bool where
  "cdc_assertion \<longleftrightarrow> CDC_MIN_CHUNK_BYTES < CDC_AVG_CHUNK_BYTES \<and> CDC_AVG_CHUNK_BYTES < CDC_MAX_CHUNK_BYTES \<and>
     is_power_of_two CDC_AVG_CHUNK_BYTES \<and> AVG_BITS > NORMALISATION_LEVEL \<and> AVG_BITS + NORMALISATION_LEVEL < 64"

lemma cdc_assertion_holds: cdc_assertion
proof -
  have "CDC_AVG_CHUNK_BYTES = 2 ^ AVG_BITS" "AVG_BITS = 14"
    by (simp_all add: AVG_BITS_def const_defs trailing_zeros.simps)
  then show ?thesis using cdc_bounds_ordered by (auto simp: cdc_assertion_def is_power_of_two_iff NORMALISATION_LEVEL_def)
qed

definition gear_seed :: "64 word" where "gear_seed = 0x9E3779B97F4A7C15"

definition gear_mix :: "64 word \<Rightarrow> 64 word" where
  "gear_mix state =
     (let z = state;
          z = (z XOR drop_bit 30 z) * 0xBF58476D1CE4E5B9;
          z = (z XOR drop_bit 27 z) * 0x94D049BB133111EB
      in z XOR drop_bit 31 z)"

fun gear_table :: "nat \<Rightarrow> 64 word \<Rightarrow> 64 word list" where
  "gear_table 0 state = []"
| "gear_table (Suc n) state =
     (let state = state + gear_seed in gear_mix state # gear_table n state)"

definition GEAR :: "64 word list" where "GEAR = gear_table 256 gear_seed"

section \<open>Cut point\<close>

text \<open>The inner loop: roll the hash over the bytes, stop where the mask is hit.\<close>

fun roll :: "64 word \<Rightarrow> 64 word \<Rightarrow> nat \<Rightarrow> bytes \<Rightarrow> nat option \<times> 64 word \<times> nat" where
  "roll msk fp pos [] = (None, fp, pos)"
| "roll msk fp pos (byte # rest) =
     (let fp = push_bit 1 fp + GEAR ! byte_val byte; pos = pos + 1
      in if fp AND msk = 0 then (Some pos, fp, pos) else roll msk fp pos rest)"

text \<open>\<^verbatim>\<open>data.get(pos..end).unwrap_or_default()\<close>.\<close>

definition get_range :: "nat \<Rightarrow> nat \<Rightarrow> bytes \<Rightarrow> bytes" where [std_defs]:
  "get_range i j data = (if i \<le> j \<and> j \<le> length data then take (j - i) (drop i data) else [])"

definition cut_point :: "bytes \<Rightarrow> nat" where
  "cut_point data =
     (let limit = min (length data) CDC_MAX_CHUNK_BYTES in
      if limit \<le> CDC_MIN_CHUNK_BYTES then limit
      else
        let normal = min CDC_AVG_CHUNK_BYTES limit in
        (case roll MASK_STRICT 0 CDC_MIN_CHUNK_BYTES (get_range CDC_MIN_CHUNK_BYTES normal data) of
           (Some p, _, _) \<Rightarrow> p
         | (None, fp, pos) \<Rightarrow>
             (case roll MASK_LOOSE fp pos (get_range pos limit data) of
                (Some p, _, _) \<Rightarrow> p
              | (None, _, _) \<Rightarrow> limit)))"

section \<open>The iterator\<close>

definition cdc_next :: "bytes \<Rightarrow> (bytes \<times> bytes) option" where
  "cdc_next rest =
     (if rest = [] then None
      else let n = cut_point rest in
        Some (if n \<le> length rest then (take n rest, drop n rest) else (rest, [])))"

definition cdc_size_hint :: "bytes \<Rightarrow> nat \<times> nat option" where
  "cdc_size_hint rest =
     ((length rest + CDC_MAX_CHUNK_BYTES - 1) div CDC_MAX_CHUNK_BYTES, Some (length rest))"

section \<open>Bounds of the cut point\<close>

lemma roll_Some: "roll msk fp pos bs = (Some p, fp', pos') \<Longrightarrow> pos < p \<and> p \<le> pos + length bs"
proof (induction bs arbitrary: fp pos)
  case (Cons b bs)
  then show ?case by (fastforce simp: Let_def split: if_splits)
qed simp

lemma roll_None: "roll msk fp pos bs = (None, fp', pos') \<Longrightarrow> pos' = pos + length bs"
  by (induction msk fp pos bs rule: roll.induct) (auto simp: Let_def split: if_splits)

lemma roll_append:
  "roll msk fp pos (a @ b) =
     (case roll msk fp pos a of
        (Some p, r) \<Rightarrow> (Some p, r)
      | (None, fp', pos') \<Rightarrow> roll msk fp' pos' b)"
  by (induction msk fp pos a rule: roll.induct) (auto simp: Let_def)

lemma length_get_range: "i \<le> j \<Longrightarrow> j \<le> length data \<Longrightarrow> length (get_range i j data) = j - i"
  by (simp add: get_range_def)

definition cut_limit :: "bytes \<Rightarrow> nat" where
  "cut_limit data = min (length data) CDC_MAX_CHUNK_BYTES"

definition cut_normal :: "bytes \<Rightarrow> nat" where
  "cut_normal data = min CDC_AVG_CHUNK_BYTES (cut_limit data)"

lemma cut_point_big:
  "CDC_MIN_CHUNK_BYTES < cut_limit data \<Longrightarrow> cut_point data =
     (case roll MASK_STRICT 0 CDC_MIN_CHUNK_BYTES
             (get_range CDC_MIN_CHUNK_BYTES (cut_normal data) data) of
        (Some p, _, _) \<Rightarrow> p
      | (None, fp, pos) \<Rightarrow>
          (case roll MASK_LOOSE fp pos (get_range pos (cut_limit data) data) of
             (Some p, _, _) \<Rightarrow> p
           | (None, _, _) \<Rightarrow> cut_limit data))"
  unfolding cut_point_def cut_normal_def cut_limit_def Let_def by (simp only: not_le [symmetric] if_False)

lemma cut_point_cases:
  assumes big: "CDC_MIN_CHUNK_BYTES < cut_limit data"
  shows "CDC_MIN_CHUNK_BYTES < cut_point data \<and> cut_point data \<le> cut_limit data"
proof -
  let ?m = CDC_MIN_CHUNK_BYTES
  let ?n = "cut_normal data"
  let ?l = "cut_limit data"
  have ord: "?m \<le> ?n" "?n \<le> ?l" "?l \<le> length data"
    using big cdc_bounds_ordered by (auto simp: cut_normal_def cut_limit_def)
  obtain r fp pos where first: "roll MASK_STRICT 0 ?m (get_range ?m ?n data) = (r, fp, pos)"
    by (metis prod_cases3)
  have len1: "length (get_range ?m ?n data) = ?n - ?m"
    using ord by (simp add: length_get_range)
  show ?thesis
  proof (cases r)
    case (Some p)
    then have "?m < p" "p \<le> ?n"
      using roll_Some [OF first [unfolded Some]] len1 ord by auto
    moreover have "cut_point data = p"
      using big first Some by (simp add: cut_point_big)
    ultimately show ?thesis using ord by simp
  next
    case None
    then have pos: "pos = ?n"
      using roll_None [OF first [unfolded None]] len1 ord by auto
    obtain r2 fp2 pos2 where second: "roll MASK_LOOSE fp pos (get_range pos ?l data) = (r2, fp2, pos2)"
      by (metis prod_cases3)
    have len2: "length (get_range pos ?l data) = ?l - ?n"
      using ord pos by (simp add: length_get_range)
    have cp: "cut_point data = (case r2 of Some p \<Rightarrow> p | None \<Rightarrow> ?l)"
      using big first second None
      by (simp add: cut_point_big split: option.splits)
    show ?thesis
    proof (cases r2)
      case None
      with cp big show ?thesis by simp
    next
      case (Some p)
      then have "pos < p" "p \<le> ?l"
        using roll_Some [OF second [unfolded Some]] len2 pos ord by auto
      with cp Some pos ord show ?thesis by simp
    qed
  qed
qed

lemma cut_point_small: "cut_limit data \<le> CDC_MIN_CHUNK_BYTES \<Longrightarrow> cut_point data = cut_limit data"
  by (simp add: cut_point_def cut_limit_def Let_def)

lemma cut_point_le: "cut_point data \<le> cut_limit data"
  using cut_point_cases [of data] cut_point_small [of data]
  by (cases "CDC_MIN_CHUNK_BYTES < cut_limit data") (simp_all add: not_less)

lemma cut_point_pos: "data \<noteq> [] \<Longrightarrow> 0 < cut_point data"
  using cut_point_cases [of data] cut_point_small [of data] cdc_bounds_ordered
  by (cases "CDC_MIN_CHUNK_BYTES < cut_limit data") (auto simp: cut_limit_def not_less)

lemma cut_point_le_length: "cut_point data \<le> length data"
  using cut_point_le [of data] by (simp add: cut_limit_def)

lemma cut_point_min:
  "CDC_MIN_CHUNK_BYTES < length data \<Longrightarrow> CDC_MIN_CHUNK_BYTES < cut_point data"
  using cut_point_cases [of data] cdc_bounds_ordered by (simp add: cut_limit_def)

lemma cdc_next_eq:
  "rest \<noteq> [] \<Longrightarrow> cdc_next rest = Some (take (cut_point rest) rest, drop (cut_point rest) rest)"
  by (simp add: cdc_next_def Let_def cut_point_le_length)

lemma cdc_next_Some:
  assumes "cdc_next rest = Some (c, rest')"
  shows "rest \<noteq> []" "c = take (cut_point rest) rest" "rest' = drop (cut_point rest) rest"
    "c \<noteq> []" "length rest' < length rest" "c @ rest' = rest"
proof -
  show "rest \<noteq> []" using assms by (auto simp: cdc_next_def)
  with assms show *: "c = take (cut_point rest) rest" "rest' = drop (cut_point rest) rest"
    by (simp_all add: cdc_next_eq)
  show "c \<noteq> []" "length rest' < length rest" "c @ rest' = rest"
    using * cut_point_pos [OF \<open>rest \<noteq> []\<close>] \<open>rest \<noteq> []\<close> by simp_all
qed

text \<open>Collecting the iterator: it ends because every chunk is non-empty.\<close>

function chunks :: "bytes \<Rightarrow> bytes list" where
  "chunks rest =
     (case cdc_next rest of None \<Rightarrow> [] | Some (chunk, rest') \<Rightarrow> chunk # chunks rest')"
  by auto
termination
  by (relation "measure length") (auto dest: cdc_next_Some)

declare chunks.simps [simp del]

lemma chunks_Nil [simp]: "chunks [] = []"
  by (subst chunks.simps) (simp add: cdc_next_def)

lemma chunks_step:
  "data \<noteq> [] \<Longrightarrow> chunks data = take (cut_point data) data # chunks (drop (cut_point data) data)"
  by (subst chunks.simps) (simp add: cdc_next_eq)

lemma chunks_induct [case_names Nil Step]:
  assumes "P []"
    and "\<And>data. data \<noteq> [] \<Longrightarrow> P (drop (cut_point data) data) \<Longrightarrow> P data"
  shows "P data"
proof (induction data rule: length_induct)
  case (1 data)
  show ?case
  proof (cases "data = []")
    case False
    then have "length (drop (cut_point data) data) < length data"
      using cut_point_pos by simp
    with 1 assms(2) False show ?thesis by blast
  qed (simp add: assms(1))
qed

section \<open>Tiling and size bounds\<close>

lemma concat_chunks: "concat (chunks data) = data"
  by (induction data rule: chunks_induct) (simp_all add: chunks_step)

lemma chunk_bounds: "c \<in> set (chunks data) \<Longrightarrow> c \<noteq> [] \<and> length c \<le> CDC_MAX_CHUNK_BYTES"
proof (induction data rule: chunks_induct)
  case (Step data)
  have "length (take (cut_point data) data) \<le> CDC_MAX_CHUNK_BYTES"
    using cut_point_le [of data] by (simp add: cut_limit_def)
  moreover have "take (cut_point data) data \<noteq> []"
    using Step(1) cut_point_pos by simp
  ultimately show ?case using Step by (auto simp: chunks_step)
qed simp

lemma chunks_min: "c \<in> set (butlast (chunks data)) \<Longrightarrow> CDC_MIN_CHUNK_BYTES < length c"
proof (induction data rule: chunks_induct)
  case (Step data)
  show ?case
  proof (cases "drop (cut_point data) data = []")
    case True
    with Step show ?thesis by (simp add: chunks_step)
  next
    case False
    then have "CDC_MIN_CHUNK_BYTES < length data"
      using cut_point_small [of data] cdc_bounds_ordered
      by (cases "cut_limit data \<le> CDC_MIN_CHUNK_BYTES") (auto simp: cut_limit_def min_def split: if_splits)
    then have "CDC_MIN_CHUNK_BYTES < length (take (cut_point data) data)"
      using cut_point_min [of data] cut_point_le_length [of data] by simp
    with Step False show ?thesis
      by (cases "chunks (drop (cut_point data) data) = []") (auto simp: chunks_step)
  qed
qed simp


lemma sum_chunk_lengths: "sum_list (map length (chunks data)) = length data"
  by (metis concat_chunks length_concat)

lemma sum_list_le_mult: "(\<And>x. x \<in> set xs \<Longrightarrow> x \<le> (k :: nat)) \<Longrightarrow> sum_list xs \<le> length xs * k"
  by (induction xs) (simp_all add: add_mono)

lemma sum_list_ge_length: "(\<And>x. x \<in> set xs \<Longrightarrow> 0 < (x :: nat)) \<Longrightarrow> length xs \<le> sum_list xs"
proof (induction xs)
  case (Cons x xs)
  then have "0 < x" and "length xs \<le> sum_list xs" by simp_all
  then show ?case by simp
qed simp

lemma chunks_count:
  "length data \<le> length (chunks data) * CDC_MAX_CHUNK_BYTES" "length (chunks data) \<le> length data"
proof -
  have "sum_list (map length (chunks data)) \<le> length (map length (chunks data)) * CDC_MAX_CHUNK_BYTES"
    by (rule sum_list_le_mult) (auto dest: chunk_bounds)
  then show "length data \<le> length (chunks data) * CDC_MAX_CHUNK_BYTES"
    by (simp add: sum_chunk_lengths)
  have "length (map length (chunks data)) \<le> sum_list (map length (chunks data))"
    by (rule sum_list_ge_length) (auto dest: chunk_bounds)
  then show "length (chunks data) \<le> length data"
    by (simp add: sum_chunk_lengths)
qed

text \<open>C37: the chunks of a slice tile it exactly, each is non-empty and at most the maximum size, every
  one but the last is longer than the minimum, and their number lies within \<^verbatim>\<open>size_hint\<close>.\<close>

theorem fast_cdc_tiles:
  "concat (chunks data) = data \<and>
   list_all (\<lambda>c. 0 < length c \<and> length c \<le> CDC_MAX_CHUNK_BYTES) (chunks data) \<and>
   list_all (\<lambda>c. CDC_MIN_CHUNK_BYTES < length c) (butlast (chunks data)) \<and>
   fst (cdc_size_hint data) \<le> length (chunks data) \<and>
   (case snd (cdc_size_hint data) of None \<Rightarrow> True | Some hi \<Rightarrow> length (chunks data) \<le> hi)"
proof -
  have pos: "0 < CDC_MAX_CHUNK_BYTES" by (simp add: const_defs)
  have "(length data + CDC_MAX_CHUNK_BYTES - 1) div CDC_MAX_CHUNK_BYTES \<le> length (chunks data)"
  proof (rule less_Suc_eq_le [THEN iffD1])
    have "length data + CDC_MAX_CHUNK_BYTES - 1 < Suc (length (chunks data)) * CDC_MAX_CHUNK_BYTES"
      using chunks_count(1) [of data] pos by simp
    then show "(length data + CDC_MAX_CHUNK_BYTES - 1) div CDC_MAX_CHUNK_BYTES < Suc (length (chunks data))"
      by (simp add: less_mult_imp_div_less)
  qed
  then show ?thesis
    using chunk_bounds [of _ data] chunks_min [of _ data] chunks_count(2) [of data]
    by (simp add: concat_chunks cdc_size_hint_def list_all_iff)
qed

section \<open>Locality of the boundaries\<close>

lemma get_range_append: "j \<le> length data \<Longrightarrow> get_range i j (data @ more) = get_range i j data"
  by (simp add: get_range_def)

lemma get_range_extend:
  assumes "i \<le> j" and "j \<le> k" and "j \<le> length data" and "k \<le> length (data @ more)"
  shows "\<exists>extra. get_range i k (data @ more) = get_range i j data @ extra \<and> (j = k \<longrightarrow> extra = [])"
proof -
  have "k - i = (j - i) + (k - j)" and "j = (j - i) + i" using assms by simp_all
  then have "take (k - i) (drop i (data @ more)) =
      take (j - i) (drop i (data @ more)) @ take (k - j) (drop j (data @ more))"
    by (metis drop_drop take_add)
  then show ?thesis using assms by (auto simp: get_range_def)
qed

text \<open>The second phase of \<^const>\<open>cut_point\<close>, after the first one found no cut.\<close>

definition loose_cut :: "64 word \<Rightarrow> nat \<Rightarrow> bytes \<Rightarrow> nat" where
  "loose_cut fp pos data =
     (case roll MASK_LOOSE fp pos (get_range pos (cut_limit data) data) of (Some p, _, _) \<Rightarrow> p | (None, _, _) \<Rightarrow> cut_limit data)"

lemma cut_point_phases:
  assumes "CDC_MIN_CHUNK_BYTES < cut_limit data"
    and "roll MASK_STRICT 0 CDC_MIN_CHUNK_BYTES (get_range CDC_MIN_CHUNK_BYTES (cut_normal data) data) = (r, fp, pos)"
  shows "cut_point data = (case r of Some p \<Rightarrow> p | None \<Rightarrow> loose_cut fp pos data)"
  using assms by (simp add: cut_point_big loose_cut_def split: option.splits)

lemma loose_cut_append:
  assumes "pos \<le> cut_limit data" and "loose_cut fp pos data < length data"
  shows "loose_cut fp pos (data @ more) = loose_cut fp pos data"
proof -
  have lim: "cut_limit data \<le> cut_limit (data @ more)" "cut_limit data \<le> length data" "cut_limit (data @ more) \<le> length (data @ more)"
    by (auto simp: cut_limit_def)
  obtain extra where extra: "get_range pos (cut_limit (data @ more)) (data @ more) = get_range pos (cut_limit data) data @ extra"
      "cut_limit data = cut_limit (data @ more) \<longrightarrow> extra = []"
    using get_range_extend [OF assms(1) lim] by blast
  obtain r fp' pos' where second: "roll MASK_LOOSE fp pos (get_range pos (cut_limit data) data) = (r, fp', pos')" by (metis prod_cases3)
  show ?thesis
  proof (cases r)
    case (Some p)
    with second extra show ?thesis by (simp add: loose_cut_def roll_append)
  next
    case None
    with second assms(2) have "cut_limit data < length data" by (simp add: loose_cut_def)
    then have "cut_limit data = cut_limit (data @ more)" by (simp add: cut_limit_def)
    with None second extra show ?thesis by (simp add: loose_cut_def)
  qed
qed

text \<open>A cut before the end that the first phase did not find needs more than an average chunk of data.\<close>

lemma loose_cut_long:
  assumes "loose_cut fp (cut_normal data) data < length data"
  shows "CDC_AVG_CHUNK_BYTES \<le> length data"
proof (rule ccontr)
  assume "\<not> ?thesis"
  then have "cut_normal data = length data" "cut_limit data = length data"
    using cdc_bounds_ordered by (auto simp: cut_normal_def cut_limit_def)
  with assms show False by (simp add: loose_cut_def get_range_def)
qed

lemma cut_point_append:
  assumes cut: "cut_point data < length data"
  shows "cut_point (data @ more) = cut_point data"
proof -
  let ?m = CDC_MIN_CHUNK_BYTES and ?d = "data @ more"
  have big: "?m < cut_limit data" using cut cut_point_small [of data] cdc_bounds_ordered by (force simp: cut_limit_def)
  then have big': "?m < cut_limit ?d" by (simp add: cut_limit_def)
  have norm: "?m \<le> cut_normal data" "cut_normal data \<le> cut_normal ?d" "cut_normal data \<le> length data"
    "cut_normal ?d \<le> length ?d" "cut_normal data \<le> cut_limit data"
    using big cdc_bounds_ordered by (auto simp: cut_normal_def cut_limit_def)
  obtain r fp pos where first: "roll MASK_STRICT 0 ?m (get_range ?m (cut_normal data) data) = (r, fp, pos)" by (metis prod_cases3)
  obtain extra where extra: "get_range ?m (cut_normal ?d) ?d = get_range ?m (cut_normal data) data @ extra"
      "cut_normal data = cut_normal ?d \<longrightarrow> extra = []"
    using get_range_extend [OF norm(1-4)] by blast
  show ?thesis
  proof (cases r)
    case (Some p)
    with first extra have "roll MASK_STRICT 0 ?m (get_range ?m (cut_normal ?d) ?d) = (Some p, fp, pos)" by (simp add: roll_append)
    with first Some show ?thesis by (simp add: cut_point_phases [OF big] cut_point_phases [OF big'])
  next
    case None
    then have pos: "pos = cut_normal data" using roll_None [OF first [unfolded None]] norm by (simp add: length_get_range)
    have cp: "cut_point data = loose_cut fp pos data" using cut_point_phases [OF big first] None by simp
    then have "CDC_AVG_CHUNK_BYTES \<le> length data" using cut pos loose_cut_long by simp
    then have "cut_normal data = cut_normal ?d" using cdc_bounds_ordered by (simp add: cut_normal_def cut_limit_def)
    with extra first None have "roll MASK_STRICT 0 ?m (get_range ?m (cut_normal ?d) ?d) = (None, fp, pos)" by simp
    from cut_point_phases [OF big' this] loose_cut_append [of pos data fp more] cp cut pos norm(5) show ?thesis by simp
  qed
qed

lemma chunks_append_prefix: "prefix (butlast (chunks data)) (chunks (data @ more))"
proof (induction data rule: chunks_induct)
  case (Step data)
  show ?case
  proof (cases "cut_point data < length data")
    case True
    then have "chunks (drop (cut_point data) data) \<noteq> []" by (simp add: chunks_step)
    with True Step show ?thesis
      by (simp add: chunks_step [of data] chunks_step [of "data @ more"] cut_point_append)
  next
    case False
    with Step show ?thesis by (simp add: chunks_step)
  qed
qed simp

lemma chunks_suffix: "chunks data = xs @ ys \<Longrightarrow> chunks (concat ys) = ys"
proof (induction xs arbitrary: data)
  case Nil
  then show ?case using concat_chunks [of data] by simp
next
  case (Cons x xs)
  then have "data \<noteq> []" by auto
  with Cons.prems have "chunks (drop (cut_point data) data) = xs @ ys" by (simp add: chunks_step)
  then show ?case by (rule Cons.IH)
qed

text \<open>C36: boundaries are local: appending to a payload keeps every chunk but its last, and chunking
  the remainder that starts at any boundary gives the same remaining chunks, so an appended
  revision shares all of its leading chunks with the stored one.\<close>

theorem fast_cdc_local:
  "prefix (butlast (chunks data)) (chunks (data @ more)) \<and>
   chunks (concat (drop k (chunks data))) = drop k (chunks data)"
  using chunks_append_prefix [of data more]
    chunks_suffix [of data "take k (chunks data)" "drop k (chunks data)"] by simp

end
