(* ===== verification/ChunkStore.thy ===== *)
theory ChunkStore
  imports Cdc
begin

text \<open>
  The \<^verbatim>\<open>chunks\<close> and \<^verbatim>\<open>manifest\<close> tables of the database (\<^verbatim>\<open>crates/storage/src/db.rs\<close>,
  \<^verbatim>\<open>store_chunks\<close>, \<^verbatim>\<open>release_chunks\<close>, \<^verbatim>\<open>reassemble\<close>). A statement of the source is an operation on the
  tables; \<open>fails\<close> says which statements SQLite rejects, and a rejected statement makes the whole
  transaction fail. SHA3-256 is outside the repository: \<open>sha\<close> is a parameter, and what the code relies
  on (different chunks have different digests) is the hypothesis \<open>collision_free\<close>.
\<close>

section \<open>Tables and statements\<close>

datatype stmt =
    StBegin | StFind | StTouch | StInsert | StPrepare | StReuse nat | StAdd nat | StLink nat
  | StExpiring | StDebit int | StReap int | StUnlink int | StDelete | StCommit | StReassemble
  | StQuery | StPin | StWipe nat

datatype sql_error = SqlError stmt

record chunk_store =
  chunk_tab :: "bytes \<Rightarrow> (bytes \<times> int) option"
  manifest :: "(int \<times> nat \<times> bytes) list"

definition empty_chunks :: chunk_store where
  "empty_chunks = \<lparr> chunk_tab = (\<lambda>_. None), manifest = [] \<rparr>"

text \<open>\<^verbatim>\<open>UPDATE chunks SET refcount = refcount + 1 WHERE hash = ?1\<close>, with the number of rows changed.\<close>

definition reuse_chunk :: "bytes \<Rightarrow> chunk_store \<Rightarrow> nat \<times> chunk_store" where
  "reuse_chunk digest st =
     (case chunk_tab st digest of
        None \<Rightarrow> (0, st)
      | Some (d, c) \<Rightarrow> (1, st\<lparr> chunk_tab := (chunk_tab st)(digest \<mapsto> (d, c + 1)) \<rparr>))"

definition add_chunk :: "bytes \<Rightarrow> bytes \<Rightarrow> chunk_store \<Rightarrow> chunk_store" where
  "add_chunk digest chunk st = st\<lparr> chunk_tab := (chunk_tab st)(digest \<mapsto> (chunk, 1)) \<rparr>"

definition link_chunk :: "int \<Rightarrow> nat \<Rightarrow> bytes \<Rightarrow> chunk_store \<Rightarrow> chunk_store option" where
  "link_chunk rid seq digest st =
     (if list_ex (\<lambda>(i, s, _). i = rid \<and> s = seq) (manifest st) then None
      else Some (st\<lparr> manifest := manifest st @ [(rid, seq, digest)] \<rparr>))"

fun store_chunks_from ::
    "(bytes \<Rightarrow> bytes) \<Rightarrow> (stmt \<Rightarrow> bool) \<Rightarrow> int \<Rightarrow> nat \<Rightarrow> bytes list \<Rightarrow> chunk_store \<Rightarrow> sql_error + chunk_store" where
  "store_chunks_from sha fails rid seq [] st = Inr st"
| "store_chunks_from sha fails rid seq (chunk # rest) st =
     (let digest = sha chunk in
      if fails (StReuse seq) then Inl (SqlError (StReuse seq))
      else
        let (changed, st1) = reuse_chunk digest st in
        if changed = 0 \<and> fails (StAdd seq) then Inl (SqlError (StAdd seq))
        else
          let st2 = (if changed = 0 then add_chunk digest chunk st1 else st1) in
          if fails (StLink seq) then Inl (SqlError (StLink seq))
          else (case link_chunk rid seq digest st2 of
                  None \<Rightarrow> Inl (SqlError (StLink seq))
                | Some st3 \<Rightarrow> store_chunks_from sha fails rid (Suc seq) rest st3))"

definition store_chunks ::
    "(bytes \<Rightarrow> bytes) \<Rightarrow> (stmt \<Rightarrow> bool) \<Rightarrow> int \<Rightarrow> bytes \<Rightarrow> chunk_store \<Rightarrow> sql_error + chunk_store" where
  "store_chunks sha fails rid data st =
     (if fails StPrepare then Inl (SqlError StPrepare)
      else store_chunks_from sha fails rid 0 (chunks data) st)"

section \<open>Releasing\<close>

definition refs_of :: "int \<Rightarrow> bytes \<Rightarrow> (int \<times> nat \<times> bytes) list \<Rightarrow> nat" where
  "refs_of rid h m = length (filter (\<lambda>(i, _, h'). i = rid \<and> h' = h) m)"

definition names_of :: "int \<Rightarrow> (int \<times> nat \<times> bytes) list \<Rightarrow> bytes list" where
  "names_of rid m = map (\<lambda>(_, _, h). h) (filter (\<lambda>(i, _, _). i = rid) m)"

definition debit_chunks :: "int \<Rightarrow> chunk_store \<Rightarrow> chunk_store" where
  "debit_chunks rid st =
     st\<lparr> chunk_tab := (\<lambda>h. case chunk_tab st h of
            None \<Rightarrow> None
          | Some (d, c) \<Rightarrow>
              if h \<in> set (names_of rid (manifest st)) then Some (d, c - int (refs_of rid h (manifest st)))
              else Some (d, c)) \<rparr>"

definition reap_chunks :: "int \<Rightarrow> chunk_store \<Rightarrow> chunk_store" where
  "reap_chunks rid st =
     st\<lparr> chunk_tab := (\<lambda>h. case chunk_tab st h of
            None \<Rightarrow> None
          | Some (d, c) \<Rightarrow>
              if c \<le> 0 \<and> h \<in> set (names_of rid (manifest st)) then None else Some (d, c)) \<rparr>"

definition unlink_manifest :: "int \<Rightarrow> chunk_store \<Rightarrow> chunk_store" where
  "unlink_manifest rid st = st\<lparr> manifest := filter (\<lambda>(i, _, _). i \<noteq> rid) (manifest st) \<rparr>"

definition release_chunks :: "(stmt \<Rightarrow> bool) \<Rightarrow> int \<Rightarrow> chunk_store \<Rightarrow> sql_error + chunk_store" where
  "release_chunks fails rid st =
     (if fails (StDebit rid) then Inl (SqlError (StDebit rid))
      else if fails (StReap rid) then Inl (SqlError (StReap rid))
      else if fails (StUnlink rid) then Inl (SqlError (StUnlink rid))
      else Inr (unlink_manifest rid (reap_chunks rid (debit_chunks rid st))))"

section \<open>Reassembly\<close>

text \<open>\<^verbatim>\<open>SELECT ch.data FROM manifest m JOIN chunks ch .. WHERE m.clipboard_id = ?1 ORDER BY m.seq\<close>.\<close>

definition manifest_of :: "int \<Rightarrow> chunk_store \<Rightarrow> (int \<times> nat \<times> bytes) list" where
  "manifest_of rid st = sort_key (\<lambda>(_, s, _). s) (filter (\<lambda>(i, _, _). i = rid) (manifest st))"

definition chunk_rows :: "int \<Rightarrow> chunk_store \<Rightarrow> bytes list" where
  "chunk_rows rid st =
     List.map_filter (\<lambda>(_, _, h). map_option fst (chunk_tab st h)) (manifest_of rid st)"

fun reassemble_loop :: "nat \<Rightarrow> bytes \<Rightarrow> bytes list \<Rightarrow> bytes option" where
  "reassemble_loop expected out [] = (if length out = expected then Some out else None)"
| "reassemble_loop expected out (d # ds) =
     (if expected < length (out @ d) then None else reassemble_loop expected (out @ d) ds)"

definition reassemble :: "(stmt \<Rightarrow> bool) \<Rightarrow> int \<Rightarrow> int \<Rightarrow> chunk_store \<Rightarrow> bytes option" where
  "reassemble fails rid sz st =
     (if sz < 0 \<or> fails StReassemble then None
      else reassemble_loop (nat sz) [] (chunk_rows rid st))"

section \<open>The invariant of the chunk tables\<close>

definition total_refs :: "bytes \<Rightarrow> chunk_store \<Rightarrow> nat" where
  "total_refs h st = length (filter (\<lambda>(_, _, h'). h' = h) (manifest st))"

definition chunks_ok :: "(bytes \<Rightarrow> bytes) \<Rightarrow> chunk_store \<Rightarrow> bool" where
  "chunks_ok sha st \<longleftrightarrow>
     (\<forall>h d c. chunk_tab st h = Some (d, c) \<longrightarrow> sha d = h \<and> c = int (total_refs h st) \<and> 0 < c) \<and>
     (\<forall>e \<in> set (manifest st). chunk_tab st (snd (snd e)) \<noteq> None) \<and>
     distinct (map (\<lambda>(i, s, _). (i, s)) (manifest st))"

definition stored_data :: "chunk_store \<Rightarrow> bytes set" where
  "stored_data st = {d. \<exists>h c. chunk_tab st h = Some (d, c)}"

text \<open>What the code relies on of SHA3-256.\<close>

definition collision_free :: "(bytes \<Rightarrow> bytes) \<Rightarrow> bytes \<Rightarrow> chunk_store \<Rightarrow> bool" where
  "collision_free sha data st \<longleftrightarrow> inj_on sha (set (chunks data) \<union> stored_data st)"

definition load :: "int \<Rightarrow> chunk_store \<Rightarrow> bytes" where
  "load rid st = concat (chunk_rows rid st)"

definition has_manifest :: "int \<Rightarrow> chunk_store \<Rightarrow> bool" where
  "has_manifest rid st \<longleftrightarrow> rid \<in> fst ` set (manifest st)"

lemma reassemble_loop_eq:
  "reassemble_loop n out ds = (if length (out @ concat ds) = n then Some (out @ concat ds) else None)"
  by (induction n out ds rule: reassemble_loop.induct) auto

lemma reassemble_eq:
  "reassemble fails rid sz st =
     (if \<not> fails StReassemble \<and> int (length (load rid st)) = sz then Some (load rid st) else None)"
  by (auto simp: reassemble_def reassemble_loop_eq load_def)

lemma chunks_ok_empty: "chunks_ok sha empty_chunks"
  by (simp add: chunks_ok_def empty_chunks_def)

section \<open>Storing a payload\<close>

text \<open>One chunk: counted or added, then linked.\<close>

definition put_chunk :: "(bytes \<Rightarrow> bytes) \<Rightarrow> int \<Rightarrow> nat \<Rightarrow> bytes \<Rightarrow> chunk_store \<Rightarrow> chunk_store" where
  "put_chunk sha rid seq chunk st =
     (let (changed, st1) = reuse_chunk (sha chunk) st;
          st2 = (if changed = 0 then add_chunk (sha chunk) chunk st1 else st1)
      in st2\<lparr> manifest := manifest st2 @ [(rid, seq, sha chunk)] \<rparr>)"

lemma manifest_put_chunk [simp]:
  "manifest (put_chunk sha rid seq chunk st) = manifest st @ [(rid, seq, sha chunk)]"
  by (auto simp: put_chunk_def reuse_chunk_def add_chunk_def Let_def split: option.splits)

lemma chunk_tab_put_chunk:
  "chunk_tab (put_chunk sha rid seq chunk st) = (chunk_tab st)(sha chunk \<mapsto>
     (case chunk_tab st (sha chunk) of None \<Rightarrow> (chunk, 1) | Some (d, c) \<Rightarrow> (d, c + 1)))"
  by (auto simp: put_chunk_def reuse_chunk_def add_chunk_def Let_def split: option.splits)

lemma store_chunks_from_Cons:
  assumes "store_chunks_from sha fails rid seq (chunk # rest) st = Inr st'"
  shows "(rid, seq) \<notin> (\<lambda>(i, s, _). (i, s)) ` set (manifest st)"
    "store_chunks_from sha fails rid (Suc seq) rest (put_chunk sha rid seq chunk st) = Inr st'"
  using assms
  by (auto simp: put_chunk_def link_chunk_def reuse_chunk_def add_chunk_def list_ex_iff Let_def
      split: if_splits option.splits)

lemma total_refs_put_chunk:
  "total_refs h (put_chunk sha rid seq chunk st) = total_refs h st + (if h = sha chunk then 1 else 0)"
  by (simp add: total_refs_def)

lemma put_chunk_ok:
  assumes ok: "chunks_ok sha st" and new: "(rid, seq) \<notin> (\<lambda>(i, s, _). (i, s)) ` set (manifest st)"
  shows "chunks_ok sha (put_chunk sha rid seq chunk st)"
proof -
  have absent: "total_refs (sha chunk) st = 0" if "chunk_tab st (sha chunk) = None"
    using ok that by (fastforce simp: chunks_ok_def total_refs_def filter_empty_conv)
  let ?st = "put_chunk sha rid seq chunk st"
  have "sha d = h \<and> c = int (total_refs h ?st) \<and> 0 < c" if tab: "chunk_tab ?st h = Some (d, c)" for h d c
  proof (cases "h = sha chunk")
    case False
    with tab have "chunk_tab st h = Some (d, c)" by (simp add: chunk_tab_put_chunk)
    with ok False show ?thesis by (auto simp: chunks_ok_def total_refs_put_chunk)
  next
    case True
    show ?thesis
    proof (cases "chunk_tab st h")
      case None
      with tab True absent show ?thesis by (simp add: chunk_tab_put_chunk total_refs_put_chunk)
    next
      case (Some p)
      then obtain d0 c0 where p: "chunk_tab st h = Some (d0, c0)" by (cases p) auto
      with ok have "sha d0 = h" "c0 = int (total_refs h st)" by (auto simp: chunks_ok_def)
      with p tab True show ?thesis by (auto simp: chunk_tab_put_chunk total_refs_put_chunk)
    qed
  qed
  moreover have "\<forall>e \<in> set (manifest ?st). chunk_tab ?st (snd (snd e)) \<noteq> None"
    using ok by (auto simp: chunks_ok_def chunk_tab_put_chunk)
  moreover have "distinct (map (\<lambda>(i, s, _). (i, s)) (manifest ?st))"
    using ok new by (auto simp: chunks_ok_def)
  ultimately show ?thesis by (auto simp: chunks_ok_def)
qed

lemma stored_data_put_chunk: "stored_data (put_chunk sha rid seq chunk st) \<subseteq> insert chunk (stored_data st)"
  by (auto simp: stored_data_def chunk_tab_put_chunk split: if_splits option.splits)

text \<open>What is stored for a digest is never replaced, and a new chunk is stored under its digest.\<close>

lemma put_chunk_keeps:
  "chunk_tab st h = Some (d, c) \<Longrightarrow> map_option fst (chunk_tab (put_chunk sha rid seq chunk st) h) = Some d"
  by (auto simp: chunk_tab_put_chunk)

lemma put_chunk_finds:
  assumes "chunks_ok sha st" and "inj_on sha (insert chunk (stored_data st))"
  shows "map_option fst (chunk_tab (put_chunk sha rid seq chunk st) (sha chunk)) = Some chunk"
proof (cases "chunk_tab st (sha chunk)")
  case (Some p)
  then obtain d c where p: "chunk_tab st (sha chunk) = Some (d, c)" by (cases p) auto
  then have "sha d = sha chunk" "d \<in> stored_data st"
    using assms(1) by (auto simp: chunks_ok_def stored_data_def)
  then have "d = chunk" using inj_onD [OF assms(2), of d chunk] by simp
  with p show ?thesis by (simp add: chunk_tab_put_chunk)
qed (simp add: chunk_tab_put_chunk)

fun link_rows :: "(bytes \<Rightarrow> bytes) \<Rightarrow> int \<Rightarrow> nat \<Rightarrow> bytes list \<Rightarrow> (int \<times> nat \<times> bytes) list" where
  "link_rows sha rid seq [] = []"
| "link_rows sha rid seq (c # cs) = (rid, seq, sha c) # link_rows sha rid (Suc seq) cs"

lemma store_chunks_from_spec:
  "store_chunks_from sha fails rid seq cs st = Inr st' \<Longrightarrow> chunks_ok sha st \<Longrightarrow>
   inj_on sha (set cs \<union> stored_data st) \<Longrightarrow>
     chunks_ok sha st' \<and>
     manifest st' = manifest st @ link_rows sha rid seq cs \<and>
     (\<forall>c \<in> set cs. map_option fst (chunk_tab st' (sha c)) = Some c) \<and>
     (\<forall>h d c. chunk_tab st h = Some (d, c) \<longrightarrow> map_option fst (chunk_tab st' h) = Some d)"
proof (induction cs arbitrary: seq st)
  case (Cons chunk cs)
  let ?st = "put_chunk sha rid seq chunk st"
  note step = store_chunks_from_Cons [OF Cons.prems(1)]
  have ok: "chunks_ok sha ?st" by (rule put_chunk_ok [OF Cons.prems(2) step(1)])
  have inj: "inj_on sha (set cs \<union> stored_data ?st)"
    by (rule inj_on_subset [OF Cons.prems(3)]) (use stored_data_put_chunk in fastforce)
  have found: "map_option fst (chunk_tab ?st (sha chunk)) = Some chunk"
    by (rule put_chunk_finds [OF Cons.prems(2)])
      (rule inj_on_subset [OF Cons.prems(3)], auto)
  note IH = Cons.IH [OF step(2) ok inj]
  have keeps: "map_option fst (chunk_tab st' h) = Some d" if "map_option fst (chunk_tab ?st h) = Some d" for h d
    using IH that by (auto simp del: fun_upd_apply)
  show ?case
    using IH keeps [OF found] keeps [OF put_chunk_keeps] by simp
qed simp

lemma store_chunks_from_succeeds:
  assumes "\<And>s. \<not> fails s"
  shows "\<forall>k. seq \<le> k \<longrightarrow> (rid, k) \<notin> (\<lambda>(i, s, _). (i, s)) ` set (manifest st) \<Longrightarrow>
    \<exists>st'. store_chunks_from sha fails rid seq cs st = Inr st'"
proof (induction cs arbitrary: seq st)
  case (Cons chunk cs)
  let ?st = "put_chunk sha rid seq chunk st"
  have "\<exists>st'. store_chunks_from sha fails rid (Suc seq) cs ?st = Inr st'"
    by (rule Cons.IH) (use Cons.prems in auto)
  moreover have "\<not> list_ex (\<lambda>(i, s, _). i = rid \<and> s = seq) (manifest st)"
    using Cons.prems by (force simp: list_ex_iff)
  then have "store_chunks_from sha fails rid seq (chunk # cs) st =
      store_chunks_from sha fails rid (Suc seq) cs ?st"
    using assms
    by (auto simp: put_chunk_def link_chunk_def reuse_chunk_def add_chunk_def Let_def
        split: option.splits)
  ultimately show ?case by simp
qed simp


lemma link_rows_ids: "e \<in> set (link_rows sha rid seq cs) \<Longrightarrow> fst e = rid"
  by (induction cs arbitrary: seq) auto

lemma link_rows_sorted: "sorted (map (\<lambda>(_, s, _). s) (link_rows sha rid seq cs))"
proof -
  have "sorted (map (\<lambda>(_, s, _). s) (link_rows sha rid seq cs)) \<and>
      (\<forall>e \<in> set (link_rows sha rid seq cs). seq \<le> fst (snd e))"
    by (induction cs arbitrary: seq) (fastforce dest: Suc_leD)+
  then show ?thesis by blast
qed

lemma link_rows_hashes: "map (\<lambda>(_, _, h). h) (link_rows sha rid seq cs) = map sha cs"
  by (induction cs arbitrary: seq) auto

lemma map_filter_all_Some:
  "(\<And>x. x \<in> set xs \<Longrightarrow> f x = Some (g x)) \<Longrightarrow> List.map_filter f xs = map g xs"
  by (induction xs) (simp_all add: map_filter_simps)

lemma map_filter_map_inverse:
  "(\<And>x. x \<in> set xs \<Longrightarrow> f (g x) = Some x) \<Longrightarrow> List.map_filter f (map g xs) = xs"
  by (induction xs) (simp_all add: map_filter_simps)

lemma map_filter_cong:
  "(\<And>x. x \<in> set xs \<Longrightarrow> f x = g x) \<Longrightarrow> List.map_filter f xs = List.map_filter g xs"
proof (induction xs)
  case (Cons x xs)
  then have "f x = g x" "List.map_filter f xs = List.map_filter g xs" by simp_all
  then show ?case by (simp add: map_filter_simps split: option.splits)
qed (simp add: map_filter_simps)

lemma manifest_of_mem: "e \<in> set (manifest_of rid st) \<longleftrightarrow> e \<in> set (manifest st) \<and> fst e = rid"
  by (auto simp: manifest_of_def)

text \<open>The rows of an id depend only on its manifest entries and the data stored under their digests.\<close>

lemma load_cong:
  assumes "manifest_of rid st' = manifest_of rid st"
    and "\<And>e. e \<in> set (manifest st) \<Longrightarrow> fst e = rid \<Longrightarrow>
      map_option fst (chunk_tab st' (snd (snd e))) = map_option fst (chunk_tab st (snd (snd e)))"
  shows "load rid st' = load rid st"
  unfolding load_def chunk_rows_def assms(1)
  by (rule arg_cong [where f = concat], rule map_filter_cong)
    (use assms(2) in \<open>auto simp: manifest_of_mem\<close>)

lemma store_chunks_spec:
  assumes st: "store_chunks sha fails rid data st = Inr st'" and ok: "chunks_ok sha st"
    and cf: "collision_free sha data st" and fresh: "\<not> has_manifest rid st"
  shows "chunks_ok sha st'" "load rid st' = data" "j \<noteq> rid \<Longrightarrow> load j st' = load j st"
    "has_manifest j st' \<Longrightarrow> j = rid \<or> has_manifest j st"
proof -
  have loop: "store_chunks_from sha fails rid 0 (chunks data) st = Inr st'"
    using st by (auto simp: store_chunks_def split: if_splits)
  note spec = store_chunks_from_spec [OF loop ok cf [unfolded collision_free_def]]
  then have man: "manifest st' = manifest st @ link_rows sha rid 0 (chunks data)" by blast
  show "chunks_ok sha st'" using spec by blast
  have other: "filter (\<lambda>(i, _, _). i = j) (link_rows sha rid 0 (chunks data)) = []" if "j \<noteq> rid" for j
    using that link_rows_ids [of _ sha rid 0 "chunks data"] by (fastforce simp: filter_empty_conv)
  show "load j st' = load j st" if "j \<noteq> rid"
  proof (rule load_cong)
    show "manifest_of j st' = manifest_of j st"
      using other [OF that] by (simp add: manifest_of_def man)
    fix e assume "e \<in> set (manifest st)"
    then obtain d c where "chunk_tab st (snd (snd e)) = Some (d, c)"
      using ok by (fastforce simp: chunks_ok_def)
    with spec show "map_option fst (chunk_tab st' (snd (snd e))) = map_option fst (chunk_tab st (snd (snd e)))"
      by simp
  qed
  have old: "filter (\<lambda>(i, _, _). i = rid) (manifest st) = []"
    using fresh by (force simp: has_manifest_def filter_empty_conv)
  have all: "filter (\<lambda>(i, _, _). i = rid) (link_rows sha rid 0 (chunks data)) = link_rows sha rid 0 (chunks data)"
    using link_rows_ids [of _ sha rid 0 "chunks data"] by (fastforce simp: filter_id_conv)
  have mine: "manifest_of rid st' = link_rows sha rid 0 (chunks data)"
    unfolding manifest_of_def man filter_append old all
    using link_rows_sorted by (simp add: sort_key_id_if_sorted)
  have "chunk_rows rid st' = List.map_filter (\<lambda>h. map_option fst (chunk_tab st' h)) (map sha (chunks data))"
    unfolding chunk_rows_def mine link_rows_hashes [of sha rid 0, symmetric]
    by (simp add: List.map_filter_def comp_def case_prod_beta filter_map)
  also have "\<dots> = chunks data"
    by (rule map_filter_map_inverse) (use spec in blast)
  finally show "load rid st' = data" by (simp add: load_def concat_chunks)
  show "has_manifest j st' \<Longrightarrow> j = rid \<or> has_manifest j st"
    using link_rows_ids [of _ sha rid 0 "chunks data"] by (auto simp: has_manifest_def man)
qed

section \<open>Releasing a payload\<close>

text \<open>The tables after a release: the manifest without the row, and each chunk with the references that are left.\<close>

lemma release_chunks_shape:
  assumes rel: "release_chunks fails rid st = Inr st'" and ok: "chunks_ok sha st"
  shows "manifest st' = filter (\<lambda>(i, _, _). i \<noteq> rid) (manifest st)"
    "chunk_tab st' h =
      (case chunk_tab st h of None \<Rightarrow> None
       | Some (d, c) \<Rightarrow> if total_refs h st' = 0 then None else Some (d, int (total_refs h st')))"
proof -
  have st': "st' = unlink_manifest rid (reap_chunks rid (debit_chunks rid st))"
    using rel by (auto simp: release_chunks_def split: if_splits)
  show man: "manifest st' = filter (\<lambda>(i, _, _). i \<noteq> rid) (manifest st)"
    by (simp add: st' unlink_manifest_def reap_chunks_def debit_chunks_def)
  have total: "total_refs h st = total_refs h st' + refs_of rid h (manifest st)" for h
  proof -
    have "length (filter (\<lambda>(_, _, h'). h' = h) m) =
        length (filter (\<lambda>(_, _, h'). h' = h) (filter (\<lambda>(i, _, _). i \<noteq> rid) m)) + refs_of rid h m" for m
      by (induction m) (auto simp: refs_of_def)
    then show ?thesis by (simp add: total_refs_def man)
  qed
  have named: "h \<notin> set (names_of rid (manifest st)) \<Longrightarrow> refs_of rid h (manifest st) = 0" for h
    by (force simp: names_of_def refs_of_def filter_empty_conv)
  show "chunk_tab st' h =
      (case chunk_tab st h of None \<Rightarrow> None
       | Some (d, c) \<Rightarrow> if total_refs h st' = 0 then None else Some (d, int (total_refs h st')))"
  proof (cases "chunk_tab st h")
    case None
    then show ?thesis by (simp add: st' unlink_manifest_def reap_chunks_def debit_chunks_def)
  next
    case (Some p)
    then obtain d c where p: "chunk_tab st h = Some (d, c)" by (cases p) auto
    with ok have c: "c = int (total_refs h st)" "0 < c" by (auto simp: chunks_ok_def)
    show ?thesis
    proof (cases "h \<in> set (names_of rid (manifest st))")
      case True
      with p c total [of h] show ?thesis
        by (simp add: st' unlink_manifest_def reap_chunks_def debit_chunks_def)
    next
      case False
      with p c total [of h] named [OF False] show ?thesis
        by (simp add: st' unlink_manifest_def reap_chunks_def debit_chunks_def)
    qed
  qed
qed

lemma release_chunks_spec:
  assumes rel: "release_chunks fails rid st = Inr st'" and ok: "chunks_ok sha st"
  shows "chunks_ok sha st'" "\<not> has_manifest rid st'" "j \<noteq> rid \<Longrightarrow> load j st' = load j st"
    "has_manifest j st' \<longleftrightarrow> j \<noteq> rid \<and> has_manifest j st"
    "stored_data st' \<subseteq> stored_data st"
proof -
  note man = release_chunks_shape(1) [OF rel ok] and tab = release_chunks_shape(2) [OF rel ok]
  have refs_pos: "0 < total_refs (snd (snd e)) st'" if "e \<in> set (manifest st')" for e
  proof -
    have "e \<in> set (filter (\<lambda>(_, _, h'). h' = snd (snd e)) (manifest st'))"
      using that by (simp add: case_prod_beta)
    then show ?thesis unfolding total_refs_def by (rule length_pos_if_in_set)
  qed
  have "chunk_tab st' (snd (snd e)) \<noteq> None" if "e \<in> set (manifest st')" for e
  proof -
    have "e \<in> set (manifest st)" using that by (auto simp: man)
    with ok refs_pos [OF that] show ?thesis by (auto simp: tab chunks_ok_def split: option.splits)
  qed
  moreover have "distinct (map (\<lambda>(i, s, _). (i, s)) (manifest st'))"
    using ok by (auto simp: chunks_ok_def man intro: distinct_map_filter)
  ultimately show "chunks_ok sha st'"
    using ok unfolding chunks_ok_def by (auto simp: tab split: option.splits if_splits)
  show "\<not> has_manifest rid st'" and "has_manifest j st' \<longleftrightarrow> j \<noteq> rid \<and> has_manifest j st"
    by (force simp: has_manifest_def man)+
  show "stored_data st' \<subseteq> stored_data st"
    by (auto simp: stored_data_def tab split: option.splits if_splits)
  show "load j st' = load j st" if "j \<noteq> rid"
  proof (rule load_cong)
    have "filter (\<lambda>(i, _, _). i = j) (manifest st') = filter (\<lambda>(i, _, _). i = j) (manifest st)"
      using that by (auto simp: man intro!: filter_cong)
    then show "manifest_of j st' = manifest_of j st" by (simp add: manifest_of_def)
    fix e assume e: "e \<in> set (manifest st)" "fst e = j"
    then have "e \<in> set (manifest st')" using that by (auto simp: man)
    from refs_pos [OF this] show
      "map_option fst (chunk_tab st' (snd (snd e))) = map_option fst (chunk_tab st (snd (snd e)))"
      by (auto simp: tab split: option.splits)
  qed
qed


section \<open>A store whose entries can be released one by one\<close>

text \<open>The loop \<^verbatim>\<open>for id in .. { release(id)?; }\<close> over any such store.\<close>

fun release_each :: "('k \<Rightarrow> 's \<Rightarrow> 'e + 's) \<Rightarrow> 'k list \<Rightarrow> 's \<Rightarrow> 'e + 's" where
  "release_each rel [] s = Inr s"
| "release_each rel (k # ks) s = try_bind (rel k s) (release_each rel ks)"

locale releasing_store =
  fixes ok :: "'s \<Rightarrow> bool" and held :: "'k \<Rightarrow> 's \<Rightarrow> bool" and get :: "'k \<Rightarrow> 's \<Rightarrow> 'v"
    and rel :: "'k \<Rightarrow> 's \<Rightarrow> 'e + 's"
  assumes rel_ok: "ok s \<Longrightarrow> rel k s = Inr s' \<Longrightarrow> ok s'"
    and rel_held: "ok s \<Longrightarrow> rel k s = Inr s' \<Longrightarrow> held j s' \<longleftrightarrow> j \<noteq> k \<and> held j s"
    and rel_get: "ok s \<Longrightarrow> rel k s = Inr s' \<Longrightarrow> j \<noteq> k \<Longrightarrow> get j s' = get j s"
begin

lemma release_each_spec:
  "ok s \<Longrightarrow> release_each rel ks s = Inr s' \<Longrightarrow>
     ok s' \<and> (\<forall>j. held j s' \<longleftrightarrow> j \<notin> set ks \<and> held j s) \<and> (\<forall>j. j \<notin> set ks \<longrightarrow> get j s' = get j s)"
proof (induction ks arbitrary: s)
  case (Cons k ks)
  then obtain s1 where k: "rel k s = Inr s1" and rest: "release_each rel ks s1 = Inr s'"
    by (auto simp: try_bind_Inr_iff)
  have "ok s1" by (rule rel_ok [OF Cons.prems(1) k])
  from Cons.IH [OF this rest] rel_held [OF Cons.prems(1) k] rel_get [OF Cons.prems(1) k]
  show ?case by auto
qed simp

lemma release_each_ok: "ok s \<Longrightarrow> release_each rel ks s = Inr s' \<Longrightarrow> ok s'"
  using release_each_spec by blast

lemma release_each_held:
  "ok s \<Longrightarrow> release_each rel ks s = Inr s' \<Longrightarrow> held j s' \<longleftrightarrow> j \<notin> set ks \<and> held j s"
  using release_each_spec by blast

lemma release_each_get:
  "ok s \<Longrightarrow> release_each rel ks s = Inr s' \<Longrightarrow> j \<notin> set ks \<Longrightarrow> get j s' = get j s"
  using release_each_spec by blast

end

interpretation ck: releasing_store "chunks_ok sha" has_manifest load "release_chunks fails" for sha fails
  by unfold_locales (simp_all add: release_chunks_spec)

lemma release_each_succeeds: "(\<And>k s. \<exists>s'. rel k s = Inr s') \<Longrightarrow> \<exists>s'. release_each rel ks s = Inr s'"
proof (induction ks arbitrary: s)
  case (Cons k ks)
  obtain s1 where "rel k s = Inr s1" using Cons.prems by blast
  with Cons show ?case by simp
qed simp

end
