(* ===== verification/Db.thy ===== *)
theory Db
  imports ChunkStore Utils RustNum
begin

text \<open>
  \<^verbatim>\<open>crates/storage/src/db.rs\<close>: the \<^verbatim>\<open>clipboard\<close> table on top of the chunk tables. Each SQL statement of
  the source is a relational operation on the tables. A transaction works on a copy of the database
  and replaces it when it commits; when a statement fails it is dropped, which rolls it back.

  The order in which SQLite returns rows of equal timestamp under \<^verbatim>\<open>ORDER BY timestamp DESC\<close> is its
  own affair: \<open>ord\<close> is a parameter, and what SQL promises of it is the locale \<open>ts_order\<close>. \<^verbatim>\<open>LIKE\<close> is
  likewise a parameter with the locale \<open>sql_like\<close>.
\<close>

section \<open>Rows\<close>

datatype cell = CNull | CText bytes | CBlob bytes

record clip_row =
  r_id :: int
  r_ts :: int
  r_mime :: string
  r_size :: int
  r_preview :: "string option"
  r_content :: cell
  r_hash :: "string option"
  r_pinned :: bool
  r_chunked :: bool

record sqlite_store =
  clipboard :: "clip_row list"
  last_seq :: int
  chunk_db :: chunk_store

definition empty_store :: sqlite_store where
  "empty_store = \<lparr> clipboard = [], last_seq = 0, chunk_db = empty_chunks \<rparr>"

type_synonym meta_row = "int \<times> int \<times> string \<times> int \<times> string option \<times> bool"

definition meta_of :: "clip_row \<Rightarrow> meta_row" where
  "meta_of r = (r_id r, r_ts r, r_mime r, r_size r, r_preview r, r_pinned r)"

section \<open>Classification\<close>

definition is_cache_class :: "string \<Rightarrow> bool" where
  "is_cache_class mime \<longleftrightarrow> prefix ''image/'' mime \<or> contains_str mime ''gif''"

definition is_detachable :: "string \<Rightarrow> bool" where
  "is_detachable mime \<longleftrightarrow> is_cache_class mime \<and> \<not> is_text_like_mime mime"

definition is_chunkable :: "string \<Rightarrow> nat \<Rightarrow> bool" where
  "is_chunkable mime len \<longleftrightarrow> \<not> is_cache_class mime \<and> CDC_MIN_CHUNK_BYTES < len"

lemma is_chunkable_code [code]: "is_chunkable mime len \<longleftrightarrow> \<not> is_cache_class mime \<and> 4096 < int len"
  by (simp add: is_chunkable_def const_defs)

definition is_skipped :: "string \<Rightarrow> nat \<Rightarrow> bool" where
  "is_skipped mime len \<longleftrightarrow> len = 0 \<or> list_ex (contains_str mime) SENSITIVE_MIME_HINTS"

datatype body = Bytes bytes | Detached nat

definition body_len :: "body \<Rightarrow> int" where
  "body_len b = (case b of Bytes d \<Rightarrow> int (length d) | Detached len \<Rightarrow> int len)"

datatype content = Text bytes | Blob bytes | Chunked bytes | NoContent

definition newline_to_space :: "string \<Rightarrow> string" where [std_defs]:
  "newline_to_space s = map (\<lambda>c. if c = CHR 0x0A then CHR '' '' else c) s"

definition row_preview :: "string \<Rightarrow> bytes \<Rightarrow> string option" where
  "row_preview mime data =
     (if is_text_like_mime mime then
        (let text_data = (if is_html_mime mime then strip_html_tags data else data)
         in Some (newline_to_space (concat (take PREVIEW_CHARS (str_chars (from_utf8_lossy text_data))))))
      else None)"

definition row_parts :: "string \<Rightarrow> bytes \<Rightarrow> bool \<Rightarrow> string option \<times> content" where
  "row_parts mime data is_image =
     (row_preview mime data,
      if is_chunkable mime (length data) then Chunked data
      else if valid_utf8 data \<and> is_text_like_mime mime then Text data
      else if is_image then NoContent
      else Blob data)"

section \<open>Upsert and rotation\<close>

record upsert_outcome =
  real_id :: int
  is_image :: bool
  expired_hashes :: "string list"

definition skipped_outcome :: upsert_outcome where
  "skipped_outcome = \<lparr> real_id = - 1, is_image = False, expired_hashes = [] \<rparr>"

text \<open>\<^verbatim>\<open>n as i64\<close>, and what SQLite makes of it as an \<^verbatim>\<open>OFFSET\<close> (a negative one counts as zero).\<close>

definition as_i64 :: "nat \<Rightarrow> int" where [std_defs]:
  "as_i64 n = (if n < 2 ^ 63 then int n else int n - 2 ^ 64)"

definition sql_offset :: "nat \<Rightarrow> nat" where [std_defs]:
  "sql_offset n = nat (as_i64 n)"

lemma as_i64_code [code]: "as_i64 n = (if int n < 9223372036854775808 then int n else int n - 18446744073709551616)"
  by (simp add: as_i64_def)

text \<open>A negative \<^verbatim>\<open>LIMIT\<close> is no limit.\<close>

definition sql_limit :: "nat \<Rightarrow> 'a list \<Rightarrow> 'a list" where [std_defs]:
  "sql_limit n xs = (if as_i64 n < 0 then xs else take (nat (as_i64 n)) xs)"

definition find_hash :: "string \<Rightarrow> sqlite_store \<Rightarrow> int option" where
  "find_hash h s = map_option r_id (find (\<lambda>r. r_hash r = Some h) (clipboard s))"

definition touch_row :: "int \<Rightarrow> int \<Rightarrow> sqlite_store \<Rightarrow> sqlite_store" where
  "touch_row ts rid s =
     s\<lparr> clipboard := map (\<lambda>r. if r_id r = rid then r\<lparr> r_ts := ts \<rparr> else r) (clipboard s) \<rparr>"

definition fresh_row ::
    "int \<Rightarrow> int \<Rightarrow> string \<Rightarrow> int \<Rightarrow> string option \<Rightarrow> content \<Rightarrow> string \<Rightarrow> clip_row" where
  "fresh_row rid ts mime sz preview content hash =
     \<lparr> r_id = rid, r_ts = ts, r_mime = mime, r_size = sz, r_preview = preview,
       r_content = (case content of Text d \<Rightarrow> CText d | Blob d \<Rightarrow> CBlob d | _ \<Rightarrow> CNull),
       r_hash = Some hash, r_pinned = False,
       r_chunked = (case content of Chunked _ \<Rightarrow> True | _ \<Rightarrow> False) \<rparr>"

text \<open>
  \<^verbatim>\<open>INSERT INTO clipboard ..\<close> with \<^verbatim>\<open>AUTOINCREMENT\<close> and \<^verbatim>\<open>last_insert_rowid()\<close>: refused when the
  hash is taken (\<^verbatim>\<open>UNIQUE\<close>) or the ids are used up.
\<close>

definition insert_row ::
    "(stmt \<Rightarrow> bool) \<Rightarrow> int \<Rightarrow> string \<Rightarrow> int \<Rightarrow> string option \<Rightarrow> content \<Rightarrow> string \<Rightarrow> sqlite_store \<Rightarrow>
     sql_error + int \<times> sqlite_store" where
  "insert_row fails ts mime sz preview content hash s =
     (if fails StInsert \<or> find_hash hash s \<noteq> None \<or> i64_max \<le> last_seq s then Inl (SqlError StInsert)
      else
        let rid = last_seq s + 1;
            row = fresh_row rid ts mime sz preview content hash
        in Inr (rid, s\<lparr> clipboard := clipboard s @ [row], last_seq := rid \<rparr>))"

definition with_chunks :: "('e + chunk_store) \<Rightarrow> sqlite_store \<Rightarrow> 'e + sqlite_store" where
  "with_chunks r s = try_bind r (\<lambda>c. Inr (s\<lparr> chunk_db := c \<rparr>))"

text \<open>The insert-or-touch half of the transaction.\<close>

definition place_record ::
    "(bytes \<Rightarrow> bytes) \<Rightarrow> (stmt \<Rightarrow> bool) \<Rightarrow> int \<Rightarrow> string \<Rightarrow> body \<Rightarrow> string \<Rightarrow> sqlite_store \<Rightarrow>
     sql_error + int \<times> sqlite_store" where
  "place_record sha fails ts mime body hash s =
     (case (if fails StFind then None else find_hash hash s) of
        Some rid \<Rightarrow>
          if fails StTouch then Inl (SqlError StTouch) else Inr (rid, touch_row ts rid s)
      | None \<Rightarrow>
          (let (preview, content) =
                 (case body of Detached _ \<Rightarrow> (None, NoContent)
                  | Bytes data \<Rightarrow> row_parts mime data (is_cache_class mime))
           in try_bind (insert_row fails ts mime (body_len body) preview content hash s)
                (\<lambda>(rid, s1).
                   case content of
                     Chunked data \<Rightarrow>
                       try_bind (with_chunks (store_chunks sha fails rid data (chunk_db s1)) s1)
                         (\<lambda>s2. Inr (rid, s2))
                   | _ \<Rightarrow> Inr (rid, s1))))"

text \<open>\<^verbatim>\<open>SELECT .. WHERE is_pinned = 0 ORDER BY timestamp DESC LIMIT -1 OFFSET ?1\<close>.\<close>

definition expiring_rows :: "(clip_row list \<Rightarrow> clip_row list) \<Rightarrow> nat \<Rightarrow> sqlite_store \<Rightarrow> clip_row list" where
  "expiring_rows ord max_history s =
     drop (sql_offset max_history) (ord (filter (\<lambda>r. \<not> r_pinned r) (clipboard s)))"

definition delete_rows :: "int list \<Rightarrow> sqlite_store \<Rightarrow> sqlite_store" where
  "delete_rows ids s = s\<lparr> clipboard := filter (\<lambda>r. r_id r \<notin> set ids) (clipboard s) \<rparr>"

text \<open>The rotation half: the hashes of the rows that went, and the tables without them.\<close>

definition rotate_rows ::
    "(clip_row list \<Rightarrow> clip_row list) \<Rightarrow> (stmt \<Rightarrow> bool) \<Rightarrow> nat \<Rightarrow> sqlite_store \<Rightarrow>
     sql_error + string list \<times> sqlite_store" where
  "rotate_rows ord fails max_history s =
     (if fails StExpiring then Inl (SqlError StExpiring)
      else
        let expiring = expiring_rows ord max_history s in
        try_bind (with_chunks (release_each (release_chunks fails)
                    (map r_id (filter r_chunked expiring)) (chunk_db s)) s)
          (\<lambda>s1. if fails StDelete then Inl (SqlError StDelete)
                else Inr (List.map_filter r_hash expiring, delete_rows (map r_id expiring) s1)))"

definition upsert ::
    "(bytes \<Rightarrow> bytes) \<Rightarrow> (clip_row list \<Rightarrow> clip_row list) \<Rightarrow> (stmt \<Rightarrow> bool) \<Rightarrow> int \<Rightarrow>
     string \<Rightarrow> body \<Rightarrow> string \<Rightarrow> nat \<Rightarrow> sqlite_store \<Rightarrow> (sql_error + upsert_outcome) \<times> sqlite_store" where
  "upsert sha ord fails now mime body hash max_history s =
     (if fails StBegin then (Inl (SqlError StBegin), s)
      else
        (case try_bind (place_record sha fails now mime body hash s)
                (\<lambda>(rid, s1). try_bind (rotate_rows ord fails max_history s1)
                   (\<lambda>(hashes, s2). if fails StCommit then Inl (SqlError StCommit)
                      else Inr (\<lparr> real_id = rid, is_image = is_cache_class mime, expired_hashes = hashes \<rparr>, s2))) of
           Inl e \<Rightarrow> (Inl e, s)
         | Inr (outcome, s2) \<Rightarrow> (Inr outcome, s2)))"

definition upsert_record ::
    "(bytes \<Rightarrow> bytes) \<Rightarrow> (clip_row list \<Rightarrow> clip_row list) \<Rightarrow> (stmt \<Rightarrow> bool) \<Rightarrow> int \<Rightarrow>
     string \<Rightarrow> bytes \<Rightarrow> string \<Rightarrow> nat \<Rightarrow> sqlite_store \<Rightarrow> (sql_error + upsert_outcome) \<times> sqlite_store" where
  "upsert_record sha ord fails now mime data hash max_history s =
     (if is_skipped mime (length data) then (Inr skipped_outcome, s)
      else upsert sha ord fails now mime (Bytes data) hash max_history s)"

definition upsert_detached ::
    "(bytes \<Rightarrow> bytes) \<Rightarrow> (clip_row list \<Rightarrow> clip_row list) \<Rightarrow> (stmt \<Rightarrow> bool) \<Rightarrow> int \<Rightarrow>
     string \<Rightarrow> nat \<Rightarrow> string \<Rightarrow> nat \<Rightarrow> sqlite_store \<Rightarrow> (sql_error + upsert_outcome) \<times> sqlite_store" where
  "upsert_detached sha ord fails now mime len hash max_history s =
     (if is_skipped mime len then (Inr skipped_outcome, s)
      else upsert sha ord fails now mime (Detached len) hash max_history s)"

section \<open>Queries\<close>

definition get_row :: "int \<Rightarrow> sqlite_store \<Rightarrow> clip_row option" where
  "get_row rid s = find (\<lambda>r. r_id r = rid) (clipboard s)"

definition cell_bytes :: "cell \<Rightarrow> bytes option" where
  "cell_bytes c = (case c of CNull \<Rightarrow> None | CText d \<Rightarrow> Some d | CBlob d \<Rightarrow> Some d)"

definition get_row_content ::
    "(stmt \<Rightarrow> bool) \<Rightarrow> int \<Rightarrow> sqlite_store \<Rightarrow> (string \<times> bytes option \<times> string) option" where
  "get_row_content fails rid s =
     (case (if fails StQuery then None else get_row rid s) of
        None \<Rightarrow> None
      | Some r \<Rightarrow>
          (case r_hash r of
             None \<Rightarrow> None
           | Some hash \<Rightarrow>
               if r_chunked r then
                 (case reassemble fails rid (r_size r) (chunk_db s) of
                    None \<Rightarrow> None
                  | Some d \<Rightarrow> Some (r_mime r, Some d, hash))
               else Some (r_mime r, cell_bytes (r_content r), hash)))"

definition get_row_location :: "(stmt \<Rightarrow> bool) \<Rightarrow> int \<Rightarrow> sqlite_store \<Rightarrow> (string \<times> bool \<times> string) option" where
  "get_row_location fails rid s =
     (case (if fails StQuery then None else get_row rid s) of
        None \<Rightarrow> None
      | Some r \<Rightarrow>
          (case r_hash r of
             None \<Rightarrow> None
           | Some hash \<Rightarrow> Some (r_mime r, r_content r \<noteq> CNull \<or> r_chunked r, hash)))"

definition fetch_metadata ::
    "(clip_row list \<Rightarrow> clip_row list) \<Rightarrow> (stmt \<Rightarrow> bool) \<Rightarrow> nat \<Rightarrow> sqlite_store \<Rightarrow> meta_row list" where
  "fetch_metadata ord fails limit s =
     (if fails StQuery then [] else map meta_of (sql_limit limit (ord (clipboard s))))"

definition get_total_count :: "(stmt \<Rightarrow> bool) \<Rightarrow> sqlite_store \<Rightarrow> nat" where
  "get_total_count fails s = (if fails StQuery then 0 else length (clipboard s))"

section \<open>Search\<close>

definition like_any :: "string \<Rightarrow> string" where
  "like_any w = ''%'' @ w @ ''%''"

definition TEXT_MIME_SQL_PREDICATE :: "(string \<Rightarrow> string \<Rightarrow> bool) \<Rightarrow> string \<Rightarrow> bool" where
  "TEXT_MIME_SQL_PREDICATE like mime \<longleftrightarrow>
     \<not> like ''image/%'' mime \<and>
     (like (like_any ''text'') mime \<or> like (like_any ''utf8'') mime \<or> like (like_any ''json'') mime \<or>
      like (like_any ''xml'') mime \<or> like (like_any ''uri-list'') mime \<or> like (like_any ''string'') mime)"

text \<open>\<^verbatim>\<open>BODY_TEXT_SQL\<close>: NULL (\<open>None\<close>) only for a row without inline content that is not chunked.\<close>

definition BODY_TEXT_SQL :: "sqlite_store \<Rightarrow> clip_row \<Rightarrow> bytes option" where
  "BODY_TEXT_SQL s r =
     (if r_chunked r then
        (case chunk_rows (r_id r) (chunk_db s) of [] \<Rightarrow> None | ds \<Rightarrow> Some (concat ds))
      else cell_bytes (r_content r))"

definition like_opt :: "(string \<Rightarrow> string \<Rightarrow> bool) \<Rightarrow> string \<Rightarrow> string option \<Rightarrow> bool" where
  "like_opt like pat v = (case v of None \<Rightarrow> False | Some t \<Rightarrow> like pat t)"

definition keyword_hits :: "(string \<Rightarrow> string \<Rightarrow> bool) \<Rightarrow> sqlite_store \<Rightarrow> clip_row \<Rightarrow> string \<Rightarrow> bool" where
  "keyword_hits like s r q \<longleftrightarrow>
     like_opt like (like_any q) (r_preview r) \<or> like_opt like (like_any q) (BODY_TEXT_SQL s r)"

definition newer_count :: "sqlite_store \<Rightarrow> clip_row \<Rightarrow> nat" where
  "newer_count s r = length (filter (\<lambda>r2. r_ts r < r_ts r2) (clipboard s))"

definition search_rows ::
    "(string \<Rightarrow> string \<Rightarrow> bool) \<Rightarrow> (clip_row list \<Rightarrow> clip_row list) \<Rightarrow> string list \<Rightarrow> sqlite_store \<Rightarrow> clip_row list" where
  "search_rows like ord queries s =
     ord (filter (\<lambda>r. TEXT_MIME_SQL_PREDICATE like (r_mime r) \<and> list_all (keyword_hits like s r) queries)
       (clipboard s))"

definition store_search_metadata ::
    "(string \<Rightarrow> string \<Rightarrow> bool) \<Rightarrow> (clip_row list \<Rightarrow> clip_row list) \<Rightarrow> (stmt \<Rightarrow> bool) \<Rightarrow>
     string list \<Rightarrow> nat \<Rightarrow> sqlite_store \<Rightarrow> (nat \<times> meta_row) list" where
  "store_search_metadata like ord fails queries limit s =
     (if fails StQuery then []
      else map (\<lambda>r. (newer_count s r, meta_of r)) (sql_limit limit (search_rows like ord queries s)))"

definition validate_keywords ::
    "(string \<Rightarrow> string \<Rightarrow> bool) \<Rightarrow> (stmt \<Rightarrow> bool) \<Rightarrow> string list \<Rightarrow> sqlite_store \<Rightarrow> string list \<times> string list" where
  "validate_keywords like fails keywords s =
     (if fails StPrepare then ([], keywords)
      else
        let exists_kw = (\<lambda>kw. \<not> fails StQuery \<and>
              list_ex (\<lambda>r. TEXT_MIME_SQL_PREDICATE like (r_mime r) \<and> keyword_hits like s r kw) (clipboard s))
        in (filter exists_kw keywords, filter (\<lambda>kw. \<not> exists_kw kw) keywords))"

section \<open>The other writes\<close>

definition update_timestamp :: "(stmt \<Rightarrow> bool) \<Rightarrow> int \<Rightarrow> int \<Rightarrow> sqlite_store \<Rightarrow> (sql_error + unit) \<times> sqlite_store" where
  "update_timestamp fails now rid s =
     (if fails StTouch then (Inl (SqlError StTouch), s) else (Inr (), touch_row now rid s))"

definition delete_by_id ::
    "(stmt \<Rightarrow> bool) \<Rightarrow> int \<Rightarrow> sqlite_store \<Rightarrow> (sql_error + bool \<times> string option) \<times> sqlite_store" where
  "delete_by_id fails rid s =
     (if fails StBegin then (Inl (SqlError StBegin), s)
      else
        let (hash, chunked) =
              (case (if fails StFind then None else get_row rid s) of
                 None \<Rightarrow> (None, False)
               | Some r \<Rightarrow> (r_hash r, r_chunked r))
        in (case (if chunked then with_chunks (release_chunks fails rid (chunk_db s)) s else Inr s) of
              Inl e \<Rightarrow> (Inl e, s)
            | Inr s1 \<Rightarrow>
                if fails StDelete then (Inl (SqlError StDelete), s)
                else if fails StCommit then (Inl (SqlError StCommit), s)
                else (Inr (get_row rid s1 \<noteq> None, hash), delete_rows [rid] s1)))"

definition store_wipe :: "(stmt \<Rightarrow> bool) \<Rightarrow> sqlite_store \<Rightarrow> (sql_error + unit) \<times> sqlite_store" where
  "store_wipe fails s =
     (if fails StBegin then (Inl (SqlError StBegin), s)
      else if fails (StWipe 0) then (Inl (SqlError (StWipe 0)), s)
      else if fails (StWipe 1) then (Inl (SqlError (StWipe 1)), s)
      else if fails (StWipe 2) then (Inl (SqlError (StWipe 2)), s)
      else if fails StCommit then (Inl (SqlError StCommit), s)
      else (Inr (), s\<lparr> clipboard := [], chunk_db := empty_chunks \<rparr>))"

definition set_pinned :: "(stmt \<Rightarrow> bool) \<Rightarrow> int \<Rightarrow> bool \<Rightarrow> sqlite_store \<Rightarrow> (sql_error + bool) \<times> sqlite_store" where
  "set_pinned fails rid pin s =
     (if fails StPin then (Inl (SqlError StPin), s)
      else (Inr (get_row rid s \<noteq> None),
            s\<lparr> clipboard := map (\<lambda>r. if r_id r = rid then r\<lparr> r_pinned := pin \<rparr> else r) (clipboard s) \<rparr>))"

end
