(* ===== verification/DbInvariant.thy ===== *)
theory DbInvariant
  imports Db
begin

text \<open>
  The invariant of the database (\<open>store_ok\<close>, the conditions the test probe \<^verbatim>\<open>chunk_usage\<close> of
  \<^verbatim>\<open>db.rs\<close> asserts, and that ids and hashes are unique and every chunked row is complete), its
  preservation by every write, and what insertion, deduplication, rotation and deletion do to the
  rows and to the content of the others.
\<close>

section \<open>Row order\<close>

locale ts_order =
  fixes ord :: "clip_row list \<Rightarrow> clip_row list"
  assumes ord_mset: "mset (ord rs) = mset rs"
    and ord_desc: "sorted_wrt (\<lambda>a b. r_ts b \<le> r_ts a) (ord rs)"
begin

lemma ord_set [simp]: "set (ord rs) = set rs"
  using ord_mset by (rule mset_eq_setD)

lemma ord_length [simp]: "length (ord rs) = length rs"
  using ord_mset by (rule mset_eq_length)

lemma ord_distinct_ids: "distinct (map r_id rs) \<Longrightarrow> distinct (map r_id (ord rs))"
proof -
  assume "distinct (map r_id rs)"
  moreover have "mset (map r_id (ord rs)) = mset (map r_id rs)" by (simp add: ord_mset)
  ultimately show "distinct (map r_id (ord rs))" using mset_eq_imp_distinct_iff by blast
qed

lemma drop_oldest:
  assumes "a \<in> set (take n (ord rs))" and "b \<in> set (drop n (ord rs))"
  shows "r_ts b \<le> r_ts a"
  by (rule sorted_wrt_take_drop [OF ord_desc assms])

end

definition order_by_ts_desc :: "clip_row list \<Rightarrow> clip_row list" where
  "order_by_ts_desc rs = sort_key (\<lambda>r. - r_ts r) rs"

interpretation by_ts: ts_order order_by_ts_desc
proof unfold_locales
  fix rs :: "clip_row list"
  show "mset (order_by_ts_desc rs) = mset rs" by (simp add: order_by_ts_desc_def)
  have "sorted (map (\<lambda>r. - r_ts r) (order_by_ts_desc rs))" by (simp add: order_by_ts_desc_def)
  then show "sorted_wrt (\<lambda>a b. r_ts b \<le> r_ts a) (order_by_ts_desc rs)"
    by (simp add: sorted_wrt_map)
qed

section \<open>The invariant\<close>

definition content_of :: "sqlite_store \<Rightarrow> clip_row \<Rightarrow> bytes option" where
  "content_of s r =
     (if r_chunked r then Some (load (r_id r) (chunk_db s)) else cell_bytes (r_content r))"

definition rows_ok :: "sqlite_store \<Rightarrow> bool" where
  "rows_ok s \<longleftrightarrow>
     0 \<le> last_seq s \<and> distinct (map r_id (clipboard s)) \<and>
     distinct (List.map_filter r_hash (clipboard s)) \<and>
     (\<forall>r \<in> set (clipboard s). 0 < r_id r \<and> r_id r \<le> last_seq s)"

definition manifests_live :: "sqlite_store \<Rightarrow> bool" where
  "manifests_live s \<longleftrightarrow>
     (\<forall>j. has_manifest j (chunk_db s) \<longrightarrow> (\<exists>r \<in> set (clipboard s). r_id r = j \<and> r_chunked r))"

definition rows_complete :: "sqlite_store \<Rightarrow> bool" where
  "rows_complete s \<longleftrightarrow>
     (\<forall>r \<in> set (clipboard s). r_chunked r \<longrightarrow> int (length (load (r_id r) (chunk_db s))) = r_size r)"

definition store_ok :: "(bytes \<Rightarrow> bytes) \<Rightarrow> sqlite_store \<Rightarrow> bool" where
  "store_ok sha s \<longleftrightarrow> rows_ok s \<and> chunks_ok sha (chunk_db s) \<and> manifests_live s \<and> rows_complete s"

lemma has_manifest_empty: "\<not> has_manifest j empty_chunks"
  by (simp add: has_manifest_def empty_chunks_def)

lemma store_ok_empty: "store_ok sha empty_store"
  by (simp add: store_ok_def rows_ok_def manifests_live_def rows_complete_def empty_store_def
      chunks_ok_empty has_manifest_empty map_filter_simps)

lemma same_id_same_row:
  "distinct (map r_id rs) \<Longrightarrow> a \<in> set rs \<Longrightarrow> b \<in> set rs \<Longrightarrow> r_id a = r_id b \<Longrightarrow> a = b"
  by (metis (mono_tags, lifting) distinct_map inj_onD)

lemma get_row_Some_iff:
  "distinct (map r_id (clipboard s)) \<Longrightarrow> get_row rid s = Some r \<longleftrightarrow> r \<in> set (clipboard s) \<and> r_id r = rid"
proof -
  assume d: "distinct (map r_id (clipboard s))"
  show ?thesis
  proof
    assume "get_row rid s = Some r"
    then show "r \<in> set (clipboard s) \<and> r_id r = rid"
      using find_Some_split [of "\<lambda>r. r_id r = rid"] by (auto simp: get_row_def)
  next
    assume r: "r \<in> set (clipboard s) \<and> r_id r = rid"
    then obtain r' where r': "get_row rid s = Some r'"
      using find_Some_ex [of r "clipboard s" "\<lambda>r. r_id r = rid"] by (auto simp: get_row_def)
    then have "r' \<in> set (clipboard s) \<and> r_id r' = rid"
      using find_Some_split [of "\<lambda>r. r_id r = rid"] by (auto simp: get_row_def)
    with r d have "r' = r" using same_id_same_row by blast
    with r' show "get_row rid s = Some r" by simp
  qed
qed

lemma find_hash_None: "find_hash h s = None \<longleftrightarrow> (\<forall>r \<in> set (clipboard s). r_hash r \<noteq> Some h)"
  by (auto simp: find_hash_def find_None_iff)

lemma find_hash_Some:
  "find_hash h s = Some rid \<Longrightarrow> \<exists>r \<in> set (clipboard s). r_id r = rid \<and> r_hash r = Some h"
  using find_Some_split [of "\<lambda>r. r_hash r = Some h"] by (fastforce simp: find_hash_def)

lemma set_map_filter: "set (List.map_filter f xs) = {y. \<exists>x \<in> set xs. f x = Some y}"
  by (induction xs) (auto simp: map_filter_simps split: option.splits)

lemma map_filter_append: "List.map_filter f (xs @ ys) = List.map_filter f xs @ List.map_filter f ys"
  by (induction xs) (auto simp: map_filter_simps split: option.splits)

lemma map_filter_map: "List.map_filter f (map g xs) = List.map_filter (f \<circ> g) xs"
  by (induction xs) (auto simp: map_filter_simps split: option.splits)

lemma distinct_map_filter_filter:
  "distinct (List.map_filter f xs) \<Longrightarrow> distinct (List.map_filter f (filter P xs))"
proof (induction xs)
  case (Cons x xs)
  have "y \<in> set (List.map_filter f (filter P xs)) \<Longrightarrow> y \<in> set (List.map_filter f xs)" for y
    by (auto simp: set_map_filter)
  with Cons show ?case by (auto simp: map_filter_simps split: option.splits)
qed (simp add: map_filter_simps)

text \<open>A row's content without failures, in a store that satisfies the invariant.\<close>

lemma get_row_content_eq:
  assumes "store_ok sha s" and "r \<in> set (clipboard s)" and "r_hash r = Some h" and "\<And>st. \<not> fails st"
  shows "get_row_content fails (r_id r) s = Some (r_mime r, content_of s r, h)"
proof -
  have "get_row (r_id r) s = Some r"
    using assms(1,2) by (simp add: get_row_Some_iff store_ok_def rows_ok_def)
  with assms show ?thesis
    by (auto simp: get_row_content_def content_of_def reassemble_eq store_ok_def rows_complete_def)
qed

section \<open>Touching a row\<close>

text \<open>A change of the rows that keeps what the invariant reads of them.\<close>

lemma store_ok_map_rows:
  assumes ok: "store_ok sha s" and rows: "clipboard s' = map f (clipboard s)"
    and frame: "chunk_db s' = chunk_db s" "last_seq s' = last_seq s"
    and keeps: "\<And>r. r_id (f r) = r_id r \<and> r_hash (f r) = r_hash r \<and> r_chunked (f r) = r_chunked r \<and>
      r_size (f r) = r_size r"
  shows "store_ok sha s'"
proof -
  have "map r_id (clipboard s') = map r_id (clipboard s)"
    "List.map_filter r_hash (clipboard s') = List.map_filter r_hash (clipboard s)"
    using keeps by (simp_all add: rows map_filter_map comp_def)
  moreover have "\<forall>r \<in> set (clipboard s'). 0 < r_id r \<and> r_id r \<le> last_seq s'"
    using ok keeps frame by (auto simp: store_ok_def rows_ok_def rows)
  ultimately have "rows_ok s'"
    using ok frame by (simp add: store_ok_def rows_ok_def)
  moreover have "manifests_live s'"
    using ok keeps frame by (fastforce simp: store_ok_def manifests_live_def rows)
  moreover have "rows_complete s'"
    using ok keeps frame by (auto simp: store_ok_def rows_complete_def rows)
  ultimately show ?thesis using ok frame by (simp add: store_ok_def)
qed

lemma touch_row_frame [simp]:
  "chunk_db (touch_row ts rid s) = chunk_db s" "last_seq (touch_row ts rid s) = last_seq s"
  by (simp_all add: touch_row_def)

lemma touch_row_set:
  "set (clipboard (touch_row ts rid s)) =
     (\<lambda>r. if r_id r = rid then r\<lparr> r_ts := ts \<rparr> else r) ` set (clipboard s)"
  by (simp add: touch_row_def)

lemma touch_row_ok: "store_ok sha s \<Longrightarrow> store_ok sha (touch_row ts rid s)"
  by (rule store_ok_map_rows [where f = "\<lambda>r. if r_id r = rid then r\<lparr> r_ts := ts \<rparr> else r"])
    (simp_all add: touch_row_def)

lemma set_pinned_ok: "store_ok sha s \<Longrightarrow> store_ok sha (snd (set_pinned fails rid pin s))"
proof (cases "fails StPin")
  case False
  assume "store_ok sha s"
  then show ?thesis
    by (rule store_ok_map_rows [where f = "\<lambda>r. if r_id r = rid then r\<lparr> r_pinned := pin \<rparr> else r"])
      (simp_all add: False set_pinned_def)
qed (simp add: set_pinned_def)

section \<open>Inserting a row\<close>

lemma insert_row_Inr:
  assumes "insert_row fails ts mime sz preview content hash s = Inr (rid, s1)"
  shows "rid = last_seq s + 1" "find_hash hash s = None"
    "s1 = s\<lparr> clipboard := clipboard s @ [fresh_row rid ts mime sz preview content hash], last_seq := rid \<rparr>"
  using assms by (auto simp: insert_row_def Let_def split: if_splits)

lemma fresh_row_simps [simp]:
  "r_id (fresh_row rid ts mime sz preview content hash) = rid"
  "r_ts (fresh_row rid ts mime sz preview content hash) = ts"
  "r_mime (fresh_row rid ts mime sz preview content hash) = mime"
  "r_size (fresh_row rid ts mime sz preview content hash) = sz"
  "r_hash (fresh_row rid ts mime sz preview content hash) = Some hash"
  "r_pinned (fresh_row rid ts mime sz preview content hash) = False"
  "r_chunked (fresh_row rid ts mime sz preview content hash) = (case content of Chunked _ \<Rightarrow> True | _ \<Rightarrow> False)"
  by (simp_all add: fresh_row_def)

text \<open>What is stored for a payload: its bytes, except for a detached or image row.\<close>

definition stored_inline :: "string \<Rightarrow> bytes \<Rightarrow> bool" where
  "stored_inline mime data \<longleftrightarrow> \<not> is_cache_class mime \<or> valid_utf8 data \<and> is_text_like_mime mime"

definition expected_content :: "string \<Rightarrow> body \<Rightarrow> bytes option" where
  "expected_content mime body =
     (case body of Detached _ \<Rightarrow> None | Bytes data \<Rightarrow> if stored_inline mime data then Some data else None)"

lemma insert_row_ok:
  assumes ok: "store_ok sha s" and ins: "insert_row fails ts mime sz preview content hash s = Inr (rid, s1)"
    and plain: "\<And>d. content \<noteq> Chunked d"
  shows "store_ok sha s1"
proof -
  note i = insert_row_Inr [OF ins]
  have "rid \<notin> r_id ` set (clipboard s)"
    using ok i(1) by (fastforce simp: store_ok_def rows_ok_def)
  then have "rows_ok s1"
    using ok i find_hash_None [of hash s]
    by (force simp: store_ok_def rows_ok_def map_filter_append map_filter_simps set_map_filter)
  moreover have "manifests_live s1" "rows_complete s1"
    using ok plain i(3) by (auto simp: store_ok_def manifests_live_def rows_complete_def split: content.splits)
  ultimately show ?thesis using ok i(3) by (simp add: store_ok_def)
qed

lemma fresh_has_no_manifest:
  assumes "store_ok sha s" shows "\<not> has_manifest (last_seq s + 1) (chunk_db s)"
  using assms by (fastforce simp: store_ok_def rows_ok_def manifests_live_def)

lemma insert_chunked_ok:
  assumes ok: "store_ok sha s"
    and ins: "insert_row fails ts mime (int (length data)) preview (Chunked data) hash s = Inr (rid, s1)"
    and put: "store_chunks sha fails rid data (chunk_db s1) = Inr c"
    and cf: "collision_free sha data (chunk_db s)"
  shows "store_ok sha (s1\<lparr> chunk_db := c \<rparr>)" "load rid c = data"
    "j \<noteq> rid \<Longrightarrow> load j c = load j (chunk_db s)"
proof -
  note i = insert_row_Inr [OF ins]
  have cdb: "chunk_db s1 = chunk_db s" by (simp add: i(3))
  note put' = put [unfolded cdb]
  have cok: "chunks_ok sha (chunk_db s)" using ok by (simp add: store_ok_def)
  have fresh: "\<not> has_manifest rid (chunk_db s)" using fresh_has_no_manifest [OF ok] i(1) by simp
  note c = store_chunks_spec [OF put' cok cf fresh]
  show "load rid c = data" "j \<noteq> rid \<Longrightarrow> load j c = load j (chunk_db s)" by (rule c)+
  let ?s = "s1\<lparr> chunk_db := c \<rparr>"
  have new: "rid \<notin> r_id ` set (clipboard s)"
    using ok i(1) by (fastforce simp: store_ok_def rows_ok_def)
  then have "rows_ok ?s"
    using ok i find_hash_None [of hash s]
    by (force simp: store_ok_def rows_ok_def map_filter_append map_filter_simps set_map_filter)
  moreover have "manifests_live ?s"
  proof (unfold manifests_live_def, intro allI impI)
    fix j assume "has_manifest j (chunk_db ?s)"
    then have "j = rid \<or> has_manifest j (chunk_db s)" using c(4) by simp
    then show "\<exists>r \<in> set (clipboard ?s). r_id r = j \<and> r_chunked r"
      using ok i(3) by (auto simp: store_ok_def manifests_live_def)
  qed
  moreover have "rows_complete ?s"
  proof (unfold rows_complete_def, intro ballI impI)
    fix r assume r: "r \<in> set (clipboard ?s)" "r_chunked r"
    show "int (length (load (r_id r) (chunk_db ?s))) = r_size r"
    proof (cases "r \<in> set (clipboard s)")
      case True
      with new have "r_id r \<noteq> rid" by auto
      with True r(2) ok c(3) show ?thesis by (simp add: store_ok_def rows_complete_def)
    next
      case False
      with r(1) i(3) have "r = fresh_row rid ts mime (int (length data)) preview (Chunked data) hash" by simp
      with c(2) show ?thesis by simp
    qed
  qed
  ultimately show "store_ok sha ?s" using c(1) by (simp add: store_ok_def)
qed


section \<open>Insert or touch\<close>

text \<open>The bytes a body brings to the chunk table, if it brings any.\<close>

definition no_collision :: "(bytes \<Rightarrow> bytes) \<Rightarrow> body \<Rightarrow> sqlite_store \<Rightarrow> bool" where
  "no_collision sha body s =
     (case body of Bytes data \<Rightarrow> collision_free sha data (chunk_db s) | Detached _ \<Rightarrow> True)"

lemma place_record_touch:
  assumes "find_hash hash s = Some rid" and "place_record sha fails ts mime body hash s = Inr (k, s1)"
  shows "k = rid" "s1 = touch_row ts rid s"
  using assms
  by (auto simp: place_record_def insert_row_def Let_def split: if_splits body.splits prod.splits)

lemma place_record_insert:
  assumes "find_hash hash s = None" and "place_record sha fails ts mime body hash s = Inr (rid, s1)"
  obtains preview content s0 where
    "insert_row fails ts mime (body_len body) preview content hash s = Inr (rid, s0)"
    "(preview, content) = (case body of Detached _ \<Rightarrow> (None, NoContent)
        | Bytes data \<Rightarrow> row_parts mime data (is_cache_class mime))"
    "(\<exists>data c. body = Bytes data \<and> content = Chunked data \<and>
        store_chunks sha fails rid data (chunk_db s0) = Inr c \<and> s1 = s0\<lparr> chunk_db := c \<rparr>) \<or>
     (\<forall>d. content \<noteq> Chunked d) \<and> s1 = s0"
proof -
  define pc where "pc = (case body of Detached _ \<Rightarrow> (None, NoContent)
        | Bytes data \<Rightarrow> row_parts mime data (is_cache_class mime))"
  obtain preview content where pc': "pc = (preview, content)" by (cases pc)
  have chunked: "content = Chunked d \<Longrightarrow> body = Bytes d" for d
    using pc' by (auto simp: pc_def row_parts_def split: body.splits if_splits)
  have "try_bind (insert_row fails ts mime (body_len body) preview content hash s)
      (\<lambda>(rid, s1). case content of
         Chunked data \<Rightarrow>
           try_bind (with_chunks (store_chunks sha fails rid data (chunk_db s1)) s1) (\<lambda>s2. Inr (rid, s2))
       | _ \<Rightarrow> Inr (rid, s1)) = Inr (rid, s1)"
    using assms pc' by (simp add: place_record_def pc_def [symmetric] split: if_splits)
  then obtain k s0 where ins: "insert_row fails ts mime (body_len body) preview content hash s = Inr (k, s0)"
    and rest: "(case content of
         Chunked data \<Rightarrow>
           try_bind (with_chunks (store_chunks sha fails k data (chunk_db s0)) s0) (\<lambda>s2. Inr (k, s2))
       | _ \<Rightarrow> Inr (k, s0)) = (Inr (rid, s1) :: sql_error + int \<times> sqlite_store)"
    by (auto simp: try_bind_Inr_iff)
  have "k = rid" using rest by (auto simp: try_bind_Inr_iff split: content.splits)
  moreover have "(\<exists>data c. body = Bytes data \<and> content = Chunked data \<and>
        store_chunks sha fails rid data (chunk_db s0) = Inr c \<and> s1 = s0\<lparr> chunk_db := c \<rparr>) \<or>
     (\<forall>d. content \<noteq> Chunked d) \<and> s1 = s0"
    using rest chunked by (auto simp: try_bind_Inr_iff with_chunks_def split: content.splits)
  moreover have "(preview, content) = (case body of Detached _ \<Rightarrow> (None, NoContent)
        | Bytes data \<Rightarrow> row_parts mime data (is_cache_class mime))"
    using pc' by (simp add: pc_def)
  ultimately show ?thesis using ins by (intro that [of preview content s0]) simp_all
qed

text \<open>What the insert-or-touch half leaves behind.\<close>

definition placed :: "int \<Rightarrow> string \<Rightarrow> int \<Rightarrow> sqlite_store \<Rightarrow> sqlite_store \<Rightarrow> bool" where
  "placed ts hash rid s s1 \<longleftrightarrow>
     (\<exists>r \<in> set (clipboard s1). r_id r = rid \<and> r_hash r = Some hash \<and> r_ts r = ts) \<and>
     (\<forall>r. r_id r \<noteq> rid \<longrightarrow> (r \<in> set (clipboard s1) \<longleftrightarrow> r \<in> set (clipboard s))) \<and>
     (\<forall>j. j \<noteq> rid \<longrightarrow> load j (chunk_db s1) = load j (chunk_db s))"

lemma place_known:
  assumes ok: "store_ok sha s" and place: "place_record sha fails ts mime body hash s = Inr (rid, s1)"
    and known: "find_hash hash s = Some k"
  shows "store_ok sha s1" "placed ts hash rid s s1"
proof -
  note t = place_record_touch [OF known place]
  obtain r where "r \<in> set (clipboard s)" "r_id r = k" "r_hash r = Some hash"
    using find_hash_Some [OF known] by blast
  then have "r\<lparr> r_ts := ts \<rparr> \<in> set (clipboard s1)" "r_id (r\<lparr> r_ts := ts \<rparr>) = rid"
    "r_hash (r\<lparr> r_ts := ts \<rparr>) = Some hash"
    using t by (auto simp: touch_row_set)
  moreover have "r_id q \<noteq> rid \<Longrightarrow> q \<in> set (clipboard s1) \<longleftrightarrow> q \<in> set (clipboard s)" for q
    using t by (auto simp: touch_row_set image_iff split: if_splits)
  moreover have "r_ts (r\<lparr> r_ts := ts \<rparr>) = ts" by simp
  moreover have "chunk_db s1 = chunk_db s" using t by simp
  ultimately show "placed ts hash rid s s1" unfolding placed_def by (metis (no_types, lifting))
  show "store_ok sha s1" using t ok by (simp add: touch_row_ok)
qed

lemma place_new:
  assumes ok: "store_ok sha s" and place: "place_record sha fails ts mime body hash s = Inr (rid, s1)"
    and cf: "no_collision sha body s" and new: "find_hash hash s = None"
  obtains preview content where "rid = last_seq s + 1"
    "clipboard s1 = clipboard s @ [fresh_row rid ts mime (body_len body) preview content hash]" "store_ok sha s1"
    "\<forall>j. j \<noteq> rid \<longrightarrow> load j (chunk_db s1) = load j (chunk_db s)"
    "content_of s1 (fresh_row rid ts mime (body_len body) preview content hash) = expected_content mime body"
proof -
  obtain preview content s0
    where ins: "insert_row fails ts mime (body_len body) preview content hash s = Inr (rid, s0)"
      and pc: "(preview, content) = (case body of Detached _ \<Rightarrow> (None, NoContent)
        | Bytes data \<Rightarrow> row_parts mime data (is_cache_class mime))"
      and cases: "(\<exists>data c. body = Bytes data \<and> content = Chunked data \<and>
          store_chunks sha fails rid data (chunk_db s0) = Inr c \<and> s1 = s0\<lparr> chunk_db := c \<rparr>) \<or>
        (\<forall>d. content \<noteq> Chunked d) \<and> s1 = s0"
    by (rule place_record_insert [OF new place])
  note i = insert_row_Inr [OF ins]
  let ?row = "fresh_row rid ts mime (body_len body) preview content hash"
  have rows: "clipboard s1 = clipboard s @ [?row]" using cases i(3) by auto
  have core: "store_ok sha s1 \<and> (\<forall>j. j \<noteq> rid \<longrightarrow> load j (chunk_db s1) = load j (chunk_db s)) \<and>
      content_of s1 ?row = expected_content mime body"
    using cases
  proof
    assume "\<exists>data c. body = Bytes data \<and> content = Chunked data \<and>
          store_chunks sha fails rid data (chunk_db s0) = Inr c \<and> s1 = s0\<lparr> chunk_db := c \<rparr>"
    then obtain data c where b: "body = Bytes data" "content = Chunked data"
        "store_chunks sha fails rid data (chunk_db s0) = Inr c" "s1 = s0\<lparr> chunk_db := c \<rparr>" by blast
    have ins': "insert_row fails ts mime (int (length data)) preview (Chunked data) hash s = Inr (rid, s0)"
      using ins b by (simp add: body_len_def)
    have cf': "collision_free sha data (chunk_db s)" using cf b by (simp add: no_collision_def)
    have "stored_inline mime data"
      using pc b by (auto simp: row_parts_def stored_inline_def is_chunkable_def split: if_splits)
    then show ?thesis
      using insert_chunked_ok [OF ok ins' b(3) cf'] b by (simp add: content_of_def expected_content_def)
  next
    assume plain: "(\<forall>d. content \<noteq> Chunked d) \<and> s1 = s0"
    then have "content_of s1 ?row = expected_content mime body"
      using pc by (auto simp: content_of_def expected_content_def stored_inline_def fresh_row_def
          cell_bytes_def row_parts_def split: body.splits content.splits if_splits)
    with plain insert_row_ok [OF ok ins] i(3) show ?thesis by simp
  qed
  with that [OF i(1) rows] show ?thesis by blast
qed

lemma place_record_spec:
  assumes ok: "store_ok sha s" and place: "place_record sha fails ts mime body hash s = Inr (rid, s1)"
    and cf: "no_collision sha body s"
  shows "store_ok sha s1" "placed ts hash rid s s1"
    "find_hash hash s = None \<Longrightarrow> rid = last_seq s + 1 \<and>
      (\<exists>r \<in> set (clipboard s1). r_id r = rid \<and> r_mime r = mime \<and> r_size r = body_len body \<and>
         \<not> r_pinned r \<and> r_hash r = Some hash \<and> content_of s1 r = expected_content mime body)"
proof -
  have "store_ok sha s1 \<and> placed ts hash rid s s1 \<and> (find_hash hash s = None \<longrightarrow> rid = last_seq s + 1 \<and>
      (\<exists>r \<in> set (clipboard s1). r_id r = rid \<and> r_mime r = mime \<and> r_size r = body_len body \<and>
         \<not> r_pinned r \<and> r_hash r = Some hash \<and> content_of s1 r = expected_content mime body))"
  proof (cases "find_hash hash s")
    case (Some k)
    with place_known [OF ok place Some] show ?thesis by simp
  next
    case None
    obtain preview content where n: "rid = last_seq s + 1"
      "clipboard s1 = clipboard s @ [fresh_row rid ts mime (body_len body) preview content hash]" "store_ok sha s1"
      "\<forall>j. j \<noteq> rid \<longrightarrow> load j (chunk_db s1) = load j (chunk_db s)"
      "content_of s1 (fresh_row rid ts mime (body_len body) preview content hash) = expected_content mime body"
      by (rule place_new [OF ok place cf None])
    have "placed ts hash rid s s1" using n(2,4) by (auto simp: placed_def)
    moreover have "\<exists>r \<in> set (clipboard s1). r_id r = rid \<and> r_mime r = mime \<and> r_size r = body_len body \<and>
        \<not> r_pinned r \<and> r_hash r = Some hash \<and> content_of s1 r = expected_content mime body"
      using n(2,5) by (intro bexI [of _ "fresh_row rid ts mime (body_len body) preview content hash"]) simp_all
    ultimately show ?thesis using n(1,3) by blast
  qed
  then show "store_ok sha s1" "placed ts hash rid s s1"
    "find_hash hash s = None \<Longrightarrow> rid = last_seq s + 1 \<and>
      (\<exists>r \<in> set (clipboard s1). r_id r = rid \<and> r_mime r = mime \<and> r_size r = body_len body \<and>
         \<not> r_pinned r \<and> r_hash r = Some hash \<and> content_of s1 r = expected_content mime body)"
    by blast+
qed

section \<open>Rotation\<close>

lemma rotate_rows_Inr:
  assumes "rotate_rows ord fails n s = Inr (hashes, s2)"
  obtains c where
    "release_each (release_chunks fails) (map r_id (filter r_chunked (expiring_rows ord n s))) (chunk_db s) = Inr c"
    "hashes = List.map_filter r_hash (expiring_rows ord n s)"
    "s2 = delete_rows (map r_id (expiring_rows ord n s)) (s\<lparr> chunk_db := c \<rparr>)"
  using assms by (auto simp: rotate_rows_def with_chunks_def try_bind_Inr_iff Let_def split: if_splits)

lemma delete_rows_fields [simp]:
  "clipboard (delete_rows ids s) = filter (\<lambda>r. r_id r \<notin> set ids) (clipboard s)"
  "chunk_db (delete_rows ids s) = chunk_db s" "last_seq (delete_rows ids s) = last_seq s"
  by (simp_all add: delete_rows_def)

text \<open>Removing rows together with the chunks of the chunked ones among them.\<close>

lemma remove_rows_ok:
  assumes ok: "store_ok sha s"
    and gone: "chunks_ok sha c" "\<And>j. has_manifest j c \<longleftrightarrow> j \<notin> set released \<and> has_manifest j (chunk_db s)"
    and keep: "\<And>j. j \<notin> set released \<Longrightarrow> load j c = load j (chunk_db s)"
    and rel: "set released = {r_id r | r. r \<in> set (clipboard s) \<and> r_id r \<in> set ids \<and> r_chunked r}"
  shows "store_ok sha (delete_rows ids (s\<lparr> chunk_db := c \<rparr>))"
proof -
  let ?s = "delete_rows ids (s\<lparr> chunk_db := c \<rparr>)"
  have d: "distinct (map r_id (clipboard s))" using ok by (simp add: store_ok_def rows_ok_def)
  have "rows_ok ?s"
    using ok by (auto simp: store_ok_def rows_ok_def distinct_map_filter distinct_map_filter_filter)
  moreover have "manifests_live ?s"
  proof (unfold manifests_live_def, intro allI impI)
    fix j assume "has_manifest j (chunk_db ?s)"
    then have j: "j \<notin> set released" "has_manifest j (chunk_db s)" using gone by simp_all
    then obtain r where r: "r \<in> set (clipboard s)" "r_id r = j" "r_chunked r"
      using ok by (auto simp: store_ok_def manifests_live_def)
    with j(1) rel have "j \<notin> set ids" by auto
    with r show "\<exists>r \<in> set (clipboard ?s). r_id r = j \<and> r_chunked r" by auto
  qed
  moreover have "rows_complete ?s"
  proof (unfold rows_complete_def, intro ballI impI)
    fix r assume r: "r \<in> set (clipboard ?s)" "r_chunked r"
    then have "r_id r \<notin> set released" using rel by auto
    then have "load (r_id r) (chunk_db ?s) = load (r_id r) (chunk_db s)" using keep by simp
    with r ok show "int (length (load (r_id r) (chunk_db ?s))) = r_size r"
      by (simp add: store_ok_def rows_complete_def)
  qed
  ultimately show ?thesis using gone(1) by (simp add: store_ok_def)
qed

context ts_order
begin

lemma expiring_subset:
  "r \<in> set (expiring_rows ord n s) \<Longrightarrow> r \<in> set (clipboard s) \<and> \<not> r_pinned r"
  using in_set_dropD [of r "sql_offset n" "ord (filter (\<lambda>r. \<not> r_pinned r) (clipboard s))"]
  by (simp add: expiring_rows_def)

lemma expiring_ids_mem:
  assumes "store_ok sha s" and "r \<in> set (clipboard s)"
  shows "r_id r \<in> set (map r_id (expiring_rows ord n s)) \<longleftrightarrow> r \<in> set (expiring_rows ord n s)"
proof
  assume "r_id r \<in> set (map r_id (expiring_rows ord n s))"
  then obtain r' where "r' \<in> set (expiring_rows ord n s)" "r_id r' = r_id r" by auto
  moreover have "distinct (map r_id (clipboard s))" using assms(1) by (simp add: store_ok_def rows_ok_def)
  ultimately show "r \<in> set (expiring_rows ord n s)"
    using assms(2) expiring_subset same_id_same_row by metis
qed simp

lemma rotate_rows_ok:
  assumes ok: "store_ok sha s" and rot: "rotate_rows ord fails n s = Inr (hashes, s2)"
  shows "store_ok sha s2"
    and "set (clipboard s2) = set (clipboard s) - set (expiring_rows ord n s)"
    and "r \<in> set (clipboard s2) \<Longrightarrow> content_of s2 r = content_of s r"
    and "hashes = List.map_filter r_hash (expiring_rows ord n s)"
proof -
  let ?e = "expiring_rows ord n s"
  let ?rel = "map r_id (filter r_chunked ?e)"
  obtain c where c: "release_each (release_chunks fails) ?rel (chunk_db s) = Inr c"
    and h: "hashes = List.map_filter r_hash ?e"
    and s2: "s2 = delete_rows (map r_id ?e) (s\<lparr> chunk_db := c \<rparr>)"
    using rot by (rule rotate_rows_Inr)
  have cok: "chunks_ok sha (chunk_db s)" using ok by (simp add: store_ok_def)
  have "x \<in> set ?rel \<longleftrightarrow> (\<exists>r \<in> set (clipboard s). x = r_id r \<and> r_id r \<in> set (map r_id ?e) \<and> r_chunked r)" for x
    using expiring_ids_mem [OF ok, of _ n] expiring_subset [of _ n s] by fastforce
  then have "set ?rel = {r_id r | r. r \<in> set (clipboard s) \<and> r_id r \<in> set (map r_id ?e) \<and> r_chunked r}"
    by blast
  from remove_rows_ok [OF ok ck.release_each_ok [OF cok c] ck.release_each_held [OF cok c]
      ck.release_each_get [OF cok c] this]
  show "store_ok sha s2" by (simp add: s2)
  show rows: "set (clipboard s2) = set (clipboard s) - set ?e"
    using expiring_ids_mem [OF ok, of _ n] by (auto simp: s2)
  show "content_of s2 r = content_of s r" if r: "r \<in> set (clipboard s2)"
  proof -
    have "r_id r \<notin> set ?rel" using r by (auto simp: s2)
    then have "load (r_id r) c = load (r_id r) (chunk_db s)" by (rule ck.release_each_get [OF cok c])
    then show ?thesis by (simp add: content_of_def s2)
  qed
  show "hashes = List.map_filter r_hash ?e" by (rule h)
qed

text \<open>At most the cap of unpinned rows is left, and what goes is never newer than what stays.\<close>

lemma rotation_bound:
  assumes "store_ok sha s"
  shows "length (filter (\<lambda>r. \<not> r_pinned r \<and> r \<notin> set (expiring_rows ord n s)) (clipboard s)) \<le> sql_offset n"
    and "a \<in> set (clipboard s) \<Longrightarrow> \<not> r_pinned a \<Longrightarrow> a \<notin> set (expiring_rows ord n s) \<Longrightarrow>
      b \<in> set (expiring_rows ord n s) \<Longrightarrow> r_ts b \<le> r_ts a"
proof -
  let ?u = "filter (\<lambda>r. \<not> r_pinned r) (clipboard s)"
  let ?k = "take (sql_offset n) (ord ?u)"
  have d: "distinct (clipboard s)" using assms by (auto simp: store_ok_def rows_ok_def distinct_map)
  have split: "set ?u = set ?k \<union> set (expiring_rows ord n s)"
    using ord_set [of ?u] by (metis append_take_drop_id expiring_rows_def set_append)
  let ?kept = "filter (\<lambda>r. \<not> r_pinned r \<and> r \<notin> set (expiring_rows ord n s)) (clipboard s)"
  have "set ?kept \<subseteq> set ?k" using split by auto
  then have "card (set ?kept) \<le> card (set ?k)" by (rule card_mono [OF finite_set])
  also have "\<dots> \<le> length ?k" by (rule card_length)
  also have "\<dots> \<le> sql_offset n" by simp
  finally show "length ?kept \<le> sql_offset n"
    using distinct_card [of ?kept] d by (simp only: distinct_filter)
  show "r_ts b \<le> r_ts a" if "a \<in> set (clipboard s)" "\<not> r_pinned a" "a \<notin> set (expiring_rows ord n s)"
      "b \<in> set (expiring_rows ord n s)"
  proof -
    have "a \<in> set ?k" using split that by auto
    then show ?thesis using that(4) drop_oldest by (simp add: expiring_rows_def)
  qed
qed

end


section \<open>The whole upsert\<close>

lemma upsert_Inr:
  assumes "upsert sha ord fails now mime body hash n s = (Inr out, s')"
  obtains s1 where "place_record sha fails now mime body hash s = Inr (real_id out, s1)"
    "rotate_rows ord fails n s1 = Inr (expired_hashes out, s')" "is_image out = is_cache_class mime"
  using assms
  by (auto simp: upsert_def try_bind_Inr_iff split: if_splits sum.splits)

lemma upsert_Inl: "upsert sha ord fails now mime body hash n s = (Inl e, s') \<Longrightarrow> s' = s"
  by (auto simp: upsert_def split: if_splits sum.splits)

lemma no_failure_release: "(\<And>st. \<not> fails st) \<Longrightarrow> \<exists>c'. release_chunks fails k c = Inr c'"
  by (simp add: release_chunks_def)

lemma upsert_succeeds:
  assumes ok: "store_ok sha s" and nf: "\<And>st. \<not> fails st" and ids: "last_seq s < i64_max"
  shows "\<exists>out s'. upsert sha ord fails now mime body hash n s = (Inr out, s')"
proof -
  have "\<exists>c. store_chunks sha fails (last_seq s + 1) data (chunk_db s) = Inr c" for data
  proof -
    have "\<forall>k. (last_seq s + 1, k) \<notin> (\<lambda>(i, s, _). (i, s)) ` set (manifest (chunk_db s))"
      using fresh_has_no_manifest [OF ok] by (force simp: has_manifest_def)
    then show ?thesis
      using store_chunks_from_succeeds [of fails 0 "last_seq s + 1" "chunk_db s" sha "chunks data"] nf
      by (auto simp: store_chunks_def)
  qed
  then have "store_chunks sha fails (last_seq s + 1) data (chunk_db s) \<noteq> Inl e" for data e
    by (metis sum.distinct(1))
  then have "\<exists>p. place_record sha fails now mime body hash s = Inr p"
    using nf ids by (cases "find_hash hash s")
      (auto simp: place_record_def insert_row_def with_chunks_def Let_def try_bind_def
        split: sum.splits prod.splits content.splits)
  then obtain rid s1 where p: "place_record sha fails now mime body hash s = Inr (rid, s1)" by auto
  obtain c where "release_each (release_chunks fails)
      (map r_id (filter r_chunked (expiring_rows ord n s1))) (chunk_db s1) = Inr c"
    using release_each_succeeds [of "release_chunks fails"] no_failure_release [of fails] nf by blast
  then have "\<exists>h s2. rotate_rows ord fails n s1 = Inr (h, s2)"
    using nf by (simp add: rotate_rows_def with_chunks_def Let_def)
  then show ?thesis using p nf by (auto simp: upsert_def)
qed

context ts_order
begin

lemma upsert_ok:
  assumes "store_ok sha s" and "no_collision sha body s"
  shows "store_ok sha (snd (upsert sha ord fails now mime body hash n s))"
proof (cases "upsert sha ord fails now mime body hash n s")
  case (Pair res s')
  show ?thesis
  proof (cases res)
    case (Inl e)
    with Pair upsert_Inl assms show ?thesis by fastforce
  next
    case (Inr out)
    obtain s1 where p: "place_record sha fails now mime body hash s = Inr (real_id out, s1)"
        and r: "rotate_rows ord fails n s1 = Inr (expired_hashes out, s')"
      by (rule upsert_Inr [OF Pair [unfolded Inr]])
    from rotate_rows_ok(1) [OF place_record_spec(1) [OF assms(1) p assms(2)] r] Pair show ?thesis by simp
  qed
qed

text \<open>Rows other than the one placed: gone or exactly as before; a pinned one is never gone.\<close>

lemma upsert_others:
  assumes ok: "store_ok sha s" and cf: "no_collision sha body s"
    and up: "upsert sha ord fails now mime body hash n s = (Inr out, s')" and other: "r_id r \<noteq> real_id out"
  shows "r \<in> set (clipboard s') \<Longrightarrow> r \<in> set (clipboard s) \<and> content_of s' r = content_of s r"
    and "r \<in> set (clipboard s) \<Longrightarrow> r_pinned r \<Longrightarrow> r \<in> set (clipboard s')"
proof -
  obtain s1 where p: "place_record sha fails now mime body hash s = Inr (real_id out, s1)"
      and r: "rotate_rows ord fails n s1 = Inr (expired_hashes out, s')"
    by (rule upsert_Inr [OF up])
  note spec = place_record_spec [OF ok p cf]
  note rot = rotate_rows_ok [OF spec(1) r]
  have same: "r \<in> set (clipboard s1) \<longleftrightarrow> r \<in> set (clipboard s)"
    and load: "load (r_id r) (chunk_db s1) = load (r_id r) (chunk_db s)"
    using spec(2) other by (simp_all add: placed_def)
  show "r \<in> set (clipboard s) \<and> content_of s' r = content_of s r" if "r \<in> set (clipboard s')"
    using that rot(2) rot(3) [OF that] same load by (simp add: content_of_def)
  show "r \<in> set (clipboard s')" if "r \<in> set (clipboard s)" "r_pinned r"
    using that rot(2) same expiring_subset by blast
qed

lemma upsert_rotation:
  assumes ok: "store_ok sha s" and cf: "no_collision sha body s"
    and up: "upsert sha ord fails now mime body hash n s = (Inr out, s')"
  shows "length (filter (\<lambda>r. \<not> r_pinned r) (clipboard s')) \<le> sql_offset n"
    and "a \<in> set (clipboard s') \<Longrightarrow> \<not> r_pinned a \<Longrightarrow> b \<in> set (clipboard s) \<Longrightarrow> b \<notin> set (clipboard s') \<Longrightarrow>
      r_id b \<noteq> real_id out \<Longrightarrow> r_ts b \<le> r_ts a"
proof -
  obtain s1 where p: "place_record sha fails now mime body hash s = Inr (real_id out, s1)"
      and r: "rotate_rows ord fails n s1 = Inr (expired_hashes out, s')"
    by (rule upsert_Inr [OF up])
  note spec = place_record_spec [OF ok p cf]
  note rot = rotate_rows_ok [OF spec(1) r]
  have "filter (\<lambda>r. \<not> r_pinned r) (clipboard s') =
      filter (\<lambda>r. \<not> r_pinned r \<and> r \<notin> set (expiring_rows ord n s1)) (clipboard s1)"
  proof -
    obtain c where "s' = delete_rows (map r_id (expiring_rows ord n s1)) (s1\<lparr> chunk_db := c \<rparr>)"
      using r by (rule rotate_rows_Inr)
    then show ?thesis using expiring_ids_mem [OF spec(1), of _ n] by (auto intro!: filter_cong)
  qed
  then show "length (filter (\<lambda>r. \<not> r_pinned r) (clipboard s')) \<le> sql_offset n"
    using rotation_bound(1) [OF spec(1), of n] by simp
  show "r_ts b \<le> r_ts a" if "a \<in> set (clipboard s')" "\<not> r_pinned a" "b \<in> set (clipboard s)"
    "b \<notin> set (clipboard s')" "r_id b \<noteq> real_id out"
  proof -
    have "b \<in> set (clipboard s1)" using spec(2) that(3,5) by (simp add: placed_def)
    then show ?thesis
      using rotation_bound(2) [OF spec(1), of a n b] rot(2) that by blast
  qed
qed

text \<open>The row just placed survives when it is the newest and the cap admits one row.\<close>

lemma upsert_keeps_placed:
  assumes ok: "store_ok sha s" and cf: "no_collision sha body s"
    and up: "upsert sha ord fails now mime body hash n s = (Inr out, s')"
    and newest: "\<And>r. r \<in> set (clipboard s) \<Longrightarrow> r_ts r < now" and cap: "0 < sql_offset n"
    and p: "place_record sha fails now mime body hash s = Inr (real_id out, s1)"
    and r: "r \<in> set (clipboard s1)" "r_id r = real_id out"
  shows "r \<in> set (clipboard s')" "content_of s' r = content_of s1 r"
proof -
  obtain s2 where "place_record sha fails now mime body hash s = Inr (real_id out, s2)"
      and rot': "rotate_rows ord fails n s2 = Inr (expired_hashes out, s')"
    by (rule upsert_Inr [OF up])
  with p have rot': "rotate_rows ord fails n s1 = Inr (expired_hashes out, s')" by simp
  note spec = place_record_spec [OF ok p cf]
  note rot = rotate_rows_ok [OF spec(1) rot']
  have d: "distinct (map r_id (clipboard s1))" using spec(1) by (simp add: store_ok_def rows_ok_def)
  have ts: "r_ts r = now" using spec(2) r d same_id_same_row by (fastforce simp: placed_def)
  have others: "r_ts q < now" if "q \<in> set (clipboard s1)" "q \<noteq> r" for q
    using that spec(2) r d newest same_id_same_row by (metis placed_def)
  have "r \<notin> set (expiring_rows ord n s1)"
  proof
    assume e: "r \<in> set (expiring_rows ord n s1)"
    let ?o = "ord (filter (\<lambda>r. \<not> r_pinned r) (clipboard s1))"
    have lt: "sql_offset n < length ?o"
      using e by (cases "sql_offset n < length ?o") (simp_all add: expiring_rows_def)
    then have a: "hd ?o \<in> set (take (sql_offset n) ?o)"
      using cap by (cases ?o; cases "sql_offset n") simp_all
    have "r_ts r \<le> r_ts (hd ?o)"
      using drop_oldest [OF a] e by (simp add: expiring_rows_def)
    moreover have mem: "hd ?o \<in> set (clipboard s1)" using a in_set_takeD ord_set by fastforce
    ultimately have "hd ?o = r" using others ts by fastforce
    moreover have "distinct ?o"
      using ord_distinct_ids [of "filter (\<lambda>r. \<not> r_pinned r) (clipboard s1)"] distinct_map_filter [OF d]
      by (metis distinct_map)
    ultimately show False
      using take_drop_disjoint a e by (metis expiring_rows_def)
  qed
  then show s': "r \<in> set (clipboard s')" using rot(2) r by blast
  show "content_of s' r = content_of s1 r" by (rule rot(3) [OF s'])
qed

end

end
