(* ===== verification/DbProps.thy ===== *)
theory DbProps
  imports DbInvariant
begin

text \<open>
  The properties of the history database that callers rely on: the invariant over every sequence of
  writes, what an insert can be read back as, what rotation may and may not remove, deduplication,
  and the consistency of search with the listing order.
\<close>

section \<open>Every sequence of writes\<close>

inductive db_step :: "(bytes \<Rightarrow> bytes) \<Rightarrow> (clip_row list \<Rightarrow> clip_row list) \<Rightarrow> sqlite_store \<Rightarrow> sqlite_store \<Rightarrow> bool"
  for sha ord where
  step_record: "no_collision sha (Bytes data) s \<Longrightarrow>
    db_step sha ord s (snd (upsert_record sha ord fails now mime data hash n s))"
| step_detached: "db_step sha ord s (snd (upsert_detached sha ord fails now mime len hash n s))"
| step_touch: "db_step sha ord s (snd (update_timestamp fails now rid s))"
| step_delete: "\<not> fails StFind \<Longrightarrow> db_step sha ord s (snd (delete_by_id fails rid s))"
| step_wipe: "db_step sha ord s (snd (store_wipe fails s))"
| step_pin: "db_step sha ord s (snd (set_pinned fails rid pin s))"

inductive db_reach :: "(bytes \<Rightarrow> bytes) \<Rightarrow> (clip_row list \<Rightarrow> clip_row list) \<Rightarrow> sqlite_store \<Rightarrow> bool"
  for sha ord where
  reach_empty: "db_reach sha ord empty_store"
| reach_step: "db_reach sha ord s \<Longrightarrow> db_step sha ord s s' \<Longrightarrow> db_reach sha ord s'"

lemma delete_by_id_ok:
  assumes ok: "store_ok sha s" and find: "\<not> fails StFind"
  shows "store_ok sha (snd (delete_by_id fails rid s))"
proof -
  have d: "distinct (map r_id (clipboard s))" and cok: "chunks_ok sha (chunk_db s)"
    using ok by (simp_all add: store_ok_def rows_ok_def)
  show ?thesis
  proof (cases "get_row rid s")
    case None
    then have "rid \<notin> r_id ` set (clipboard s)" by (auto simp: get_row_def find_None_iff)
    then have "store_ok sha (delete_rows [rid] s)"
      using remove_rows_ok [OF ok cok, of "[]" "[rid]"] by auto
    with ok None find show ?thesis by (simp add: delete_by_id_def)
  next
    case (Some r)
    then have r: "r \<in> set (clipboard s)" "r_id r = rid" using get_row_Some_iff [OF d] by auto
    have one: "q \<in> set (clipboard s) \<Longrightarrow> r_id q = rid \<Longrightarrow> q = r" for q
      using same_id_same_row [OF d] r by blast
    show ?thesis
    proof (cases "r_chunked r")
      case True
      have "store_ok sha (delete_rows [rid] (s\<lparr> chunk_db := c \<rparr>))"
        if c: "release_chunks fails rid (chunk_db s) = Inr c" for c
      proof (rule remove_rows_ok [OF ok, of c "[rid]" "[rid]"])
        show "chunks_ok sha c" by (rule release_chunks_spec(1) [OF c cok])
        show "has_manifest j c \<longleftrightarrow> j \<notin> set [rid] \<and> has_manifest j (chunk_db s)" for j
          using release_chunks_spec(4) [OF c cok] by simp
        show "j \<notin> set [rid] \<Longrightarrow> load j c = load j (chunk_db s)" for j
          using release_chunks_spec(3) [OF c cok] by simp
        show "set [rid] = {r_id r | r. r \<in> set (clipboard s) \<and> r_id r \<in> set [rid] \<and> r_chunked r}"
          using r True by auto
      qed
      with ok Some find True show ?thesis
        by (auto simp: delete_by_id_def with_chunks_def try_bind_def split: sum.splits)
    next
      case False
      have "store_ok sha (delete_rows [rid] s)"
        using remove_rows_ok [OF ok cok, of "[]" "[rid]"] one False by auto
      with ok Some find False show ?thesis by (simp add: delete_by_id_def)
    qed
  qed
qed

text \<open>What a successful deletion leaves: the other rows, with their content, and the hash of the row that went.\<close>

lemma delete_by_id_Inr:
  assumes ok: "store_ok sha s" and find: "\<not> fails StFind" and del: "delete_by_id fails rid s = (Inr (deleted, h), s')"
  shows "set (clipboard s') = {r \<in> set (clipboard s). r_id r \<noteq> rid}"
    "r \<in> set (clipboard s') \<Longrightarrow> content_of s' r = content_of s r" "h = Option.bind (get_row rid s) r_hash"
proof -
  have cok: "chunks_ok sha (chunk_db s)" using ok by (simp add: store_ok_def)
  from del find obtain s1 where s': "s' = delete_rows [rid] s1"
    and s1: "s1 = s \<or> (\<exists>c. release_chunks fails rid (chunk_db s) = Inr c \<and> s1 = s\<lparr> chunk_db := c \<rparr>)"
    and h: "h = Option.bind (get_row rid s) r_hash"
    by (auto simp: delete_by_id_def with_chunks_def try_bind_def Let_def
        split: if_splits option.splits sum.splits prod.splits)
  have rows: "clipboard s1 = clipboard s" using s1 by auto
  have load: "j \<noteq> rid \<Longrightarrow> load j (chunk_db s1) = load j (chunk_db s)" for j
    using s1 release_chunks_spec(3) [OF _ cok] by auto
  show "set (clipboard s') = {r \<in> set (clipboard s). r_id r \<noteq> rid}" by (auto simp: s' rows)
  show "r \<in> set (clipboard s') \<Longrightarrow> content_of s' r = content_of s r" by (auto simp: s' rows load content_of_def)
  show "h = Option.bind (get_row rid s) r_hash" by (rule h)
qed

lemma store_wipe_ok: "store_ok sha s \<Longrightarrow> store_ok sha (snd (store_wipe fails s))"
  by (auto simp: store_wipe_def store_ok_def rows_ok_def manifests_live_def rows_complete_def
      chunks_ok_empty has_manifest_empty map_filter_simps)

lemma db_step_ok:
  assumes "ts_order ord" and "db_step sha ord s s'" and "store_ok sha s"
  shows "store_ok sha s'"
  using assms(2,3)
proof (induction rule: db_step.induct)
  case (step_record data s fails now mime hash n)
  then show ?case
    using ts_order.upsert_ok [OF assms(1)] by (auto simp: upsert_record_def)
next
  case (step_detached s fails now mime len hash n)
  then show ?case
    using ts_order.upsert_ok [OF assms(1)] by (auto simp: upsert_detached_def no_collision_def)
next
  case (step_touch s fails now rid)
  then show ?case by (simp add: update_timestamp_def touch_row_ok)
qed (simp_all add: delete_by_id_ok store_wipe_ok set_pinned_ok)

lemma db_reach_ok:
  assumes "ts_order ord" and "db_reach sha ord s"
  shows "store_ok sha s"
  using assms(2)
  by (induction rule: db_reach.induct) (auto intro: store_ok_empty db_step_ok [OF assms(1)])



section \<open>Reading back what was stored\<close>

lemma expected_content_inline:
  "\<not> is_cache_class mime \<Longrightarrow> expected_content mime (Bytes data) = Some data"
  by (simp add: expected_content_def stored_inline_def)

text \<open>a payload that is not cache class and not skipped, stored under a new fingerprint as the newest
  entry, is read back byte for byte under the id the insert returned, whether it is kept inline or as
  chunks shared with other entries; the insert itself goes through when no statement fails.\<close>

lemma upsert_roundtrip:
  assumes "ts_order ord" and "store_ok sha s" and "collision_free sha data (chunk_db s)"
    and "\<not> is_skipped mime (length data)" and "\<not> is_cache_class mime"
    and "find_hash hash s = None" and "last_seq s < i64_max"
    and "\<forall>r \<in> set (clipboard s). r_ts r < now" and "0 < sql_offset n"
  shows "\<exists>out s'. upsert_record sha ord (\<lambda>_. False) now mime data hash n s = (Inr out, s') \<and>
    real_id out = last_seq s + 1 \<and>
    get_row_content (\<lambda>_. False) (real_id out) s' = Some (mime, Some data, hash)"
proof -
  let ?nf = "\<lambda>_ :: stmt. False"
  have cf: "no_collision sha (Bytes data) s" using assms(3) by (simp add: no_collision_def)
  obtain out s' where up: "upsert sha ord ?nf now mime (Bytes data) hash n s = (Inr out, s')"
    using upsert_succeeds [OF assms(2) _ assms(7), of ?nf] by blast
  obtain s1 where p: "place_record sha ?nf now mime (Bytes data) hash s = Inr (real_id out, s1)"
    by (rule upsert_Inr [OF up])
  have id: "real_id out = last_seq s + 1"
    using place_record_spec(3) [OF assms(2) p cf assms(6)] by blast
  obtain r where r: "r \<in> set (clipboard s1)" "r_id r = real_id out" "r_mime r = mime" "r_hash r = Some hash"
      "content_of s1 r = expected_content mime (Bytes data)"
    using place_record_spec(3) [OF assms(2) p cf assms(6)] by blast
  note kept = ts_order.upsert_keeps_placed [OF assms(1,2) cf up _ assms(9) p r(1,2)]
  have s': "r \<in> set (clipboard s')" "content_of s' r = Some data"
    using kept assms(5,8) r(5) by (simp_all add: expected_content_inline)
  have "store_ok sha s'" using ts_order.upsert_ok [OF assms(1,2) cf] up by (metis snd_conv)
  from get_row_content_eq [OF this s'(1) r(4), of ?nf] s'(2) r(2,3)
  have "get_row_content ?nf (real_id out) s' = Some (mime, Some data, hash)" by simp
  with up id assms(4) show ?thesis by (simp add: upsert_record_def)
qed

theorem upsert_roundtrip_witness:
  "\<exists>out s'. upsert_record (\<lambda>d. d) order_by_ts_desc (\<lambda>_. False) 5 ''text/plain'' ''hello'' ''h'' 3 empty_store
       = (Inr out, s') \<and> real_id out = last_seq empty_store + 1 \<and>
     get_row_content (\<lambda>_. False) (real_id out) s' = Some (''text/plain'', Some ''hello'', ''h'')"
proof (rule upsert_roundtrip [OF by_ts.ts_order_axioms store_ok_empty])
  show "collision_free (\<lambda>d. d) ''hello'' (chunk_db empty_store)" by (simp add: collision_free_def)
  show "\<not> is_skipped ''text/plain'' (length ''hello'')" "\<not> is_cache_class ''text/plain''" by code_simp+
qed (simp_all add: empty_store_def find_hash_def i64_max_def sql_offset_def as_i64_def)

section \<open>Rotation\<close>

lemma last_seq_empty: "last_seq empty_store < i64_max"
  by (simp add: empty_store_def i64_max_def)

lemma sql_offset_small: "n < 2 ^ 63 \<Longrightarrow> sql_offset n = n"
  by (simp add: sql_offset_def as_i64_def)

text \<open>C11: after an insert at most \<^verbatim>\<open>max_history\<close> unpinned entries remain; pinned entries are never rotated
  out; an unpinned entry that goes is never newer than one that stays; and every other entry that
  stays is unchanged, with the same content, even when the entries that went shared its chunks.\<close>

theorem upsert_rotation_policy:
  assumes "ts_order ord" and "store_ok sha s" and "no_collision sha body s" and "n < 2 ^ 63"
    and "upsert sha ord fails now mime body hash n s = (Inr out, s')"
  shows "length (filter (\<lambda>r. \<not> r_pinned r) (clipboard s')) \<le> n \<and>
    (\<forall>r. r \<in> set (clipboard s) \<and> r_pinned r \<and> r_id r \<noteq> real_id out \<longrightarrow> r \<in> set (clipboard s')) \<and>
    (\<forall>a b. a \<in> set (clipboard s') \<and> \<not> r_pinned a \<and> b \<in> set (clipboard s) \<and> b \<notin> set (clipboard s') \<and>
       r_id b \<noteq> real_id out \<longrightarrow> r_ts b \<le> r_ts a) \<and>
    (\<forall>r. r \<in> set (clipboard s') \<and> r_id r \<noteq> real_id out \<longrightarrow>
       r \<in> set (clipboard s) \<and> content_of s' r = content_of s r)"
  using ts_order.upsert_rotation [OF assms(1,2,3,5)] ts_order.upsert_others [OF assms(1,2,3,5)]
    sql_offset_small [OF assms(4)] by auto

theorem upsert_rotation_witness:
  "\<exists>out s'. upsert (\<lambda>d. d) order_by_ts_desc (\<lambda>_. False) 5 ''image/png'' (Detached 9) ''h'' 0 empty_store =
      (Inr out, s') \<and> length (filter (\<lambda>r. \<not> r_pinned r) (clipboard s')) \<le> 0"
proof -
  have nc: "no_collision (\<lambda>d. d) (Detached 9) empty_store" by (simp add: no_collision_def)
  obtain out s' where up: "upsert (\<lambda>d. d) order_by_ts_desc (\<lambda>_. False) 5 ''image/png'' (Detached 9) ''h'' 0
      empty_store = (Inr out, s')"
    using upsert_succeeds [OF store_ok_empty _ last_seq_empty, of "\<lambda>_. False"] by blast
  from upsert_rotation_policy [OF by_ts.ts_order_axioms store_ok_empty nc _ up] up show ?thesis by auto
qed

section \<open>Deduplication\<close>

text \<open>storing content whose fingerprint is already known adds no row: the existing id is returned, and
  before rotation the only change in the whole database is that row's timestamp; nothing is chunked
  again and no reference is counted twice.\<close>

lemma upsert_dedup:
  assumes "find_hash hash s = Some rid"
    and "upsert sha ord fails now mime body hash n s = (Inr out, s')"
  shows "real_id out = rid \<and>
    rotate_rows ord fails n (touch_row now rid s) = Inr (expired_hashes out, s') \<and>
    map r_id (clipboard (touch_row now rid s)) = map r_id (clipboard s) \<and>
    chunk_db (touch_row now rid s) = chunk_db s"
proof -
  obtain s1 where p: "place_record sha fails now mime body hash s = Inr (real_id out, s1)"
      and r: "rotate_rows ord fails n s1 = Inr (expired_hashes out, s')"
    by (rule upsert_Inr [OF assms(2)])
  have "map r_id (clipboard (touch_row now rid s)) = map r_id (clipboard s)"
    by (simp add: touch_row_def comp_def if_distrib cong: if_cong)
  with place_record_touch [OF assms(1) p] r show ?thesis by simp
qed

definition sample_row :: clip_row where
  "sample_row = \<lparr> r_id = 1, r_ts = 1, r_mime = ''text/plain'', r_size = 2, r_preview = Some ''ab'',
     r_content = CText ''ab'', r_hash = Some ''h'', r_pinned = False, r_chunked = False \<rparr>"

definition sample_store :: sqlite_store where
  "sample_store = \<lparr> clipboard = [sample_row], last_seq = 1, chunk_db = empty_chunks \<rparr>"

lemma sample_store_ok: "store_ok sha sample_store"
  by (simp add: sample_store_def sample_row_def store_ok_def rows_ok_def manifests_live_def
      rows_complete_def chunks_ok_empty has_manifest_empty map_filter_simps)

lemma last_seq_sample: "last_seq sample_store < i64_max"
  by (simp add: sample_store_def i64_max_def)

theorem upsert_dedup_witness:
  "\<exists>out s'. upsert (\<lambda>d. d) order_by_ts_desc (\<lambda>_. False) 5 ''text/plain'' (Bytes ''ab'') ''h'' 4 sample_store =
      (Inr out, s') \<and> real_id out = 1"
proof -
  have f: "find_hash ''h'' sample_store = Some 1" by (simp add: find_hash_def sample_store_def sample_row_def)
  obtain out s' where up: "upsert (\<lambda>d. d) order_by_ts_desc (\<lambda>_. False) 5 ''text/plain'' (Bytes ''ab'') ''h'' 4
      sample_store = (Inr out, s')"
    using upsert_succeeds [OF sample_store_ok _ last_seq_sample, of "\<lambda>_. False"] by blast
  from upsert_dedup [OF f up] up show ?thesis by auto
qed

section \<open>A cap past the signed range\<close>

text \<open>
  The cap is bound as \<^verbatim>\<open>max_history as i64\<close>: from \<open>2 ^ 63\<close> on it is negative, which SQLite takes as
  offset zero, so the largest caps keep nothing.
\<close>

lemma sql_offset_wraps: "2 ^ 63 \<le> n \<Longrightarrow> n \<le> u64_max \<Longrightarrow> sql_offset n = 0"
  by (simp add: sql_offset_def as_i64_def u64_max_def)

text \<open>C39: with a cap of \<open>2 ^ 63\<close> or more (which the configuration file accepts) a successful insert
  leaves no unpinned entry at all: the new entry and the whole unpinned history are rotated out.\<close>

theorem huge_cap_evicts_everything:
  assumes "ts_order ord" and "store_ok sha s" and "no_collision sha body s"
    and "2 ^ 63 \<le> n" and "n \<le> u64_max"
    and "upsert sha ord fails now mime body hash n s = (Inr out, s')"
  shows "filter (\<lambda>r. \<not> r_pinned r) (clipboard s') = []"
  using ts_order.upsert_rotation(1) [OF assms(1,2,3,6)] sql_offset_wraps [OF assms(4,5)] by simp

theorem huge_cap_witness:
  "\<exists>out s'. upsert (\<lambda>d. d) order_by_ts_desc (\<lambda>_. False) 5 ''image/png'' (Detached 9) ''x'' (2 ^ 63) sample_store =
      (Inr out, s') \<and> filter (\<lambda>r. \<not> r_pinned r) (clipboard s') = []"
proof -
  have nc: "no_collision (\<lambda>d. d) (Detached 9) sample_store" by (simp add: no_collision_def)
  obtain out s' where up: "upsert (\<lambda>d. d) order_by_ts_desc (\<lambda>_. False) 5 ''image/png'' (Detached 9) ''x'' (2 ^ 63)
      sample_store = (Inr out, s')"
    using upsert_succeeds [OF sample_store_ok _ last_seq_sample, of "\<lambda>_. False"] by blast
  from huge_cap_evicts_everything [OF by_ts.ts_order_axioms sample_store_ok nc _ _ up] up
  show ?thesis by (auto simp: u64_max_def)
qed

section \<open>Deletion\<close>

text \<open>deleting an entry removes exactly that entry and reports whether there was one; every other
  entry stays with its content, including entries that share chunks with the deleted one.\<close>

lemma delete_by_id_exact:
  assumes "store_ok sha s" and "delete_by_id (\<lambda>_. False) rid s = (res, s')"
  shows "(\<exists>h. res = Inr (rid \<in> r_id ` set (clipboard s), h)) \<and>
    set (clipboard s') = {r \<in> set (clipboard s). r_id r \<noteq> rid} \<and>
    (\<forall>r \<in> set (clipboard s'). content_of s' r = content_of s r) \<and> store_ok sha s'"
proof -
  have cok: "chunks_ok sha (chunk_db s)" using assms(1) by (simp add: store_ok_def)
  have ok: "store_ok sha s'" using delete_by_id_ok [OF assms(1), of "\<lambda>_. False" rid] assms(2) by simp
  obtain c where c: "release_chunks (\<lambda>_. False) rid (chunk_db s) = Inr c"
    by (simp add: release_chunks_def)
  have load: "j \<noteq> rid \<Longrightarrow> load j c = load j (chunk_db s)" for j
    by (rule release_chunks_spec(3) [OF c cok])
  define s1 where "s1 = (case get_row rid s of None \<Rightarrow> s
      | Some r \<Rightarrow> if r_chunked r then s\<lparr> chunk_db := c \<rparr> else s)"
  have s1: "clipboard s1 = clipboard s" "j \<noteq> rid \<Longrightarrow> load j (chunk_db s1) = load j (chunk_db s)" for j
    using load by (auto simp: s1_def split: option.splits)
  have "\<exists>h. (res, s') = (Inr (get_row rid s1 \<noteq> None, h), delete_rows [rid] s1)"
    using assms(2) c by (auto simp: delete_by_id_def s1_def with_chunks_def split: option.splits if_splits)
  then obtain h where res: "res = Inr (get_row rid s1 \<noteq> None, h)" and s': "s' = delete_rows [rid] s1" by auto
  have "get_row rid s1 \<noteq> None \<longleftrightarrow> rid \<in> r_id ` set (clipboard s)"
    by (auto simp: get_row_def s1(1) find_None_iff)
  then show ?thesis
    using res s' s1 ok by (auto simp: content_of_def)
qed

theorem delete_by_id_witness:
  "set (clipboard (snd (delete_by_id (\<lambda>_. False) 1 sample_store))) = {r \<in> set (clipboard sample_store). r_id r \<noteq> 1}"
  using delete_by_id_exact [OF sample_store_ok, of 1 "fst (delete_by_id (\<lambda>_. False) 1 sample_store)"
      "snd (delete_by_id (\<lambda>_. False) 1 sample_store)"] by simp

end
