(* ===== verification/History.thy ===== *)
theory History
  imports DbProps
begin

text \<open>
  What the database is for: a history that maps an id to an entry with its content. Rows, chunk tables,
  reference counts and failing statements do not appear in it. Every write of the database is a step
  of the history, or leaves it as it is, and reading a row is looking it up (the properties of \<^verbatim>\<open>crates/storage/src/db.rs\<close>
  as a refinement).
\<close>

section \<open>The abstract history\<close>

record entry =
  e_ts :: int
  e_mime :: string
  e_pinned :: bool
  e_hash :: "string option"
  e_content :: "bytes option"

type_synonym history = "int \<rightharpoonup> entry"

definition hist_touch :: "int \<Rightarrow> int \<Rightarrow> history \<Rightarrow> history" where
  "hist_touch now k h = h(k := map_option (\<lambda>e. e\<lparr> e_ts := now \<rparr>) (h k))"

definition hist_pin :: "bool \<Rightarrow> int \<Rightarrow> history \<Rightarrow> history" where
  "hist_pin pin k h = h(k := map_option (\<lambda>e. e\<lparr> e_pinned := pin \<rparr>) (h k))"

definition unpinned :: "history \<Rightarrow> int set" where
  "unpinned h = {k. \<exists>e. h k = Some e \<and> \<not> e_pinned e}"

text \<open>
  Storing content: known content only becomes current again, new content gets a new id. Then unpinned
  entries may go, the oldest first, until no more than \<open>cap\<close> are left.
\<close>

definition hist_put :: "int \<Rightarrow> string \<Rightarrow> bytes option \<Rightarrow> string \<Rightarrow> nat \<Rightarrow> int \<Rightarrow> history \<Rightarrow> history \<Rightarrow> bool" where
  "hist_put now mime content hash cap k h h' \<longleftrightarrow>
     (\<exists>h1 gone.
        (if \<exists>j e. h j = Some e \<and> e_hash e = Some hash
         then (\<exists>e. h k = Some e \<and> e_hash e = Some hash) \<and> h1 = hist_touch now k h
         else h k = None \<and>
              h1 = h(k \<mapsto> \<lparr> e_ts = now, e_mime = mime, e_pinned = False, e_hash = Some hash, e_content = content \<rparr>)) \<and>
        gone \<subseteq> unpinned h1 \<and> h' = h1 |` (- gone) \<and> card (unpinned h') \<le> cap \<and>
        (\<forall>a b ea eb. a \<in> unpinned h' \<and> b \<in> gone \<and> h1 a = Some ea \<and> h1 b = Some eb \<longrightarrow> e_ts eb \<le> e_ts ea))"

text \<open>The writes of the database, and what each does to a history when it succeeds.\<close>

datatype db_write =
    WStore int string body string nat
  | WTouch int int
  | WDelete int
  | WWipe
  | WPin int bool

definition body_size :: "body \<Rightarrow> nat" where
  "body_size body = (case body of Bytes data \<Rightarrow> length data | Detached len \<Rightarrow> len)"

fun hist_write :: "db_write \<Rightarrow> history \<Rightarrow> history \<Rightarrow> bool" where
  "hist_write (WStore now mime body hash n) h h' \<longleftrightarrow>
     (if is_skipped mime (body_size body) then h' = h
      else \<exists>k. hist_put now mime (expected_content mime body) hash (sql_offset n) k h h')"
| "hist_write (WTouch now k) h h' \<longleftrightarrow> h' = hist_touch now k h"
| "hist_write (WDelete k) h h' \<longleftrightarrow> h' = h(k := None)"
| "hist_write WWipe h h' \<longleftrightarrow> h' = Map.empty"
| "hist_write (WPin k pin) h h' \<longleftrightarrow> h' = hist_pin pin k h"

definition outcome_of :: "('e + 'a) \<times> 's \<Rightarrow> ('e + unit) \<times> 's" where
  "outcome_of p = (case fst p of Inl e \<Rightarrow> Inl e | Inr _ \<Rightarrow> Inr (), snd p)"

fun apply_write ::
    "(bytes \<Rightarrow> bytes) \<Rightarrow> (clip_row list \<Rightarrow> clip_row list) \<Rightarrow> (stmt \<Rightarrow> bool) \<Rightarrow> db_write \<Rightarrow> sqlite_store \<Rightarrow>
     (sql_error + unit) \<times> sqlite_store" where
  "apply_write sha ord fails (WStore now mime (Bytes data) hash n) s =
     outcome_of (upsert_record sha ord fails now mime data hash n s)"
| "apply_write sha ord fails (WStore now mime (Detached len) hash n) s =
     outcome_of (upsert_detached sha ord fails now mime len hash n s)"
| "apply_write sha ord fails (WTouch now k) s = update_timestamp fails now k s"
| "apply_write sha ord fails (WDelete k) s = outcome_of (delete_by_id fails k s)"
| "apply_write sha ord fails WWipe s = store_wipe fails s"
| "apply_write sha ord fails (WPin k pin) s = outcome_of (set_pinned fails k pin s)"

text \<open>
  What a write is given: content whose chunks do not collide under the hash with stored ones, and for a
  deletion a lookup that answers (the code takes a failed lookup for a missing row).
\<close>

fun admissible :: "(bytes \<Rightarrow> bytes) \<Rightarrow> (stmt \<Rightarrow> bool) \<Rightarrow> db_write \<Rightarrow> sqlite_store \<Rightarrow> bool" where
  "admissible sha fails (WStore now mime body hash n) s \<longleftrightarrow> no_collision sha body s"
| "admissible sha fails (WDelete k) s \<longleftrightarrow> \<not> fails StFind"
| "admissible sha fails w s \<longleftrightarrow> True"

definition hist_lookup :: "int \<Rightarrow> history \<Rightarrow> (string \<times> bytes option \<times> string) option" where
  "hist_lookup k h =
     (case h k of None \<Rightarrow> None | Some e \<Rightarrow> map_option (\<lambda>hash. (e_mime e, e_content e, hash)) (e_hash e))"

section \<open>What a database stands for\<close>

definition entry_of :: "sqlite_store \<Rightarrow> clip_row \<Rightarrow> entry" where
  "entry_of s r = \<lparr> e_ts = r_ts r, e_mime = r_mime r, e_pinned = r_pinned r, e_hash = r_hash r, e_content = content_of s r \<rparr>"

definition abs_history :: "sqlite_store \<Rightarrow> history" where
  "abs_history s = (\<lambda>k. map_option (entry_of s) (get_row k s))"

lemma entry_of_simps [simp]:
  "e_ts (entry_of s r) = r_ts r" "e_mime (entry_of s r) = r_mime r" "e_pinned (entry_of s r) = r_pinned r"
  "e_hash (entry_of s r) = r_hash r" "e_content (entry_of s r) = content_of s r"
  by (simp_all add: entry_of_def)

lemma distinct_ids: "store_ok sha s \<Longrightarrow> distinct (map r_id (clipboard s))"
  by (simp add: store_ok_def rows_ok_def)

lemma abs_Some:
  "store_ok sha s \<Longrightarrow> abs_history s k = Some e \<longleftrightarrow> (\<exists>r \<in> set (clipboard s). r_id r = k \<and> e = entry_of s r)"
  by (auto simp: abs_history_def get_row_Some_iff [OF distinct_ids])

lemma abs_None: "abs_history s k = None \<longleftrightarrow> (\<forall>r \<in> set (clipboard s). r_id r \<noteq> k)"
  by (auto simp: abs_history_def get_row_def find_None_iff)

lemma abs_row: "store_ok sha s \<Longrightarrow> r \<in> set (clipboard s) \<Longrightarrow> abs_history s (r_id r) = Some (entry_of s r)"
  by (auto simp: abs_Some)

text \<open>Two histories agree when one has an entry for every row of the other's database, and for no other id.\<close>

lemma abs_eqI:
  assumes ok: "store_ok sha s"
    and rows: "\<And>r. r \<in> set (clipboard s) \<Longrightarrow> h (r_id r) = Some (entry_of s r)"
    and none: "\<And>k. (\<forall>r \<in> set (clipboard s). r_id r \<noteq> k) \<Longrightarrow> h k = None"
  shows "abs_history s = h"
proof
  fix k
  show "abs_history s k = h k"
  proof (cases "\<exists>r \<in> set (clipboard s). r_id r = k")
    case True
    then show ?thesis using rows abs_row [OF ok] by metis
  next
    case False
    then have "abs_history s k = None" by (simp add: abs_None)
    with False none show ?thesis by simp
  qed
qed

lemma lookup_refines:
  assumes "store_ok sha s"
  shows "get_row_content (\<lambda>_. False) k s = hist_lookup k (abs_history s)"
proof (cases "get_row k s")
  case None
  then show ?thesis by (simp add: get_row_content_def hist_lookup_def abs_history_def)
next
  case (Some r)
  then have r: "r \<in> set (clipboard s)" "r_id r = k" using get_row_Some_iff [OF distinct_ids [OF assms]] by auto
  show ?thesis
  proof (cases "r_hash r")
    case None
    with Some show ?thesis by (simp add: get_row_content_def hist_lookup_def abs_history_def)
  next
    case (Some h)
    with get_row_content_eq [OF assms r(1) Some, of "\<lambda>_. False"] \<open>get_row k s = Some r\<close> r show ?thesis
      by (simp add: hist_lookup_def abs_history_def)
  qed
qed

section \<open>The simple writes\<close>

lemma abs_map_rows:
  assumes ok: "store_ok sha s" "store_ok sha s'" and rows: "clipboard s' = map f (clipboard s)"
    and same: "chunk_db s' = chunk_db s" "\<And>r. r_id (f r) = r_id r"
  shows "abs_history s' k = map_option (\<lambda>r. entry_of s' (f r)) (get_row k s)"
proof (cases "get_row k s")
  case None
  then have "abs_history s' k = None" using rows same by (auto simp: abs_None get_row_def find_None_iff)
  with None show ?thesis by simp
next
  case (Some r)
  then have "r \<in> set (clipboard s)" "r_id r = k" using get_row_Some_iff [OF distinct_ids [OF ok(1)]] by auto
  then have "f r \<in> set (clipboard s')" "r_id (f r) = k" using rows same by auto
  from abs_row [OF ok(2) this(1)] this(2) Some show ?thesis by simp
qed

lemma entry_of_same: "chunk_db s' = chunk_db s \<Longrightarrow> entry_of s' r = entry_of s r"
  by (simp add: entry_of_def content_of_def)

lemma abs_update_row:
  assumes ok: "store_ok sha s" "store_ok sha s'" and same: "chunk_db s' = chunk_db s" "\<And>r. r_id (g r) = r_id r"
    and rows: "clipboard s' = map (\<lambda>r. if r_id r = k then g r else r) (clipboard s)"
    and upd: "\<And>r. entry_of s (g r) = u (entry_of s r)"
  shows "abs_history s' = (abs_history s)(k := map_option u (abs_history s k))"
proof
  fix j
  have "abs_history s' j = map_option (\<lambda>r. entry_of s' (if r_id r = k then g r else r)) (get_row j s)"
    by (rule abs_map_rows [OF ok rows same(1)]) (simp add: same(2))
  moreover have "\<And>r. get_row j s = Some r \<Longrightarrow> r_id r = j"
    using get_row_Some_iff [OF distinct_ids [OF ok(1)]] by auto
  ultimately show "abs_history s' j = ((abs_history s)(k := map_option u (abs_history s k))) j"
    by (cases "get_row j s") (auto simp: abs_history_def entry_of_same [OF same(1)] upd)
qed

lemma touch_refines:
  assumes "store_ok sha s"
  shows "abs_history (touch_row now rid s) = hist_touch now rid (abs_history s)"
  unfolding hist_touch_def
  by (rule abs_update_row [OF assms touch_row_ok [OF assms], where g = "\<lambda>r. r\<lparr> r_ts := now \<rparr>"])
    (simp_all add: touch_row_def entry_of_def content_of_def)

lemma pin_refines:
  assumes "store_ok sha s" and "\<not> fails StPin"
  shows "abs_history (snd (set_pinned fails rid pin s)) = hist_pin pin rid (abs_history s)"
  unfolding hist_pin_def
  by (rule abs_update_row [OF assms(1) set_pinned_ok [OF assms(1)], where g = "\<lambda>r. r\<lparr> r_pinned := pin \<rparr>"])
    (simp_all add: set_pinned_def assms(2) entry_of_def content_of_def)

lemma abs_filter_rows:
  assumes ok: "store_ok sha s" "store_ok sha s'" and rows: "set (clipboard s') = {r \<in> set (clipboard s). r_id r \<notin> gone}"
    and content: "\<And>r. r \<in> set (clipboard s') \<Longrightarrow> content_of s' r = content_of s r"
  shows "abs_history s' = abs_history s |` (- gone)"
proof (rule abs_eqI [OF ok(2)])
  fix r assume r: "r \<in> set (clipboard s')"
  then have "abs_history s (r_id r) = Some (entry_of s r)" using rows abs_row [OF ok(1)] by simp
  then show "(abs_history s |` (- gone)) (r_id r) = Some (entry_of s' r)"
    using r rows content by (simp add: entry_of_def)
next
  fix k assume none: "\<forall>r \<in> set (clipboard s'). r_id r \<noteq> k"
  show "(abs_history s |` (- gone)) k = None"
  proof (cases "k \<in> gone")
    case False
    then have "abs_history s k = None" using none rows by (auto simp: abs_None)
    then show ?thesis by (simp add: restrict_map_def)
  qed simp
qed

lemma delete_refines:
  assumes ok: "store_ok sha s" and find: "\<not> fails StFind"
    and del: "delete_by_id fails rid s = (Inr (deleted, h), s')"
  shows "abs_history s' = (abs_history s)(rid := None)"
proof -
  have ok': "store_ok sha s'" using delete_by_id_ok [where fails = fails and rid = rid, OF ok] find del by simp
  note shape = delete_by_id_Inr [where fails = fails, OF ok find del]
  have "abs_history s' = abs_history s |` (- {rid})"
    by (rule abs_filter_rows [OF ok ok']) (use shape in auto)
  then show ?thesis by (auto simp: restrict_map_def fun_eq_iff)
qed

section \<open>Storing\<close>

text \<open>The unpinned entries of a history are the unpinned rows of its database.\<close>

lemma unpinned_abs:
  assumes "store_ok sha s"
  shows "unpinned (abs_history s) = r_id ` {r \<in> set (clipboard s). \<not> r_pinned r}"
  by (auto simp: unpinned_def abs_Some [OF assms])

lemma place_touch_refines:
  assumes ok: "store_ok sha s" and place: "place_record sha fails now mime body hash s = Inr (k, s1)"
    and known: "find_hash hash s = Some j"
  shows "\<exists>e. abs_history s k = Some e \<and> e_hash e = Some hash" "abs_history s1 = hist_touch now k (abs_history s)"
proof -
  note t = place_record_touch [OF known place]
  show "\<exists>e. abs_history s k = Some e \<and> e_hash e = Some hash"
    using find_hash_Some [OF known] t(1) abs_row [OF ok] by fastforce
  show "abs_history s1 = hist_touch now k (abs_history s)" using touch_refines [OF ok] t by simp
qed

lemma place_insert_refines:
  assumes ok: "store_ok sha s" and cf: "no_collision sha body s"
    and place: "place_record sha fails now mime body hash s = Inr (k, s1)" and new: "find_hash hash s = None"
  shows "abs_history s k = None"
    "abs_history s1 = (abs_history s)(k \<mapsto> \<lparr> e_ts = now, e_mime = mime, e_pinned = False, e_hash = Some hash,
       e_content = expected_content mime body \<rparr>)"
proof -
  note spec = place_record_spec [OF ok place cf]
  from spec(3) [OF new] have "k = last_seq s + 1" by blast
  then show none: "abs_history s k = None" using ok by (fastforce simp: abs_None store_ok_def rows_ok_def)
  obtain r where r: "r \<in> set (clipboard s1)" "r_id r = k" "r_mime r = mime" "\<not> r_pinned r" "r_hash r = Some hash"
      "content_of s1 r = expected_content mime body"
    using spec(3) [OF new] by blast
  obtain q where "q \<in> set (clipboard s1)" "r_id q = k" "r_ts q = now" using spec(2) by (auto simp: placed_def)
  then have ts: "r_ts r = now" using same_id_same_row [OF distinct_ids [OF spec(1)]] r by metis
  let ?e = "\<lparr> e_ts = now, e_mime = mime, e_pinned = False, e_hash = Some hash, e_content = expected_content mime body \<rparr>"
  show "abs_history s1 = (abs_history s)(k \<mapsto> ?e)"
  proof (rule abs_eqI [OF spec(1)])
    fix p assume p: "p \<in> set (clipboard s1)"
    show "((abs_history s)(k \<mapsto> ?e)) (r_id p) = Some (entry_of s1 p)"
    proof (cases "r_id p = k")
      case True
      then have "p = r" using same_id_same_row [OF distinct_ids [OF spec(1)] p r(1)] r(2) by simp
      with r ts show ?thesis by (simp add: entry_of_def)
    next
      case False
      then have "p \<in> set (clipboard s)" "load (r_id p) (chunk_db s1) = load (r_id p) (chunk_db s)"
        using p spec(2) by (simp_all add: placed_def)
      with False show ?thesis using abs_row [OF ok] by (simp add: entry_of_def content_of_def)
    qed
  next
    fix j assume j: "\<forall>p \<in> set (clipboard s1). r_id p \<noteq> j"
    then have "j \<noteq> k" using r by auto
    moreover have "abs_history s j = None" using j spec(2) \<open>j \<noteq> k\<close> by (auto simp: abs_None placed_def)
    ultimately show "((abs_history s)(k \<mapsto> ?e)) j = None" by simp
  qed
qed

lemma known_hash:
  "store_ok sha s \<Longrightarrow> (\<exists>j e. abs_history s j = Some e \<and> e_hash e = Some hash) \<longleftrightarrow> find_hash hash s \<noteq> None"
  by (auto simp: find_hash_None abs_Some) (metis entry_of_simps(4))

context ts_order
begin

lemma rotate_refines:
  assumes ok: "store_ok sha s" and rot: "rotate_rows ord fails n s = Inr (hashes, s')"
  defines "gone \<equiv> r_id ` set (expiring_rows ord n s)"
  shows "gone \<subseteq> unpinned (abs_history s)" "abs_history s' = abs_history s |` (- gone)"
    "card (unpinned (abs_history s')) \<le> sql_offset n"
    "a \<in> unpinned (abs_history s') \<Longrightarrow> b \<in> gone \<Longrightarrow> abs_history s a = Some ea \<Longrightarrow> abs_history s b = Some eb \<Longrightarrow>
       e_ts eb \<le> e_ts ea"
proof -
  note r = rotate_rows_ok [OF ok rot]
  have mem: "r_id q \<in> gone \<longleftrightarrow> q \<in> set (expiring_rows ord n s)" if "q \<in> set (clipboard s)" for q
    using expiring_ids_mem [OF ok that, of n] by (simp add: gone_def)
  show "gone \<subseteq> unpinned (abs_history s)"
    using expiring_subset by (auto simp: unpinned_abs [OF ok] gone_def)
  show "abs_history s' = abs_history s |` (- gone)"
    by (rule abs_filter_rows [OF ok r(1) _ r(3)]) (use r(2) mem in auto)
  let ?kept = "filter (\<lambda>r. \<not> r_pinned r \<and> r \<notin> set (expiring_rows ord n s)) (clipboard s)"
  have kept: "unpinned (abs_history s') = r_id ` set ?kept" using r(2) by (auto simp: unpinned_abs [OF r(1)])
  then have "card (unpinned (abs_history s')) \<le> card (set ?kept)" by (simp only: card_image_le finite_set)
  also have "\<dots> \<le> length ?kept" by (rule card_length)
  also have "\<dots> \<le> sql_offset n" by (rule rotation_bound(1) [OF ok])
  finally show "card (unpinned (abs_history s')) \<le> sql_offset n" .
  show "e_ts eb \<le> e_ts ea" if "a \<in> unpinned (abs_history s')" "b \<in> gone" "abs_history s a = Some ea" "abs_history s b = Some eb"
  proof -
    from that(1) kept obtain p where p: "p \<in> set ?kept" "r_id p = a" by auto
    from that(2) obtain q where q: "q \<in> set (expiring_rows ord n s)" "r_id q = b" by (auto simp: gone_def)
    have "ea = entry_of s p" "eb = entry_of s q"
      using that(3,4) p q abs_row [OF ok, of p] abs_row [OF ok, of q] expiring_subset [OF q(1)] by simp_all
    with rotation_bound(2) [OF ok, of p n q] p(1) q(1) show ?thesis by simp
  qed
qed

lemma upsert_refines:
  assumes ok: "store_ok sha s" and cf: "no_collision sha body s"
    and up: "upsert sha ord fails now mime body hash n s = (Inr out, s')"
  shows "hist_put now mime (expected_content mime body) hash (sql_offset n) (real_id out) (abs_history s) (abs_history s')"
proof -
  obtain s1 where p: "place_record sha fails now mime body hash s = Inr (real_id out, s1)"
      and r: "rotate_rows ord fails n s1 = Inr (expired_hashes out, s')"
    by (rule upsert_Inr [OF up])
  note rot = rotate_refines [OF place_record_spec(1) [OF ok p cf] r]
  have "if \<exists>j e. abs_history s j = Some e \<and> e_hash e = Some hash
    then (\<exists>e. abs_history s (real_id out) = Some e \<and> e_hash e = Some hash) \<and>
      abs_history s1 = hist_touch now (real_id out) (abs_history s)
    else abs_history s (real_id out) = None \<and> abs_history s1 = (abs_history s)(real_id out \<mapsto>
      \<lparr> e_ts = now, e_mime = mime, e_pinned = False, e_hash = Some hash, e_content = expected_content mime body \<rparr>)"
    using place_touch_refines [OF ok p] place_insert_refines [OF ok cf p]
    unfolding known_hash [OF ok] by (cases "find_hash hash s") auto
  then show ?thesis unfolding hist_put_def using rot
    by (intro exI [of _ "abs_history s1"] exI [of _ "r_id ` set (expiring_rows ord n s1)"] conjI) blast+
qed

end

section \<open>The simulation\<close>

lemma outcome_of_cases:
  "outcome_of p = (res, s') \<Longrightarrow> (\<exists>e. p = (Inl e, s') \<and> res = Inl e) \<or> (\<exists>x. p = (Inr x, s') \<and> res = Inr ())"
  by (cases p) (auto simp: outcome_of_def split: sum.splits)

lemma upsert_simulated:
  assumes "ts_order ord" and ok: "store_ok sha s" and "no_collision sha body s"
    and up: "outcome_of (if is_skipped mime (body_size body) then (Inr skipped_outcome, s)
        else upsert sha ord fails now mime body hash n s) = (res, s')"
  shows "(case res of Inl _ \<Rightarrow> s' = s
      | Inr _ \<Rightarrow> hist_write (WStore now mime body hash n) (abs_history s) (abs_history s')) \<and> store_ok sha s'"
proof (cases "is_skipped mime (body_size body)")
  case True
  with up ok show ?thesis by (auto simp: outcome_of_def)
next
  case False
  with outcome_of_cases [OF up] consider
      (bad) e where "upsert sha ord fails now mime body hash n s = (Inl e, s')" "res = Inl e"
    | (good) out where "upsert sha ord fails now mime body hash n s = (Inr out, s')" "res = Inr ()"
    by auto
  then show ?thesis
  proof cases
    case bad
    with upsert_Inl ok show ?thesis by fastforce
  next
    case good
    have "store_ok sha s'" using ts_order.upsert_ok [OF assms(1) ok assms(3)] good(1) by (metis snd_conv)
    with ts_order.upsert_refines [OF assms(1) ok assms(3) good(1)] False good(2) show ?thesis by auto
  qed
qed

lemma apply_write_simulated:
  assumes ord: "ts_order ord" and ok: "store_ok sha s" and adm: "admissible sha fails w s"
    and run: "apply_write sha ord fails w s = (res, s')"
  shows "(case res of Inl _ \<Rightarrow> s' = s | Inr _ \<Rightarrow> hist_write w (abs_history s) (abs_history s')) \<and> store_ok sha s'"
proof (cases w)
  case (WStore now mime body hash n)
  have "outcome_of (if is_skipped mime (body_size body) then (Inr skipped_outcome, s)
        else upsert sha ord fails now mime body hash n s) = (res, s')"
    using run WStore by (cases body) (auto simp: body_size_def upsert_record_def upsert_detached_def)
  from upsert_simulated [OF ord ok _ this] adm WStore show ?thesis by (simp only: admissible.simps)
next
  case (WTouch now k)
  with run ok show ?thesis by (auto simp: update_timestamp_def touch_refines touch_row_ok split: if_splits)
next
  case (WDelete k)
  then have find: "\<not> fails StFind" using adm by simp
  from WDelete outcome_of_cases [of "delete_by_id fails k s" res s'] run consider
      (bad) e where "delete_by_id fails k s = (Inl e, s')" "res = Inl e"
    | (good) d h where "delete_by_id fails k s = (Inr (d, h), s')" "res = Inr ()"
    by auto
  then show ?thesis
  proof cases
    case bad
    then have "s' = s" by (auto simp: delete_by_id_def Let_def split: if_splits option.splits sum.splits prod.splits)
    with bad ok show ?thesis by simp
  next
    case good
    with delete_by_id_ok [where fails = fails and rid = k, OF ok find] delete_refines [where fails = fails, OF ok find good(1)] WDelete
    show ?thesis by simp
  qed
next
  case WWipe
  with run ok store_wipe_ok [OF ok, of fails] show ?thesis
    by (auto simp: store_wipe_def abs_history_def get_row_def split: if_splits)
next
  case (WPin k pin)
  with run ok set_pinned_ok [OF ok, of fails k pin] pin_refines [where fails = fails, OF ok] show ?thesis
    by (cases "fails StPin") (auto simp: outcome_of_def set_pinned_def)
qed



end
