(* ===== verification/Search.thy ===== *)
theory Search
  imports DbProps
begin

text \<open>
  What search promises: \<^verbatim>\<open>search_metadata\<close> and \<^verbatim>\<open>validate_keywords\<close> of \<^verbatim>\<open>crates/storage/src/db.rs\<close>. SQLite's
  \<^verbatim>\<open>LIKE\<close> is used through its documented behaviour on the patterns the code builds, the locale
  \<open>sql_like\<close>: \<^verbatim>\<open>%w%\<close> finds \<^verbatim>\<open>w\<close> anywhere and \<^verbatim>\<open>w%\<close> at the start, ignoring ASCII case, for a \<^verbatim>\<open>w\<close> without
  wildcards.
\<close>

section \<open>LIKE\<close>

definition plain_word :: "string \<Rightarrow> bool" where
  "plain_word w \<longleftrightarrow> CHR ''%'' \<notin> set w \<and> CHR ''_'' \<notin> set w \<and> CHR 0x00 \<notin> set w"

definition no_nul :: "string \<Rightarrow> bool" where
  "no_nul s \<longleftrightarrow> CHR 0x00 \<notin> set s"

definition contains_ci :: "string \<Rightarrow> string \<Rightarrow> bool" where
  "contains_ci s w \<longleftrightarrow> contains_str (to_ascii_lowercase s) (to_ascii_lowercase w)"

locale sql_like =
  fixes like :: "string \<Rightarrow> string \<Rightarrow> bool"
  assumes like_within: "plain_word w \<Longrightarrow> no_nul s \<Longrightarrow> like (like_any w) s \<longleftrightarrow> contains_ci s w"
    and like_start: "plain_word w \<Longrightarrow> no_nul s \<Longrightarrow>
      like (w @ ''%'') s \<longleftrightarrow> prefix (to_ascii_lowercase w) (to_ascii_lowercase s)"
begin

lemma like_within_lower:
  "plain_word w \<Longrightarrow> no_nul s \<Longrightarrow> no_nul t \<Longrightarrow> to_ascii_lowercase s = to_ascii_lowercase t \<Longrightarrow>
     like (like_any w) s = like (like_any w) t"
  by (simp add: like_within contains_ci_def)

lemma text_predicate_eq:
  assumes "no_nul mime"
  shows "TEXT_MIME_SQL_PREDICATE like mime \<longleftrightarrow>
     \<not> prefix ''image/'' (to_ascii_lowercase mime) \<and>
     list_ex (contains_ci mime) [''text'', ''utf8'', ''json'', ''xml'', ''uri-list'', ''string'']"
proof -
  have p: "list_all plain_word [''text'', ''utf8'', ''json'', ''xml'', ''uri-list'', ''string'', ''image/'']"
    by code_simp
  have "to_ascii_lowercase ''image/'' = ''image/''" by code_simp
  with p assms like_start [of "''image/''" mime] show ?thesis
    by (simp add: TEXT_MIME_SQL_PREDICATE_def like_within)
qed

end

text \<open>A matcher with these laws: the wildcards, and single bytes up to ASCII case.\<close>

fun like_ci :: "string \<Rightarrow> string \<Rightarrow> bool" where
  "like_ci [] s = (s = [])"
| "like_ci (c # p) [] = (c = CHR ''%'' \<and> like_ci p [])"
| "like_ci (c # p) (b # s) =
     (if c = CHR ''%'' then like_ci p (b # s) \<or> like_ci (c # p) s
      else if c = CHR ''_'' then like_ci p s
      else to_ascii_lower c = to_ascii_lower b \<and> like_ci p s)"

lemma like_ci_all: "like_ci ''%'' s"
  by (induction s) simp_all

lemma like_ci_word:
  "plain_word w \<Longrightarrow> like_ci (w @ ''%'') s \<longleftrightarrow> prefix (to_ascii_lowercase w) (to_ascii_lowercase s)"
proof (induction w arbitrary: s)
  case Nil
  then show ?case by (simp add: like_ci_all to_ascii_lowercase_def)
next
  case (Cons c w)
  then show ?case by (cases s) (auto simp: plain_word_def to_ascii_lowercase_def)
qed

lemma like_ci_within: "plain_word w \<Longrightarrow> like_ci (like_any w) s \<longleftrightarrow> contains_ci s w"
proof (induction s)
  case Nil
  then show ?case
    using like_ci_word [of w "[]"] by (auto simp: like_any_def contains_ci_def to_ascii_lowercase_def)
next
  case (Cons b s)
  have "like_ci (like_any w) (b # s) \<longleftrightarrow> like_ci (w @ ''%'') (b # s) \<or> like_ci (like_any w) s"
    by (simp add: like_any_def)
  with Cons like_ci_word [OF Cons.prems, of "b # s"] show ?case
    by (simp add: contains_ci_def to_ascii_lowercase_def)
qed

interpretation ci: sql_like like_ci
  by unfold_locales (simp_all add: like_ci_word like_ci_within)

section \<open>Positions in the listing\<close>

lemma desc_position:
  assumes "sorted_wrt (\<lambda>a b. r_ts b \<le> r_ts a) xs" and "distinct (map r_ts xs)" and "i < length xs"
  shows "length (filter (\<lambda>q. r_ts (xs ! i) < r_ts q) xs) = i"
proof -
  let ?P = "\<lambda>q. r_ts (xs ! i) < r_ts q"
  have "?P (xs ! j) \<longleftrightarrow> j < i" if "j < length xs" for j
  proof (cases "j < i")
    case True
    with assms have "r_ts (xs ! i) \<le> r_ts (xs ! j)" by (auto simp: sorted_wrt_iff_nth_less)
    moreover have "r_ts (xs ! i) \<noteq> r_ts (xs ! j)"
      using assms(2,3) that True by (auto simp: distinct_conv_nth)
    ultimately show ?thesis using True by simp
  next
    case False
    then have "r_ts (xs ! j) \<le> r_ts (xs ! i)"
      using assms(1) that by (cases "j = i") (auto simp: sorted_wrt_iff_nth_less)
    with False show ?thesis by simp
  qed
  then have "{j. j < length xs \<and> ?P (xs ! j)} = {..<i}" using assms(3) by auto
  then show ?thesis by (simp add: length_filter_conv_card)
qed

context ts_order
begin

lemma newer_count_position:
  assumes "distinct (map r_ts (clipboard s))" and "r \<in> set (clipboard s)"
  shows "newer_count s r < length (ord (clipboard s)) \<and> ord (clipboard s) ! newer_count s r = r"
proof -
  obtain i where i: "i < length (ord (clipboard s))" "ord (clipboard s) ! i = r"
    using assms(2) ord_set by (metis in_set_conv_nth)
  have m: "mset (map r_ts (ord (clipboard s))) = mset (map r_ts (clipboard s))"
    by (simp add: ord_mset)
  then have d: "distinct (map r_ts (ord (clipboard s)))"
    using assms(1) mset_eq_imp_distinct_iff by blast
  have "mset (filter (\<lambda>q. r_ts r < r_ts q) (ord (clipboard s))) =
      mset (filter (\<lambda>q. r_ts r < r_ts q) (clipboard s))" by (simp add: ord_mset)
  then have "newer_count s r = length (filter (\<lambda>q. r_ts r < r_ts q) (ord (clipboard s)))"
    unfolding newer_count_def by (metis mset_eq_length)
  also have "\<dots> = i" using desc_position [OF ord_desc d i(1)] i(2) by simp
  finally show ?thesis using i by simp
qed

end



section \<open>Keyword validation\<close>

lemma validate_keywords_partition:
  "mset (fst (validate_keywords like fails kws s)) + mset (snd (validate_keywords like fails kws s)) = mset kws"
  by (simp add: validate_keywords_def Let_def)

lemma validated_keyword_hits:
  assumes "kw \<in> set (fst (validate_keywords like fails kws s))"
  shows "\<exists>r \<in> set (clipboard s). TEXT_MIME_SQL_PREDICATE like (r_mime r) \<and> keyword_hits like s r kw"
  using assms by (auto simp: validate_keywords_def Let_def list_ex_iff split: if_splits)

section \<open>The SQL predicate is not the MIME predicate\<close>

text \<open>\<^verbatim>\<open>TEXT_MIME_SQL_PREDICATE\<close> is documented as aligned with \<^verbatim>\<open>is_text_like_mime\<close>, but the two differ:
  a video label that names a text format is searched as text although it is never stored as text.\<close>

lemma text_predicates_differ:
  "TEXT_MIME_SQL_PREDICATE like_ci ''video/text'' \<and> \<not> is_text_like_mime ''video/text'' \<and>
   TEXT_MIME_SQL_PREDICATE like_ci ''audio/x;codec=json'' \<and> \<not> is_text_like_mime ''audio/x;codec=json''"
  by code_simp

end
