(* ===== verification/Schema.thy ===== *)
theory Schema
  imports Search
begin

text \<open>
  \<^verbatim>\<open>crates/storage/src/schema.rs\<close>: the versioned migrations. The state is what \<^verbatim>\<open>PRAGMA user_version\<close> and
  the catalogue say (which tables and columns exist) together with the rows; a column that does not
  exist yet has no meaning in a row, and \<^verbatim>\<open>ADD COLUMN .. DEFAULT 0\<close> gives it its default. Statements may
  fail in any combination; only version 4 runs in a transaction.
\<close>

section \<open>Migrations\<close>

datatype schema_stmt =
    QVersion | CreateClipboard | ProbePinned | AddPinned | CastText | ProbeChunked | BeginV4
  | AddChunked | CreateChunkTables | CommitV4 | SetVersion | DropIdxPinned | CreateIdxPinnedTs

record schema_db =
  sc_version :: int
  sc_rows :: "clip_row list option"
  sc_has_pinned :: bool
  sc_has_chunked :: bool
  sc_chunk_tables :: bool
  sc_idx_pinned :: bool
  sc_idx_pinned_ts :: bool

definition SCHEMA_VERSION :: int where "SCHEMA_VERSION = 4"

definition migrate_to_v1 :: "(schema_stmt \<Rightarrow> bool) \<Rightarrow> schema_db \<Rightarrow> bool \<times> schema_db" where
  "migrate_to_v1 fails st =
     (if fails CreateClipboard then (False, st)
      else (True, case sc_rows st of None \<Rightarrow> st\<lparr> sc_rows := Some [] \<rparr> | Some _ \<Rightarrow> st))"

text \<open>\<^verbatim>\<open>ALTER TABLE .. ADD COLUMN\<close> fails without the table and on a column that exists.\<close>

definition migrate_to_v2 :: "(schema_stmt \<Rightarrow> bool) \<Rightarrow> schema_db \<Rightarrow> bool \<times> schema_db" where
  "migrate_to_v2 fails st =
     (let has_column = (\<not> fails ProbePinned \<and> sc_rows st \<noteq> None \<and> sc_has_pinned st) in
      if has_column then (True, st)
      else (case sc_rows st of
              None \<Rightarrow> (False, st)
            | Some rows \<Rightarrow>
                if fails AddPinned \<or> sc_has_pinned st then (False, st)
                else (True, st\<lparr> sc_has_pinned := True,
                                sc_rows := Some (map (\<lambda>r. r\<lparr> r_pinned := False \<rparr>) rows) \<rparr>)))"

definition cast_text :: "(string \<Rightarrow> string \<Rightarrow> bool) \<Rightarrow> clip_row \<Rightarrow> clip_row" where
  "cast_text like r =
     (case r_content r of
        CBlob d \<Rightarrow> if TEXT_MIME_SQL_PREDICATE like (r_mime r) then r\<lparr> r_content := CText d \<rparr> else r
      | _ \<Rightarrow> r)"

definition migrate_to_v3 :: "(string \<Rightarrow> string \<Rightarrow> bool) \<Rightarrow> (schema_stmt \<Rightarrow> bool) \<Rightarrow> schema_db \<Rightarrow> bool \<times> schema_db" where
  "migrate_to_v3 like fails st =
     (case sc_rows st of
        None \<Rightarrow> (False, st)
      | Some rows \<Rightarrow>
          if fails CastText then (False, st) else (True, st\<lparr> sc_rows := Some (map (cast_text like) rows) \<rparr>))"

definition migrate_to_v4 :: "(schema_stmt \<Rightarrow> bool) \<Rightarrow> schema_db \<Rightarrow> bool \<times> schema_db" where
  "migrate_to_v4 fails st =
     (let has_column = (\<not> fails ProbeChunked \<and> sc_rows st \<noteq> None \<and> sc_has_chunked st) in
      if fails BeginV4 then (False, st)
      else
        let added = (if has_column then Some st
                     else (case sc_rows st of
                             None \<Rightarrow> None
                           | Some rows \<Rightarrow>
                               if fails AddChunked \<or> sc_has_chunked st then None
                               else Some (st\<lparr> sc_has_chunked := True,
                                              sc_rows := Some (map (\<lambda>r. r\<lparr> r_chunked := False \<rparr>) rows) \<rparr>)))
        in (case added of
              None \<Rightarrow> (False, st)
            | Some st1 \<Rightarrow>
                if fails CreateChunkTables \<or> fails CommitV4 then (False, st)
                else (True, st1\<lparr> sc_chunk_tables := True \<rparr>)))"

definition run_if :: "bool \<Rightarrow> (schema_db \<Rightarrow> bool \<times> schema_db) \<Rightarrow> bool \<times> schema_db \<Rightarrow> bool \<times> schema_db" where
  "run_if c f r = (if fst r \<and> c then f (snd r) else r)"

definition initialize :: "(string \<Rightarrow> string \<Rightarrow> bool) \<Rightarrow> (schema_stmt \<Rightarrow> bool) \<Rightarrow> schema_db \<Rightarrow> bool \<times> schema_db" where
  "initialize like fails st =
     (if fails QVersion then (False, st)
      else
        let v = sc_version st;
            r = run_if (v < 4) (migrate_to_v4 fails)
                  (run_if (v < 3) (migrate_to_v3 like fails)
                    (run_if (v < 2) (migrate_to_v2 fails)
                      (run_if (v < 1) (migrate_to_v1 fails) (True, st))));
            r = run_if (v < SCHEMA_VERSION)
                  (\<lambda>st. if fails SetVersion then (False, st) else (True, st\<lparr> sc_version := SCHEMA_VERSION \<rparr>)) r
        in run_if True
             (\<lambda>st. (True, st\<lparr> sc_idx_pinned := (sc_idx_pinned st \<and> fails DropIdxPinned),
                              sc_idx_pinned_ts := (sc_idx_pinned_ts st \<or> \<not> fails CreateIdxPinnedTs) \<rparr>)) r)"

section \<open>No history is lost\<close>

text \<open>What a history entry is, whatever the schema version: everything but the storage class.\<close>

definition entry_of :: "clip_row \<Rightarrow> int \<times> int \<times> string \<times> int \<times> string option \<times> bytes option \<times> string option" where
  "entry_of r = (r_id r, r_ts r, r_mime r, r_size r, r_preview r, cell_bytes (r_content r), r_hash r)"

definition rows_of :: "schema_db \<Rightarrow> clip_row list" where
  "rows_of st = (case sc_rows st of None \<Rightarrow> [] | Some rs \<Rightarrow> rs)"

text \<open>The columns that exist carry over as well.\<close>

definition carries :: "schema_db \<Rightarrow> schema_db \<Rightarrow> bool" where
  "carries st st' \<longleftrightarrow>
     map entry_of (rows_of st') = map entry_of (rows_of st) \<and>
     (sc_has_pinned st \<longrightarrow> map r_pinned (rows_of st') = map r_pinned (rows_of st) \<and> sc_has_pinned st') \<and>
     (sc_has_chunked st \<longrightarrow> map r_chunked (rows_of st') = map r_chunked (rows_of st) \<and> sc_has_chunked st') \<and>
     (sc_chunk_tables st \<longrightarrow> sc_chunk_tables st') \<and> (sc_rows st \<noteq> None \<longrightarrow> sc_rows st' \<noteq> None)"

definition schema_ok :: "schema_db \<Rightarrow> bool" where
  "schema_ok st \<longleftrightarrow>
     (1 \<le> sc_version st \<longrightarrow> sc_rows st \<noteq> None) \<and> (2 \<le> sc_version st \<longrightarrow> sc_has_pinned st) \<and>
     (4 \<le> sc_version st \<longrightarrow> sc_has_chunked st \<and> sc_chunk_tables st) \<and>
     (sc_has_pinned st \<or> sc_has_chunked st \<longrightarrow> sc_rows st \<noteq> None)"

lemma carries_refl [simp]: "carries st st"
  by (simp add: carries_def)

lemma carries_trans: "carries a b \<Longrightarrow> carries b c \<Longrightarrow> carries a c"
  by (simp add: carries_def)

lemma cast_text_entry [simp]:
  "entry_of (cast_text like r) = entry_of r" "r_pinned (cast_text like r) = r_pinned r"
  "r_chunked (cast_text like r) = r_chunked r"
  by (auto simp: cast_text_def entry_of_def cell_bytes_def split: cell.splits)

lemma entry_of_flags [simp]:
  "entry_of (r\<lparr> r_pinned := b \<rparr>) = entry_of r" "entry_of (r\<lparr> r_chunked := b \<rparr>) = entry_of r"
  by (simp_all add: entry_of_def)

lemma migrate_v1_carries: "carries st (snd (migrate_to_v1 fails st))"
  by (auto simp: migrate_to_v1_def carries_def rows_of_def split: option.splits)

lemma migrate_v2_carries: "carries st (snd (migrate_to_v2 fails st))"
  by (auto simp: migrate_to_v2_def carries_def rows_of_def Let_def split: option.splits)

lemma migrate_v3_carries: "carries st (snd (migrate_to_v3 like fails st))"
  by (auto simp: migrate_to_v3_def carries_def rows_of_def split: option.splits)

lemma migrate_v4_carries: "carries st (snd (migrate_to_v4 fails st))"
  by (auto simp: migrate_to_v4_def carries_def rows_of_def Let_def split: option.splits)

lemma run_if_carries:
  "carries st (snd r) \<Longrightarrow> (\<And>s. carries s (snd (f s))) \<Longrightarrow> carries st (snd (run_if c f r))"
  by (auto simp: run_if_def intro: carries_trans)

lemma initialize_carries: "carries st (snd (initialize like fails st))"
  unfolding initialize_def Let_def
  by (auto intro!: run_if_carries migrate_v1_carries migrate_v2_carries migrate_v3_carries migrate_v4_carries)
    (auto simp: carries_def rows_of_def)

section \<open>Reaching the current version\<close>

lemma migrate_versions:
  "sc_version (snd (migrate_to_v1 fails st)) = sc_version st"
  "sc_version (snd (migrate_to_v2 fails st)) = sc_version st"
  "sc_version (snd (migrate_to_v3 like fails st)) = sc_version st"
  "sc_version (snd (migrate_to_v4 fails st)) = sc_version st"
  by (auto simp: migrate_to_v1_def migrate_to_v2_def migrate_to_v3_def migrate_to_v4_def Let_def
      split: option.splits)

text \<open>Without failures each migration gives what the next one needs.\<close>

definition at_least :: "int \<Rightarrow> schema_db \<Rightarrow> bool" where
  "at_least v st \<longleftrightarrow>
     (1 \<le> v \<longrightarrow> sc_rows st \<noteq> None) \<and> (2 \<le> v \<longrightarrow> sc_has_pinned st) \<and>
     (4 \<le> v \<longrightarrow> sc_has_chunked st \<and> sc_chunk_tables st)"

lemma migrate_at_least:
  assumes nf: "\<And>x. \<not> fails x"
  shows "fst (migrate_to_v1 fails st) \<and> at_least 1 (snd (migrate_to_v1 fails st))"
    "at_least 1 st \<Longrightarrow> fst (migrate_to_v2 fails st) \<and> at_least 2 (snd (migrate_to_v2 fails st))"
    "at_least 2 st \<Longrightarrow> fst (migrate_to_v3 like fails st) \<and> at_least 3 (snd (migrate_to_v3 like fails st))"
    "at_least 3 st \<Longrightarrow> fst (migrate_to_v4 fails st) \<and> at_least 4 (snd (migrate_to_v4 fails st))"
  using nf by (auto simp: at_least_def migrate_to_v1_def migrate_to_v2_def migrate_to_v3_def
      migrate_to_v4_def Let_def split: option.splits)

lemma run_if_at_least:
  assumes "fst r" and "at_least (max v k) (snd r)" and "v \<le> k \<Longrightarrow> at_least k (snd r) \<Longrightarrow> fst (f (snd r)) \<and> at_least (k + 1) (snd (f (snd r)))"
  shows "fst (run_if (v < k + 1) f r) \<and> at_least (max v (k + 1)) (snd (run_if (v < k + 1) f r))"
proof (cases "v \<le> k")
  case True
  with assms show ?thesis by (auto simp: run_if_def max_def)
next
  case False
  then have "max v k = v" "max v (k + 1) = v" by simp_all
  with False assms(1,2) show ?thesis by (simp add: run_if_def)
qed

lemma initialize_complete:
  assumes ok: "schema_ok st" and v: "sc_version st \<le> SCHEMA_VERSION" and nf: "\<And>x. \<not> fails x"
  shows "fst (initialize like fails st) \<and> sc_version (snd (initialize like fails st)) = SCHEMA_VERSION \<and>
    sc_has_pinned (snd (initialize like fails st)) \<and> sc_has_chunked (snd (initialize like fails st)) \<and>
    sc_chunk_tables (snd (initialize like fails st)) \<and> \<not> sc_idx_pinned (snd (initialize like fails st)) \<and>
    sc_idx_pinned_ts (snd (initialize like fails st))"
proof -
  let ?v = "sc_version st"
  define r1 where "r1 = run_if (?v < 1) (migrate_to_v1 fails) (True, st)"
  define r2 where "r2 = run_if (?v < 2) (migrate_to_v2 fails) r1"
  define r3 where "r3 = run_if (?v < 3) (migrate_to_v3 like fails) r2"
  define r4 where "r4 = run_if (?v < 4) (migrate_to_v4 fails) r3"
  have "at_least (max ?v 0) st" using ok by (auto simp: at_least_def schema_ok_def max_def)
  then have "fst r1 \<and> at_least (max ?v (0 + 1)) (snd r1)"
    using run_if_at_least [of "(True, st)" ?v 0 "migrate_to_v1 fails"] migrate_at_least(1) [OF nf]
    by (simp add: r1_def)
  then have "fst r2 \<and> at_least (max ?v (1 + 1)) (snd r2)"
    using run_if_at_least [of r1 ?v 1 "migrate_to_v2 fails"] migrate_at_least(2) [OF nf] by (simp add: r2_def)
  then have "fst r3 \<and> at_least (max ?v (2 + 1)) (snd r3)"
    using run_if_at_least [of r2 ?v 2 "migrate_to_v3 like fails"] migrate_at_least(3) [OF nf] by (simp add: r3_def)
  then have r4: "fst r4 \<and> at_least (max ?v (3 + 1)) (snd r4)"
    using run_if_at_least [of r3 ?v 3 "migrate_to_v4 fails"] migrate_at_least(4) [OF nf] by (simp add: r4_def)
  have ver: "sc_version (snd r4) = ?v"
    by (simp add: r4_def r3_def r2_def r1_def run_if_def migrate_versions)
  have "initialize like fails st = (True, (if ?v < SCHEMA_VERSION then (snd r4)\<lparr> sc_version := SCHEMA_VERSION \<rparr> else snd r4)
      \<lparr> sc_idx_pinned := False, sc_idx_pinned_ts := True \<rparr>)"
    using nf r4 unfolding initialize_def Let_def r1_def [symmetric] r2_def [symmetric] r3_def [symmetric] r4_def [symmetric]
    by (simp add: run_if_def)
  with r4 ver v show ?thesis by (auto simp: at_least_def SCHEMA_VERSION_def)
qed

text \<open>C34: opening a database of any earlier version loses nothing: every entry keeps its id, timestamp,
  label, size, preview, bytes and hash, existing pin and chunk flags carry over, even when the
  migration stops at any statement; with no failure it ends at the current version with every table,
  column and index in place, and opening it again changes nothing.\<close>

theorem schema_migration_lossless:
  assumes "schema_ok st" and "sc_version st \<le> SCHEMA_VERSION"
  shows "map entry_of (rows_of (snd (initialize like fails st))) = map entry_of (rows_of st) \<and>
    (sc_has_pinned st \<longrightarrow>
       map r_pinned (rows_of (snd (initialize like fails st))) = map r_pinned (rows_of st)) \<and>
    (let (done_ok, st') = initialize like (\<lambda>_. False) st
     in done_ok \<and> sc_version st' = SCHEMA_VERSION \<and> sc_has_pinned st' \<and> sc_has_chunked st' \<and> sc_chunk_tables st' \<and>
        sc_idx_pinned_ts st' \<and> initialize like (\<lambda>_. False) st' = (True, st'))"
proof -
  define r where "r = initialize like (\<lambda>_. False) st"
  have c: "fst r" "sc_version (snd r) = SCHEMA_VERSION" "sc_has_pinned (snd r)" "sc_has_chunked (snd r)"
    "sc_chunk_tables (snd r)" "\<not> sc_idx_pinned (snd r)" "sc_idx_pinned_ts (snd r)"
    using initialize_complete [OF assms, of "\<lambda>_. False" like] by (simp_all add: r_def)
  then have "initialize like (\<lambda>_. False) (snd r) = (True, snd r)"
    by (simp add: initialize_def run_if_def SCHEMA_VERSION_def)
  then show ?thesis
    using c initialize_carries [of st like fails] by (simp add: carries_def r_def [symmetric] Let_def case_prod_beta)
qed

theorem schema_migration_witness:
  "map entry_of (rows_of (snd (initialize like_ci (\<lambda>s. s = CommitV4)
     \<lparr> sc_version = 1, sc_rows = Some [sample_row], sc_has_pinned = False, sc_has_chunked = False,
       sc_chunk_tables = False, sc_idx_pinned = True, sc_idx_pinned_ts = False \<rparr>))) = [entry_of sample_row]"
  using schema_migration_lossless [of "\<lparr> sc_version = 1, sc_rows = Some [sample_row], sc_has_pinned = False,
      sc_has_chunked = False, sc_chunk_tables = False, sc_idx_pinned = True, sc_idx_pinned_ts = False \<rparr>" like_ci
      "\<lambda>s. s = CommitV4"]
  by (simp add: schema_ok_def SCHEMA_VERSION_def rows_of_def)

end
