(* ===== verification/Watchdog.thy ===== *)
theory Watchdog
  imports Prelude
begin

text \<open>
  The watchdog of \<^verbatim>\<open>crates/image/src/pipeline.rs\<close>: the deadline thread of one run, the calling thread
  and the child as a step relation over their shared state. The order "wait for the exit without
  reaping, stand the watchdog down, only then reap" is what keeps a late signal from hitting a
  process number that has been given away.
\<close>

section \<open>The watchdog\<close>

text \<open>
  One run with a deadline, seen by its two threads and the child. \<open>sv_stray\<close> counts the signals sent
  to the group after the child was reaped, when the kernel may have given its number to a stranger.
\<close>

datatype watch_state = Running | Finished | WTimedOut

datatype main_pc = Draining | Waiting | Standing | Reaping bool | Ended bool

record supervision =
  sv_pid :: nat
  sv_state :: watch_state
  sv_asleep :: bool
  sv_main :: main_pc
  sv_exited :: bool
  sv_reaped :: bool
  sv_killed :: bool
  sv_stray :: nat

definition kill_process_group :: "supervision \<Rightarrow> supervision" where
  "kill_process_group sv =
     (if sv_pid sv < 2 ^ 31
      then if sv_reaped sv then sv\<lparr> sv_stray := sv_stray sv + 1 \<rparr> else sv\<lparr> sv_killed := True \<rparr>
      else sv)"

text \<open>The watchdog thread when its wait is over, by the deadline or by the wake-up.\<close>

definition supervise :: "supervision \<Rightarrow> supervision" where
  "supervise sv =
     (if sv_state sv = Running then (kill_process_group sv)\<lparr> sv_state := WTimedOut, sv_asleep := False \<rparr>
      else sv\<lparr> sv_asleep := False \<rparr>)"

definition watchdog_finish :: "supervision \<Rightarrow> bool \<times> supervision" where
  "watchdog_finish sv =
     (let sv' = (if sv_state sv = Running then sv\<lparr> sv_state := Finished \<rparr> else sv)
      in (sv_state sv' = WTimedOut, sv'))"

definition watch_start :: "nat \<Rightarrow> supervision" where
  "watch_start pid = \<lparr> sv_pid = pid, sv_state = Running, sv_asleep = True, sv_main = Draining,
     sv_exited = False, sv_reaped = False, sv_killed = False, sv_stray = 0 \<rparr>"

text \<open>
  The calling thread drains the output, kills the group when that failed, waits for the exit without
  reaping (\<^verbatim>\<open>waitid\<close> with \<^verbatim>\<open>WNOWAIT\<close> returns early only on an error), stands the watchdog down, then reaps.
\<close>

inductive watch_step :: "supervision \<Rightarrow> supervision \<Rightarrow> bool" where
  wakes: "sv_asleep sv \<Longrightarrow> watch_step sv (supervise sv)"
| exits: "watch_step sv (sv\<lparr> sv_exited := True \<rparr>)"
| drained: "sv_main sv = Draining \<Longrightarrow> watch_step sv (sv\<lparr> sv_main := Waiting \<rparr>)"
| drain_failed: "sv_main sv = Draining \<Longrightarrow> watch_step sv ((kill_process_group sv)\<lparr> sv_main := Waiting \<rparr>)"
| exit_seen: "sv_main sv = Waiting \<Longrightarrow> sv_exited sv \<Longrightarrow> watch_step sv (sv\<lparr> sv_main := Standing \<rparr>)"
| waitid_failed: "sv_main sv = Waiting \<Longrightarrow> watch_step sv (sv\<lparr> sv_main := Standing \<rparr>)"
| stand_down: "sv_main sv = Standing \<Longrightarrow> watchdog_finish sv = (timed_out, sv') \<Longrightarrow>
    watch_step sv (sv'\<lparr> sv_main := Reaping timed_out \<rparr>)"
| reaps: "sv_main sv = Reaping timed_out \<Longrightarrow> sv_exited sv \<Longrightarrow>
    watch_step sv (sv\<lparr> sv_reaped := True, sv_main := Ended timed_out \<rparr>)"

inductive watch_reach :: "nat \<Rightarrow> supervision \<Rightarrow> bool" for pid where
  start: "watch_reach pid (watch_start pid)"
| step: "watch_reach pid sv \<Longrightarrow> watch_step sv sv' \<Longrightarrow> watch_reach pid sv'"

inductive_cases watch_stepE: "watch_step sv sv'"

definition watch_inv :: "nat \<Rightarrow> supervision \<Rightarrow> bool" where
  "watch_inv pid sv \<longleftrightarrow> sv_pid sv = pid \<and> sv_stray sv = 0 \<and>
     (sv_reaped sv \<longleftrightarrow> (\<exists>t. sv_main sv = Ended t)) \<and>
     (sv_state sv = WTimedOut \<longrightarrow> \<not> sv_asleep sv \<and> (pid < 2 ^ 31 \<longrightarrow> sv_killed sv)) \<and>
     (case sv_main sv of
        Reaping t \<Rightarrow> sv_state sv \<noteq> Running \<and> (t \<longleftrightarrow> sv_state sv = WTimedOut)
      | Ended t \<Rightarrow> sv_state sv \<noteq> Running \<and> (t \<longleftrightarrow> sv_state sv = WTimedOut)
      | _ \<Rightarrow> sv_state sv \<noteq> Finished)"

lemma watch_inv_step: "watch_step sv sv' \<Longrightarrow> watch_inv pid sv \<Longrightarrow> watch_inv pid sv'"
  by (erule watch_stepE)
    (auto simp: watch_inv_def supervise_def watchdog_finish_def kill_process_group_def Let_def
      split: main_pc.splits if_splits)

lemma watch_reach_inv: "watch_reach pid sv \<Longrightarrow> watch_inv pid sv"
  by (induction rule: watch_reach.induct)
    (auto simp: watch_inv_step, simp add: watch_inv_def watch_start_def)

text \<open>C29: Whatever the interleaving of watchdog, calling thread and child, no signal is ever sent to the group
  after the child was reaped; the run is reported as timed out exactly when the watchdog fired, and then
  the group was killed; once the run has ended the watchdog does nothing more.\<close>

theorem watchdog_never_strays:
  assumes "watch_reach pid sv"
  shows "sv_stray sv = 0 \<and>
    (\<forall>t. sv_main sv = Ended t \<longrightarrow> (t \<longleftrightarrow> sv_state sv = WTimedOut) \<and> (t \<and> pid < 2 ^ 31 \<longrightarrow> sv_killed sv) \<and>
       supervise sv = sv\<lparr> sv_asleep := False \<rparr>)"
  using watch_reach_inv [OF assms] by (auto simp: watch_inv_def supervise_def)

theorem watchdog_witness:
  "\<exists>sv. watch_reach 7 sv \<and> sv_main sv = Ended True \<and> sv_stray sv = 0 \<and> sv_killed sv"
proof -
  let ?a = "(watch_start 7)\<lparr> sv_main := Waiting \<rparr>"
  let ?b = "supervise ?a"
  let ?c = "?b\<lparr> sv_exited := True \<rparr>"
  let ?d = "?c\<lparr> sv_main := Standing \<rparr>"
  let ?e = "?d\<lparr> sv_main := Reaping True \<rparr>"
  let ?f = "?e\<lparr> sv_reaped := True, sv_main := Ended True \<rparr>"
  have "watch_reach 7 ?a"
    by (rule watch_reach.step [OF watch_reach.start]) (rule drained, simp add: watch_start_def)
  then have "watch_reach 7 ?b"
    by (rule watch_reach.step) (rule wakes, simp add: watch_start_def)
  then have "watch_reach 7 ?c"
    by (rule watch_reach.step) (rule exits)
  then have "watch_reach 7 ?d"
    by (rule watch_reach.step) (rule exit_seen, simp_all add: supervise_def watch_start_def kill_process_group_def)
  then have "watch_reach 7 ?e"
    by (rule watch_reach.step)
      (rule stand_down [where sv = ?d and sv' = ?d],
       simp_all add: watchdog_finish_def supervise_def watch_start_def kill_process_group_def)
  then have f: "watch_reach 7 ?f"
    by (rule watch_reach.step)
      (rule reaps [where sv = ?e], simp_all add: supervise_def watch_start_def kill_process_group_def)
  then show ?thesis
    using watchdog_never_strays [OF f] by (intro exI [of _ ?f]) auto
qed

end
