(* ===== verification/Permits.thy ===== *)
theory Permits
  imports Constants
begin

text \<open>
  The three counted resources of the program, which all promise the same: the image pipeline's
  \<^verbatim>\<open>ProcessThrottle\<close> (\<^verbatim>\<open>crates/image/src/throttle.rs\<close>), the ingestion's \<^verbatim>\<open>ReaderGate\<close> and \<^verbatim>\<open>ByteBudget\<close>
  (\<^verbatim>\<open>crates/wayland/src/ingest.rs\<close>). The promise is the locale \<open>permit_pool\<close>; the compare-and-swap loops
  of the latter two are step relations of threads that interleave, and every run of them is a run of
  the atomic operations.
\<close>

section \<open>A pool of permits\<close>

text \<open>Runs of a pool: permits are taken and given back in any order, each by its holder.\<close>

inductive pool_run ::
    "(nat \<Rightarrow> 's \<Rightarrow> 's option) \<Rightarrow> (nat \<Rightarrow> 's \<Rightarrow> 's) \<Rightarrow> 's \<Rightarrow> 's \<times> nat multiset \<Rightarrow> bool"
  for acq rel s0 where
  pool_start: "pool_run acq rel s0 (s0, {#})"
| pool_take: "pool_run acq rel s0 (s, held) \<Longrightarrow> acq k s = Some s' \<Longrightarrow> pool_run acq rel s0 (s', add_mset k held)"
| pool_refused: "pool_run acq rel s0 (s, held) \<Longrightarrow> acq k s = None \<Longrightarrow> pool_run acq rel s0 (s, held)"
| pool_give: "pool_run acq rel s0 (s, held) \<Longrightarrow> k \<in># held \<Longrightarrow> pool_run acq rel s0 (rel k s, held - {#k#})"

locale permit_pool =
  fixes used :: "'s \<Rightarrow> nat" and cap :: "'s \<Rightarrow> nat"
    and acq :: "nat \<Rightarrow> 's \<Rightarrow> 's option" and rel :: "nat \<Rightarrow> 's \<Rightarrow> 's"
  assumes acq_used: "acq k s = Some s' \<Longrightarrow> used s' = used s + k \<and> cap s' = cap s \<and> used s' \<le> cap s"
    and rel_used: "k \<le> used s \<Longrightarrow> used (rel k s) = used s - k \<and> cap (rel k s) = cap s"
begin

lemma run_exact:
  assumes "pool_run acq rel s0 (s, held)" and "used s0 = 0"
  shows "used s = sum_mset held \<and> used s \<le> cap s0 \<and> cap s = cap s0"
  using assms
proof (induction "(s, held)" arbitrary: s held rule: pool_run.induct)
  case (pool_take s held k s')
  then show ?case using acq_used [of k s s'] by simp
next
  case (pool_give s held k)
  obtain rest where rest: "held = add_mset k rest" using pool_give(3) multi_member_split by metis
  then have "k \<le> used s" "used s - k = sum_mset rest" using pool_give by simp_all
  then show ?case using rel_used [of k s] pool_give rest by simp
qed simp_all

text \<open>When every permit is back, everything is free again.\<close>

lemma run_returns: "pool_run acq rel s0 (s, {#}) \<Longrightarrow> used s0 = 0 \<Longrightarrow> used s = 0"
  using run_exact [of s0 s "{#}"] by simp

end

section \<open>The process throttle\<close>

record process_throttle =
  in_use :: nat
  thr_limit :: nat
  thr_wait :: nat

definition throttle_new :: "nat \<Rightarrow> nat \<Rightarrow> process_throttle" where
  "throttle_new limit wait = \<lparr> in_use = 0, thr_limit = (if limit = 0 then 1 else limit), thr_wait = wait \<rparr>"

text \<open>
  \<^verbatim>\<open>Condvar::wait_timeout_while\<close>: each wake-up gives the time since the call and the counter the thread then finds; the condition is asked first,
  the time afterwards. \<open>None\<close> while the thread still waits when the wake-ups end.
\<close>

fun wait_timeout_while :: "nat \<Rightarrow> (nat \<Rightarrow> bool) \<Rightarrow> nat \<Rightarrow> (nat \<times> nat) list \<Rightarrow> nat \<Rightarrow> (nat \<times> bool) option" where
  "wait_timeout_while dur busy elapsed wakes held =
     (if \<not> busy held then Some (held, False)
      else if dur < elapsed then Some (held, True)
      else (case wakes of
              [] \<Rightarrow> None
            | (elapsed', held') # rest \<Rightarrow> wait_timeout_while dur busy elapsed' rest held'))"

declare wait_timeout_while.simps [simp del]

text \<open>
  \<^verbatim>\<open>acquire\<close> decides under the lock when its wait ends, on the counter alone and not on the timeout; the counter at that
  moment is the argument's.
\<close>

definition throttle_acquire :: "process_throttle \<Rightarrow> process_throttle option" where
  "throttle_acquire t = (if thr_limit t \<le> in_use t then None else Some (t\<lparr> in_use := in_use t + 1 \<rparr>))"

definition throttle_acquire_waiting :: "(nat \<times> nat) list \<Rightarrow> process_throttle \<Rightarrow> process_throttle option option" where
  "throttle_acquire_waiting wakes t =
     map_option (\<lambda>(held, _). throttle_acquire (t\<lparr> in_use := held \<rparr>)) (wait_timeout_while (thr_wait t) (\<lambda>held. thr_limit t \<le> held) 0 wakes (in_use t))"

definition throttle_release :: "process_throttle \<Rightarrow> process_throttle" where
  "throttle_release t = t\<lparr> in_use := in_use t - 1 \<rparr>"

text \<open>\<^verbatim>\<open>Drop for Slot\<close>.\<close>

definition slot_drop :: "process_throttle \<Rightarrow> process_throttle" where
  "slot_drop t = throttle_release t"

text \<open>The wait ends with a free slot, or when its whole time is over and none was free at any moment the thread looked.\<close>

lemma wait_ends:
  assumes "wait_timeout_while dur busy elapsed wakes held = Some (held', late)"
  shows "\<exists>k \<le> length wakes. let seen = (elapsed, held) # wakes in held' = snd (seen ! k) \<and> (\<forall>j < k. busy (snd (seen ! j)) \<and> fst (seen ! j) \<le> dur) \<and>
     (if late then busy held' \<and> dur < fst (seen ! k) else \<not> busy held')"
  using assms
proof (induction wakes arbitrary: elapsed held)
  case Nil
  then show ?case by (subst (asm) wait_timeout_while.simps) (auto split: if_splits)
next
  case (Cons wake rest)
  obtain e h where wake: "wake = (e, h)" by (cases wake)
  show ?case
  proof (cases "busy held \<and> elapsed \<le> dur")
    case True
    then have "wait_timeout_while dur busy e rest h = Some (held', late)"
      using Cons.prems wake by (subst (asm) wait_timeout_while.simps) simp
    from Cons.IH [OF this] obtain k where k: "k \<le> length rest" "held' = snd (((e, h) # rest) ! k)"
      "\<forall>j < k. busy (snd (((e, h) # rest) ! j)) \<and> fst (((e, h) # rest) ! j) \<le> dur"
      "if late then busy held' \<and> dur < fst (((e, h) # rest) ! k) else \<not> busy held'"
      by (auto simp: Let_def)
    then show ?thesis using True wake by (intro exI [of _ "Suc k"]) (auto simp: Let_def less_Suc_eq_0_disj)
  next
    case False
    then show ?thesis using Cons.prems by (intro exI [of _ 0]) (subst (asm) wait_timeout_while.simps, auto split: if_splits)
  qed
qed

text \<open>So a conversion is refused only after the whole waiting time, with every slot taken at every look; and with a free slot it does not wait at all.\<close>

lemma throttle_patience:
  "throttle_acquire_waiting wakes t = Some None \<Longrightarrow>
     \<exists>k \<le> length wakes. let seen = (0, in_use t) # wakes in thr_wait t < fst (seen ! k) \<and> (\<forall>j \<le> k. thr_limit t \<le> snd (seen ! j))"
  "in_use t < thr_limit t \<Longrightarrow> throttle_acquire_waiting wakes t = Some (throttle_acquire t)"
proof -
  assume "throttle_acquire_waiting wakes t = Some None"
  then obtain held late where w: "wait_timeout_while (thr_wait t) (\<lambda>held. thr_limit t \<le> held) 0 wakes (in_use t) = Some (held, late)" and busy: "thr_limit t \<le> held"
    by (auto simp: throttle_acquire_waiting_def throttle_acquire_def split: if_splits)
  from wait_ends [OF w] busy
  show "\<exists>k \<le> length wakes. let seen = (0, in_use t) # wakes in thr_wait t < fst (seen ! k) \<and> (\<forall>j \<le> k. thr_limit t \<le> snd (seen ! j))"
    by (auto simp: Let_def le_less split: if_splits)
next
  assume "in_use t < thr_limit t"
  then show "throttle_acquire_waiting wakes t = Some (throttle_acquire t)"
    by (subst throttle_acquire_waiting_def, subst wait_timeout_while.simps) simp
qed

definition unit_acq :: "('s \<Rightarrow> 's option) \<Rightarrow> nat \<Rightarrow> 's \<Rightarrow> 's option" where
  "unit_acq f k s = (if k = 1 then f s else None)"

definition unit_rel :: "('s \<Rightarrow> 's) \<Rightarrow> nat \<Rightarrow> 's \<Rightarrow> 's" where
  "unit_rel f k s = (f ^^ k) s"

lemma throttle_release_pow: "in_use ((throttle_release ^^ k) t) = in_use t - k \<and> thr_limit ((throttle_release ^^ k) t) = thr_limit t"
  by (induction k) (simp_all add: throttle_release_def)

interpretation throttle: permit_pool in_use thr_limit "unit_acq throttle_acquire" "unit_rel throttle_release"
  by unfold_locales
    (auto simp: unit_acq_def unit_rel_def throttle_acquire_def throttle_release_pow split: if_splits)

section \<open>The reader gate and the byte budget, atomically\<close>

record reader_gate =
  gate_active :: nat
  gate_limit :: nat

definition gate_new :: "nat \<Rightarrow> reader_gate" where [simp]:
  "gate_new limit = \<lparr> gate_active = 0, gate_limit = limit \<rparr>"

definition gate_try_acquire :: "reader_gate \<Rightarrow> reader_gate option" where
  "gate_try_acquire g =
     (if gate_limit g \<le> gate_active g then None else Some (g\<lparr> gate_active := gate_active g + 1 \<rparr>))"

text \<open>\<^verbatim>\<open>fetch_sub\<close> wraps at zero.\<close>

definition fetch_sub :: "nat \<Rightarrow> nat \<Rightarrow> nat" where [std_defs]:
  "fetch_sub n k = (if k \<le> n then n - k else n + 2 ^ 64 - k)"

definition gate_release :: "reader_gate \<Rightarrow> reader_gate" where
  "gate_release g = g\<lparr> gate_active := fetch_sub (gate_active g) 1 \<rparr>"

record byte_budget =
  budget_used :: nat
  budget_limit :: nat

definition budget_new :: "nat \<Rightarrow> byte_budget" where [simp]:
  "budget_new limit = \<lparr> budget_used = 0, budget_limit = limit \<rparr>"

definition try_reserve :: "nat \<Rightarrow> byte_budget \<Rightarrow> byte_budget option" where
  "try_reserve n b =
     (case checked_add (budget_used b) n of
        None \<Rightarrow> None
      | Some next_used \<Rightarrow> if next_used \<le> budget_limit b then Some (b\<lparr> budget_used := next_used \<rparr>) else None)"

definition budget_release :: "nat \<Rightarrow> byte_budget \<Rightarrow> byte_budget" where
  "budget_release n b = b\<lparr> budget_used := fetch_sub (budget_used b) n \<rparr>"

definition gate_release_n :: "nat \<Rightarrow> reader_gate \<Rightarrow> reader_gate" where
  "gate_release_n k g = g\<lparr> gate_active := fetch_sub (gate_active g) k \<rparr>"

lemma gate_release_n_one: "gate_release_n 1 = gate_release"
  by (rule ext) (simp add: gate_release_n_def gate_release_def)

interpretation gate: permit_pool gate_active gate_limit "unit_acq gate_try_acquire" gate_release_n
  by unfold_locales
    (auto simp: unit_acq_def gate_try_acquire_def gate_release_n_def fetch_sub_def split: if_splits)

interpretation budget: permit_pool budget_used budget_limit try_reserve budget_release
  by unfold_locales
    (auto simp: try_reserve_def budget_release_def checked_add_def fetch_sub_def split: option.splits if_splits)

text \<open>however many threads ask and however their requests and returns interleave, the readers, the
  conversions and the queued bytes never exceed their limits, the counters are exactly what is held,
  and they are zero again when everything is returned.\<close>

lemma counted_resources_bounded:
  assumes "pool_run (unit_acq gate_try_acquire) gate_release_n \<lparr> gate_active = 0, gate_limit = l \<rparr> (g, gs)"
    and "pool_run (unit_acq throttle_acquire) (unit_rel throttle_release) (throttle_new m wait) (t, ts)"
    and "pool_run try_reserve budget_release \<lparr> budget_used = 0, budget_limit = n \<rparr> (b, bs)"
  shows "gate_active g = sum_mset gs \<and> gate_active g \<le> l \<and>
    in_use t = sum_mset ts \<and> in_use t \<le> max 1 m \<and>
    budget_used b = sum_mset bs \<and> budget_used b \<le> n"
  using gate.run_exact [OF assms(1)] throttle.run_exact [OF assms(2)] budget.run_exact [OF assms(3)]
  by (auto simp: throttle_new_def max_def split: if_splits)

theorem counted_resources_witness:
  "gate_active \<lparr> gate_active = 1, gate_limit = 2 \<rparr> \<le> 2 \<and> budget_used \<lparr> budget_used = 7, budget_limit = 9 \<rparr> = sum_mset {#7#}"
proof -
  have g: "pool_run (unit_acq gate_try_acquire) gate_release_n \<lparr> gate_active = 0, gate_limit = 2 \<rparr>
      (\<lparr> gate_active = 1, gate_limit = 2 \<rparr>, add_mset 1 {#})"
    by (rule pool_take [OF pool_start]) (simp add: unit_acq_def gate_try_acquire_def)
  have t: "pool_run (unit_acq throttle_acquire) (unit_rel throttle_release) (throttle_new 0 5) (throttle_new 0 5, {#})"
    by (rule pool_start)
  have b: "pool_run try_reserve budget_release \<lparr> budget_used = 0, budget_limit = 9 \<rparr>
      (\<lparr> budget_used = 7, budget_limit = 9 \<rparr>, add_mset 7 {#})"
    by (rule pool_take [OF pool_start]) (simp add: try_reserve_def checked_add_def u64_max_def)
  from counted_resources_bounded [OF g t b] show ?thesis by simp
qed

section \<open>The compare-and-swap loops\<close>

text \<open>
  One thread of \<^verbatim>\<open>try_acquire\<close>/\<^verbatim>\<open>try_reserve\<close>: it has read \<open>Trying k c\<close> (it wants \<open>k\<close> and last saw the counter
  at \<open>c\<close>), it holds \<open>k\<close>, or it is elsewhere. \<open>admit c k\<close> is the value the loop tries to store.
\<close>

datatype pc = Idle | Trying nat nat | Holding nat

inductive cas_step :: "(nat \<Rightarrow> nat \<Rightarrow> nat option) \<Rightarrow> nat \<times> pc list \<Rightarrow> nat \<times> pc list \<Rightarrow> bool"
  for admit where
  cas_load: "i < length ts \<Longrightarrow> ts ! i = Idle \<Longrightarrow> cas_step admit (v, ts) (v, ts[i := Trying k v])"
| cas_refuse: "i < length ts \<Longrightarrow> ts ! i = Trying k c \<Longrightarrow> admit c k = None \<Longrightarrow>
    cas_step admit (v, ts) (v, ts[i := Idle])"
| cas_ok: "i < length ts \<Longrightarrow> ts ! i = Trying k v \<Longrightarrow> admit v k = Some n \<Longrightarrow>
    cas_step admit (v, ts) (n, ts[i := Holding k])"
| cas_fail: "i < length ts \<Longrightarrow> ts ! i = Trying k c \<Longrightarrow> admit c k = Some n \<Longrightarrow>
    cas_step admit (v, ts) (v, ts[i := Trying k v])"
| cas_drop: "i < length ts \<Longrightarrow> ts ! i = Holding k \<Longrightarrow> cas_step admit (v, ts) (fetch_sub v k, ts[i := Idle])"

inductive_cases cas_stepE: "cas_step admit (v, ts) (v', ts')"

inductive cas_reach :: "(nat \<Rightarrow> nat \<Rightarrow> nat option) \<Rightarrow> nat \<Rightarrow> nat \<times> pc list \<Rightarrow> bool" for admit m where
  cas_init: "cas_reach admit m (0, replicate m Idle)"
| cas_next: "cas_reach admit m c \<Longrightarrow> cas_step admit c c' \<Longrightarrow> cas_reach admit m c'"

fun holdings :: "pc list \<Rightarrow> nat multiset" where
  "holdings [] = {#}"
| "holdings (Holding k # ts) = add_mset k (holdings ts)"
| "holdings (Idle # ts) = holdings ts"
| "holdings (Trying k c # ts) = holdings ts"

definition gate_admit :: "nat \<Rightarrow> nat \<Rightarrow> nat \<Rightarrow> nat option" where
  "gate_admit limit c k = (if limit \<le> c \<or> k \<noteq> 1 then None else Some (c + 1))"

definition budget_admit :: "nat \<Rightarrow> nat \<Rightarrow> nat \<Rightarrow> nat option" where
  "budget_admit limit c k =
     (case checked_add c k of None \<Rightarrow> None | Some n \<Rightarrow> if n \<le> limit then Some n else None)"

definition held_by :: "pc \<Rightarrow> nat multiset" where
  "held_by t = (case t of Holding k \<Rightarrow> {#k#} | _ \<Rightarrow> {#})"

lemma holdings_Cons: "holdings (t # ts) = held_by t + holdings ts"
  by (cases t) (simp_all add: held_by_def)

lemma holdings_update:
  "i < length ts \<Longrightarrow> holdings (ts[i := t']) + held_by (ts ! i) = holdings ts + held_by t'"
  by (induction ts arbitrary: i) (auto simp: holdings_Cons nth_Cons split: nat.splits)

lemma holding_mem: "i < length ts \<Longrightarrow> ts ! i = Holding k \<Longrightarrow> k \<in># holdings ts"
  by (induction ts arbitrary: i) (auto simp: holdings_Cons held_by_def nth_Cons split: nat.splits)

lemma holdings_keep:
  "i < length ts \<Longrightarrow> held_by (ts ! i) = {#} \<Longrightarrow> held_by t' = {#} \<Longrightarrow> holdings (ts[i := t']) = holdings ts"
  using holdings_update [of i ts t'] by simp

text \<open>Every run of the loops is a run of the atomic pool with the same holders.\<close>

locale cas_pool = permit_pool used cap acq rel
  for used cap :: "'s \<Rightarrow> nat" and acq :: "nat \<Rightarrow> 's \<Rightarrow> 's option" and rel :: "nat \<Rightarrow> 's \<Rightarrow> 's" +
  fixes admit :: "nat \<Rightarrow> nat \<Rightarrow> nat option" and s0 :: 's
  assumes admit_acq: "cap s = cap s0 \<Longrightarrow> admit (used s) k = map_option used (acq k s)"
    and rel_fetch: "used (rel k s) = fetch_sub (used s) k"
    and start: "used s0 = 0"
begin

lemma cas_simulates:
  "cas_reach admit m (v, ts) \<Longrightarrow> \<exists>s. pool_run acq rel s0 (s, holdings ts) \<and> used s = v"
proof (induction "(v, ts)" arbitrary: v ts rule: cas_reach.induct)
  case cas_init
  have "holdings (replicate m Idle) = {#}" by (induction m) simp_all
  then show ?case using pool_start [of acq rel s0] start by metis
next
  case (cas_next c)
  obtain v0 ts0 where c: "c = (v0, ts0)" by (cases c)
  from cas_next(2) [OF c] obtain s where s: "pool_run acq rel s0 (s, holdings ts0)" "used s = v0" by blast
  have cap: "cap s = cap s0" using run_exact [OF s(1) start] by simp
  from cas_next(3) [unfolded c] show ?case
  proof (cases rule: cas_step.cases)
    case (cas_load i k)
    then show ?thesis using s by (auto simp: holdings_keep held_by_def)
  next
    case (cas_refuse i k c)
    then show ?thesis using s by (auto simp: holdings_keep held_by_def)
  next
    case (cas_fail i k c n)
    then show ?thesis using s by (auto simp: holdings_keep held_by_def)
  next
    case (cas_ok i k)
    then obtain s' where s': "acq k s = Some s'" "used s' = v"
      using admit_acq [OF cap, of k] s(2) by (cases "acq k s") auto
    have "holdings ts = add_mset k (holdings ts0)"
      using cas_ok holdings_update [of i ts0 "Holding k"] by (simp add: held_by_def)
    with pool_take [OF s(1) s'(1)] s'(2) show ?thesis by auto
  next
    case (cas_drop i k)
    have "add_mset k (holdings ts) = holdings ts0"
      using cas_drop holdings_update [of i ts0 Idle] by (simp add: held_by_def)
    then have "holdings ts = holdings ts0 - {#k#}" by (metis add_mset_remove_trivial)
    with pool_give [OF s(1) holding_mem [OF cas_drop(3,4)]] rel_fetch s(2) cas_drop show ?thesis by auto
  qed
qed

end

interpretation gate_cas: cas_pool gate_active gate_limit "unit_acq gate_try_acquire" gate_release_n
    "gate_admit l" "\<lparr> gate_active = 0, gate_limit = l \<rparr>" for l
  by unfold_locales
    (auto simp: gate_admit_def unit_acq_def gate_try_acquire_def gate_release_n_def)

interpretation budget_cas: cas_pool budget_used budget_limit try_reserve budget_release
    "budget_admit l" "\<lparr> budget_used = 0, budget_limit = l \<rparr>" for l
  by unfold_locales
    (auto simp: budget_admit_def try_reserve_def budget_release_def split: option.splits)

text \<open>C33: the lock-free loops are as good as atomic operations: in every interleaving of any number of
  threads, with compare-and-swaps failing spuriously or because another thread got in between, what
  the threads hold never exceeds the limit and the counter is its exact sum, never wrapped.\<close>

theorem lock_free_admission:
  assumes "cas_reach (gate_admit l) m (v, ts)" and "cas_reach (budget_admit n) k (u, us)"
  shows "v = sum_mset (holdings ts) \<and> v \<le> l \<and> u = sum_mset (holdings us) \<and> u \<le> n"
proof -
  obtain g where g: "pool_run (unit_acq gate_try_acquire) gate_release_n \<lparr> gate_active = 0, gate_limit = l \<rparr> (g, holdings ts)"
      "gate_active g = v"
    using gate_cas.cas_simulates [OF assms(1)] by blast
  obtain b where b: "pool_run try_reserve budget_release \<lparr> budget_used = 0, budget_limit = n \<rparr> (b, holdings us)"
      "budget_used b = u"
    using budget_cas.cas_simulates [OF assms(2)] by blast
  from gate.run_exact [OF g(1)] budget.run_exact [OF b(1)] g(2) b(2) show ?thesis by simp
qed

theorem lock_free_witness: "1 = sum_mset (holdings [Holding 1, Trying 1 0]) \<and> (1::nat) \<le> 1"
proof -
  have r0: "cas_reach (gate_admit 1) 2 (0, [Idle, Idle])"
    using cas_init [of "gate_admit 1" 2] by (simp add: numeral_2_eq_2)
  have r1: "cas_reach (gate_admit 1) 2 (0, [Trying 1 0, Idle])"
    using cas_next [OF r0 cas_load [of 0 "[Idle, Idle]" "gate_admit 1" 0 1]] by simp
  have r2: "cas_reach (gate_admit 1) 2 (0, [Trying 1 0, Trying 1 0])"
    using cas_next [OF r1 cas_load [of 1 "[Trying 1 0, Idle]" "gate_admit 1" 0 1]] by simp
  have r3: "cas_reach (gate_admit 1) 2 (1, [Holding 1, Trying 1 0])"
    using cas_next [OF r2 cas_ok [of 0 "[Trying 1 0, Trying 1 0]" 1 0 "gate_admit 1" 1]]
    by (simp add: gate_admit_def)
  have b: "cas_reach (budget_admit 9) 0 (0, [])"
    using cas_init [of "budget_admit 9" 0] by simp
  from lock_free_admission [OF r3 b] show ?thesis by simp
qed

end
