(* ===== verification/Ingest.thy ===== *)
theory Ingest
  imports Payload Permits
begin

text \<open>
  The hand-over from the ingestion threads to the worker: \<^verbatim>\<open>ClipboardJob\<close> of
  \<^verbatim>\<open>crates/wayland/src/state.rs\<close> and \<^verbatim>\<open>enqueue\<close>, \<^verbatim>\<open>enqueue_bounded\<close> and the shed counters of
  \<^verbatim>\<open>crates/wayland/src/ingest.rs\<close>. The queue is shared: while a producer sleeps between two polls, the
  worker takes and finishes jobs and other producers reserve, send and give up, as lists of events
  (\<open>events i\<close> during the \<open>i\<close>-th sleep). A sleep lasts at least its length, so the elapsed time at poll \<open>i\<close>
  is \<open>i\<close> sleeps plus a drift.
\<close>

section \<open>Jobs\<close>

record clipboard_job =
  job_mime :: string
  job_payload :: payload
  job_permit :: "nat option"

definition job_new :: "string \<Rightarrow> bytes \<Rightarrow> clipboard_job" where
  "job_new mime data = \<lparr> job_mime = mime, job_payload = Memory data, job_permit = None \<rparr>"

definition from_payload :: "string \<Rightarrow> payload \<Rightarrow> clipboard_job" where
  "from_payload mime p = \<lparr> job_mime = mime, job_payload = p, job_permit = None \<rparr>"

definition accounted_bytes :: "clipboard_job \<Rightarrow> nat" where
  "accounted_bytes job =
     (case payload_len_hint (job_payload job) of None \<Rightarrow> 0 | Some len \<Rightarrow> min len u64_max)"

definition into_bytes :: "bool \<Rightarrow> clipboard_job \<Rightarrow> nat \<Rightarrow> fsys \<Rightarrow> (payload_error + string \<times> bytes) \<times> fsys" where
  "into_bytes stat_ok job limit fs =
     (case payload_read_bounded stat_ok (job_payload job) limit fs of
        (r, fs') \<Rightarrow> (try_bind r (\<lambda>data. Inr (job_mime job, data)), fs'))"

section \<open>Shed counters\<close>

record ingest_stats =
  shed_readers :: nat
  shed_queue :: nat

definition record_shed_reader :: "ingest_stats \<Rightarrow> nat \<times> ingest_stats" where
  "record_shed_reader st =
     (let n = wrap64 (shed_readers st + 1) in (n, st\<lparr> shed_readers := n \<rparr>))"

definition record_shed_queue :: "ingest_stats \<Rightarrow> nat \<times> ingest_stats" where
  "record_shed_queue st =
     (let n = wrap64 (shed_queue st + 1) in (n, st\<lparr> shed_queue := n \<rparr>))"

definition should_report :: "nat \<Rightarrow> bool" where
  "should_report total_shed = is_power_of_two total_shed"

section \<open>The queue and its neighbours\<close>

text \<open>
  Beside the queue: the jobs the worker has taken and not yet dropped, and the reservations other
  producers hold while they wait for a slot.
\<close>

record queue_world =
  qw_jobs :: "clipboard_job list"
  qw_capacity :: nat
  qw_open :: bool
  qw_working :: "clipboard_job list"
  qw_waiting :: "nat list"
  qw_budget :: byte_budget
  qw_fs :: fsys

definition permit_bytes :: "clipboard_job \<Rightarrow> nat" where
  "permit_bytes job = (case job_permit job of None \<Rightarrow> 0 | Some n \<Rightarrow> n)"

text \<open>Dropping a job returns its bytes and unlinks its spool file.\<close>

definition drop_job :: "clipboard_job \<Rightarrow> queue_world \<Rightarrow> queue_world" where
  "drop_job job w =
     w\<lparr> qw_budget := budget_release (permit_bytes job) (qw_budget w),
        qw_fs := payload_drop (job_payload job) (qw_fs w) \<rparr>"

datatype send_answer = Sent | Full | Disconnected

definition try_send :: "clipboard_job \<Rightarrow> queue_world \<Rightarrow> send_answer \<times> queue_world" where [std_defs]:
  "try_send job w =
     (if \<not> qw_open w then (Disconnected, w)
      else if qw_capacity w \<le> length (qw_jobs w) then (Full, w)
      else (Sent, w\<lparr> qw_jobs := qw_jobs w @ [job] \<rparr>))"

datatype qevent =
    WorkerTakes
  | WorkerDrops
  | WorkerGone
  | OtherReserves nat
  | OtherSends clipboard_job
  | OtherGivesUp

fun apply_event :: "qevent \<Rightarrow> queue_world \<Rightarrow> queue_world" where
  "apply_event WorkerTakes w =
     (case qw_jobs w of
        [] \<Rightarrow> w
      | job # rest \<Rightarrow> w\<lparr> qw_jobs := rest, qw_working := job # qw_working w \<rparr>)"
| "apply_event WorkerDrops w =
     (case qw_working w of [] \<Rightarrow> w | job # rest \<Rightarrow> drop_job job (w\<lparr> qw_working := rest \<rparr>))"
| "apply_event WorkerGone w =
     fold drop_job (qw_jobs w @ qw_working w) (w\<lparr> qw_jobs := [], qw_working := [], qw_open := False \<rparr>)"
| "apply_event (OtherReserves n) w =
     (case try_reserve n (qw_budget w) of
        None \<Rightarrow> w
      | Some b \<Rightarrow> w\<lparr> qw_budget := b, qw_waiting := n # qw_waiting w \<rparr>)"
| "apply_event (OtherSends job) w =
     (case qw_waiting w of
        [] \<Rightarrow> w
      | n # rest \<Rightarrow>
          (case try_send (job\<lparr> job_permit := Some n \<rparr>) (w\<lparr> qw_waiting := rest \<rparr>) of
             (Sent, w') \<Rightarrow> w'
           | _ \<Rightarrow> w))"
| "apply_event OtherGivesUp w =
     (case qw_waiting w of
        [] \<Rightarrow> w
      | n # rest \<Rightarrow> w\<lparr> qw_waiting := rest, qw_budget := budget_release n (qw_budget w) \<rparr>)"

definition apply_events :: "qevent list \<Rightarrow> queue_world \<Rightarrow> queue_world" where
  "apply_events evs w = fold apply_event evs w"

section \<open>Offering a job\<close>

datatype enqueue_result = Queued | Shed | Closed

definition elapsed_at :: "(nat \<Rightarrow> nat) \<Rightarrow> nat \<Rightarrow> nat" where
  "elapsed_at drift i = i * INGEST_ENQUEUE_POLL_MS + drift i"

function enqueue_from ::
    "(nat \<Rightarrow> qevent list) \<Rightarrow> (nat \<Rightarrow> nat) \<Rightarrow> nat \<Rightarrow> clipboard_job \<Rightarrow> nat \<Rightarrow> queue_world \<Rightarrow> enqueue_result \<times> queue_world" where
  "enqueue_from events drift wait job i w =
     (case try_send job w of
        (Sent, w') \<Rightarrow> (Queued, w')
      | (Disconnected, w') \<Rightarrow> (Closed, drop_job job w')
      | (Full, w') \<Rightarrow>
          if wait \<le> elapsed_at drift i then (Shed, drop_job job w')
          else enqueue_from events drift wait job (Suc i) (apply_events (events i) w'))"
  by pat_completeness auto
termination
  by (relation "measure (\<lambda>(events, drift, wait, job, i, w). wait - i * INGEST_ENQUEUE_POLL_MS)")
    (auto simp: elapsed_at_def const_defs)

declare enqueue_from.simps [simp del]

definition enqueue ::
    "(nat \<Rightarrow> qevent list) \<Rightarrow> (nat \<Rightarrow> nat) \<Rightarrow> nat \<Rightarrow> clipboard_job \<Rightarrow> queue_world \<Rightarrow> enqueue_result \<times> queue_world" where
  "enqueue events drift wait job w = enqueue_from events drift wait job 0 w"

text \<open>The reservation is taken first, and kept while the queue is full.\<close>

definition reserve_for :: "nat \<Rightarrow> clipboard_job \<Rightarrow> queue_world \<Rightarrow> clipboard_job \<times> queue_world" where
  "reserve_for bytes job w =
     (case job_permit job of
        Some _ \<Rightarrow> (job, w)
      | None \<Rightarrow>
          (case try_reserve bytes (qw_budget w) of
             None \<Rightarrow> (job, w)
           | Some b \<Rightarrow> (job\<lparr> job_permit := Some bytes \<rparr>, w\<lparr> qw_budget := b \<rparr>)))"

definition offer :: "clipboard_job \<Rightarrow> queue_world \<Rightarrow> send_answer \<times> queue_world" where
  "offer job w = (if job_permit job = None then (Full, w) else try_send job w)"

function enqueue_bounded_from ::
    "(nat \<Rightarrow> qevent list) \<Rightarrow> (nat \<Rightarrow> nat) \<Rightarrow> nat \<Rightarrow> nat \<Rightarrow> clipboard_job \<Rightarrow> nat \<Rightarrow> queue_world \<Rightarrow>
     enqueue_result \<times> queue_world" where
  "enqueue_bounded_from events drift wait bytes job0 i w0 =
     (let (job, w1) = reserve_for bytes job0 w0
      in case offer job w1 of
           (Sent, w) \<Rightarrow> (Queued, w)
         | (Disconnected, w) \<Rightarrow> (Closed, drop_job job w)
         | (Full, w) \<Rightarrow>
             if wait \<le> elapsed_at drift i then (Shed, drop_job job w)
             else enqueue_bounded_from events drift wait bytes job (Suc i) (apply_events (events i) w))"
  by pat_completeness auto
termination
  by (relation "measure (\<lambda>(events, drift, wait, bytes, job, i, w). wait - i * INGEST_ENQUEUE_POLL_MS)")
    (auto simp: elapsed_at_def const_defs)

declare enqueue_bounded_from.simps [simp del]

definition enqueue_bounded ::
    "(nat \<Rightarrow> qevent list) \<Rightarrow> (nat \<Rightarrow> nat) \<Rightarrow> nat \<Rightarrow> clipboard_job \<Rightarrow> queue_world \<Rightarrow> enqueue_result \<times> queue_world" where
  "enqueue_bounded events drift wait job w =
     (let bytes = accounted_bytes job
      in if budget_limit (qw_budget w) < bytes then (Shed, drop_job job w)
         else enqueue_bounded_from events drift wait bytes job 0 w)"


section \<open>Every reserved byte is accounted for\<close>

definition queue_held :: "queue_world \<Rightarrow> nat" where
  "queue_held w = sum_list (map permit_bytes (qw_jobs w)) + sum_list (map permit_bytes (qw_working w)) +
     sum_list (qw_waiting w)"

text \<open>\<open>own\<close> is what the observed producer holds.\<close>

definition acct :: "nat \<Rightarrow> queue_world \<Rightarrow> bool" where
  "acct own w \<longleftrightarrow> budget_used (qw_budget w) = queue_held w + own \<and>
     budget_used (qw_budget w) \<le> budget_limit (qw_budget w) \<and> length (qw_jobs w) \<le> qw_capacity w"

lemma drop_job_frame [frame_simps, simp]:
  "qw_jobs (drop_job job w) = qw_jobs w" "qw_working (drop_job job w) = qw_working w"
  "qw_waiting (drop_job job w) = qw_waiting w" "qw_capacity (drop_job job w) = qw_capacity w"
  "qw_open (drop_job job w) = qw_open w" "queue_held (drop_job job w) = queue_held w"
  by (simp_all add: drop_job_def queue_held_def)

lemma acct_drop: "acct (own + permit_bytes job) w \<Longrightarrow> acct own (drop_job job w)"
  using budget.rel_used [of "permit_bytes job" "qw_budget w"] by (auto simp: acct_def drop_job_def queue_held_def)

lemma drop_job_limit: "permit_bytes job \<le> budget_used (qw_budget w) \<Longrightarrow>
    budget_limit (qw_budget (drop_job job w)) = budget_limit (qw_budget w)"
  using budget.rel_used [of "permit_bytes job" "qw_budget w"] by (simp add: drop_job_def)

lemma acct_drop_all:
  "acct (own + sum_list (map permit_bytes js)) w \<Longrightarrow> acct own (fold drop_job js w)"
proof (induction js arbitrary: w)
  case (Cons j js)
  have "acct (own + sum_list (map permit_bytes js)) (drop_job j w)"
    using Cons.prems acct_drop [of "own + sum_list (map permit_bytes js)" j w] by (simp add: ac_simps)
  then show ?case using Cons.IH by simp
qed simp

lemma acct_event: "acct own w \<Longrightarrow> acct own (apply_event ev w)"
proof (cases ev)
  case WorkerTakes
  then show "acct own w \<Longrightarrow> ?thesis" by (auto simp: acct_def queue_held_def split: list.splits)
next
  case WorkerDrops
  show "acct own w \<Longrightarrow> ?thesis"
  proof (cases "qw_working w")
    case (Cons j rest)
    assume "acct own w"
    then have "acct (own + permit_bytes j) (w\<lparr> qw_working := rest \<rparr>)"
      using Cons by (simp add: acct_def queue_held_def)
    then show ?thesis using WorkerDrops Cons acct_drop by simp
  qed (simp add: WorkerDrops)
next
  case WorkerGone
  assume "acct own w"
  then have "acct (own + sum_list (map permit_bytes (qw_jobs w @ qw_working w)))
      (w\<lparr> qw_jobs := [], qw_working := [], qw_open := False \<rparr>)"
    by (simp add: acct_def queue_held_def)
  from acct_drop_all [OF this] show ?thesis using WorkerGone by simp
next
  case (OtherReserves n)
  assume "acct own w"
  then show ?thesis
    using OtherReserves budget.acq_used [of n "qw_budget w"]
    by (auto simp: acct_def queue_held_def split: option.splits)
next
  case (OtherSends job)
  assume "acct own w"
  then show ?thesis
    using OtherSends by (auto simp: acct_def queue_held_def try_send_def permit_bytes_def split: list.splits if_splits)
next
  case OtherGivesUp
  assume "acct own w"
  then show ?thesis
    using OtherGivesUp budget.rel_used [of _ "qw_budget w"]
    by (auto simp: acct_def queue_held_def split: list.splits)
qed

lemma acct_events: "acct own w \<Longrightarrow> acct own (apply_events evs w)"
  unfolding apply_events_def by (induction evs arbitrary: w) (auto intro: acct_event)

lemma reserve_for_acct:
  assumes "reserve_for n job w = (job', w')" and "acct (permit_bytes job) w"
    and "job_permit job = None \<or> job_permit job = Some n"
  shows "acct (permit_bytes job') w'" "job_permit job' = None \<or> job' = job\<lparr> job_permit := Some n \<rparr>"
    "job_payload job' = job_payload job" "job_permit job' = None \<Longrightarrow> job' = job"
  using assms budget.acq_used [of n "qw_budget w"]
  by (auto simp: reserve_for_def acct_def queue_held_def permit_bytes_def split: option.splits)

definition spool_freed :: "payload \<Rightarrow> queue_world \<Rightarrow> bool" where
  "spool_freed p w \<longleftrightarrow> (case p of Spooled sp \<Rightarrow> sp_owned sp \<longrightarrow> fs_files (qw_fs w) (sp_path sp) = None | _ \<Rightarrow> True)"

lemma drop_job_frees: "spool_freed (job_payload job) (drop_job job w)"
  by (simp add: spool_freed_def drop_job_def payload_drop_def spooled_drop_def split: payload.splits)

text \<open>What a producer may rely on when the call returns.\<close>

definition offer_settled :: "nat \<Rightarrow> clipboard_job \<Rightarrow> enqueue_result \<Rightarrow> queue_world \<Rightarrow> bool" where
  "offer_settled n job r w \<longleftrightarrow> acct 0 w \<and>
     (case r of
        Queued \<Rightarrow> (\<exists>pre. qw_jobs w = pre @ [job\<lparr> job_permit := Some n \<rparr>])
      | Shed \<Rightarrow> spool_freed (job_payload job) w
      | Closed \<Rightarrow> \<not> qw_open w \<and> spool_freed (job_payload job) w)"

lemma enqueue_bounded_from_settled:
  "acct (permit_bytes job) w \<Longrightarrow> job_permit job = None \<or> job_permit job = Some n \<Longrightarrow>
   enqueue_bounded_from events drift wait n job i w = (r, w') \<Longrightarrow> offer_settled n job r w'"
proof (induction events drift wait n job i w rule: enqueue_bounded_from.induct)
  case (1 events drift wait n job i w)
  obtain job1 w1 where res: "reserve_for n job w = (job1, w1)" by fastforce
  note r = reserve_for_acct [OF res 1(2,3)]
  obtain a w2 where off: "offer job1 w1 = (a, w2)" by fastforce
  have same: "w2 = w1" if "a \<noteq> Sent" using off that by (auto simp: offer_def try_send_def split: if_splits)
  have drop: "acct 0 (drop_job job1 w1)" using acct_drop [of 0 job1 w1] r(1) by simp
  have freed: "spool_freed (job_payload job) (drop_job job1 w1)" using drop_job_frees [of job1 w1] r(3) by simp
  show ?case
  proof (cases a)
    case Sent
    then have w2: "w2 = w1\<lparr> qw_jobs := qw_jobs w1 @ [job1] \<rparr>" "job_permit job1 \<noteq> None" "length (qw_jobs w1) < qw_capacity w1"
      using off by (auto simp: offer_def try_send_def split: if_splits)
    have "job1 = job\<lparr> job_permit := Some n \<rparr>" using r(2) w2(2) by simp
    moreover have "acct 0 w2" using r(1) w2 by (simp add: acct_def queue_held_def)
    ultimately show ?thesis
      using 1(4) res off Sent w2 by (auto simp: enqueue_bounded_from.simps [of events] offer_settled_def)
  next
    case Disconnected
    then have "\<not> qw_open w1" using off by (auto simp: offer_def try_send_def split: if_splits)
    then show ?thesis
      using 1(4) res off Disconnected same drop freed
      by (auto simp: enqueue_bounded_from.simps [of events] offer_settled_def)
  next
    case Full
    show ?thesis
    proof (cases "wait \<le> elapsed_at drift i")
      case True
      then show ?thesis
        using 1(4) res off Full same drop freed
        by (auto simp: enqueue_bounded_from.simps [of events] offer_settled_def)
    next
      case False
      have "enqueue_bounded_from events drift wait n job1 (Suc i) (apply_events (events i) w2) = (r, w')"
        using 1(4) res off Full False by (simp add: enqueue_bounded_from.simps [of events])
      moreover have "acct (permit_bytes job1) (apply_events (events i) w2)"
        using r(1) same Full by (simp add: acct_events)
      moreover have "job_permit job1 = None \<or> job_permit job1 = Some n" using r(2) by auto
      ultimately have "offer_settled n job1 r w'"
        using 1(1) [OF res [symmetric] refl off [symmetric] Full False] by blast
      moreover have "job1\<lparr> job_permit := Some n \<rparr> = job\<lparr> job_permit := Some n \<rparr>" using r(2,4) by fastforce
      ultimately show ?thesis unfolding offer_settled_def by (simp only: r(3))
    qed
  qed
qed

text \<open>Offering a payload to the bounded queue never leaks or overdraws the byte budget, whatever the worker and
  the other producers do meanwhile: it ends with the job last in the queue and carrying exactly its own
  reservation, or with the reservation returned and the spool file gone; a payload larger than the whole
  budget is refused at once, and one that fits is queued at once when there is room.\<close>

lemma enqueue_bounded_accounts:
  assumes "acct 0 w" and "job_permit job = None"
    and "enqueue_bounded events drift wait job w = (r, w')"
  shows "offer_settled (accounted_bytes job) job r w' \<and>
    (budget_limit (qw_budget w) < accounted_bytes job \<longrightarrow> r = Shed \<and> qw_jobs w' = qw_jobs w) \<and>
    (qw_open w \<and> length (qw_jobs w) < qw_capacity w \<and>
     budget_used (qw_budget w) + accounted_bytes job \<le> min u64_max (budget_limit (qw_budget w)) \<longrightarrow>
       r = Queued \<and> qw_jobs w' = qw_jobs w @ [job\<lparr> job_permit := Some (accounted_bytes job) \<rparr>])"
proof (cases "budget_limit (qw_budget w) < accounted_bytes job")
  case True
  have "acct 0 (drop_job job w)" using acct_drop [of 0 job w] assms(1,2) by (simp add: permit_bytes_def)
  then show ?thesis
    using True assms(3) drop_job_frees [of job w] by (auto simp: enqueue_bounded_def offer_settled_def)
next
  case False
  have run: "enqueue_bounded_from events drift wait (accounted_bytes job) job 0 w = (r, w')"
    using False assms(3) by (simp add: enqueue_bounded_def)
  have "acct (permit_bytes job) w" using assms(1,2) by (simp add: permit_bytes_def)
  from enqueue_bounded_from_settled [OF this _ run] assms(2)
  have "offer_settled (accounted_bytes job) job r w'" by simp
  moreover have "r = Queued \<and> qw_jobs w' = qw_jobs w @ [job\<lparr> job_permit := Some (accounted_bytes job) \<rparr>]"
    if "qw_open w" "length (qw_jobs w) < qw_capacity w"
      "budget_used (qw_budget w) + accounted_bytes job \<le> min u64_max (budget_limit (qw_budget w))"
    using run that assms(2)
    by (auto simp: enqueue_bounded_from.simps [of events] reserve_for_def try_reserve_def checked_add_def offer_def
        try_send_def)
  ultimately show ?thesis using False by auto
qed

definition small_queue :: queue_world where
  "small_queue = \<lparr> qw_jobs = [], qw_capacity = 1, qw_open = True, qw_working = [], qw_waiting = [],
     qw_budget = \<lparr> budget_used = 0, budget_limit = 4 \<rparr>, qw_fs = empty_fs \<rparr>"

theorem enqueue_bounded_witness:
  "enqueue_bounded (\<lambda>_. []) (\<lambda>_. 0) 2000 (job_new ''text/plain'' ''abc'') small_queue =
     (Queued, small_queue\<lparr> qw_jobs := [(job_new ''text/plain'' ''abc'')\<lparr> job_permit := Some 3 \<rparr>],
        qw_budget := \<lparr> budget_used = 3, budget_limit = 4 \<rparr> \<rparr>)"
proof -
  obtain r w' where run: "enqueue_bounded (\<lambda>_. []) (\<lambda>_. 0) 2000 (job_new ''text/plain'' ''abc'') small_queue = (r, w')"
    by fastforce
  have "acct 0 small_queue" "job_permit (job_new ''text/plain'' ''abc'') = None"
    by (simp_all add: acct_def small_queue_def queue_held_def job_new_def)
  from enqueue_bounded_accounts [OF this run]
  have "r = Queued" by (simp add: small_queue_def job_new_def accounted_bytes_def payload_len_hint_def u64_max_def)
  with run show ?thesis
    by (auto simp: enqueue_bounded_def enqueue_bounded_from.simps small_queue_def job_new_def accounted_bytes_def
        payload_len_hint_def u64_max_def reserve_for_def try_reserve_def checked_add_def offer_def try_send_def)
qed

lemma should_report_powers: "should_report n \<longleftrightarrow> (\<exists>k. n = 2 ^ k)"
  by (simp add: should_report_def is_power_of_two_iff)

end
