(* ===== verification/Selection.thy ===== *)
theory Selection
  imports Ingest Config
begin

text \<open>
  \<^verbatim>\<open>crates/wayland/src/handlers/data_control/mod.rs\<close> and \<^verbatim>\<open>device.rs\<close>: what happens when the compositor
  announces a new selection. The compositor's answers (which types are offered, what the pipe delivers,
  whether a pipe and a thread can be had) are arguments. Spooling is an interface of this layer
  (\<^verbatim>\<open>crates/wayland/src/spool.rs\<close>): the locale \<open>payload_spooler\<close> states its contract and proves that the
  pipe is drained completely whatever road is taken; the daemon's spooler interprets it.
\<close>

section \<open>MIME negotiation\<close>

definition TEXT_ALIASES :: "string list" where
  "TEXT_ALIASES = [''text/plain'', ''utf8_string'', ''string'', ''text'', ''compound_text'']"

definition is_alias :: "string \<Rightarrow> bool" where
  "is_alias base \<longleftrightarrow> list_ex (\<lambda>alias. eq_ignore_ascii_case base alias) TEXT_ALIASES"

definition mime_is_compatible :: "string \<Rightarrow> string \<Rightarrow> bool" where
  "mime_is_compatible requested target =
     (let req_base = mime_base requested;
          tgt_base = mime_base target;
          req_is_text_cat = starts_with_ignore_ascii_case req_base ''text/'';
          tgt_is_text_cat = starts_with_ignore_ascii_case tgt_base ''text/''
      in if eq_ignore_ascii_case req_base tgt_base then True
         else if req_is_text_cat \<and> tgt_is_text_cat then True
         else if is_html_mime req_base \<and> is_html_mime tgt_base then True
         else
           (let req_is_text_compatible = (req_is_text_cat \<or> is_alias req_base \<or> is_html_mime req_base);
                tgt_is_text_compatible = (tgt_is_text_cat \<or> is_alias tgt_base \<or> is_html_mime tgt_base)
            in (is_alias req_base \<and> tgt_is_text_compatible) \<or> (is_alias tgt_base \<and> req_is_text_compatible)))"

definition is_sensitive :: "string list \<Rightarrow> bool" where
  "is_sensitive mimes =
     list_ex (\<lambda>hint. let hint_lower = to_ascii_lowercase hint
                     in list_ex (\<lambda>m. contains_str (to_ascii_lowercase m) hint_lower) mimes)
       SENSITIVE_MIME_HINTS"

text \<open>The offer collects each announced type once.\<close>

definition offer_event :: "string \<Rightarrow> string list \<Rightarrow> string list" where
  "offer_event mime_type mimes = (if mime_type \<in> set mimes then mimes else mimes @ [mime_type])"

fun find_map_offer :: "string list \<Rightarrow> string list \<Rightarrow> string option" where
  "find_map_offer mimes [] = None"
| "find_map_offer mimes (p # ps) =
     (case find (\<lambda>m. mime_base_eq m p) mimes of Some m \<Rightarrow> Some m | None \<Rightarrow> find_map_offer mimes ps)"

definition or_else :: "'a option \<Rightarrow> 'a option \<Rightarrow> 'a option" where [std_defs]:
  "or_else a b = (case a of Some x \<Rightarrow> Some x | None \<Rightarrow> b)"

definition select_mime :: "string list \<Rightarrow> string option \<Rightarrow> bool \<Rightarrow> string option" where
  "select_mime mimes target_mime drop_rtf =
     (case target_mime of
        Some target \<Rightarrow> find (\<lambda>m. mime_base_eq m target) mimes
      | None \<Rightarrow>
          or_else (find_map_offer mimes MIME_PRIORITY_ORDER)
            (or_else (find (\<lambda>m. starts_with_ignore_ascii_case m ''image/'') mimes)
               (or_else (find (\<lambda>m. starts_with_ignore_ascii_case m ''text/'' \<and> (\<not> drop_rtf \<or> \<not> is_rtf_mime m)) mimes)
                  (find (\<lambda>m. \<not> drop_rtf \<or> \<not> is_rtf_mime m) mimes))))"

section \<open>Draining the pipe\<close>

text \<open>\<^verbatim>\<open>(&mut reader).take(n).read_to_end(..)\<close>: the bytes, and what is left in the pipe.\<close>

fun take_read_rest :: "nat \<Rightarrow> reader \<Rightarrow> (io_error + bytes) \<times> reader" where
  "take_read_rest n [] = (Inr [], [])"
| "take_read_rest n (ev # evs) =
     (if n = 0 then (Inr [], ev # evs)
      else (case ev of
              RdIntr \<Rightarrow> take_read_rest n evs
            | RdErr e \<Rightarrow> (Inl e, evs)
            | RdData d \<Rightarrow>
                if d = [] then (Inr [], [])
                else if n \<le> length d then (Inr (take n d), if n = length d then evs else RdData (drop n d) # evs)
                else (case take_read_rest (n - length d) evs of
                        (Inl e, rest) \<Rightarrow> (Inl e, rest)
                      | (Inr behind, rest) \<Rightarrow> (Inr (d @ behind), rest))))"

datatype spool_outcome = SpoolDone spooled_file | SpoolRejected | SpoolUnavailable reader

type_synonym spool_fun = "bytes \<Rightarrow> reader \<Rightarrow> nat \<Rightarrow> fsys \<Rightarrow> spool_outcome \<times> fsys"

datatype drained = DrMemory bytes | DrSpooled spooled_file bytes

definition ok_drained :: "payload_error + bytes \<Rightarrow> drained option" where
  "ok_drained r = map_option DrMemory (ok_opt r)"

definition read_pipe_payload :: "reader \<Rightarrow> string \<Rightarrow> nat \<Rightarrow> bytes option" where
  "read_pipe_payload r mime limit = ok_opt (read_bounded r limit)"

definition drain_pipe ::
    "reader \<Rightarrow> string \<Rightarrow> nat \<Rightarrow> spool_fun option \<Rightarrow> fsys \<Rightarrow> drained option \<times> fsys" where
  "drain_pipe r mime limit spooler fs =
     (case (if route_payload mime None = RouteStream then spooler else None) of
        None \<Rightarrow> (map_option DrMemory (read_pipe_payload r mime limit), fs)
      | Some spool \<Rightarrow>
          (case take_read_rest INLINE_PAYLOAD_THRESHOLD_BYTES r of
             (Inl _, rest) \<Rightarrow> (None, fs)
           | (Inr head, rest) \<Rightarrow>
               if length head < INLINE_PAYLOAD_THRESHOLD_BYTES
               then (if head = [] then None else Some (DrMemory head), fs)
               else (case spool head rest limit fs of
                       (SpoolDone file, fs') \<Rightarrow> (Some (DrSpooled file head), fs')
                     | (SpoolRejected, fs') \<Rightarrow> (None, fs')
                     | (SpoolUnavailable refs', fs') \<Rightarrow>
                         (ok_drained (read_bounded (RdData head # refs') limit), fs'))))"

definition relabel_by_magic :: "string \<Rightarrow> bytes \<Rightarrow> string" where
  "relabel_by_magic announced head =
     (case detect_image_mime head of Some detected \<Rightarrow> detected | None \<Rightarrow> announced)"

definition normalise_payload :: "(bytes \<Rightarrow> bytes) \<Rightarrow> string \<Rightarrow> bytes \<Rightarrow> (string \<times> bytes) option" where
  "normalise_payload percent_decode mime_to_get data =
     (if mime_base_eq mime_to_get MIME_URI_LIST then
        (let normalised = normalize_uri_list percent_decode data
         in if normalised = [] then None else Some (mime_to_get, normalised))
      else (case detect_image_mime data of
              Some m \<Rightarrow> Some (m, data)
            | None \<Rightarrow> Some (mime_to_get, data)))"

text \<open>The job an ingestion thread offers to the queue, if any.\<close>

definition ingest_job ::
    "(bytes \<Rightarrow> bytes) \<Rightarrow> reader \<Rightarrow> string \<Rightarrow> spool_fun option \<Rightarrow> fsys \<Rightarrow> clipboard_job option \<times> fsys" where
  "ingest_job percent_decode r mime_to_get spooler fs =
     (case drain_pipe r mime_to_get MAX_PAYLOAD_BYTES spooler fs of
        (None, fs') \<Rightarrow> (None, fs')
      | (Some (DrMemory data), fs') \<Rightarrow>
          (map_option (\<lambda>(mime, d). job_new mime d) (normalise_payload percent_decode mime_to_get data), fs')
      | (Some (DrSpooled file head), fs') \<Rightarrow>
          (Some (from_payload (relabel_by_magic mime_to_get head) (Spooled file)), fs'))"

text \<open>The whole thread: \<open>permit\<close> is its place in the reader gate, given back when it ends.\<close>

definition ingest_and_send ::
    "(bytes \<Rightarrow> bytes) \<Rightarrow> (nat \<Rightarrow> qevent list) \<Rightarrow> (nat \<Rightarrow> nat) \<Rightarrow> reader \<Rightarrow> string \<Rightarrow> nat \<Rightarrow> spool_fun option \<Rightarrow>
     bool \<Rightarrow> reader_gate \<Rightarrow> ingest_stats \<Rightarrow> queue_world \<Rightarrow> reader_gate \<times> ingest_stats \<times> queue_world" where
  "ingest_and_send percent_decode events drift r mime_to_get wait spooler permit gate stats w =
     (let gate' = (if permit then gate_release gate else gate)
      in case ingest_job percent_decode r mime_to_get spooler (qw_fs w) of
           (None, fs) \<Rightarrow> (gate', stats, w\<lparr> qw_fs := fs \<rparr>)
         | (Some job, fs) \<Rightarrow>
             (case enqueue_bounded events drift wait job (w\<lparr> qw_fs := fs \<rparr>) of
                (Shed, w') \<Rightarrow> (gate', snd (record_shed_queue stats), w')
              | (_, w') \<Rightarrow> (gate', stats, w')))"


section \<open>The selection event\<close>

record source_metadata =
  sm_mime :: string
  sm_payload :: payload

text \<open>
  A bound protocol object is represented by whether it is there; the published data source by what it
  serves.
\<close>

record wayland_state =
  ws_manager :: bool
  ws_manager_id :: "nat option"
  ws_seat :: bool
  ws_seat_id :: "nat option"
  ws_device :: bool
  ws_selection_received :: bool
  ws_provider_locks :: nat
  ws_current_source :: "source_metadata option"
  ws_paused :: bool
  ws_daemon :: bool
  ws_gate :: reader_gate
  ws_stats :: ingest_stats
  ws_target_mime :: "string option"
  ws_rx_buf :: bytes
  ws_config :: config

definition new_daemon :: "config \<Rightarrow> wayland_state" where
  "new_daemon cfg =
     \<lparr> ws_manager = False, ws_manager_id = None, ws_seat = False, ws_seat_id = None, ws_device = False,
       ws_selection_received = False, ws_provider_locks = 0, ws_current_source = None, ws_paused = False, ws_daemon = True,
       ws_gate = gate_new INGEST_MAX_CONCURRENT_READERS,
       ws_stats = \<lparr> shed_readers = 0, shed_queue = 0 \<rparr>, ws_target_mime = None, ws_rx_buf = [], ws_config = cfg \<rparr>"

definition new_action :: "string \<Rightarrow> config \<Rightarrow> wayland_state" where
  "new_action target_mime cfg =
     (new_daemon cfg)\<lparr> ws_daemon := False, ws_target_mime := Some target_mime \<rparr>"

definition shed_unallocatable_pipe :: "wayland_state \<Rightarrow> wayland_state" where
  "shed_unallocatable_pipe st = st\<lparr> ws_stats := snd (record_shed_reader (ws_stats st)) \<rparr>"

text \<open>
  The handler. \<open>offered\<close> is the offer's list of types, \<open>None\<close> when the selection was cleared; \<open>pipe_ok\<close> and
  \<open>thread_ok\<close> say whether a pipe and a thread could be had; \<open>answer\<close> is what the pipe delivers. The second
  result is the type a reader thread was started for, which holds a place in the gate; in Action Mode
  the payload is read at once.
\<close>

definition on_selection ::
    "(bytes \<Rightarrow> bytes) \<Rightarrow> bool \<Rightarrow> bool \<Rightarrow> (string \<Rightarrow> reader) \<Rightarrow> string list option \<Rightarrow> wayland_state \<Rightarrow>
     wayland_state \<times> string option" where
  "on_selection percent_decode pipe_ok thread_ok answer offered st0 =
     (let st = st0\<lparr> ws_selection_received := True \<rparr>
      in if 0 < ws_provider_locks st then (st\<lparr> ws_provider_locks := ws_provider_locks st - 1 \<rparr>, None)
         else if ws_paused st then (st, None)
         else
           (case offered of
              None \<Rightarrow> (st, None)
            | Some mimes \<Rightarrow>
                if mimes = [] \<or> is_sensitive mimes then (st, None)
                else
                  (case select_mime mimes (ws_target_mime st) (should_drop_rtf (ws_config st)) of
                     None \<Rightarrow> (st, None)
                   | Some mime_to_get \<Rightarrow>
                       if ws_daemon st then
                         (case gate_try_acquire (ws_gate st) of
                            None \<Rightarrow> (st\<lparr> ws_stats := snd (record_shed_reader (ws_stats st)) \<rparr>, None)
                          | Some gate \<Rightarrow>
                              if \<not> pipe_ok then (shed_unallocatable_pipe (st\<lparr> ws_gate := gate_release gate \<rparr>), None)
                              else if thread_ok then (st\<lparr> ws_gate := gate \<rparr>, Some mime_to_get)
                              else (st\<lparr> ws_gate := gate_release gate,
                                        ws_stats := snd (record_shed_reader (ws_stats st)) \<rparr>, None))
                       else if \<not> pipe_ok then (shed_unallocatable_pipe st, None)
                       else
                         (case Option.bind (read_pipe_payload (answer mime_to_get) mime_to_get MAX_PAYLOAD_BYTES)
                                 (normalise_payload percent_decode mime_to_get) of
                            Some (_, d) \<Rightarrow> (st\<lparr> ws_rx_buf := d \<rparr>, None)
                          | None \<Rightarrow> (st, None)))))"

section \<open>Compatibility is symmetric, RTF stays out\<close>

lemma mime_is_compatible_sym: "mime_is_compatible a b = mime_is_compatible b a"
  using eq_ignore_ascii_case_sym [of "mime_base a" "mime_base b"]
  by (auto simp: mime_is_compatible_def Let_def)


lemma rtf_cong: "mime_base_eq a b \<Longrightarrow> is_rtf_mime a = is_rtf_mime b"
  by (simp add: is_rtf_mime_def mime_base_eq_def eq_ignore_ascii_case_def Let_def)

lemma priority_not_rtf: "list_all (\<lambda>p. \<not> is_rtf_mime p) MIME_PRIORITY_ORDER"
  by code_simp

lemma find_map_offer_Some:
  "find_map_offer mimes ps = Some m \<Longrightarrow> m \<in> set mimes \<and> (\<exists>p \<in> set ps. mime_base_eq m p)"
  by (induction ps) (auto split: option.splits dest: find_in_set find_satisfies)

lemma trim_hd:
  assumes "trim s \<noteq> []" and "byte_val (hd s) < 128" and "\<not> ws1 (hd s)"
  shows "hd (trim s) = hd s"
proof -
  have "s \<noteq> []" using assms(1) by auto
  then have "trim s = rev (trim_end_rev (rev s))" using trim_start_id assms by (simp add: trim_def)
  moreover obtain t where "rev s = t @ trim_end_rev (rev s)"
    using trim_end_rev_suffix [of "rev s"] by (auto simp: suffix_def)
  ultimately have "s = trim s @ rev t" by (metis rev_append rev_rev_ident)
  then show ?thesis using assms(1) by (metis hd_append2)
qed

lemma image_prefix_not_rtf:
  assumes "starts_with_ignore_ascii_case m ''image/''"
  shows "\<not> is_rtf_mime m"
proof
  assume rtf: "is_rtf_mime m"
  have lower: "to_ascii_lowercase ''image/'' = ''image/''" "to_ascii_lowercase ''text/rtf'' = ''text/rtf''"
    "to_ascii_lowercase ''application/rtf'' = ''application/rtf''" by code_simp+
  have "length ''image/'' = 6" by simp
  with assms have "eq_ignore_ascii_case (take 6 m) ''image/''" and len: "6 \<le> length m"
    by (simp_all only: starts_with_ignore_ascii_case_def str_get_to_def split: option.splits if_splits) auto
  then have low: "to_ascii_lowercase (take 6 m) = ''image/''"
    by (simp only: eq_ignore_ascii_case_def lower)
  from len obtain c rest where m: "m = c # rest" by (cases m) auto
  have c: "to_ascii_lower c = CHR ''i''" using low m by (simp add: to_ascii_lowercase_def take_Cons')
  then have "byte_val (to_ascii_lower c) = 105" by (simp add: byte_val_def)
  then have "byte_val c = 73 \<or> byte_val c = 105"
    by (auto simp: to_ascii_lower_def split: if_splits)
  then have first: "byte_val c < 128" "\<not> ws1 c" "c \<noteq> CHR '';''"
    by (auto simp: ws1_def byte_val_def)
  have base: "mime_base m = trim (c # takeWhile (\<lambda>x. x \<noteq> CHR '';'') rest)"
    unfolding m mime_base_def hd_split_on using first(3) by simp
  from rtf have "to_ascii_lowercase (mime_base m) \<in> {''text/rtf'', ''application/rtf''}"
    by (simp only: is_rtf_mime_def Let_def eq_ignore_ascii_case_def lower) simp
  then have "mime_base m \<noteq> []" "hd (to_ascii_lowercase (mime_base m)) \<noteq> CHR ''i''"
    by (auto simp: to_ascii_lowercase_def)
  then show False
    using trim_hd [of "c # takeWhile (\<lambda>x. x \<noteq> CHR '';'') rest"] first base c
    by (simp add: to_ascii_lowercase_def hd_map)
qed

lemma select_mime_member: "select_mime mimes target drop_rtf = Some m \<Longrightarrow> m \<in> set mimes"
  by (auto simp: select_mime_def or_else_def split: option.splits dest: find_in_set find_map_offer_Some)

lemma select_mime_no_rtf:
  assumes "select_mime mimes None True = Some m"
  shows "\<not> is_rtf_mime m"
  using assms priority_not_rtf rtf_cong image_prefix_not_rtf
  by (auto simp: select_mime_def or_else_def list_all_iff split: option.splits
      dest!: find_map_offer_Some find_satisfies)


section \<open>The pipe is drained completely\<close>

lemma take_read_rest_ok:
  "take_read_rest n r = (Inr d, rest) \<Longrightarrow> length d \<le> n \<and>
     (length d < n \<longrightarrow> d = stream_bytes r \<and> stream_error r = None) \<and>
     (length d = n \<longrightarrow> stream_bytes r = d @ stream_bytes rest \<and> stream_error r = stream_error rest)"
proof (induction n r arbitrary: d rule: take_read_rest.induct)
  case (2 n ev evs)
  show ?case
  proof (cases "n = 0")
    case False
    show ?thesis
    proof (cases ev)
      case (RdData c)
      show ?thesis
      proof (cases "c = [] \<or> n \<le> length c")
        case True
        with 2(3) RdData False show ?thesis by (auto split: if_splits)
      next
        case go: False
        then obtain d' where d': "take_read_rest (n - length c) evs = (Inr d', rest)" "d = c @ d'"
          using 2(3) RdData False by (auto split: prod.splits sum.splits)
        from 2(1) [OF False RdData _ _ d'(1)] go d'(2) RdData show ?thesis by auto
      qed
    qed (use 2 False in auto)
  qed (use 2(3) in auto)
qed simp

lemma read_whole:
  assumes "limit < u64_max" and "read_bounded r limit = Inr d"
  shows "d = stream_bytes r \<and> stream_error r = None \<and> d \<noteq> [] \<and> length d \<le> limit"
  using assms by (auto simp: read_bounded_spec split: if_splits option.splits)

text \<open>A spool file that holds exactly \<open>d\<close>, new in \<open>fs'\<close>.\<close>

definition spooled_as :: "(bytes \<Rightarrow> bytes) \<Rightarrow> spooled_file \<Rightarrow> bytes \<Rightarrow> fsys \<Rightarrow> fsys \<Rightarrow> bool" where
  "spooled_as digest sp d fs fs' \<longleftrightarrow>
     sp_owned sp \<and> sp_len sp = length d \<and> sp_digest sp = digest d \<and> fs_files fs (sp_path sp) = None \<and>
     fs_files fs' = (fs_files fs)(sp_path sp \<mapsto> d)"

locale payload_spooler =
  fixes spool :: spool_fun and digest :: "bytes \<Rightarrow> bytes"
  assumes spooled_whole: "limit < u64_max \<Longrightarrow> spool head src limit fs = (SpoolDone sp, fs') \<Longrightarrow>
      spooled_as digest sp (head @ stream_bytes src) fs fs' \<and> stream_error src = None \<and>
      length (head @ stream_bytes src) \<le> limit"
    and rejected_clean: "spool head src limit fs = (SpoolRejected, fs') \<Longrightarrow> fs_files fs' = fs_files fs"
    and unavailable_untouched: "spool head src limit fs = (SpoolUnavailable src', fs') \<Longrightarrow>
      src' = src \<and> fs_files fs' = fs_files fs"
begin

text \<open>Whatever road the drain takes, what it hands over is the whole stream.\<close>

lemma drain_complete:
  assumes lim: "limit < u64_max" and run: "drain_pipe r mime limit (Some spool) fs = (res, fs')"
    and thr: "INLINE_PAYLOAD_THRESHOLD_BYTES \<le> limit"
  shows "case res of
      None \<Rightarrow> fs_files fs' = fs_files fs
    | Some (DrMemory d) \<Rightarrow> d = stream_bytes r \<and> stream_error r = None \<and> d \<noteq> [] \<and> length d \<le> limit \<and>
        fs_files fs' = fs_files fs
    | Some (DrSpooled sp head) \<Rightarrow> spooled_as digest sp (stream_bytes r) fs fs' \<and> stream_error r = None \<and>
        length (stream_bytes r) \<le> limit \<and> stream_bytes r \<noteq> [] \<and>
        head = take INLINE_PAYLOAD_THRESHOLD_BYTES (stream_bytes r) \<and> \<not> is_text_like_mime mime"
proof (cases "route_payload mime None = RouteStream")
  case False
  then show ?thesis
    using run read_whole [OF lim, of r]
    by (cases "read_bounded r limit") (auto simp: drain_pipe_def read_pipe_payload_def)
next
  case True
  have nontext: "\<not> is_text_like_mime mime" using True by (simp add: route_payload_def split: if_splits)
  obtain h rest where tr: "take_read_rest INLINE_PAYLOAD_THRESHOLD_BYTES r = (h, rest)" by fastforce
  show ?thesis
  proof (cases h)
    case (Inl e)
    with run True tr show ?thesis by (auto simp: drain_pipe_def)
  next
    case (Inr head)
    note ok = take_read_rest_ok [OF tr [unfolded Inr]]
    show ?thesis
    proof (cases "length head < INLINE_PAYLOAD_THRESHOLD_BYTES")
      case short: True
      with run True tr Inr ok thr show ?thesis by (auto simp: drain_pipe_def)
    next
      case False
      then have full: "length head = INLINE_PAYLOAD_THRESHOLD_BYTES" "head \<noteq> []"
        using ok by (auto simp: const_defs)
      obtain o1 fs1 where sp: "spool head rest limit fs = (o1, fs1)" by fastforce
      have whole: "stream_bytes r = head @ stream_bytes rest" "stream_error r = stream_error rest"
        using ok full by simp_all
      show ?thesis
      proof (cases o1)
        case (SpoolDone f)
        with spooled_whole [OF lim sp [unfolded SpoolDone]] run True tr Inr False sp whole full nontext
        show ?thesis by (auto simp: drain_pipe_def)
      next
        case SpoolRejected
        with rejected_clean [OF sp [unfolded SpoolRejected]] run True tr Inr False sp show ?thesis
          by (auto simp: drain_pipe_def)
      next
        case (SpoolUnavailable rest')
        with unavailable_untouched [OF sp [unfolded SpoolUnavailable]] run True tr Inr False sp whole full
          read_whole [OF lim, of "RdData head # rest"]
        show ?thesis
          by (cases "read_bounded (RdData head # rest) limit") (auto simp: drain_pipe_def ok_drained_def)
      qed
    qed
  qed
qed


text \<open>What a job of the ingestion thread holds, given what the application sent.\<close>

lemma ingest_faithful:
  assumes "ingest_job pd r mime (Some spool) fs = (Some job, fs')"
  defines "raw \<equiv> stream_bytes r"
  shows "raw \<noteq> [] \<and> length raw \<le> MAX_PAYLOAD_BYTES \<and> stream_error r = None \<and> job_permit job = None \<and>
    (case job_payload job of
       Memory d \<Rightarrow> fs_files fs' = fs_files fs \<and>
         (if mime_base_eq mime MIME_URI_LIST
          then d = normalize_uri_list pd raw \<and> d \<noteq> [] \<and> job_mime job = mime
          else d = raw \<and> job_mime job = relabel_by_magic mime raw)
     | Spooled sp \<Rightarrow> spooled_as digest sp raw fs fs' \<and> \<not> is_text_like_mime mime \<and>
         job_mime job = relabel_by_magic mime (take INLINE_PAYLOAD_THRESHOLD_BYTES raw)
     | _ \<Rightarrow> False)"
proof -
  have lim: "MAX_PAYLOAD_BYTES < u64_max" "INLINE_PAYLOAD_THRESHOLD_BYTES \<le> MAX_PAYLOAD_BYTES"
    by (simp_all add: const_defs u64_max_def)
  obtain res fs1 where d: "drain_pipe r mime MAX_PAYLOAD_BYTES (Some spool) fs = (res, fs1)" by fastforce
  note complete = drain_complete [OF lim(1) d lim(2)]
  show ?thesis
  proof (cases res)
    case None
    with d assms(1) show ?thesis by (simp add: ingest_job_def)
  next
    case (Some dr)
    show ?thesis
    proof (cases dr)
      case (DrMemory x)
      with Some d assms(1) complete show ?thesis
        by (auto simp: ingest_job_def raw_def normalise_payload_def relabel_by_magic_def job_new_def Let_def
            split: if_splits option.splits)
    next
      case (DrSpooled sp head)
      with Some d assms(1) complete show ?thesis
        by (auto simp: ingest_job_def raw_def from_payload_def)
    qed
  qed
qed

lemma ingest_nothing:
  assumes "ingest_job pd r mime (Some spool) fs = (None, fs')"
  shows "fs_files fs' = fs_files fs"
proof -
  have lim: "MAX_PAYLOAD_BYTES < u64_max" "INLINE_PAYLOAD_THRESHOLD_BYTES \<le> MAX_PAYLOAD_BYTES"
    by (simp_all add: const_defs u64_max_def)
  obtain res fs1 where d: "drain_pipe r mime MAX_PAYLOAD_BYTES (Some spool) fs = (res, fs1)" by fastforce
  show ?thesis
    using drain_complete [OF lim(1) d lim(2)] d assms
    by (auto simp: ingest_job_def split: option.splits drained.splits)
qed

end

section \<open>Which selections are read at all\<close>

lemma gate_try_acquire_Some: "gate_try_acquire g = Some g' \<longleftrightarrow> gate_active g < gate_limit g \<and> g' = g\<lparr> gate_active := gate_active g + 1 \<rparr>"
  by (auto simp: gate_try_acquire_def)

lemma gate_back: "gate_try_acquire g = Some g' \<Longrightarrow> gate_release g' = g"
  by (auto simp: gate_try_acquire_Some gate_release_def fetch_sub_def)

text \<open>C23: Nothing is read of a selection the daemon itself announced, of any selection while it is paused, and of any
  offer that carries a password-manager hint in whatever letter case; a started reader asks for a type
  that was offered, never RTF when RTF is dropped, and holds one place of a gate that is not exceeded;
  on every other path the gate is as it was.\<close>

theorem selection_gatekeeping:
  assumes "on_selection pd pipe_ok thread_ok answer offered st = (st', req)"
  shows "(0 < ws_provider_locks st \<longrightarrow> st' = st\<lparr> ws_selection_received := True, ws_provider_locks := ws_provider_locks st - 1 \<rparr>) \<and>
    (0 < ws_provider_locks st \<or> ws_paused st \<or> (\<exists>mimes. offered = Some mimes \<and> is_sensitive mimes) \<longrightarrow>
       req = None \<and> ws_rx_buf st' = ws_rx_buf st \<and> ws_stats st' = ws_stats st) \<and>
    (case req of
       None \<Rightarrow> ws_gate st' = ws_gate st
     | Some m \<Rightarrow> ws_daemon st \<and> (\<exists>mimes. offered = Some mimes \<and> m \<in> set mimes \<and> \<not> is_sensitive mimes) \<and>
         gate_active (ws_gate st') = gate_active (ws_gate st) + 1 \<and>
         gate_active (ws_gate st') \<le> gate_limit (ws_gate st) \<and>
         (ws_target_mime st = None \<and> should_drop_rtf (ws_config st) \<longrightarrow> \<not> is_rtf_mime m))"
proof -
  have "st' = st\<lparr> ws_selection_received := True, ws_provider_locks := ws_provider_locks st - 1 \<rparr>"
    if "0 < ws_provider_locks st"
    using assms that by (simp add: on_selection_def Let_def)
  moreover have "req = None \<and> ws_rx_buf st' = ws_rx_buf st \<and> ws_stats st' = ws_stats st"
    if "0 < ws_provider_locks st \<or> ws_paused st \<or> (\<exists>mimes. offered = Some mimes \<and> is_sensitive mimes)"
    using assms that by (auto simp: on_selection_def Let_def split: if_splits)
  moreover have "ws_gate st' = ws_gate st" if "req = None"
    using assms that
    by (auto simp: on_selection_def Let_def shed_unallocatable_pipe_def split: if_splits option.splits dest: gate_back)
  moreover have "ws_daemon st \<and> (\<exists>mimes. offered = Some mimes \<and> m \<in> set mimes \<and> \<not> is_sensitive mimes) \<and>
         gate_active (ws_gate st') = gate_active (ws_gate st) + 1 \<and>
         gate_active (ws_gate st') \<le> gate_limit (ws_gate st) \<and>
         (ws_target_mime st = None \<and> should_drop_rtf (ws_config st) \<longrightarrow> \<not> is_rtf_mime m)" if "req = Some m" for m
    using assms that
    by (auto simp: on_selection_def Let_def gate_try_acquire_Some split: if_splits option.splits
        dest: select_mime_member select_mime_no_rtf)
  ultimately show ?thesis by (auto split: option.splits)
qed

theorem selection_witness:
  "snd (on_selection (\<lambda>d. d) True True (\<lambda>_. []) (Some [''text/plain'', ''X-KDE-PASSWORDMANAGERHINT'']) (new_daemon default_config)) = None"
proof -
  let ?ms = "[''text/plain'', ''X-KDE-PASSWORDMANAGERHINT'']"
  obtain st' req where run: "on_selection (\<lambda>d. d) True True (\<lambda>_. []) (Some ?ms) (new_daemon default_config) = (st', req)"
    by fastforce
  have "is_sensitive ?ms" by code_simp
  with selection_gatekeeping [OF run] run show ?thesis by auto
qed

end
