(* ===== verification/Pipeline.thy ===== *)
theory Pipeline
  imports Splice
begin

text \<open>
  \<^verbatim>\<open>crates/image/src/pipeline.rs\<close>: an external program run as a filter. The program itself is outside
  the repository, so it is an argument: \<open>exec\<close> answers a command with a \<open>child\<close>, which says what the
  child accepts on its standard input, emits on its two outputs, how it exits and whether it outlives
  its deadline. The feeder, the drainer and the relay each own one pipe end, so their results are
  functions of the child alone and the theory composes them the way \<^verbatim>\<open>run_filter_inner\<close> joins them;
  the one place where threads share state, the watchdog, has its own theory.
\<close>

section \<open>Errors and the environment of the child\<close>

datatype pipeline_error =
    ESpawn io_error
  | ESource io_error
  | ESink io_error
  | EChild io_error
  | EFailed "int option" string
  | ETimeout nat
  | EIsolation io_error

definition is_unavailable :: "pipeline_error \<Rightarrow> bool" where
  "is_unavailable e \<longleftrightarrow> (case e of ESpawn _ \<Rightarrow> True | _ \<Rightarrow> False)"

type_synonym environment = "string \<rightharpoonup> string"

record child_env =
  env_vars :: "(string \<times> string) list"

definition env_new :: child_env where
  "env_new = \<lparr> env_vars = [] \<rparr>"

definition env_set :: "string \<Rightarrow> string \<Rightarrow> child_env \<Rightarrow> child_env" where
  "env_set key val env =
     env\<lparr> env_vars := filter (\<lambda>(existing, _). existing \<noteq> key) (env_vars env) @ [(key, val)] \<rparr>"

text \<open>\<^verbatim>\<open>env_clear\<close> discards what was inherited; \<^verbatim>\<open>envs\<close> then sets the listed pairs in order.\<close>

definition env_apply :: "child_env \<Rightarrow> environment \<Rightarrow> environment" where
  "env_apply env inherited = fold (\<lambda>(k, v) m. m(k \<mapsto> v)) (env_vars env) Map.empty"

record transfer_counts =
  bytes_in :: nat
  bytes_out :: nat

section \<open>The three pipe workers\<close>

text \<open>One \<^verbatim>\<open>read\<close> into a buffer of \<open>cap\<close> bytes: what does not fit stays in the reader.\<close>

datatype rd_result = GotBytes bytes | GotIntr | GotErr io_error

fun read_some :: "nat \<Rightarrow> reader \<Rightarrow> rd_result \<times> reader" where
  "read_some cap [] = (GotBytes [], [])"
| "read_some cap (RdIntr # evs) = (GotIntr, evs)"
| "read_some cap (RdErr e # evs) = (GotErr e, evs)"
| "read_some cap (RdData d # evs) =
     (GotBytes (take cap d), if length d \<le> cap then evs else RdData (drop cap d) # evs)"

fun reader_size :: "reader \<Rightarrow> nat" where
  "reader_size [] = 0"
| "reader_size (RdData d # evs) = Suc (length d + reader_size evs)"
| "reader_size (ev # evs) = Suc (reader_size evs)"

text \<open>One \<^verbatim>\<open>write_all\<close>: it takes everything, or a prefix and then fails.\<close>

datatype wr_answer = WrAll | WrErr nat io_error

definition wr_failure :: "wr_answer list \<Rightarrow> (nat \<times> io_error) option" where [std_defs]:
  "wr_failure answers = (case answers of WrErr k e # _ \<Rightarrow> Some (k, e) | _ \<Rightarrow> None)"

datatype feed_failure = FeedSource io_error | FeedChild io_error

datatype relay_failure = RelaySink io_error | RelayChild io_error

lemma read_some_smaller:
  "read_some cap evs = (r, evs') \<Longrightarrow> 0 < cap \<Longrightarrow> r \<noteq> GotBytes [] \<Longrightarrow> reader_size evs' < reader_size evs"
  by (induction cap evs rule: read_some.induct) (auto split: if_splits)

lemma chunk_pos [simp]: "0 < PIPELINE_CHUNK_BYTES"
  by (simp add: const_defs)

function feed :: "reader \<Rightarrow> wr_answer list \<Rightarrow> bytes \<Rightarrow> nat \<Rightarrow> (feed_failure + nat) \<times> bytes" where
  "feed src answers accepted fed =
     (case read_some PIPELINE_CHUNK_BYTES src of
        (GotIntr, src') \<Rightarrow> feed src' answers accepted fed
      | (GotErr e, src') \<Rightarrow> (Inl (FeedSource e), accepted)
      | (GotBytes chunk, src') \<Rightarrow>
          if chunk = [] then (Inr fed, accepted)
          else (case wr_failure answers of
                  Some (k, e) \<Rightarrow>
                    (if e = BrokenPipe then Inr fed else Inl (FeedChild e), accepted @ take k chunk)
                | None \<Rightarrow> feed src' (tl answers) (accepted @ chunk) (fed + length chunk)))"
  by pat_completeness auto
termination
  by (relation "measure (\<lambda>(src, answers, accepted, fed). reader_size src)")
    (auto dest!: read_some_smaller [OF sym])

declare feed.simps [simp del]

text \<open>\<open>flush\<close> is the answer of the final \<^verbatim>\<open>flush\<close> of the sink.\<close>

function relay_loop :: "reader \<Rightarrow> wr_answer list \<Rightarrow> bytes \<Rightarrow> nat \<Rightarrow> (relay_failure + nat) \<times> bytes" where
  "relay_loop src answers sink relayed =
     (case read_some PIPELINE_CHUNK_BYTES src of
        (GotIntr, src') \<Rightarrow> relay_loop src' answers sink relayed
      | (GotErr e, src') \<Rightarrow> (Inl (RelayChild e), sink)
      | (GotBytes chunk, src') \<Rightarrow>
          if chunk = [] then (Inr relayed, sink)
          else (case wr_failure answers of
                  Some (k, e) \<Rightarrow> (Inl (RelaySink e), sink @ take k chunk)
                | None \<Rightarrow> relay_loop src' (tl answers) (sink @ chunk) (relayed + length chunk)))"
  by pat_completeness auto
termination
  by (relation "measure (\<lambda>(src, answers, sink, relayed). reader_size src)")
    (auto dest!: read_some_smaller [OF sym])

declare relay_loop.simps [simp del]

definition relay :: "wr_answer list \<Rightarrow> io_error option \<Rightarrow> bytes \<Rightarrow> reader \<Rightarrow> (relay_failure + nat) \<times> bytes" where
  "relay answers flush sink src =
     (case relay_loop src answers sink 0 of
        (Inl e, sink') \<Rightarrow> (Inl e, sink')
      | (Inr n, sink') \<Rightarrow> (case flush of None \<Rightarrow> Inr n | Some e \<Rightarrow> Inl (RelaySink e), sink'))"

function drain_capped_from :: "reader \<Rightarrow> nat \<Rightarrow> bytes \<Rightarrow> bytes" where
  "drain_capped_from src cap kept =
     (case read_some 4096 src of
        (GotIntr, src') \<Rightarrow> drain_capped_from src' cap kept
      | (GotErr e, src') \<Rightarrow> kept
      | (GotBytes chunk, src') \<Rightarrow>
          if chunk = [] then kept
          else drain_capped_from src' cap (kept @ take (min (length chunk) (cap - length kept)) chunk))"
  by pat_completeness auto
termination
  by (relation "measure (\<lambda>(src, cap, kept). reader_size src)") (auto dest!: read_some_smaller [OF sym])

declare drain_capped_from.simps [simp del]

definition drain_capped :: "reader \<Rightarrow> nat \<Rightarrow> bytes" where
  "drain_capped src cap = drain_capped_from src cap []"


lemma read_some_stream:
  assumes "read_some cap src = (r, src')" and "0 < cap"
  shows "r = GotIntr \<Longrightarrow> stream_bytes src = stream_bytes src' \<and> stream_error src = stream_error src'"
    and "r = GotErr e \<Longrightarrow> stream_bytes src = [] \<and> stream_error src = Some e"
    and "r = GotBytes [] \<Longrightarrow> stream_bytes src = [] \<and> stream_error src = None"
    and "r = GotBytes c \<Longrightarrow> c \<noteq> [] \<Longrightarrow>
           stream_bytes src = c @ stream_bytes src' \<and> stream_error src = stream_error src' \<and> length c \<le> cap"
  using assms by (induction cap src rule: read_some.induct) (auto split: if_splits)

lemma list_all_tl: "list_all P xs \<Longrightarrow> list_all P (tl xs)"
  by (cases xs) auto

text \<open>One round of a loop that reads a chunk and writes it: what it means for the stream and for the answers to the writes.\<close>

lemma read_write_cases [consumes 1]:
  assumes "read_some PIPELINE_CHUNK_BYTES src = (g, src')"
  obtains (Intr) "g = GotIntr" "stream_bytes src = stream_bytes src'" "stream_error src = stream_error src'"
  | (Err) e where "g = GotErr e" "stream_bytes src = []" "stream_error src = Some e"
  | (End) "g = GotBytes []" "stream_bytes src = []" "stream_error src = None"
  | (Short) c k e where "g = GotBytes c" "c \<noteq> []" "wr_failure answers = Some (k, e)" "\<not> list_all (\<lambda>a. a = WrAll) answers"
      "prefix (take k c) (stream_bytes src)"
  | (Whole) c where "g = GotBytes c" "c \<noteq> []" "wr_failure answers = None" "stream_bytes src = c @ stream_bytes src'"
      "stream_error src = stream_error src'" "list_all (\<lambda>a. a = WrAll) answers \<Longrightarrow> list_all (\<lambda>a. a = WrAll) (tl answers)"
proof -
  note st = read_some_stream [OF assms chunk_pos]
  consider "g = GotIntr" | e where "g = GotErr e" | "g = GotBytes []" | c where "g = GotBytes c" "c \<noteq> []" by (cases g) auto
  then show ?thesis
  proof cases
    case (4 c)
    show ?thesis
    proof (cases "wr_failure answers")
      case None
      with 4 st(4) [OF 4] list_all_tl Whole show ?thesis by blast
    next
      case (Some ke)
      then obtain k e rest where "answers = WrErr k e # rest" by (auto simp: wr_failure_def split: list.splits wr_answer.splits)
      with 4 st(4) [OF 4] Short show ?thesis by (simp add: wr_failure_def take_is_prefix prefix_prefix)
    qed
  qed (use st Intr Err End in auto)
qed

lemma feed_outcome:
  "feed src answers accepted fed = (r, accepted') \<Longrightarrow>
    (\<exists>p. accepted' = accepted @ p \<and> prefix p (stream_bytes src) \<and>
      (\<forall>n. r = Inr n \<longrightarrow> fed \<le> n \<and> n - fed \<le> length p) \<and>
      (list_all (\<lambda>a. a = WrAll) answers \<longrightarrow> p = stream_bytes src \<and>
         r = (case stream_error src of None \<Rightarrow> Inr (fed + length p) | Some e \<Rightarrow> Inl (FeedSource e))))"
proof (induction src answers accepted fed rule: feed.induct)
  case (1 src answers accepted fed)
  obtain g src' where rd: "read_some PIPELINE_CHUNK_BYTES src = (g, src')" by fastforce
  note prems = 1(3) [unfolded feed.simps [of src] rd]
  from rd show ?case
  proof (cases rule: read_write_cases [where answers = answers])
    case Intr
    with 1(2) [OF rd [symmetric]] prems show ?thesis by simp
  next
    case (Short c k e)
    with prems show ?thesis by (intro exI [of _ "take k c"]) (auto split: if_splits)
  next
    case (Whole c)
    then have "feed src' (tl answers) (accepted @ c) (fed + length c) = (r, accepted')" using prems by simp
    from 1(1) [OF rd [symmetric] Whole(1-3) this]
    obtain p where p: "accepted' = (accepted @ c) @ p" "prefix p (stream_bytes src')"
      "\<forall>n. r = Inr n \<longrightarrow> fed + length c \<le> n \<and> n - (fed + length c) \<le> length p"
      "list_all (\<lambda>a. a = WrAll) (tl answers) \<longrightarrow> p = stream_bytes src' \<and>
         r = (case stream_error src' of None \<Rightarrow> Inr (fed + length c + length p) | Some e \<Rightarrow> Inl (FeedSource e))"
      by blast
    show ?thesis using p Whole(4-6) by (intro exI [of _ "c @ p"]) (auto split: option.splits)
  qed (use prems in auto)
qed

lemma relay_loop_outcome:
  "relay_loop src answers sink relayed = (r, sink') \<Longrightarrow>
    (\<exists>p. sink' = sink @ p \<and> prefix p (stream_bytes src) \<and>
      (case r of Inl _ \<Rightarrow> True | Inr n \<Rightarrow> n = relayed + length p \<and> p = stream_bytes src \<and> stream_error src = None) \<and>
      (list_all (\<lambda>a. a = WrAll) answers \<longrightarrow> stream_error src = None \<longrightarrow> \<not> isl r))"
proof (induction src answers sink relayed rule: relay_loop.induct)
  case (1 src answers sink relayed)
  obtain g src' where rd: "read_some PIPELINE_CHUNK_BYTES src = (g, src')" by fastforce
  note prems = 1(3) [unfolded relay_loop.simps [of src] rd]
  from rd show ?case
  proof (cases rule: read_write_cases [where answers = answers])
    case Intr
    with 1(2) [OF rd [symmetric]] prems show ?thesis by (auto cong: sum.case_cong)
  next
    case (Short c k e)
    with prems show ?thesis by (intro exI [of _ "take k c"]) auto
  next
    case (Whole c)
    then have "relay_loop src' (tl answers) (sink @ c) (relayed + length c) = (r, sink')" using prems by simp
    from 1(1) [OF rd [symmetric] Whole(1-3) this]
    obtain p where p: "sink' = (sink @ c) @ p" "prefix p (stream_bytes src')"
      "case r of Inl _ \<Rightarrow> True | Inr n \<Rightarrow> n = relayed + length c + length p \<and> p = stream_bytes src' \<and> stream_error src' = None"
      "list_all (\<lambda>a. a = WrAll) (tl answers) \<longrightarrow> stream_error src' = None \<longrightarrow> \<not> isl r"
      by (elim exE conjE) (rule that; assumption)
    show ?thesis using p Whole(4-6) by (intro exI [of _ "c @ p"]) (cases r; simp add: add.assoc)
  qed (use prems in auto)
qed

lemma drain_capped_from_eq:
  "length kept \<le> cap \<Longrightarrow> drain_capped_from src cap kept = kept @ take (cap - length kept) (stream_bytes src)"
proof (induction src cap kept rule: drain_capped_from.induct)
  case (1 src cap kept)
  obtain g src' where rd: "read_some 4096 src = (g, src')" by fastforce
  note st = read_some_stream [OF rd]
  show ?case
  proof (cases g)
    case GotIntr
    with 1(2) [OF rd [symmetric] GotIntr] 1(3) st(1) rd show ?thesis
      by (simp add: drain_capped_from.simps [of src])
  next
    case (GotErr e)
    with st(2) rd show ?thesis by (simp add: drain_capped_from.simps [of src])
  next
    case (GotBytes c)
    have "take (min (length c) (cap - length kept)) c = take (cap - length kept) c"
      "cap - (length kept + min (length c) (cap - length kept)) = cap - (length kept + length c)"
      by (auto simp: min_def)
    with GotBytes 1(1) [OF rd [symmetric] GotBytes] 1(3) st(3,4) rd show ?thesis
      by (auto simp: drain_capped_from.simps [of src])
  qed
qed

lemma drain_capped_eq: "drain_capped src cap = take cap (stream_bytes src)"
  by (simp add: drain_capped_def drain_capped_from_eq)


section \<open>Running a filter\<close>

datatype exit_status = Exited int | Signalled

definition status_success :: "exit_status \<Rightarrow> bool" where [std_defs]:
  "status_success s \<longleftrightarrow> s = Exited 0"

definition status_code :: "exit_status \<Rightarrow> int option" where [std_defs]:
  "status_code s = (case s of Exited c \<Rightarrow> Some c | Signalled \<Rightarrow> None)"

text \<open>
  A started child: the answers its standard input gives, what it emits, the kernel's answers to the
  splice calls on its output, its status, and whether the deadline passes before it has exited.
\<close>

record child =
  ch_stdin :: "wr_answer list"
  ch_stdout :: reader
  ch_stderr :: reader
  ch_kernel :: "kernel_answer list"
  ch_status :: "io_error + exit_status"
  ch_overruns :: bool

record command =
  cmd_program :: string
  cmd_args :: "string list"
  cmd_env :: environment

datatype worker = WFeeder | WDrainer | WWatchdog

text \<open>
  What the host answers: the environment to inherit, whether the pipe handles are there (that of the
  standard input given whether one was asked for), whether a file can be examined, whether a thread
  starts, whether it panics.
\<close>

record host =
  h_inherited :: environment
  h_pipes :: bool
  h_stdin :: "bool \<Rightarrow> bool"
  h_stat :: bool
  h_thread :: "worker \<Rightarrow> io_error option"
  h_panics :: "worker \<Rightarrow> bool"

type_synonym exec = "command \<Rightarrow> bytes \<Rightarrow> io_error + child"

datatype stdin_src = InStream reader | InDescriptor bytes

definition is_stream :: "stdin_src \<Rightarrow> bool" where
  "is_stream input \<longleftrightarrow> (case input of InStream _ \<Rightarrow> True | InDescriptor _ \<Rightarrow> False)"

definition stdin_bytes :: "stdin_src \<Rightarrow> bytes" where
  "stdin_bytes input = (case input of InStream r \<Rightarrow> stream_bytes r | InDescriptor d \<Rightarrow> d)"

definition descriptor_len :: "host \<Rightarrow> stdin_src \<Rightarrow> nat" where
  "descriptor_len h input =
     (case input of InStream _ \<Rightarrow> 0 | InDescriptor d \<Rightarrow> if h_stat h then length d else 0)"

definition handle_missing :: io_error where
  "handle_missing = OtherError ''child pipe handle missing''"

definition join_worker :: "host \<Rightarrow> worker \<Rightarrow> 'a \<Rightarrow> pipeline_error + 'a" where
  "join_worker h w res =
     (if h_panics h w then Inl (EChild (OtherError ''pipeline worker thread panicked'')) else Inr res)"

text \<open>The first worker that cannot be started, in the order they are started.\<close>

definition worker_refused :: "host \<Rightarrow> bool \<Rightarrow> nat option \<Rightarrow> io_error option" where
  "worker_refused h stream timeout =
     (case (if stream then h_thread h WFeeder else None) of
        Some e \<Rightarrow> Some e
      | None \<Rightarrow>
          (case h_thread h WDrainer of
             Some e \<Rightarrow> Some e
           | None \<Rightarrow> if timeout = None then None else h_thread h WWatchdog))"

definition feeder_result :: "host \<Rightarrow> child \<Rightarrow> stdin_src \<Rightarrow> pipeline_error + (feed_failure + nat) option" where
  "feeder_result h c input =
     (case input of
        InDescriptor _ \<Rightarrow> Inr None
      | InStream src \<Rightarrow>
          try_bind (join_worker h WFeeder (fst (feed src (ch_stdin c) [] 0))) (\<lambda>r. Inr (Some r)))"

definition fed_count :: "host \<Rightarrow> child \<Rightarrow> stdin_src \<Rightarrow> pipeline_error + nat" where
  "fed_count h c input =
     try_bind (feeder_result h c input)
       (\<lambda>fed. case fed of
                None \<Rightarrow> Inr (descriptor_len h input)
              | Some (Inr n) \<Rightarrow> Inr n
              | Some (Inl (FeedSource e)) \<Rightarrow> Inl (ESource e)
              | Some (Inl (FeedChild e)) \<Rightarrow> Inl (EChild e))"

definition exit_verdict :: "host \<Rightarrow> child \<Rightarrow> pipeline_error + unit" where
  "exit_verdict h c =
     (case ch_status c of
        Inl e \<Rightarrow> Inl (EChild e)
      | Inr status \<Rightarrow>
          if status_success status then Inr ()
          else try_bind (join_worker h WDrainer (drain_capped (ch_stderr c) PIPELINE_STDERR_CAP_BYTES))
                 (\<lambda>captured. Inl (EFailed (status_code status) (trim (from_utf8_lossy captured)))))"

text \<open>The verdict after every thread has been joined, in the order of the source.\<close>

definition verdict :: "host \<Rightarrow> child \<Rightarrow> stdin_src \<Rightarrow> nat option \<Rightarrow> relay_failure + 't \<Rightarrow> pipeline_error + nat \<times> 't" where
  "verdict h c input timeout relayed =
     (if timeout \<noteq> None \<and> ch_overruns c then Inl (ETimeout (the timeout))
      else (case relayed of
              Inl (RelaySink e) \<Rightarrow> Inl (ESink e)
            | Inl (RelayChild e) \<Rightarrow> Inl (EChild e)
            | Inr drained \<Rightarrow>
                try_bind (fed_count h c input)
                  (\<lambda>n. try_bind (exit_verdict h c) (\<lambda>_. Inr (n, drained)))))"

datatype proc_action = KillGroup | Reap

definition run_filter_inner ::
    "host \<Rightarrow> exec \<Rightarrow> string \<Rightarrow> string list \<Rightarrow> child_env option \<Rightarrow> stdin_src \<Rightarrow>
     (child \<Rightarrow> 'w \<Rightarrow> (relay_failure + 't) \<times> 'w) \<Rightarrow> 'w \<Rightarrow> nat option \<Rightarrow>
     (pipeline_error + nat \<times> 't) \<times> 'w \<times> proc_action list" where
  "run_filter_inner h exec program args env input drain sink timeout =
     (let cmd = \<lparr> cmd_program = program, cmd_args = args,
                  cmd_env = (case env of None \<Rightarrow> h_inherited h | Some e \<Rightarrow> env_apply e (h_inherited h)) \<rparr>
      in case exec cmd (stdin_bytes input) of
           Inl e \<Rightarrow> (Inl (ESpawn e), sink, [])
         | Inr c \<Rightarrow>
             if \<not> h_pipes h \<or> is_stream input \<noteq> h_stdin h (is_stream input)
             then (Inl (EChild handle_missing), sink, [KillGroup, Reap])
             else (case worker_refused h (is_stream input) timeout of
                     Some e \<Rightarrow> (Inl (EChild e), sink, [KillGroup, Reap])
                   | None \<Rightarrow>
                       (case drain c sink of
                          (relayed, sink') \<Rightarrow>
                            (verdict h c input timeout relayed, sink',
                             (if timeout \<noteq> None \<and> ch_overruns c then [KillGroup] else []) @
                             (if isl relayed then [KillGroup] else []) @ [Reap]))))"

definition counts :: "(pipeline_error + nat \<times> nat) \<Rightarrow> pipeline_error + transfer_counts" where
  "counts r = try_bind r (\<lambda>(i, out). Inr \<lparr> bytes_in = i, bytes_out = out \<rparr>)"

text \<open>The sink of a streaming run: what it holds, its answers to the writes, its answer to the flush.\<close>

definition run_filter_to_writer ::
    "host \<Rightarrow> exec \<Rightarrow> string \<Rightarrow> string list \<Rightarrow> child_env option \<Rightarrow> reader \<Rightarrow> wr_answer list \<Rightarrow> io_error option \<Rightarrow>
     bytes \<Rightarrow> nat option \<Rightarrow> (pipeline_error + transfer_counts) \<times> bytes" where
  "run_filter_to_writer h exec program args env input answers flush output timeout =
     (case run_filter_inner h exec program args env (InStream input)
             (\<lambda>c sink. relay answers flush sink (ch_stdout c)) output timeout of
        (r, output', _) \<Rightarrow> (counts r, output'))"

definition run_filter_in_env ::
    "host \<Rightarrow> exec \<Rightarrow> string \<Rightarrow> string list \<Rightarrow> child_env \<Rightarrow> reader \<Rightarrow> wr_answer list \<Rightarrow> io_error option \<Rightarrow>
     bytes \<Rightarrow> nat option \<Rightarrow> (pipeline_error + transfer_counts) \<times> bytes" where
  "run_filter_in_env h exec program args env = run_filter_to_writer h exec program args (Some env)"

record file_sink =
  snk_file :: bytes
  snk_limit :: nat
  snk_tap :: bytes

definition over_limit :: "nat \<Rightarrow> io_error" where
  "over_limit limit = OtherError (''output exceeds the '' @ show_nat limit @ ''-byte limit'')"

text \<open>\<open>is_pipe\<close>, \<open>scratch_ok\<close> and \<open>observes\<close> are the arguments of the copy (its \<^verbatim>\<open>fstat\<close>, its scratch pipe, its tap).\<close>

definition file_drain :: "io_error + bool \<Rightarrow> bool \<Rightarrow> bool \<Rightarrow> child \<Rightarrow> file_sink \<Rightarrow> (relay_failure + nat) \<times> file_sink" where
  "file_drain is_pipe scratch_ok observes c snk =
     (case copy_to_file is_pipe scratch_ok observes (snk_limit snk)
             (copy_start (stream_bytes (ch_stdout c)) (ch_kernel c)) of
        (r, st) \<Rightarrow>
          (case r of
             Inr copied \<Rightarrow> Inr (copied_len copied)
           | Inl PEmpty \<Rightarrow> Inr 0
           | Inl (TooLarge limit) \<Rightarrow> Inl (RelaySink (over_limit limit))
           | Inl (PIo e) \<Rightarrow> Inl (RelaySink e),
           snk\<lparr> snk_file := snk_file snk @ cp_dst st, snk_tap := snk_tap snk @ cp_tap st \<rparr>))"

definition run_filter_file_in_env ::
    "host \<Rightarrow> exec \<Rightarrow> io_error + bool \<Rightarrow> bool \<Rightarrow> string \<Rightarrow> string list \<Rightarrow> child_env \<Rightarrow> bytes \<Rightarrow> file_sink \<Rightarrow>
     nat option \<Rightarrow> (pipeline_error + transfer_counts) \<times> file_sink" where
  "run_filter_file_in_env h exec is_pipe scratch_ok program args env input snk timeout =
     (case run_filter_inner h exec program args (Some env) (InDescriptor input)
             (file_drain is_pipe scratch_ok True) snk timeout of
        (r, snk', _) \<Rightarrow> (counts r, snk'))"


section \<open>What a finished run says\<close>

definition healthy :: "host \<Rightarrow> bool" where
  "healthy h \<longleftrightarrow> h_pipes h \<and> h_stdin h = (\<lambda>b. b) \<and> h_stat h \<and> (\<forall>w. h_thread h w = None \<and> \<not> h_panics h w)"

lemma healthy_refused: "healthy h \<Longrightarrow> worker_refused h stream timeout = None"
  by (simp add: healthy_def worker_refused_def)

lemma fed_count_ok:
  "fed_count h c input = Inr n \<Longrightarrow>
    (case input of InStream src \<Rightarrow> fst (feed src (ch_stdin c) [] 0) = Inr n
     | InDescriptor d \<Rightarrow> n = descriptor_len h input)"
  by (auto simp: fed_count_def feeder_result_def join_worker_def
      split: stdin_src.splits if_splits sum.splits feed_failure.splits)

lemma exit_verdict_ok: "exit_verdict h c = Inr u \<Longrightarrow> ch_status c = Inr (Exited 0)"
  by (auto simp: exit_verdict_def join_worker_def status_success_def split: sum.splits if_splits)

lemma verdict_ok:
  assumes "verdict h c input timeout relayed = Inr (n, m)"
  shows "relayed = Inr m \<and> \<not> (timeout \<noteq> None \<and> ch_overruns c) \<and> ch_status c = Inr (Exited 0) \<and>
    (case input of InStream src \<Rightarrow> fst (feed src (ch_stdin c) [] 0) = Inr n
     | InDescriptor d \<Rightarrow> n = descriptor_len h input)"
proof -
  have "relayed = Inr m \<and> \<not> (timeout \<noteq> None \<and> ch_overruns c) \<and> fed_count h c input = Inr n \<and>
      exit_verdict h c = Inr ()"
    using assms by (auto simp: verdict_def try_bind_Inr_iff split: if_splits sum.splits relay_failure.splits)
  then show ?thesis
    using fed_count_ok exit_verdict_ok by blast
qed

lemma feed_count: "fst (feed src answers [] 0) = Inr n \<Longrightarrow> n \<le> length (stream_bytes src)"
  using feed_outcome [of src answers "[]" 0] by (cases "feed src answers [] 0") (auto dest: prefix_length_le)

lemma relay_ok:
  assumes "relay answers flush sink src = (Inr n, sink')"
  shows "sink' = sink @ stream_bytes src \<and> n = length (stream_bytes src) \<and> stream_error src = None"
  using assms relay_loop_outcome [of src answers sink 0]
  by (auto simp: relay_def split: prod.splits sum.splits option.splits)

lemma file_drain_ok:
  assumes "snk_limit snk < u64_max" and "file_drain is_pipe scratch_ok True c snk = (Inr n, snk')"
  defines "out \<equiv> stream_bytes (ch_stdout c)"
  shows "snk_file snk' = snk_file snk @ out \<and> snk_tap snk' = snk_tap snk @ out \<and> n = length out \<and>
    length out \<le> snk_limit snk"
  using assms copy_to_file_outcome [OF assms(1), of out True is_pipe scratch_ok "ch_kernel c"]
  by (auto simp: file_drain_def copy_outcome_def copy_complete_def ends_well_def
      split: prod.splits sum.splits payload_error.splits)

text \<open>A run that reports success.\<close>

lemma run_inner_ok:
  assumes "run_filter_inner h exec program args env input drain sink timeout = (Inr (n, m), sink', acts)"
  obtains c where "exec \<lparr> cmd_program = program, cmd_args = args,
      cmd_env = (case env of None \<Rightarrow> h_inherited h | Some e \<Rightarrow> env_apply e (h_inherited h)) \<rparr> (stdin_bytes input) = Inr c"
    "drain c sink = (Inr m, sink')" "ch_status c = Inr (Exited 0)" "\<not> (timeout \<noteq> None \<and> ch_overruns c)"
    "case input of InStream src \<Rightarrow> fst (feed src (ch_stdin c) [] 0) = Inr n
     | InDescriptor d \<Rightarrow> n = descriptor_len h input"
  using assms
  by (auto simp: run_filter_inner_def Let_def split: sum.splits prod.splits if_splits option.splits
      dest!: verdict_ok)

lemma counts_ok: "counts r = Inr t \<longleftrightarrow> r = Inr (bytes_in t, bytes_out t)"
  by (cases r; cases t) (auto simp: counts_def)

lemma run_inner_healthy:
  assumes "healthy h"
    and "exec \<lparr> cmd_program = program, cmd_args = args,
      cmd_env = (case env of None \<Rightarrow> h_inherited h | Some e \<Rightarrow> env_apply e (h_inherited h)) \<rparr> (stdin_bytes input) = Inr c"
  shows "fst (run_filter_inner h exec program args env input drain sink timeout) =
    verdict h c input timeout (fst (drain c sink))"
  using assms healthy_refused [OF assms(1)]
  by (simp add: run_filter_inner_def Let_def healthy_def split: prod.splits)

lemma filter_writer_ok:
  "run_filter_in_env h exec program args env input answers flush output timeout = (Inr t, output') \<Longrightarrow>
      (\<exists>c. exec \<lparr> cmd_program = program, cmd_args = args, cmd_env = env_apply env (h_inherited h) \<rparr>
             (stream_bytes input) = Inr c \<and>
           ch_status c = Inr (Exited 0) \<and> \<not> (timeout \<noteq> None \<and> ch_overruns c) \<and>
           output' = output @ stream_bytes (ch_stdout c) \<and> stream_error (ch_stdout c) = None \<and>
           bytes_out t = length (stream_bytes (ch_stdout c)) \<and> bytes_in t \<le> length (stream_bytes input))"
  by (auto simp: run_filter_in_env_def run_filter_to_writer_def counts_ok stdin_bytes_def
      split: prod.splits elim!: run_inner_ok dest!: relay_ok feed_count)

lemma filter_file_ok:
  "snk_limit snk < u64_max \<Longrightarrow>
   run_filter_file_in_env h exec is_pipe scratch_ok program args env file snk timeout = (Inr t, snk') \<Longrightarrow>
      (\<exists>c. exec \<lparr> cmd_program = program, cmd_args = args, cmd_env = env_apply env (h_inherited h) \<rparr> file = Inr c \<and>
           ch_status c = Inr (Exited 0) \<and> \<not> (timeout \<noteq> None \<and> ch_overruns c) \<and>
           snk_file snk' = snk_file snk @ stream_bytes (ch_stdout c) \<and>
           snk_tap snk' = snk_tap snk @ stream_bytes (ch_stdout c) \<and>
           bytes_out t = length (stream_bytes (ch_stdout c)) \<and> bytes_out t \<le> snk_limit snk)"
  by (auto simp: run_filter_file_in_env_def counts_ok stdin_bytes_def
      split: prod.splits elim!: run_inner_ok dest!: file_drain_ok)

text \<open>C27: A run of the external filter reports success only when the child exited with status 0 before its
  deadline and the sink holds exactly what the child wrote, every byte once and in order, with the right
  counts; the file road also shows every byte to the tap and stays within the limit. In both the child
  got the listed environment and nothing inherited.\<close>

theorem filter_run_exact:
  assumes "snk_limit snk < u64_max"
    and "run_filter_in_env h exec program args env input answers flush output timeout = (Inr t, output')"
    and "run_filter_file_in_env h exec is_pipe scratch_ok program args env file snk timeout = (Inr u, snk')"
  defines "cmd \<equiv> \<lparr> cmd_program = program, cmd_args = args, cmd_env = env_apply env (h_inherited h) \<rparr>"
  shows "(\<exists>c. exec cmd (stream_bytes input) = Inr c \<and>
           ch_status c = Inr (Exited 0) \<and> \<not> (timeout \<noteq> None \<and> ch_overruns c) \<and>
           output' = output @ stream_bytes (ch_stdout c) \<and> stream_error (ch_stdout c) = None \<and>
           bytes_out t = length (stream_bytes (ch_stdout c)) \<and> bytes_in t \<le> length (stream_bytes input)) \<and>
         (\<exists>c. exec cmd file = Inr c \<and>
           ch_status c = Inr (Exited 0) \<and> \<not> (timeout \<noteq> None \<and> ch_overruns c) \<and>
           snk_file snk' = snk_file snk @ stream_bytes (ch_stdout c) \<and>
           snk_tap snk' = snk_tap snk @ stream_bytes (ch_stdout c) \<and>
           bytes_out u = length (stream_bytes (ch_stdout c)) \<and> bytes_out u \<le> snk_limit snk)"
  using filter_writer_ok [OF assms(2)] filter_file_ok [OF assms(1,3)] unfolding cmd_def by blast

text \<open>A host where everything works, and a child that copies its input.\<close>

definition good_host :: host where
  "good_host = \<lparr> h_inherited = [''HOME'' \<mapsto> ''/root''], h_pipes = True, h_stdin = (\<lambda>b. b), h_stat = True,
     h_thread = (\<lambda>_. None), h_panics = (\<lambda>_. False) \<rparr>"

definition cat_child :: "bytes \<Rightarrow> child" where
  "cat_child d = \<lparr> ch_stdin = [], ch_stdout = [RdData d], ch_stderr = [], ch_kernel = [],
     ch_status = Inr (Exited 0), ch_overruns = False \<rparr>"

lemma healthy_good_host: "healthy good_host"
  by (simp add: healthy_def good_host_def)

text \<open>C28: On a host that can start threads, an overrun deadline is always reported as a timeout, whatever
  else went wrong; otherwise, when all streams work, the exit status decides, and a failing child is
  reported with its code and the first bytes of its error output.\<close>

theorem filter_run_verdict:
  assumes "healthy h"
    and "exec \<lparr> cmd_program = program, cmd_args = args, cmd_env = env_apply env (h_inherited h) \<rparr>
           (stream_bytes input) = Inr c"
    and "run_filter_in_env h exec program args env input answers flush output timeout = (r, output')"
  shows "(timeout \<noteq> None \<and> ch_overruns c \<longrightarrow> r = Inl (ETimeout (the timeout))) \<and>
    (\<not> (timeout \<noteq> None \<and> ch_overruns c) \<and> stream_error input = None \<and> stream_error (ch_stdout c) = None \<and>
     list_all (\<lambda>a. a = WrAll) (ch_stdin c) \<and> list_all (\<lambda>a. a = WrAll) answers \<and> flush = None \<longrightarrow>
       r = (case ch_status c of
              Inl e \<Rightarrow> Inl (EChild e)
            | Inr s \<Rightarrow>
                if s = Exited 0
                then Inr \<lparr> bytes_in = length (stream_bytes input), bytes_out = length (stream_bytes (ch_stdout c)) \<rparr>
                else Inl (EFailed (status_code s)
                         (trim (from_utf8_lossy (take PIPELINE_STDERR_CAP_BYTES (stream_bytes (ch_stderr c))))))))"
proof -
  let ?drain = "\<lambda>c sink. relay answers flush sink (ch_stdout c)"
  have r: "r = counts (verdict h c (InStream input) timeout (fst (?drain c output)))"
    using run_inner_healthy [of h exec program args "Some env" "InStream input" c ?drain "output" timeout] assms
    by (simp add: run_filter_in_env_def run_filter_to_writer_def stdin_bytes_def split: prod.splits)
  have "r = Inl (ETimeout (the timeout))" if "timeout \<noteq> None \<and> ch_overruns c"
    using that r by (simp add: verdict_def counts_def)
  moreover have "r = (case ch_status c of
              Inl e \<Rightarrow> Inl (EChild e)
            | Inr s \<Rightarrow>
                if s = Exited 0
                then Inr \<lparr> bytes_in = length (stream_bytes input), bytes_out = length (stream_bytes (ch_stdout c)) \<rparr>
                else Inl (EFailed (status_code s)
                         (trim (from_utf8_lossy (take PIPELINE_STDERR_CAP_BYTES (stream_bytes (ch_stderr c)))))))"
    if ok: "\<not> (timeout \<noteq> None \<and> ch_overruns c)" "stream_error input = None" "stream_error (ch_stdout c) = None"
      "list_all (\<lambda>a. a = WrAll) (ch_stdin c)" "list_all (\<lambda>a. a = WrAll) answers" "flush = None"
  proof -
    have "fst (feed input (ch_stdin c) [] 0) = Inr (length (stream_bytes input))"
      using feed_outcome [of input "ch_stdin c" "[]" 0] ok by (cases "feed input (ch_stdin c) [] 0") auto
    then have "fed_count h c (InStream input) = Inr (length (stream_bytes input))"
      using assms(1) by (simp add: fed_count_def feeder_result_def join_worker_def healthy_def)
    moreover have "fst (?drain c output) = Inr (length (stream_bytes (ch_stdout c)))"
      using relay_loop_outcome [of "ch_stdout c" answers "output" 0] ok
      by (cases "relay_loop (ch_stdout c) answers output 0") (auto simp: relay_def split: sum.splits)
    moreover have "\<not> h_panics h WDrainer" using assms(1) by (simp add: healthy_def)
    ultimately show ?thesis
      using r ok(1) by (auto simp: verdict_def counts_def exit_verdict_def status_success_def join_worker_def
          drain_capped_eq split: sum.splits)
  qed
  ultimately show ?thesis by blast
qed


theorem filter_run_witness:
  "run_filter_file_in_env good_host (\<lambda>cmd d. Inr (cat_child d)) (Inr True) True ''cat'' [] env_new ''ab''
      \<lparr> snk_file = [], snk_limit = 9, snk_tap = [] \<rparr> (Some 15) =
    (Inr \<lparr> bytes_in = 2, bytes_out = 2 \<rparr>, \<lparr> snk_file = ''ab'', snk_limit = 9, snk_tap = ''ab'' \<rparr>) \<and>
   (\<exists>c. Inr (cat_child ''ab'') = (Inr c :: io_error + child) \<and> ch_status c = Inr (Exited 0) \<and>
     ''ab'' = stream_bytes (ch_stdout c) \<and> length (stream_bytes (ch_stdout c)) \<le> 9)"
proof -
  let ?exec = "\<lambda>cmd d. Inr (cat_child d) :: io_error + child"
  let ?snk = "\<lparr> snk_file = [], snk_limit = 9, snk_tap = [] \<rparr>"
  have w: "run_filter_in_env good_host ?exec ''cat'' [] env_new [RdData ''ab''] [] None [] (Some 15)
      = (Inr \<lparr> bytes_in = 2, bytes_out = 2 \<rparr>, ''ab'')"
    by (simp add: run_filter_in_env_def run_filter_to_writer_def run_filter_inner_def good_host_def cat_child_def
        worker_refused_def is_stream_def stdin_bytes_def verdict_def fed_count_def feeder_result_def
        join_worker_def exit_verdict_def status_success_def counts_def relay_def relay_loop.simps feed.simps
        wr_failure_def const_defs)
  have f: "run_filter_file_in_env good_host ?exec (Inr True) True ''cat'' [] env_new ''ab'' ?snk (Some 15)
      = (Inr \<lparr> bytes_in = 2, bytes_out = 2 \<rparr>, \<lparr> snk_file = ''ab'', snk_limit = 9, snk_tap = ''ab'' \<rparr>)"
    by (simp add: run_filter_file_in_env_def run_filter_inner_def good_host_def cat_child_def
        worker_refused_def is_stream_def stdin_bytes_def verdict_def fed_count_def feeder_result_def
        join_worker_def exit_verdict_def status_success_def counts_def file_drain_def copy_to_file_def
        copy_start_def kernel_loop.simps kernel_round_def tee_once_def tap_round.simps splice_exact.simps
        splice_once_def next_failure_def finish_def descriptor_len_def allowance_def sat_add_def u64_max_def const_defs)
  show ?thesis
    using filter_run_exact [OF _ w f] f by (auto simp: u64_max_def)
qed

theorem filter_verdict_witness:
  "fst (run_filter_in_env good_host (\<lambda>cmd d. Inr ((cat_child d)\<lparr> ch_overruns := True \<rparr>)) ''cat'' [] env_new
      [RdData ''ab''] [] None [] (Some 15)) = Inl (ETimeout 15)"
  using filter_run_verdict [OF healthy_good_host _ surjective_pairing, where exec = "\<lambda>cmd d. Inr ((cat_child d)\<lparr> ch_overruns := True \<rparr>)"
    and program = "''cat''" and args = "[]" and env = env_new and input = "[RdData ''ab'']" and answers = "[]"
    and flush = None and timeout = "Some 15"]
  by simp

end
