(* ===== verification/Sandbox.thy ===== *)
theory Sandbox
  imports Pipeline
begin

text \<open>
  \<^verbatim>\<open>crates/image/src/sandbox.rs\<close>: the private scratch directory and the environment of the converter.
  The directory tree carries owner, mode and symbolic links. Between two system calls other users may
  act: \<open>adv k\<close> is what they do to the tree after the \<open>k\<close>-th call. \<open>sticky\<close> is the one thing the kernel
  promises about them in a sticky directory: entries of the user stay as they are.
\<close>

unbundle bit_operations_syntax

section \<open>The directory tree\<close>

datatype node_kind = KDir | KFile | KLink path

record node =
  n_kind :: node_kind
  n_uid :: nat
  n_mode :: nat

type_synonym nodes = "path \<Rightarrow> node option"

text \<open>What the kernel answers: the owner and mask of new directories, refusals of \<^verbatim>\<open>mkdir\<close> and \<^verbatim>\<open>chmod\<close>.\<close>

record kernel =
  k_uid :: nat
  k_umask :: nat
  k_mkdir :: "path \<Rightarrow> io_error option"
  k_chmod :: "path \<Rightarrow> io_error option"

datatype mk_result = Made | Exists | MkFail io_error

definition PRIVATE_MODE :: nat where "PRIVATE_MODE = 448"

definition GROUP_OTHER_BITS :: nat where "GROUP_OTHER_BITS = 63"

definition mkdir :: "kernel \<Rightarrow> path \<Rightarrow> nodes \<Rightarrow> mk_result \<times> nodes" where [std_defs]:
  "mkdir k p fs =
     (if fs p \<noteq> None then (Exists, fs)
      else (case k_mkdir k p of
              Some e \<Rightarrow> (MkFail e, fs)
            | None \<Rightarrow>
                (Made, fs(p \<mapsto> \<lparr> n_kind = KDir, n_uid = k_uid k,
                                n_mode = PRIVATE_MODE AND (511 - (k_umask k AND 511)) \<rparr>))))"

definition follow :: "path \<Rightarrow> nodes \<Rightarrow> path" where [std_defs]:
  "follow p fs = (case fs p of Some n \<Rightarrow> (case n_kind n of KLink t \<Rightarrow> t | _ \<Rightarrow> p) | None \<Rightarrow> p)"

definition chmod :: "kernel \<Rightarrow> path \<Rightarrow> nat \<Rightarrow> nodes \<Rightarrow> (io_error + unit) \<times> nodes" where [std_defs]:
  "chmod k p mode fs =
     (case k_chmod k p of
        Some e \<Rightarrow> (Inl e, fs)
      | None \<Rightarrow>
          (case fs (follow p fs) of
             None \<Rightarrow> (Inl NotFound, fs)
           | Some n \<Rightarrow>
               if n_uid n = k_uid k then (Inr (), fs(follow p fs \<mapsto> n\<lparr> n_mode := mode \<rparr>))
               else (Inl (OtherError ''operation not permitted''), fs)))"

section \<open>Private directories\<close>

definition refused :: "path \<Rightarrow> io_error" where
  "refused p = OtherError (p @ '' is not a private directory of the current user'')"

definition is_private_dir :: "path \<Rightarrow> nat \<Rightarrow> nodes \<Rightarrow> bool" where
  "is_private_dir p uid fs =
     (case fs p of
        None \<Rightarrow> False
      | Some meta \<Rightarrow> n_kind meta = KDir \<and> n_uid meta = uid \<and> n_mode meta AND GROUP_OTHER_BITS = 0)"

definition ensure_private_scratch ::
    "kernel \<Rightarrow> (nat \<Rightarrow> nodes \<Rightarrow> nodes) \<Rightarrow> path \<Rightarrow> nat \<Rightarrow> nodes \<Rightarrow> (io_error + unit) \<times> nodes" where
  "ensure_private_scratch k adv p uid fs0 =
     (case mkdir k p fs0 of
        (MkFail e, fs1) \<Rightarrow> (Inl e, adv 0 fs1)
      | (_, fs1) \<Rightarrow>
          (let fs2 = adv 0 fs1
           in case fs2 p of
                None \<Rightarrow> (Inl NotFound, adv 1 fs2)
              | Some meta \<Rightarrow>
                  (let fs3 = adv 1 fs2
                   in if n_kind meta \<noteq> KDir \<or> n_uid meta \<noteq> uid then (Inl (refused p), fs3)
                      else
                        (case (if n_mode meta AND GROUP_OTHER_BITS \<noteq> 0 then chmod k p PRIVATE_MODE fs3
                               else (Inr (), fs3)) of
                           (Inl e, fs4) \<Rightarrow> (Inl e, adv 2 fs4)
                         | (Inr _, fs4) \<Rightarrow>
                             (let fs5 = adv 2 fs4
                              in (if is_private_dir p uid fs5 then Inr () else Inl (refused p), adv 3 fs5))))))"

definition is_absolute :: "path \<Rightarrow> bool" where [std_defs]:
  "is_absolute p \<longleftrightarrow> prefix ''/'' p"

text \<open>
  Runtime directory first, the fallback root next. The fallback is tried with \<open>adv\<close> shifted by four
  calls, so that the intruder may act differently.
\<close>

definition private_base ::
    "kernel \<Rightarrow> (nat \<Rightarrow> nodes \<Rightarrow> nodes) \<Rightarrow> path option \<Rightarrow> path \<Rightarrow> nat \<Rightarrow> nodes \<Rightarrow> (io_error + path) \<times> nodes" where
  "private_base k adv runtime_dir fallback_root uid fs =
     (let fallback = (\<lambda>fs'.
            let base = path_push fallback_root (SCRATCH_DIR_NAME @ ''-'' @ show_nat uid)
            in case ensure_private_scratch k (\<lambda>i. adv (i + 4)) base uid fs' of
                 (r, fs'') \<Rightarrow> (try_bind r (\<lambda>_. Inr base), fs''))
      in case runtime_dir of
           None \<Rightarrow> fallback fs
         | Some runtime \<Rightarrow>
             if is_absolute runtime \<and> is_private_dir runtime uid fs then
               (let base = path_push runtime SCRATCH_DIR_NAME
                in case ensure_private_scratch k adv base uid fs of
                     (Inr _, fs') \<Rightarrow> (Inr base, fs')
                   | (Inl _, fs') \<Rightarrow> fallback fs')
             else fallback fs)"

section \<open>One directory per conversion\<close>

definition run_name :: "nat \<Rightarrow> nat \<Rightarrow> string" where
  "run_name pid n = ''run-'' @ show_nat pid @ ''-'' @ show_nat n"

definition no_unused_name :: io_error where
  "no_unused_name = OtherError ''no unused scratch directory name''"

text \<open>The loop: \<open>n\<close> is the next sequence number, which wraps like the \<^verbatim>\<open>AtomicU64\<close> it comes from.\<close>

fun unique_child_with ::
    "kernel \<Rightarrow> path \<Rightarrow> nat \<Rightarrow> nat \<Rightarrow> nat \<Rightarrow> nodes \<Rightarrow> (io_error + path) \<times> nat \<times> nodes" where
  "unique_child_with k base pid 0 n fs = (Inl no_unused_name, n, fs)"
| "unique_child_with k base pid (Suc left) n fs =
     (let p = path_push base (run_name pid n)
      in case mkdir k p fs of
           (Made, fs') \<Rightarrow> (Inr p, wrap64 (n + 1), fs')
         | (Exists, fs') \<Rightarrow> unique_child_with k base pid left (wrap64 (n + 1)) fs'
         | (MkFail e, fs') \<Rightarrow> (Inl e, wrap64 (n + 1), fs'))"

definition unique_child :: "kernel \<Rightarrow> path \<Rightarrow> nat \<Rightarrow> nat \<Rightarrow> nodes \<Rightarrow> (io_error + path) \<times> nat \<times> nodes" where [simp]:
  "unique_child k base pid n fs = unique_child_with k base pid 16 n fs"

definition create_scratch_dir_in ::
    "kernel \<Rightarrow> (nat \<Rightarrow> nodes \<Rightarrow> nodes) \<Rightarrow> path option \<Rightarrow> path \<Rightarrow> nat \<Rightarrow> nat \<Rightarrow> nat \<Rightarrow> nodes \<Rightarrow>
     (io_error + path) \<times> nat \<times> nodes" where
  "create_scratch_dir_in k adv runtime_dir fallback_root uid pid n fs =
     (case private_base k adv runtime_dir fallback_root uid fs of
        (Inl e, fs') \<Rightarrow> (Inl e, n, fs')
      | (Inr base, fs') \<Rightarrow> unique_child k base pid n fs')"

definition create_scratch_dir ::
    "kernel \<Rightarrow> (nat \<Rightarrow> nodes \<Rightarrow> nodes) \<Rightarrow> environment \<Rightarrow> nat \<Rightarrow> nat \<Rightarrow> nodes \<Rightarrow> (io_error + path) \<times> nat \<times> nodes" where
  "create_scratch_dir k adv env pid n fs =
     create_scratch_dir_in k adv (env ''XDG_RUNTIME_DIR'') SCRATCH_FALLBACK_ROOT (k_uid k) pid n fs"

text \<open>\<^verbatim>\<open>Drop for ScratchDir\<close>: the tree below the directory goes, as far as \<open>keeps\<close> does not say otherwise.\<close>

definition scratch_drop :: "(path \<Rightarrow> bool) \<Rightarrow> path \<Rightarrow> nodes \<Rightarrow> nodes" where
  "scratch_drop keeps p fs = (\<lambda>q. if (q = p \<or> prefix (p @ ''/'') q) \<and> \<not> keeps q then None else fs q)"

definition child_env_with :: "string option \<Rightarrow> path option \<Rightarrow> child_env" where
  "child_env_with path_var scratch =
     (let env = (case path_var of None \<Rightarrow> env_new | Some p \<Rightarrow> env_set ''PATH'' p env_new)
      in case scratch of
           None \<Rightarrow> env
         | Some dir \<Rightarrow> env_set ''TMPDIR'' dir (env_set ''MAGICK_TEMPORARY_PATH'' dir env))"

definition child_env_of :: "environment \<Rightarrow> path option \<Rightarrow> child_env" where
  "child_env_of inherited scratch = child_env_with (inherited ''PATH'') scratch"

section \<open>The scratch directory is private and stays so\<close>

definition sticky :: "nat \<Rightarrow> (nodes \<Rightarrow> nodes) \<Rightarrow> bool" where
  "sticky uid act \<longleftrightarrow> (\<forall>fs p n. fs p = Some n \<longrightarrow> n_uid n = uid \<longrightarrow> act fs p = Some n)"

lemma stickyD: "sticky uid act \<Longrightarrow> fs p = Some n \<Longrightarrow> n_uid n = uid \<Longrightarrow> act fs p = Some n"
  by (simp add: sticky_def)

lemma sticky_private: "sticky uid act \<Longrightarrow> is_private_dir p uid fs \<Longrightarrow> is_private_dir p uid (act fs)"
  using stickyD [of uid act fs p] by (cases "fs p") (auto simp: is_private_dir_def)

text \<open>The user's own entries other than \<open>p\<close>: an operation on \<open>p\<close> may change none of them.\<close>

definition own_kept :: "nat \<Rightarrow> path \<Rightarrow> nodes \<Rightarrow> nodes \<Rightarrow> bool" where
  "own_kept uid p fs fs' \<longleftrightarrow> (\<forall>q n. q \<noteq> p \<longrightarrow> fs q = Some n \<longrightarrow> n_uid n = uid \<longrightarrow> fs' q = Some n)"

lemma own_kept_refl [simp]: "own_kept uid p fs fs"
  by (simp add: own_kept_def)

lemma own_kept_trans: "own_kept uid p a b \<Longrightarrow> own_kept uid p b c \<Longrightarrow> own_kept uid p a c"
  by (auto simp: own_kept_def)

lemma own_kept_sticky: "sticky uid act \<Longrightarrow> own_kept uid p fs (act fs)"
  unfolding own_kept_def using stickyD [of uid act fs] by simp

lemma own_kept_mkdir: "mkdir k p fs = (r, fs') \<Longrightarrow> own_kept uid p fs fs'"
  by (auto simp: own_kept_def mkdir_def split: if_splits option.splits)

lemma own_kept_chmod:
  "fs p = Some n \<Longrightarrow> n_kind n = KDir \<Longrightarrow> chmod k p m fs = (r, fs') \<Longrightarrow> own_kept uid p fs fs'"
  by (auto simp: own_kept_def chmod_def follow_def split: if_splits option.splits)

lemma ensure_private_scratch_spec:
  assumes adv: "\<And>i. sticky uid (adv i)" and run: "ensure_private_scratch k adv p uid fs = (r, fs')"
  shows "own_kept uid p fs fs' \<and> (r = Inr () \<longrightarrow> is_private_dir p uid fs')"
proof -
  obtain mk fs1 where mk: "mkdir k p fs = (mk, fs1)" by fastforce
  let ?fs2 = "adv 0 fs1" and ?fs3 = "adv 1 (adv 0 fs1)"
  have k1: "own_kept uid p fs fs1" by (rule own_kept_mkdir [OF mk])
  have k3: "own_kept uid p fs ?fs2" "own_kept uid p fs ?fs3"
    using k1 adv by (blast intro: own_kept_trans own_kept_sticky)+
  show ?thesis
  proof (cases "\<exists>meta. (\<forall>e. mk \<noteq> MkFail e) \<and> ?fs2 p = Some meta \<and> n_kind meta = KDir \<and> n_uid meta = uid")
    case False
    then show ?thesis
      using run mk k3 adv by (auto simp: ensure_private_scratch_def Let_def split: mk_result.splits option.splits)
  next
    case True
    then obtain meta where meta: "\<forall>e. mk \<noteq> MkFail e" "?fs2 p = Some meta" "n_kind meta = KDir" "n_uid meta = uid"
      by blast
    have m3: "?fs3 p = Some meta" using stickyD [of uid "adv 1" "adv 0 fs1" p meta] adv meta by simp
    obtain c fs4 where c: "(if n_mode meta AND GROUP_OTHER_BITS \<noteq> 0 then chmod k p PRIVATE_MODE ?fs3
        else (Inr (), ?fs3)) = (c, fs4)" by fastforce
    have "own_kept uid p ?fs3 fs4"
      using c own_kept_chmod [of "adv 1 (adv 0 fs1)" p meta k] m3 meta(3) by (auto split: if_splits)
    then have k4: "own_kept uid p fs fs4" "own_kept uid p fs (adv 2 fs4)" "own_kept uid p fs (adv 3 (adv 2 fs4))"
      using k3 adv by (blast intro: own_kept_trans own_kept_sticky)+
    show ?thesis
      using run mk meta c k4 sticky_private [of uid "adv 3" p "adv 2 fs4"] adv
      by (cases mk; cases c) (auto simp: ensure_private_scratch_def Let_def split: if_splits)
  qed
qed


lemma private_mode_bits [simp]: "((448 :: nat) AND x) AND 63 = 0"
proof -
  have "((448 :: nat) AND x) AND 63 = x AND (448 AND 63)" by (simp only: and.assoc and.left_commute)
  then show ?thesis by simp
qed

lemma mkdir_made:
  "mkdir k p fs = (Made, fs') \<Longrightarrow> fs p = None \<and> is_private_dir p (k_uid k) fs' \<and> (\<forall>q. q \<noteq> p \<longrightarrow> fs' q = fs q)"
  by (auto simp: mkdir_def is_private_dir_def PRIVATE_MODE_def GROUP_OTHER_BITS_def
      split: if_splits option.splits)

lemma unique_child_made:
  "unique_child_with k base pid left n fs = (Inr p, n', fs') \<Longrightarrow>
    \<exists>m. p = path_push base (run_name pid m) \<and> fs p = None \<and> is_private_dir p (k_uid k) fs' \<and> (\<forall>q. q \<noteq> p \<longrightarrow> fs' q = fs q)"
proof (induction left arbitrary: n)
  case (Suc left)
  obtain r fs1 where mk: "mkdir k (path_push base (run_name pid n)) fs = (r, fs1)" by fastforce
  show ?case
  proof (cases r)
    case Exists
    then have "fs1 = fs" using mk by (auto simp: mkdir_def split: if_splits option.splits)
    with Suc Exists mk show ?thesis by simp
  next
    case Made
    with mk Suc.prems mkdir_made [of k "path_push base (run_name pid n)" fs fs1] show ?thesis by auto
  next
    case (MkFail e)
    with mk Suc.prems show ?thesis by simp
  qed
qed simp

text \<open>The name tried in the \<open>i\<close>-th round.\<close>

definition seq_name :: "path \<Rightarrow> nat \<Rightarrow> nat \<Rightarrow> nat \<Rightarrow> path" where
  "seq_name base pid n i = path_push base (run_name pid (((\<lambda>m. wrap64 (m + 1)) ^^ i) n))"

lemma unique_child_succeeds:
  "i < left \<Longrightarrow> fs (seq_name base pid n i) = None \<Longrightarrow> (\<forall>p. k_mkdir k p = None) \<Longrightarrow>
    \<exists>p n' fs'. unique_child_with k base pid left n fs = (Inr p, n', fs')"
proof (induction left arbitrary: i n)
  case (Suc left)
  let ?p = "path_push base (run_name pid n)"
  show ?case
  proof (cases "fs ?p")
    case None
    with Suc.prems(3) show ?thesis by (simp add: mkdir_def Let_def)
  next
    case (Some nd)
    with Suc.prems have "i \<noteq> 0" by (cases i) (auto simp: seq_name_def)
    then obtain j where j: "i = Suc j" by (cases i) auto
    with Suc.prems(2) have "fs (seq_name base pid (wrap64 (n + 1)) j) = None"
      by (simp only: seq_name_def funpow_Suc_right o_apply)
    with Suc.IH [of j "wrap64 (n + 1)"] Suc.prems j Some show ?thesis by (simp add: mkdir_def)
  qed
qed simp

lemma private_base_spec:
  assumes adv: "\<And>i. sticky uid (adv i)" and run: "private_base k adv runtime root uid fs = (Inr base, fs')"
  shows "is_private_dir base uid fs' \<and>
    (base = path_push root (SCRATCH_DIR_NAME @ ''-'' @ show_nat uid) \<or>
     (\<exists>r. runtime = Some r \<and> is_absolute r \<and> is_private_dir r uid fs \<and> base = path_push r SCRATCH_DIR_NAME))"
proof -
  let ?fb = "path_push root (SCRATCH_DIR_NAME @ ''-'' @ show_nat uid)"
  have shifted: "\<And>i. sticky uid (adv (i + 4))" by (rule adv)
  have fallback: "is_private_dir ?fb uid f'"
    if "ensure_private_scratch k (\<lambda>i. adv (i + 4)) ?fb uid f = (Inr u, f')" for f f' u
    using ensure_private_scratch_spec [of uid "\<lambda>i. adv (i + 4)", OF adv that] by simp
  have direct: "is_private_dir p uid f'" if "ensure_private_scratch k adv p uid fs = (Inr u, f')" for p f' u
    using ensure_private_scratch_spec [of uid adv, OF adv that] by simp
  show ?thesis
    using run fallback direct
    by (auto simp: private_base_def Let_def try_bind_Inr_iff split: option.splits if_splits prod.splits sum.splits)
qed

text \<open>C31: Whatever other users do to a sticky directory meanwhile, a scratch directory that was handed out did
  not exist before, is a real directory of the user that nobody else can enter, and lies in a base
  directory that is private as well and stays so; when one of the sixteen names is free and the kernel
  makes directories, one is handed out.\<close>

theorem scratch_dir_private:
  assumes "\<And>i. sticky (k_uid k) (adv i)"
    and "create_scratch_dir k adv env pid n fs = (r, n', fs')"
  shows "(\<forall>p. r = Inr p \<longrightarrow>
      (\<exists>base fs1 m. private_base k adv (env ''XDG_RUNTIME_DIR'') SCRATCH_FALLBACK_ROOT (k_uid k) fs = (Inr base, fs1) \<and>
         is_private_dir base (k_uid k) fs1 \<and> p = path_push base (run_name pid m) \<and> fs1 p = None \<and>
         is_private_dir p (k_uid k) fs' \<and>
         (\<forall>act. sticky (k_uid k) act \<longrightarrow> is_private_dir p (k_uid k) (act fs')))) \<and>
    (\<forall>base fs1 i. private_base k adv (env ''XDG_RUNTIME_DIR'') SCRATCH_FALLBACK_ROOT (k_uid k) fs = (Inr base, fs1) \<and>
       i < 16 \<and> fs1 (seq_name base pid n i) = None \<and> (\<forall>p. k_mkdir k p = None) \<longrightarrow> (\<exists>p. r = Inr p))"
proof (intro conjI allI impI)
  fix p assume "r = Inr p"
  with assms(2) obtain base fs1 where
    base: "private_base k adv (env ''XDG_RUNTIME_DIR'') SCRATCH_FALLBACK_ROOT (k_uid k) fs = (Inr base, fs1)"
    and child: "unique_child_with k base pid 16 n fs1 = (Inr p, n', fs')"
    by (auto simp: create_scratch_dir_def create_scratch_dir_in_def split: prod.splits sum.splits)
  show "\<exists>base fs1 m. private_base k adv (env ''XDG_RUNTIME_DIR'') SCRATCH_FALLBACK_ROOT (k_uid k) fs = (Inr base, fs1) \<and>
         is_private_dir base (k_uid k) fs1 \<and> p = path_push base (run_name pid m) \<and> fs1 p = None \<and>
         is_private_dir p (k_uid k) fs' \<and>
         (\<forall>act. sticky (k_uid k) act \<longrightarrow> is_private_dir p (k_uid k) (act fs'))"
    using base private_base_spec [OF assms(1) base] unique_child_made [OF child] sticky_private by blast
next
  fix base fs1 i
  assume "private_base k adv (env ''XDG_RUNTIME_DIR'') SCRATCH_FALLBACK_ROOT (k_uid k) fs = (Inr base, fs1) \<and>
       i < 16 \<and> fs1 (seq_name base pid n i) = None \<and> (\<forall>p. k_mkdir k p = None)"
  then show "\<exists>p. r = Inr p"
    using unique_child_succeeds [of i 16 fs1 base pid n k] assms(2)
    by (auto simp: create_scratch_dir_def create_scratch_dir_in_def)
qed

lemma env_exact:
  "env_apply (child_env_of inherited (Some dir)) whatever =
     [''MAGICK_TEMPORARY_PATH'' \<mapsto> dir, ''TMPDIR'' \<mapsto> dir](''PATH'' := inherited ''PATH'')"
  by (cases "inherited ''PATH''")
    (auto simp: env_apply_def child_env_of_def child_env_with_def env_set_def env_new_def fun_eq_iff)

lemma env_exact_probe: "env_apply (child_env_of inherited None) whatever = Map.empty(''PATH'' := inherited ''PATH'')"
  by (cases "inherited ''PATH''")
    (auto simp: env_apply_def child_env_of_def child_env_with_def env_set_def env_new_def)

definition plain_kernel :: kernel where
  "plain_kernel = \<lparr> k_uid = 1000, k_umask = 18, k_mkdir = (\<lambda>_. None), k_chmod = (\<lambda>_. None) \<rparr>"

theorem scratch_dir_witness:
  "\<exists>p n' fs'. create_scratch_dir plain_kernel (\<lambda>i fs. fs) Map.empty 42 0 Map.empty = (Inr p, n', fs') \<and>
    is_private_dir p 1000 fs'"
proof -
  obtain r n' fs' where run: "create_scratch_dir plain_kernel (\<lambda>i fs. fs) Map.empty 42 0 Map.empty = (r, n', fs')"
    by (metis prod_cases3)
  have st: "\<And>i :: nat. sticky (k_uid plain_kernel) ((\<lambda>i fs. fs) i)"
    by (simp add: sticky_def)
  let ?base = "path_push ''/tmp'' (SCRATCH_DIR_NAME @ ''-'' @ show_nat 1000)"
  let ?fs1 = "Map.empty(?base \<mapsto> \<lparr> n_kind = KDir, n_uid = 1000, n_mode = 448 \<rparr>)"
  have base: "private_base plain_kernel (\<lambda>i fs. fs) (Map.empty ''XDG_RUNTIME_DIR'') SCRATCH_FALLBACK_ROOT
      (k_uid plain_kernel) Map.empty = (Inr ?base, ?fs1)"
    by (simp add: private_base_def ensure_private_scratch_def mkdir_def plain_kernel_def Let_def is_private_dir_def
        PRIVATE_MODE_def GROUP_OTHER_BITS_def SCRATCH_FALLBACK_ROOT_def)
  have free: "?fs1 (seq_name ?base 42 0 0) = None"
    by (simp add: seq_name_def path_push_def run_name_def)
  note spec = scratch_dir_private [OF st run]
  from spec [THEN conjunct2] base free obtain p where p: "r = Inr p"
    by (fastforce simp: plain_kernel_def)
  with spec [THEN conjunct1] run show ?thesis
    by (auto simp: plain_kernel_def)
qed

end
