(* ===== verification/Transcode.thy ===== *)
theory Transcode
  imports Sandbox
begin

text \<open>
  \<^verbatim>\<open>crates/image/src/transcode.rs\<close> on top of \<^verbatim>\<open>crates/image/src/magick.rs\<close>: the argument vector of the
  converter, its run in a private scratch directory, and the check of what it wrote. Seconds are
  naturals. The converter is the argument \<open>exec\<close> of the pipeline; \<open>scratch\<close> is the outcome of making the
  scratch directory.
\<close>

section \<open>Formats\<close>

datatype input_format = Png | Jpeg | Gif | Webp | Bmp

fun pinned_input :: "input_format \<Rightarrow> string" where
  "pinned_input Png = ''png:-[0]''"
| "pinned_input Jpeg = ''jpeg:-[0]''"
| "pinned_input Gif = ''gif:-[0]''"
| "pinned_input Webp = ''webp:-[0]''"
| "pinned_input Bmp = ''bmp:-[0]''"

definition format_names :: "(string \<times> input_format) list" where
  "format_names =
     [(''image/png'', Png), (''image/jpeg'', Jpeg), (''image/jpg'', Jpeg), (''image/gif'', Gif),
      (''image/webp'', Webp), (''image/bmp'', Bmp), (''image/x-ms-bmp'', Bmp)]"

definition from_mime :: "string \<Rightarrow> input_format option" where
  "from_mime mime =
     (let base = mime_base mime
      in map_option snd (find (\<lambda>(name, _). eq_ignore_ascii_case base name) format_names))"

definition sniff :: "bytes \<Rightarrow> input_format option" where
  "sniff header = Option.bind (detect_image_mime header) from_mime"

record quality =
  q_raw :: nat

definition quality_new :: "nat \<Rightarrow> quality" where
  "quality_new raw = \<lparr> q_raw = max IMAGE_QUALITY_MIN (min raw IMAGE_QUALITY_MAX) \<rparr>"

definition quality_default :: quality where
  "quality_default = quality_new IMAGE_QUALITY_DEFAULT"

datatype output_format = OutPng | WebpLossless | WebpLossy quality

fun output_mime :: "output_format \<Rightarrow> string" where
  "output_mime OutPng = ''image/png''"
| "output_mime WebpLossless = ''image/webp''"
| "output_mime (WebpLossy q) = ''image/webp''"

record transcode =
  tc_input :: input_format
  tc_output :: output_format

section \<open>The argument vector\<close>

text \<open>\<^verbatim>\<open>parse_secs\<close> saturates at \<^verbatim>\<open>u64::MAX\<close>, which is also its answer to anything but digits.\<close>

fun parse_secs_from :: "nat \<Rightarrow> bytes \<Rightarrow> nat" where
  "parse_secs_from secs [] = secs"
| "parse_secs_from secs (digit # tail) =
     (if \<not> is_digit digit then u64_max
      else parse_secs_from (sat_add (min (secs * 10) u64_max) (byte_val digit - 48)) tail)"

definition parse_secs :: "string \<Rightarrow> nat" where
  "parse_secs text = (if text = [] then u64_max else parse_secs_from 0 text)"

text \<open>The converter's own limit must end it before the watchdog does: an assertion the compiler checks.\<close>

definition time_limit_assertion :: bool where
  "time_limit_assertion \<longleftrightarrow> 1 \<le> parse_secs IMAGE_LIMIT_TIME_SECS \<and> parse_secs IMAGE_LIMIT_TIME_SECS < IMAGE_TRANSCODE_TIMEOUT_SECS"

definition LIMITS :: "(string \<times> string) list" where
  "LIMITS =
     [(''width'', IMAGE_LIMIT_WIDTH_PX), (''height'', IMAGE_LIMIT_HEIGHT_PX), (''memory'', IMAGE_LIMIT_MEMORY),
      (''map'', IMAGE_LIMIT_MAP), (''disk'', IMAGE_LIMIT_DISK), (''time'', IMAGE_LIMIT_TIME_SECS)]"

definition ARGS_CAPACITY :: nat where
  "ARGS_CAPACITY = length LIMITS * 3 + 3 + 5"

definition PNG_COMPRESSION_ARG :: string where "PNG_COMPRESSION_ARG = ''png:compression-level=1''"
definition PNG_EXCLUDE_TIME_ARG :: string where "PNG_EXCLUDE_TIME_ARG = ''png:exclude-chunk=tIME''"
definition LOSSLESS_QUALITY_ARG :: string where "LOSSLESS_QUALITY_ARG = ''100''"

definition encoder_args :: "output_format \<Rightarrow> string list" where
  "encoder_args out =
     (case out of
        OutPng \<Rightarrow> [''-define'', PNG_COMPRESSION_ARG, ''-define'', PNG_EXCLUDE_TIME_ARG, ''png:-'']
      | WebpLossless \<Rightarrow> [''-define'', ''webp:lossless=true'', ''-quality'', LOSSLESS_QUALITY_ARG, ''webp:-'']
      | WebpLossy q \<Rightarrow> [''-define'', ''webp:lossless=false'', ''-quality'', show_nat (q_raw q), ''webp:-''])"

definition transcode_args :: "transcode \<Rightarrow> string list" where
  "transcode_args job =
     concat (map (\<lambda>(name, val). [''-limit'', name, val]) LIMITS) @
     [pinned_input (tc_input job), ''-auto-orient'', ''-strip''] @ encoder_args (tc_output job)"

text \<open>The compile-time assertion on the two time limits.\<close>

lemma inner_limit_fires_first: time_limit_assertion
  by (simp add: time_limit_assertion_def parse_secs_def is_digit_def byte_val_def sat_add_def u64_max_def const_defs)

section \<open>Running the converter\<close>

definition run_isolated ::
    "host \<Rightarrow> exec \<Rightarrow> string \<Rightarrow> io_error + path \<Rightarrow> string list \<Rightarrow> reader \<Rightarrow> wr_answer list \<Rightarrow> io_error option \<Rightarrow>
     bytes \<Rightarrow> nat option \<Rightarrow> (pipeline_error + transfer_counts) \<times> bytes" where
  "run_isolated h exec program scratch args input answers flush output timeout =
     (case scratch of
        Inl e \<Rightarrow> (Inl (EIsolation e), output)
      | Inr dir \<Rightarrow>
          run_filter_in_env h exec program args (child_env_of (h_inherited h) (Some dir)) input answers flush
            output timeout)"

definition run_file_with_timeout ::
    "host \<Rightarrow> exec \<Rightarrow> io_error + bool \<Rightarrow> bool \<Rightarrow> io_error + path \<Rightarrow> string list \<Rightarrow> bytes \<Rightarrow> file_sink \<Rightarrow> nat \<Rightarrow>
     (pipeline_error + transfer_counts) \<times> file_sink" where
  "run_file_with_timeout h exec is_pipe pipe_ok scratch args input snk timeout =
     (case scratch of
        Inl e \<Rightarrow> (Inl (EIsolation e), snk)
      | Inr dir \<Rightarrow>
          run_filter_file_in_env h exec is_pipe pipe_ok MAGICK_PROGRAM args
            (child_env_of (h_inherited h) (Some dir)) input snk (Some timeout))"

text \<open>The scratch directory is made before the run and dropped after it, however the run ends.\<close>

definition with_scratch :: "(io_error + path \<Rightarrow> 'r) \<Rightarrow> (path \<Rightarrow> bool) \<Rightarrow> (io_error + path) \<times> nodes \<Rightarrow> 'r \<times> nodes" where
  "with_scratch run keeps scr =
     (run (fst scr), case fst scr of Inl _ \<Rightarrow> snd scr | Inr dir \<Rightarrow> scratch_drop keeps dir (snd scr))"

definition transcode_stream ::
    "host \<Rightarrow> exec \<Rightarrow> io_error + path \<Rightarrow> transcode \<Rightarrow> reader \<Rightarrow> wr_answer list \<Rightarrow> io_error option \<Rightarrow> bytes \<Rightarrow>
     (pipeline_error + transfer_counts) \<times> bytes" where
  "transcode_stream h exec scratch job input answers flush output =
     run_isolated h exec MAGICK_PROGRAM scratch (transcode_args job) input answers flush output
       (Some IMAGE_TRANSCODE_TIMEOUT_SECS)"

definition SIGNATURE_PROBE_BYTES :: nat where "SIGNATURE_PROBE_BYTES = 32"

definition bad_signature :: "output_format \<Rightarrow> pipeline_error" where
  "bad_signature target =
     EFailed (Some 0)
       (''converter exited successfully but its output is not a '' @ output_mime target @ '' image'')"

text \<open>\<open>read_err\<close> is the answer of the positioned read.\<close>

definition check_signature :: "io_error option \<Rightarrow> output_format \<Rightarrow> bytes \<Rightarrow> pipeline_error + unit" where
  "check_signature read_err target file =
     (case read_err of
        Some e \<Rightarrow> Inl (ESink e)
      | None \<Rightarrow>
          (let head = take SIGNATURE_PROBE_BYTES file
           in if 0 < length head \<and> detect_image_mime head = Some (output_mime target) then Inr ()
              else Inl (bad_signature target)))"

definition transcode_file ::
    "host \<Rightarrow> exec \<Rightarrow> io_error + bool \<Rightarrow> bool \<Rightarrow> io_error + path \<Rightarrow> io_error option \<Rightarrow> transcode \<Rightarrow> bytes \<Rightarrow> file_sink \<Rightarrow>
     (pipeline_error + transfer_counts) \<times> file_sink" where
  "transcode_file h exec is_pipe pipe_ok scratch read_err job input snk =
     (case run_file_with_timeout h exec is_pipe pipe_ok scratch (transcode_args job) input snk
             IMAGE_TRANSCODE_TIMEOUT_SECS of
        (Inl e, snk') \<Rightarrow> (Inl e, snk')
      | (Inr t, snk') \<Rightarrow> (try_bind (check_signature read_err (tc_output job) (snk_file snk')) (\<lambda>_. Inr t), snk'))"

section \<open>Only constants reach the converter\<close>

text \<open>The position of a token; every token of interest occurs once.\<close>

definition index_of :: "'a \<Rightarrow> 'a list \<Rightarrow> nat" where
  "index_of x xs = length (takeWhile (\<lambda>y. y \<noteq> x) xs)"

definition quality_ok :: "output_format \<Rightarrow> bool" where
  "quality_ok out = (case out of WebpLossy q \<Rightarrow> IMAGE_QUALITY_MIN \<le> q_raw q \<and> q_raw q \<le> IMAGE_QUALITY_MAX | _ \<Rightarrow> True)"

lemma quality_new_ok: "quality_ok (WebpLossy (quality_new raw))"
  by (simp add: quality_ok_def quality_new_def const_defs)

text \<open>The vector handed to the converter starts with all six resource limits, then pins one raster decoder
  to the first frame of its standard input, then orients before it strips, and ends in writing the
  target format to the standard output; it fits the reserved capacity, and the one number in it is a
  quality between 1 and 100. No byte of the payload or its label is in it.\<close>

lemma transcode_args_safe:
  assumes "quality_ok (tc_output job)"
  shows "length (transcode_args job) \<le> ARGS_CAPACITY \<and>
    take 18 (transcode_args job) =
      [''-limit'', ''width'', ''16384'', ''-limit'', ''height'', ''16384'', ''-limit'', ''memory'', ''256MiB'',
       ''-limit'', ''map'', ''512MiB'', ''-limit'', ''disk'', ''1GiB'', ''-limit'', ''time'', ''10''] \<and>
    transcode_args job ! 18 \<in> {''png:-[0]'', ''jpeg:-[0]'', ''gif:-[0]'', ''webp:-[0]'', ''bmp:-[0]''} \<and>
    index_of ''-auto-orient'' (transcode_args job) < index_of ''-strip'' (transcode_args job) \<and>
    index_of ''-strip'' (transcode_args job) < length (transcode_args job) - 1 \<and>
    last (transcode_args job) = (if output_mime (tc_output job) = ''image/png'' then ''png:-'' else ''webp:-'') \<and>
    set (drop 19 (transcode_args job)) \<subseteq>
      {''-auto-orient'', ''-strip'', ''-define'', ''-quality'', ''png:-'', ''webp:-'', PNG_COMPRESSION_ARG,
       PNG_EXCLUDE_TIME_ARG, ''webp:lossless=true'', ''webp:lossless=false''} \<union> show_nat ` {1..100}"
proof -
  have "show_nat 100 = ''100''" by code_simp
  then have "''100'' \<in> show_nat ` {1..100}" by (intro image_eqI [of _ _ 100]) simp_all
  then show ?thesis
    using assms
    by (cases "tc_input job"; cases "tc_output job")
      (auto simp: transcode_args_def LIMITS_def encoder_args_def ARGS_CAPACITY_def index_of_def quality_ok_def
        LOSSLESS_QUALITY_ARG_def const_defs)
qed

theorem transcode_args_witness:
  "last (transcode_args \<lparr> tc_input = Png, tc_output = WebpLossy (quality_new 255) \<rparr>) = ''webp:-''"
  using transcode_args_safe [of "\<lparr> tc_input = Png, tc_output = WebpLossy (quality_new 255) \<rparr>"]
  by (simp add: quality_new_ok)


section \<open>What a successful conversion leaves behind\<close>

lemma check_signature_ok:
  "check_signature read_err target file = Inr u \<longleftrightarrow>
    read_err = None \<and> file \<noteq> [] \<and> detect_image_mime (take SIGNATURE_PROBE_BYTES file) = Some (output_mime target)"
  by (auto simp: check_signature_def Let_def SIGNATURE_PROBE_BYTES_def split: option.splits if_splits)

lemma run_file_ok:
  assumes "snk_limit snk < u64_max"
    and "run_file_with_timeout h exec is_pipe pipe_ok scratch args input snk timeout = (Inr t, snk')"
  obtains dir c where "scratch = Inr dir"
    "exec \<lparr> cmd_program = MAGICK_PROGRAM, cmd_args = args,
       cmd_env = env_apply (child_env_of (h_inherited h) (Some dir)) (h_inherited h) \<rparr> input = Inr c"
    "ch_status c = Inr (Exited 0)" "\<not> ch_overruns c"
    "snk_file snk' = snk_file snk @ stream_bytes (ch_stdout c)"
    "snk_tap snk' = snk_tap snk @ stream_bytes (ch_stdout c)" "bytes_out t = length (stream_bytes (ch_stdout c))"
  using assms
  by (auto simp: run_file_with_timeout_def split: sum.splits dest!: filter_file_ok [OF assms(1)])

text \<open>C30: A conversion into a fresh file that reports success has run the pinned converter in its scratch
  directory on exactly the payload, the converter exited with status 0 in time, the file holds exactly
  its output, the fingerprint tap saw exactly the same bytes, and they carry the signature of the
  promised format.\<close>

theorem transcode_file_valid:
  assumes "transcode_file h exec is_pipe pipe_ok scratch read_err job input
      \<lparr> snk_file = [], snk_limit = limit, snk_tap = [] \<rparr> = (Inr t, snk')"
    and "limit < u64_max"
  shows "\<exists>dir c. scratch = Inr dir \<and>
    exec \<lparr> cmd_program = ''magick'', cmd_args = transcode_args job,
      cmd_env = [''MAGICK_TEMPORARY_PATH'' \<mapsto> dir, ''TMPDIR'' \<mapsto> dir](''PATH'' := h_inherited h ''PATH'') \<rparr> input = Inr c \<and>
    ch_status c = Inr (Exited 0) \<and> \<not> ch_overruns c \<and>
    snk_file snk' = stream_bytes (ch_stdout c) \<and> snk_tap snk' = snk_file snk' \<and>
    bytes_out t = length (snk_file snk') \<and> snk_file snk' \<noteq> [] \<and>
    detect_image_mime (take SIGNATURE_PROBE_BYTES (snk_file snk')) = Some (output_mime (tc_output job))"
proof -
  let ?snk = "\<lparr> snk_file = [], snk_limit = limit, snk_tap = [] \<rparr>"
  have run: "run_file_with_timeout h exec is_pipe pipe_ok scratch (transcode_args job) input ?snk
        IMAGE_TRANSCODE_TIMEOUT_SECS = (Inr t, snk')"
    and sig: "check_signature read_err (tc_output job) (snk_file snk') = Inr ()"
    using assms(1) by (auto simp: transcode_file_def try_bind_Inr_iff split: prod.splits sum.splits)
  have lim: "snk_limit ?snk < u64_max" using assms(2) by simp
  show ?thesis
    by (rule run_file_ok [OF lim run])
      (use sig in \<open>auto simp: check_signature_ok env_exact MAGICK_PROGRAM_def\<close>)
qed

definition png_child :: child where
  "png_child = cat_child [CHR 0x89, CHR 0x50, CHR 0x4E, CHR 0x47]"

theorem transcode_file_witness:
  "let png = [CHR 0x89, CHR 0x50, CHR 0x4E, CHR 0x47] in
   transcode_file good_host (\<lambda>cmd d. Inr png_child) (Inr True) True (Inr ''/run/y4p'') None
      \<lparr> tc_input = Bmp, tc_output = OutPng \<rparr> ''BM'' \<lparr> snk_file = [], snk_limit = 9, snk_tap = [] \<rparr> =
    (Inr \<lparr> bytes_in = 2, bytes_out = 4 \<rparr>, \<lparr> snk_file = png, snk_limit = 9, snk_tap = png \<rparr>) \<and>
   detect_image_mime (take SIGNATURE_PROBE_BYTES png) = Some ''image/png''"
proof -
  let ?png = "[CHR 0x89, CHR 0x50, CHR 0x4E, CHR 0x47]"
  let ?snk = "\<lparr> snk_file = [], snk_limit = 9, snk_tap = [] \<rparr>"
  have run: "transcode_file good_host (\<lambda>cmd d. Inr png_child) (Inr True) True (Inr ''/run/y4p'') None
      \<lparr> tc_input = Bmp, tc_output = OutPng \<rparr> ''BM'' ?snk =
    (Inr \<lparr> bytes_in = 2, bytes_out = 4 \<rparr>, \<lparr> snk_file = ?png, snk_limit = 9, snk_tap = ?png \<rparr>)"
    by (simp add: transcode_file_def run_file_with_timeout_def run_filter_file_in_env_def run_filter_inner_def
        good_host_def png_child_def cat_child_def worker_refused_def is_stream_def stdin_bytes_def verdict_def
        fed_count_def feeder_result_def join_worker_def exit_verdict_def status_success_def counts_def file_drain_def
        copy_to_file_def copy_start_def kernel_loop.simps kernel_round_def tee_once_def tap_round.simps
        splice_exact.simps splice_once_def next_failure_def finish_def descriptor_len_def allowance_def sat_add_def
        u64_max_def check_signature_def detect_image_mime_def SIGNATURE_PROBE_BYTES_def const_defs)
  from transcode_file_valid [OF run] run show ?thesis
    by (auto simp: u64_max_def Let_def)
qed

end
