(* ===== verification/Breaker.thy ===== *)
theory Breaker
  imports Constants
begin

text \<open>
  \<^verbatim>\<open>crates/image/src/breaker.rs\<close>: the circuit breaker in front of the external converter. Its operations
  are functions of the breaker and the current instant; the protocol (permits taken, resolved or
  dropped by concurrent callers in any order) is a step relation on the breaker and the permits that
  are out. An unresolved permit that is dropped reports a failure, as its \<^verbatim>\<open>Drop\<close> does.
\<close>

section \<open>Operations\<close>

datatype breaker_state = SClosed | SOpen | SHalfOpen

datatype inner = BClosed nat | BOpen nat | BHalfOpen bool

record circuit_breaker =
  br_inner :: inner
  br_threshold :: nat
  br_cooldown :: nat

datatype outcome = Success | Failure | Neutral

datatype permit_outcome = PSuccess | PFailure | PRelease

record permit =
  pm_canary :: bool
  pm_resolved :: bool

definition permit_new :: "bool \<Rightarrow> permit" where
  "permit_new canary = \<lparr> pm_canary = canary, pm_resolved = False \<rparr>"

definition breaker_new :: "nat \<Rightarrow> nat \<Rightarrow> circuit_breaker" where
  "breaker_new threshold cooldown =
     \<lparr> br_inner = BClosed 0, br_threshold = (if threshold = 0 then 1 else threshold), br_cooldown = cooldown \<rparr>"

definition breaker_state_of :: "circuit_breaker \<Rightarrow> breaker_state" where
  "breaker_state_of b =
     (case br_inner b of BClosed _ \<Rightarrow> SClosed | BOpen _ \<Rightarrow> SOpen | BHalfOpen _ \<Rightarrow> SHalfOpen)"

definition acquire_at :: "nat \<Rightarrow> circuit_breaker \<Rightarrow> permit option \<times> circuit_breaker" where
  "acquire_at now b =
     (case br_inner b of
        BClosed _ \<Rightarrow> (Some (permit_new False), b)
      | BOpen until \<Rightarrow>
          if until \<le> now then (Some (permit_new True), b\<lparr> br_inner := BHalfOpen True \<rparr>) else (None, b)
      | BHalfOpen probe_in_flight \<Rightarrow>
          if probe_in_flight then (None, b)
          else (Some (permit_new True), b\<lparr> br_inner := BHalfOpen True \<rparr>))"

definition u32_max :: nat where "u32_max = 2 ^ 32 - 1"

lemma u32_max_code [code_unfold]: "min n u32_max = (if int n \<le> 4294967295 then n else u32_max)"
  by (auto simp: u32_max_def min_def)

definition breaker_resolve :: "bool \<Rightarrow> outcome \<Rightarrow> nat \<Rightarrow> circuit_breaker \<Rightarrow> (bool \<times> bool) \<times> circuit_breaker" where
  "breaker_resolve canary outcome now b =
     (case (br_inner b, canary) of
        (BClosed failures, False) \<Rightarrow>
          (case outcome of
             Success \<Rightarrow> ((False, False), b\<lparr> br_inner := BClosed 0 \<rparr>)
           | Neutral \<Rightarrow> ((False, False), b)
           | Failure \<Rightarrow>
               if br_threshold b \<le> min (failures + 1) u32_max
               then ((True, False), b\<lparr> br_inner := BOpen (now + br_cooldown b) \<rparr>)
               else ((False, False), b\<lparr> br_inner := BClosed (failures + 1) \<rparr>))
      | (BHalfOpen True, True) \<Rightarrow>
          (case outcome of
             Success \<Rightarrow> ((False, True), b\<lparr> br_inner := BClosed 0 \<rparr>)
           | Failure \<Rightarrow> ((True, False), b\<lparr> br_inner := BOpen (now + br_cooldown b) \<rparr>)
           | Neutral \<Rightarrow> ((False, False), b\<lparr> br_inner := BHalfOpen False \<rparr>))
      | _ \<Rightarrow> ((False, False), b))"

text \<open>\<^verbatim>\<open>Drop for Permit\<close>: one that was not resolved counts as a failure.\<close>

definition permit_drop :: "permit \<Rightarrow> nat \<Rightarrow> circuit_breaker \<Rightarrow> circuit_breaker" where
  "permit_drop p now b = (if pm_resolved p then b else snd (breaker_resolve (pm_canary p) Failure now b))"

text \<open>
  The calls that consume a permit: \<^verbatim>\<open>finish\<close> marks it before it reports to the breaker, and the permit is dropped when the call ends.
\<close>

definition permit_finish :: "permit \<Rightarrow> outcome \<Rightarrow> nat \<Rightarrow> circuit_breaker \<Rightarrow> (bool \<times> bool) \<times> circuit_breaker" where
  "permit_finish p outcome now b =
     (let p' = p\<lparr> pm_resolved := True \<rparr>
      in case breaker_resolve (pm_canary p') outcome now b of (r, b') \<Rightarrow> (r, permit_drop p' now b'))"

definition resolve_at :: "permit \<Rightarrow> permit_outcome \<Rightarrow> nat \<Rightarrow> circuit_breaker \<Rightarrow> (bool \<times> bool) \<times> circuit_breaker" where
  "resolve_at p po now b =
     permit_finish p (case po of PSuccess \<Rightarrow> Success | PFailure \<Rightarrow> Failure | PRelease \<Rightarrow> Neutral) now b"

lemma permit_finish_once [simp]: "permit_finish p outcome now b = breaker_resolve (pm_canary p) outcome now b"
  by (simp add: permit_finish_def permit_drop_def)

text \<open>The calls that read the clock themselves; \<open>now\<close> is what it says.\<close>

definition breaker_acquire :: "nat \<Rightarrow> circuit_breaker \<Rightarrow> permit option \<times> circuit_breaker" where
  "breaker_acquire now b = acquire_at now b"

definition permit_resolve :: "permit \<Rightarrow> permit_outcome \<Rightarrow> nat \<Rightarrow> circuit_breaker \<Rightarrow> (bool \<times> bool) \<times> circuit_breaker" where
  "permit_resolve p po now b = resolve_at p po now b"

definition permit_success :: "permit \<Rightarrow> nat \<Rightarrow> circuit_breaker \<Rightarrow> bool \<times> circuit_breaker" where
  "permit_success p now b = (case permit_finish p Success now b of ((_, recovered), b') \<Rightarrow> (recovered, b'))"

definition permit_failure_at :: "permit \<Rightarrow> nat \<Rightarrow> circuit_breaker \<Rightarrow> bool \<times> circuit_breaker" where
  "permit_failure_at p now b = (case permit_finish p Failure now b of ((tripped, _), b') \<Rightarrow> (tripped, b'))"

definition permit_failure :: "permit \<Rightarrow> nat \<Rightarrow> circuit_breaker \<Rightarrow> bool \<times> circuit_breaker" where
  "permit_failure p now b = permit_failure_at p now b"

definition permit_release :: "permit \<Rightarrow> nat \<Rightarrow> circuit_breaker \<Rightarrow> circuit_breaker" where
  "permit_release p now b = snd (permit_finish p Neutral now b)"

section \<open>The protocol\<close>

inductive breaker_step :: "circuit_breaker \<times> permit multiset \<Rightarrow> circuit_breaker \<times> permit multiset \<Rightarrow> bool" where
  step_acquire: "acquire_at now b = (Some p, b') \<Longrightarrow> breaker_step (b, out) (b', add_mset p out)"
| step_skip: "acquire_at now b = (None, b') \<Longrightarrow> breaker_step (b, out) (b', out)"
| step_resolve: "p \<in># out \<Longrightarrow> breaker_step (b, out) (snd (resolve_at p po now b), out - {#p#})"
| step_drop: "p \<in># out \<Longrightarrow> breaker_step (b, out) (permit_drop p now b, out - {#p#})"

inductive breaker_reach :: "nat \<Rightarrow> nat \<Rightarrow> circuit_breaker \<times> permit multiset \<Rightarrow> bool" for threshold cooldown where
  reach_new: "breaker_reach threshold cooldown (breaker_new threshold cooldown, {#})"
| reach_next: "breaker_reach threshold cooldown c \<Longrightarrow> breaker_step c c' \<Longrightarrow> breaker_reach threshold cooldown c'"

definition canaries :: "permit multiset \<Rightarrow> nat" where
  "canaries out = size (filter_mset pm_canary out)"

definition breaker_inv :: "nat \<Rightarrow> nat \<Rightarrow> circuit_breaker \<Rightarrow> permit multiset \<Rightarrow> bool" where
  "breaker_inv threshold cooldown b out \<longleftrightarrow>
     br_threshold b = max 1 threshold \<and> br_cooldown b = cooldown \<and>
     canaries out = (if br_inner b = BHalfOpen True then 1 else 0) \<and>
     (\<forall>f. br_inner b = BClosed f \<longrightarrow> f < br_threshold b) \<and> (\<forall>p. p \<in># out \<longrightarrow> \<not> pm_resolved p)"

lemma canaries_add: "canaries (add_mset p out) = canaries out + (if pm_canary p then 1 else 0)"
  by (simp add: canaries_def)

lemma canaries_remove: "p \<in># out \<Longrightarrow> canaries (out - {#p#}) = canaries out - (if pm_canary p then 1 else 0)"
  by (auto dest!: multi_member_split simp: canaries_def)

lemma canary_out: "p \<in># out \<Longrightarrow> pm_canary p \<Longrightarrow> 0 < canaries out"
  by (auto dest!: multi_member_split simp: canaries_def)

lemma acquire_inv:
  assumes "breaker_inv t c b out" and "acquire_at now b = (q, b')"
  shows "breaker_inv t c b' (case q of None \<Rightarrow> out | Some p \<Rightarrow> add_mset p out)"
  using assms
  by (auto simp: acquire_at_def permit_new_def breaker_inv_def canaries_add split: inner.splits if_splits)

lemma resolve_inv:
  assumes inv: "breaker_inv t c b out" and p: "p \<in># out" and small: "t \<le> u32_max"
  shows "breaker_inv t c (snd (breaker_resolve (pm_canary p) oc now b)) (out - {#p#})"
proof (cases "pm_canary p")
  case True
  with inv canary_out [OF p True] have "br_inner b = BHalfOpen True" "canaries out = 1"
    by (auto simp: breaker_inv_def split: if_splits)
  with inv True canaries_remove [OF p] show ?thesis
    by (auto simp: breaker_resolve_def breaker_inv_def dest: in_diffD split: outcome.splits)
next
  case False
  have "1 \<le> u32_max" by (simp add: u32_max_def)
  with inv False canaries_remove [OF p] small show ?thesis
    by (auto simp: breaker_resolve_def breaker_inv_def max_def dest: in_diffD split: outcome.splits inner.splits bool.splits if_splits)
qed

text \<open>Every way of using a permit is a step of the protocol.\<close>

lemma permit_calls_step:
  assumes "p \<in># out"
  shows "breaker_step (b, out) (snd (permit_success p now b), out - {#p#})"
    and "breaker_step (b, out) (snd (permit_failure_at p now b), out - {#p#})"
    and "breaker_step (b, out) (snd (permit_failure p now b), out - {#p#})"
    and "breaker_step (b, out) (snd (permit_resolve p po now b), out - {#p#})"
    and "breaker_step (b, out) (permit_release p now b, out - {#p#})"
  using step_resolve [OF assms, of b PSuccess now] step_resolve [OF assms, of b PFailure now] step_resolve [OF assms, of b PRelease now]
    step_resolve [OF assms, of b po now]
  by (auto simp: permit_failure_def permit_resolve_def permit_success_def permit_failure_at_def permit_release_def permit_finish_once resolve_at_def split: prod.splits)

lemma permit_reports:
  "fst (permit_success p now b) \<longleftrightarrow> br_inner b = BHalfOpen True \<and> pm_canary p"
  "fst (permit_failure_at p now b) \<longleftrightarrow>
     br_inner (snd (permit_failure_at p now b)) = BOpen (now + br_cooldown b) \<and> (\<exists>c. br_inner b = BClosed c \<and> \<not> pm_canary p \<or> br_inner b = BHalfOpen True \<and> pm_canary p)"
  by (auto simp: permit_success_def permit_failure_at_def permit_finish_once breaker_resolve_def split: inner.splits prod.splits bool.splits)

lemma breaker_step_inv:
  assumes "breaker_step (b, out) (b', out')" and "breaker_inv t c b out" and "t \<le> u32_max"
  shows "breaker_inv t c b' out'"
  using assms(1)
proof (cases rule: breaker_step.cases)
  case (step_acquire now p)
  then show ?thesis using acquire_inv [OF assms(2)] by fastforce
next
  case (step_skip now)
  then show ?thesis using acquire_inv [OF assms(2)] by fastforce
next
  case (step_resolve p po now)
  then show ?thesis using resolve_inv [OF assms(2) _ assms(3)] by (auto simp: resolve_at_def permit_finish_once)
next
  case (step_drop p now)
  then have "\<not> pm_resolved p" using assms(2) by (simp add: breaker_inv_def)
  with step_drop show ?thesis using resolve_inv [OF assms(2) _ assms(3)] by (simp add: permit_drop_def)
qed

lemma breaker_reach_inv:
  assumes "t \<le> u32_max"
  shows "breaker_reach t c (b, out) \<Longrightarrow> breaker_inv t c b out"
proof (induction "(b, out)" arbitrary: b out rule: breaker_reach.induct)
  case reach_new
  then show ?case by (simp add: breaker_new_def breaker_inv_def canaries_def max_def)
next
  case (reach_next c0)
  then show ?case using breaker_step_inv [OF _ _ assms] by (cases c0) auto
qed

text \<open>in every interleaving of callers that take, resolve, release or drop permits, at most one canary
  is out, one is out exactly while the half-open breaker waits for it (so a forgotten canary cannot
  wedge the breaker: dropping it reopens), and a closed breaker has counted fewer failures than its
  threshold.\<close>

lemma breaker_single_canary:
  assumes "breaker_reach t c (b, out)" and "t \<le> u32_max"
  shows "canaries out \<le> 1 \<and> (canaries out = 1 \<longleftrightarrow> br_inner b = BHalfOpen True) \<and>
    (\<forall>p. p \<in># out \<and> pm_canary p \<longrightarrow>
       br_inner (permit_drop p now b) = BOpen (now + c)) \<and>
    (\<forall>f. br_inner b = BClosed f \<longrightarrow> f < max 1 t)"
proof -
  have inv: "breaker_inv t c b out" by (rule breaker_reach_inv [OF assms(2,1)])
  have "br_inner (permit_drop p now b) = BOpen (now + c)" if "p \<in># out" "pm_canary p" for p
  proof -
    have "br_inner b = BHalfOpen True" using inv canary_out [OF that] by (auto simp: breaker_inv_def split: if_splits)
    with that inv show ?thesis by (simp add: permit_drop_def breaker_resolve_def breaker_inv_def)
  qed
  with inv show ?thesis by (auto simp: breaker_inv_def split: if_splits)
qed

theorem breaker_single_canary_witness:
  "canaries {#permit_new False#} \<le> 1"
proof -
  have "breaker_reach 3 30 (breaker_new 3 30, add_mset (permit_new False) {#})"
    by (rule reach_next [OF reach_new step_acquire [of 0]]) (simp add: acquire_at_def breaker_new_def)
  from breaker_single_canary [OF this] show ?thesis by (simp add: u32_max_def)
qed

section \<open>Tripping and recovering\<close>

fun fail_times :: "nat \<Rightarrow> nat \<Rightarrow> circuit_breaker \<Rightarrow> circuit_breaker" where
  "fail_times 0 now b = b"
| "fail_times (Suc k) now b = snd (breaker_resolve False Failure now (fail_times k now b))"

lemma fail_times_frame:
  "br_threshold (fail_times k now b) = br_threshold b \<and> br_cooldown (fail_times k now b) = br_cooldown b"
  by (induction k) (auto simp: breaker_resolve_def split: inner.splits bool.splits)

lemma fail_times_counts:
  assumes "br_inner b = BClosed 0" and "br_threshold b \<le> u32_max" and "k < br_threshold b"
  shows "br_inner (fail_times k now b) = BClosed k"
  using assms(3)
proof (induction k)
  case (Suc k)
  then have IH: "br_inner (fail_times k now b) = BClosed k" by simp
  have "\<not> br_threshold (fail_times k now b) \<le> min (k + 1) u32_max"
    using Suc.prems assms(2) fail_times_frame [of k now b] by auto
  with IH show ?case by (simp add: breaker_resolve_def)
qed (simp add: assms(1))

text \<open>a closed breaker opens at exactly its threshold of consecutive failures, not before; it then
  refuses every attempt until the cooldown has passed; the first attempt after it is the canary, and
  a success of the canary closes the breaker with a clean count.\<close>

lemma breaker_trips_and_recovers:
  assumes "br_inner b = BClosed 0" and "0 < br_threshold b" and "br_threshold b \<le> u32_max"
    and "k < br_threshold b"
  shows "br_inner (fail_times k now b) = BClosed k \<and>
    (let open_b = fail_times (br_threshold b) now b in
       br_inner open_b = BOpen (now + br_cooldown b) \<and>
       (\<forall>t. t < now + br_cooldown b \<longrightarrow> acquire_at t open_b = (None, open_b)) \<and>
       (\<forall>t. now + br_cooldown b \<le> t \<longrightarrow>
          (case acquire_at t open_b of
             (Some p, half) \<Rightarrow> pm_canary p \<and> fst (acquire_at t half) = None \<and>
               br_inner (snd (resolve_at p PSuccess t half)) = BClosed 0
           | (None, _) \<Rightarrow> False)))"
proof -
  obtain m where m: "br_threshold b = Suc m" using assms(2) gr0_implies_Suc by blast
  have at: "br_inner (fail_times m now b) = BClosed m"
    by (rule fail_times_counts [OF assms(1,3)]) (simp add: m)
  have "br_inner (fail_times (br_threshold b) now b) = BOpen (now + br_cooldown b)"
    using at assms(3) fail_times_frame [of m now b] by (simp add: m breaker_resolve_def)
  then show ?thesis
    using fail_times_counts [OF assms(1,3,4)]
    by (auto simp: Let_def acquire_at_def permit_new_def resolve_at_def breaker_resolve_def)
qed

theorem breaker_trips_witness:
  "br_inner (fail_times 2 7 (breaker_new 3 30)) = BClosed 2 \<and>
   br_inner (fail_times 3 7 (breaker_new 3 30)) = BOpen 37"
  using breaker_trips_and_recovers [of "breaker_new 3 30" 2 7]
  by (simp add: breaker_new_def u32_max_def Let_def)

end
