(* ===== verification/Route.thy ===== *)
theory Route
  imports Transcode Permits Breaker
begin

text \<open>
  \<^verbatim>\<open>crates/image/src/route.rs\<close>: which payloads are converted, and one conversion attempt behind the
  circuit breaker and the process throttle. The converter is an argument that threads a state of its
  own through, so that "not called" is "its state is unchanged". The guards are shared by threads:
  \<open>others i\<close> is what the other threads do to them while this one waits for a slot (\<open>i = 0\<close>), while the
  converter runs (\<open>1\<close>) and before it reports (\<open>2\<close>). The last section runs any number of attempts at once.
\<close>

section \<open>Which payloads are converted\<close>

definition SNIFF_HEAD_BYTES :: nat where "SNIFF_HEAD_BYTES = 512"

fun ingest_target :: "input_format \<Rightarrow> output_format option" where
  "ingest_target Png = Some OutPng"
| "ingest_target Bmp = Some OutPng"
| "ingest_target Jpeg = Some OutPng"
| "ingest_target Webp = Some OutPng"
| "ingest_target Gif = None"

definition classify :: "string \<Rightarrow> bytes \<Rightarrow> input_format option" where
  "classify mime payload =
     (let head = (if SNIFF_HEAD_BYTES \<le> length payload then take SNIFF_HEAD_BYTES payload else payload)
      in case detect_image_mime head of
           Some detected \<Rightarrow> from_mime detected
         | None \<Rightarrow> from_mime mime)"

definition plan :: "string \<Rightarrow> bytes \<Rightarrow> transcode option" where
  "plan mime head =
     (if head = [] then None
      else (case classify mime head of
              None \<Rightarrow> None
            | Some input \<Rightarrow>
                if input = Webp \<and> is_animated_webp head then None
                else map_option (\<lambda>out. \<lparr> tc_input = input, tc_output = out \<rparr>) (ingest_target input)))"

definition wants_transcode :: "string \<Rightarrow> bytes \<Rightarrow> bool" where
  "wants_transcode mime head \<longleftrightarrow> plan mime head \<noteq> None"

definition is_valid_output :: "output_format \<Rightarrow> bytes \<Rightarrow> bool" where
  "is_valid_output target converted \<longleftrightarrow>
     converted \<noteq> [] \<and> detect_image_mime converted = Some (output_mime target)"

definition is_converter_fault :: "pipeline_error \<Rightarrow> bool" where
  "is_converter_fault e \<longleftrightarrow>
     (case e of EFailed _ _ \<Rightarrow> True | ETimeout _ \<Rightarrow> True | EChild _ \<Rightarrow> True | _ \<Rightarrow> False)"

definition output_capacity_hint :: "nat \<Rightarrow> nat" where
  "output_capacity_hint input_len = min input_len IMAGE_OUTPUT_HINT_CAP_BYTES"

section \<open>One guarded attempt\<close>

record guards =
  gd_breaker :: circuit_breaker
  gd_throttle :: process_throttle

definition attempt_outcome :: "('t \<Rightarrow> bool) \<Rightarrow> pipeline_error + 't \<Rightarrow> permit_outcome \<times> 't option" where
  "attempt_outcome usable result =
     (case result of
        Inr converted \<Rightarrow> if usable converted then (PSuccess, Some converted) else (PFailure, None)
      | Inl e \<Rightarrow> if is_converter_fault e then (PFailure, None) else (PRelease, None))"

definition attempt_guarded ::
    "(nat \<Rightarrow> guards \<Rightarrow> guards) \<Rightarrow> nat \<Rightarrow> nat \<Rightarrow> ('s \<Rightarrow> (pipeline_error + 't) \<times> 's) \<Rightarrow> ('t \<Rightarrow> bool) \<Rightarrow> guards \<Rightarrow> 's \<Rightarrow>
     't option \<times> guards \<times> 's" where
  "attempt_guarded others now0 now1 attempt usable g s =
     (case acquire_at now0 (gd_breaker g) of
        (None, b) \<Rightarrow> (None, g\<lparr> gd_breaker := b \<rparr>, s)
      | (Some permit, b) \<Rightarrow>
          (let g1 = others 0 (g\<lparr> gd_breaker := b \<rparr>)
           in case throttle_acquire (gd_throttle g1) of
                None \<Rightarrow>
                  (None, g1\<lparr> gd_breaker := snd (resolve_at permit PRelease now1 (gd_breaker g1)) \<rparr>, s)
              | Some t \<Rightarrow>
                  (let g2 = others 1 (g1\<lparr> gd_throttle := t \<rparr>);
                       (result, s') = attempt s;
                       g3 = others 2 (g2\<lparr> gd_throttle := throttle_release (gd_throttle g2) \<rparr>);
                       (outcome, converted) = attempt_outcome usable result
                   in (converted,
                       g3\<lparr> gd_breaker := snd (resolve_at permit outcome now1 (gd_breaker g3)) \<rparr>, s'))))"

section \<open>Routing in memory and between files\<close>

text \<open>\<open>convert job input s\<close> answers with the result and what is in the output buffer.\<close>

definition route_with ::
    "(nat \<Rightarrow> guards \<Rightarrow> guards) \<Rightarrow> nat \<Rightarrow> nat \<Rightarrow>
     (transcode \<Rightarrow> bytes \<Rightarrow> 's \<Rightarrow> ((pipeline_error + transfer_counts) \<times> bytes) \<times> 's) \<Rightarrow>
     string \<Rightarrow> bytes \<Rightarrow> guards \<Rightarrow> 's \<Rightarrow> (string \<times> bytes) \<times> guards \<times> 's" where
  "route_with others now0 now1 convert mime payload g s =
     (case plan mime payload of
        None \<Rightarrow> ((mime, payload), g, s)
      | Some job \<Rightarrow>
          (case attempt_guarded others now0 now1
                  (\<lambda>s. case convert job payload s of ((r, out), s') \<Rightarrow> (try_bind r (\<lambda>_. Inr out), s'))
                  (is_valid_output (tc_output job)) g s of
             (Some converted, g', s') \<Rightarrow> ((output_mime (tc_output job), converted), g', s')
           | (None, g', s') \<Rightarrow> ((mime, payload), g', s')))"

datatype 't file_route = Original | Converted string 't

definition route_file_with ::
    "(nat \<Rightarrow> guards \<Rightarrow> guards) \<Rightarrow> nat \<Rightarrow> nat \<Rightarrow> (transcode \<Rightarrow> 's \<Rightarrow> (pipeline_error + 't) \<times> 's) \<Rightarrow>
     string \<Rightarrow> bytes \<Rightarrow> guards \<Rightarrow> 's \<Rightarrow> 't file_route \<times> guards \<times> 's" where
  "route_file_with others now0 now1 convert mime head g s =
     (case plan mime head of
        None \<Rightarrow> (Original, g, s)
      | Some job \<Rightarrow>
          (case attempt_guarded others now0 now1 (convert job) (\<lambda>_. True) g s of
             (Some out, g', s') \<Rightarrow> (Converted (output_mime (tc_output job)) out, g', s')
           | (None, g', s') \<Rightarrow> (Original, g', s')))"

section \<open>The real converter\<close>

text \<open>
  What the process remembers between calls: the cached availability probe, the two one-time warnings,
  and how many messages were printed and converters started.
\<close>

record conv_state =
  cv_available :: "bool option"
  cv_warned :: bool
  cv_warned_scratch :: bool
  cv_messages :: nat
  cv_runs :: nat

definition magick_is_available :: "bool \<Rightarrow> conv_state \<Rightarrow> bool \<times> conv_state" where
  "magick_is_available probe st =
     (case cv_available st of
        Some a \<Rightarrow> (a, st)
      | None \<Rightarrow> (probe, st\<lparr> cv_available := Some probe \<rparr>))"

definition is_isolation :: "pipeline_error + 't \<Rightarrow> bool" where
  "is_isolation r \<longleftrightarrow> (case r of Inl (EIsolation _) \<Rightarrow> True | _ \<Rightarrow> False)"

text \<open>\<open>run\<close> acts on the state \<open>s\<close> and is not called when the tool is missing.\<close>

definition converter_call ::
    "bool \<Rightarrow> ('s \<Rightarrow> (pipeline_error + 't) \<times> 's) \<Rightarrow> conv_state \<times> 's \<Rightarrow> (pipeline_error + 't) \<times> conv_state \<times> 's" where
  "converter_call probe run sts =
     (case magick_is_available probe (fst sts) of
        (False, st) \<Rightarrow>
          (Inl (ESpawn NotFound),
           if cv_warned st then st else st\<lparr> cv_warned := True, cv_messages := cv_messages st + 1 \<rparr>, snd sts)
      | (True, st0) \<Rightarrow>
          (let st = st0\<lparr> cv_runs := cv_runs st0 + 1 \<rparr>;
               (r, s') = run (snd sts)
           in (r,
               if is_isolation r \<and> \<not> cv_warned_scratch st
               then st\<lparr> cv_warned_scratch := True, cv_messages := cv_messages st + 1 \<rparr> else st,
               s')))"

definition BREAKER :: circuit_breaker where
  "BREAKER = breaker_new IMAGE_BREAKER_THRESHOLD IMAGE_BREAKER_COOLDOWN_SECS"

definition THROTTLE :: process_throttle where
  "THROTTLE = throttle_new IMAGE_CONCURRENCY_LIMIT IMAGE_THROTTLE_WAIT_MS"

definition route_for_ingest ::
    "host \<Rightarrow> exec \<Rightarrow> io_error + path \<Rightarrow> bool \<Rightarrow> (nat \<Rightarrow> guards \<Rightarrow> guards) \<Rightarrow> nat \<Rightarrow> nat \<Rightarrow> string \<Rightarrow> bytes \<Rightarrow> guards \<Rightarrow>
     conv_state \<Rightarrow> (string \<times> bytes) \<times> guards \<times> conv_state" where
  "route_for_ingest h exec scratch probe others now0 now1 mime payload g st =
     route_with others now0 now1
       (\<lambda>job input st.
          let (r, st', out) = converter_call probe (transcode_stream h exec scratch job [RdData input] [] None) (st, [])
          in ((r, out), st'))
       mime payload g st"

definition route_file_for_ingest ::
    "bool \<Rightarrow> (nat \<Rightarrow> guards \<Rightarrow> guards) \<Rightarrow> nat \<Rightarrow> nat \<Rightarrow> (transcode \<Rightarrow> 's \<Rightarrow> (pipeline_error + 't) \<times> 's) \<Rightarrow> string \<Rightarrow>
     bytes \<Rightarrow> guards \<Rightarrow> conv_state \<times> 's \<Rightarrow> 't file_route \<times> guards \<times> conv_state \<times> 's" where
  "route_file_for_ingest probe others now0 now1 convert mime head g sts =
     route_file_with others now0 now1 (\<lambda>job. converter_call probe (convert job)) mime head g sts"

section \<open>The decision is made by the first 512 bytes\<close>

lemma slice_take: "j \<le> n \<Longrightarrow> slice i j (take n d) = slice i j d"
  by (simp add: slice_def drop_take min_def)

lemma is_animated_webp_take: "21 \<le> n \<Longrightarrow> is_animated_webp (take n d) = is_animated_webp d"
  by (auto simp: is_animated_webp_def slice_take)

lemma classify_take: "SNIFF_HEAD_BYTES \<le> n \<Longrightarrow> classify mime (take n d) = classify mime d"
  by (auto simp: classify_def Let_def min_def)

lemma plan_take: "SNIFF_HEAD_BYTES \<le> n \<Longrightarrow> plan mime (take n d) = plan mime d"
  using is_animated_webp_take [of n d] classify_take [of n mime d]
  by (auto simp: plan_def SNIFF_HEAD_BYTES_def split: option.splits)

lemma from_mime_svg: "from_mime ''image/svg+xml'' = None"
  by code_simp

lemma from_mime_avif: "from_mime ''image/avif'' = None"
  by code_simp

lemma from_mime_gif: "from_mime ''image/gif'' = Some Gif"
  by code_simp


lemma from_mime_webp: "from_mime ''image/webp'' = Some Webp"
  by code_simp

lemma sniffed_head: "classify mime d = (case detect_image_mime (take SNIFF_HEAD_BYTES d) of
    Some detected \<Rightarrow> from_mime detected | None \<Rightarrow> from_mime mime)"
  by (auto simp: classify_def Let_def)

lemma animated_webp_detected:
  assumes "is_animated_webp d"
  shows "detect_image_mime (take SNIFF_HEAD_BYTES d) = Some ''image/webp''"
proof -
  have four: "take 4 d = ''RIFF''" using assms by (simp add: is_animated_webp_def slice_def)
  have "take 3 d = take 3 (take 4 d)" by simp
  then have "take 3 d = ''RIF''" unfolding four by simp
  with assms four show ?thesis
    by (auto simp: is_animated_webp_def detect_image_mime_def SNIFF_HEAD_BYTES_def Let_def min_def slice_def drop_take)
qed

lemma plan_Some:
  "plan mime d = Some job \<longleftrightarrow> d \<noteq> [] \<and> classify mime d = Some (tc_input job) \<and>
     \<not> (tc_input job = Webp \<and> is_animated_webp d) \<and> ingest_target (tc_input job) = Some (tc_output job)"
  by (cases job) (auto simp: plan_def split: option.splits)

lemma ingest_target_png: "ingest_target f = Some out \<longleftrightarrow> f \<noteq> Gif \<and> out = OutPng"
  by (cases f) auto

text \<open>What happens to a payload is decided by its first 512 bytes, and the bytes outrank the label: a
  payload whose bytes name an image is given to the decoder of that format or to none, so SVG, AVIF,
  GIF and animated WebP are never converted whatever they are announced as; only unrecognised bytes
  let the label decide; the target is always PNG.\<close>

lemma plan_by_first_bytes:
  "(\<forall>n. SNIFF_HEAD_BYTES \<le> n \<longrightarrow> plan mime (take n d) = plan mime d) \<and>
   (\<forall>job. plan mime d = Some job \<longrightarrow> tc_output job = OutPng \<and> tc_input job \<noteq> Gif \<and> d \<noteq> [] \<and>
      (case detect_image_mime (take SNIFF_HEAD_BYTES d) of
         Some detected \<Rightarrow> from_mime detected = Some (tc_input job)
       | None \<Rightarrow> from_mime mime = Some (tc_input job))) \<and>
   (detect_image_mime (take SNIFF_HEAD_BYTES d) \<in> {Some ''image/svg+xml'', Some ''image/avif'', Some ''image/gif''} \<longrightarrow>
      plan mime d = None) \<and>
   (is_animated_webp d \<longrightarrow> plan mime d = None)"
proof (intro conjI)
  show "\<forall>n. SNIFF_HEAD_BYTES \<le> n \<longrightarrow> plan mime (take n d) = plan mime d"
    by (simp add: plan_take)
  show "\<forall>job. plan mime d = Some job \<longrightarrow> tc_output job = OutPng \<and> tc_input job \<noteq> Gif \<and> d \<noteq> [] \<and>
      (case detect_image_mime (take SNIFF_HEAD_BYTES d) of
         Some detected \<Rightarrow> from_mime detected = Some (tc_input job)
       | None \<Rightarrow> from_mime mime = Some (tc_input job))"
    by (auto simp: plan_Some sniffed_head ingest_target_png split: option.splits)
  show "detect_image_mime (take SNIFF_HEAD_BYTES d) \<in> {Some ''image/svg+xml'', Some ''image/avif'', Some ''image/gif''} \<longrightarrow>
      plan mime d = None"
    by (auto simp: plan_def sniffed_head from_mime_svg from_mime_avif from_mime_gif)
  show "is_animated_webp d \<longrightarrow> plan mime d = None"
    by (simp add: plan_def sniffed_head animated_webp_detected from_mime_webp)
qed

theorem plan_witness:
  "plan ''image/png'' (''<svg '' @ replicate 700 CHR ''x'') = None"
proof -
  have "detect_image_mime (take SNIFF_HEAD_BYTES (''<svg '' @ replicate 700 CHR ''x'')) = Some ''image/svg+xml''"
    by (simp add: detect_image_mime_def SNIFF_HEAD_BYTES_def Let_def std_defs)
  then show ?thesis
    using plan_by_first_bytes [of "''image/png''" "''<svg '' @ replicate 700 CHR ''x''"] by simp
qed


section \<open>Never lose data, never make things worse\<close>

text \<open>What an attempt did, read off the guards it met.\<close>

definition slot_free :: "(nat \<Rightarrow> guards \<Rightarrow> guards) \<Rightarrow> nat \<Rightarrow> guards \<Rightarrow> bool" where
  "slot_free others now0 g \<longleftrightarrow>
     (let g1 = others 0 (g\<lparr> gd_breaker := snd (acquire_at now0 (gd_breaker g)) \<rparr>)
      in throttle_acquire (gd_throttle g1) \<noteq> None)"

definition attempted :: "(nat \<Rightarrow> guards \<Rightarrow> guards) \<Rightarrow> nat \<Rightarrow> guards \<Rightarrow> bool" where
  "attempted others now0 g \<longleftrightarrow> fst (acquire_at now0 (gd_breaker g)) \<noteq> None \<and> slot_free others now0 g"

lemma attempt_not_called:
  "\<not> attempted others now0 g \<Longrightarrow> attempt_guarded others now0 now1 attempt usable g s = (c, g', s') \<Longrightarrow>
     c = None \<and> s' = s"
  by (auto simp: attempted_def slot_free_def attempt_guarded_def Let_def split: prod.splits option.splits)

lemma attempt_called:
  "attempted others now0 g \<Longrightarrow> attempt_guarded others now0 now1 attempt usable g s = (c, g', s') \<Longrightarrow>
     c = snd (attempt_outcome usable (fst (attempt s))) \<and> s' = snd (attempt s)"
  by (auto simp: attempted_def slot_free_def attempt_guarded_def Let_def split: prod.splits option.splits)

lemma attempt_outcome_Some:
  "snd (attempt_outcome usable r) = Some c \<longleftrightarrow> r = Inr c \<and> usable c"
  by (auto simp: attempt_outcome_def split: sum.splits)

text \<open>Alone, an attempt gives its slot back and moves the breaker by its outcome only.\<close>

definition alone :: "nat \<Rightarrow> guards \<Rightarrow> guards" where "alone i g = g"

lemma attempt_alone_throttle:
  "attempt_guarded alone now0 now1 attempt usable g s = (c, g', s') \<Longrightarrow> gd_throttle g' = gd_throttle g"
  by (auto simp: attempt_guarded_def alone_def Let_def throttle_acquire_def throttle_release_def
      split: prod.splits option.splits if_splits)

lemma resolve_neutral_closed: "br_inner b = BClosed f \<Longrightarrow> snd (resolve_at p PRelease now b) = b"
  by (cases "pm_canary p") (simp_all add: resolve_at_def breaker_resolve_def)

lemma attempt_alone_busy:
  assumes "br_inner (gd_breaker g) = BClosed f"
    and "attempt_guarded alone now0 now1 attempt usable g s = (c, g', s')"
    and "thr_limit (gd_throttle g) \<le> in_use (gd_throttle g) \<or>
         (\<exists>e. fst (attempt s) = Inl e \<and> \<not> is_converter_fault e)"
  shows "gd_breaker g' = gd_breaker g"
  using assms
  by (auto simp: attempt_guarded_def alone_def Let_def acquire_at_def attempt_outcome_def throttle_acquire_def
      resolve_neutral_closed split: prod.splits option.splits if_splits)

lemma route_with_cases:
  assumes "route_with others now0 now1 convert mime payload g s = ((mime', payload'), g', s')"
  shows "(mime', payload') = (mime, payload) \<or>
      (\<exists>job t. plan mime payload = Some job \<and> fst (convert job payload s) = (Inr t, payload') \<and>
         payload' \<noteq> [] \<and> mime' = output_mime (tc_output job) \<and> detect_image_mime payload' = Some mime')"
proof (cases "plan mime payload")
  case None
  with assms show ?thesis by (simp add: route_with_def)
next
  case (Some job)
  let ?attempt = "\<lambda>s. case convert job payload s of ((r, out), s') \<Rightarrow> (try_bind r (\<lambda>_. Inr out), s')"
  obtain c g1 s1 where a: "attempt_guarded others now0 now1 ?attempt (is_valid_output (tc_output job)) g s = (c, g1, s1)"
    by (metis prod_cases3)
  have res: "(mime', payload') = (case c of Some d \<Rightarrow> (output_mime (tc_output job), d) | None \<Rightarrow> (mime, payload))"
    using assms Some a by (auto simp: route_with_def split: option.splits)
  show ?thesis
  proof (cases c)
    case None
    with res show ?thesis by simp
  next
    case c: (Some d)
    have "attempted others now0 g" using attempt_not_called [OF _ a] c by blast
    from attempt_called [OF this a] c
    have "snd (attempt_outcome (is_valid_output (tc_output job)) (fst (?attempt s))) = Some d" by simp
    with res c Some show ?thesis
      unfolding attempt_outcome_Some by (auto simp: is_valid_output_def try_bind_Inr_iff split: prod.splits)
  qed
qed

text \<open>C25: Whatever the converter, the breaker, the throttle and other threads do, routing returns either the
  original pair, byte for byte, or the converter's own output for the planned job, not empty and with
  the signature its new label promises. Without a plan nothing is touched; an open circuit or a
  saturated throttle means the converter is not called; the slot is given back in every case; and a
  busy, absent or unisolated converter leaves a closed breaker exactly as it was.\<close>

theorem route_never_loses:
  assumes "route_with others now0 now1 convert mime payload g s = ((mime', payload'), g', s')"
  shows "((mime', payload') = (mime, payload) \<or>
      (\<exists>job t. plan mime payload = Some job \<and> fst (convert job payload s) = (Inr t, payload') \<and>
         payload' \<noteq> [] \<and> mime' = output_mime (tc_output job) \<and> detect_image_mime payload' = Some mime')) \<and>
    (plan mime payload = None \<longrightarrow> g' = g \<and> s' = s) \<and>
    (\<not> attempted others now0 g \<longrightarrow> (mime', payload') = (mime, payload) \<and> s' = s) \<and>
    (others = alone \<longrightarrow> gd_throttle g' = gd_throttle g) \<and>
    (others = alone \<and> (\<exists>f. br_inner (gd_breaker g) = BClosed f) \<and>
     (thr_limit (gd_throttle g) \<le> in_use (gd_throttle g) \<or>
      (\<forall>job. \<exists>e. fst (fst (convert job payload s)) = Inl e \<and> \<not> is_converter_fault e)) \<longrightarrow>
       gd_breaker g' = gd_breaker g)"
proof (cases "plan mime payload")
  case None
  with assms show ?thesis by (simp add: route_with_def)
next
  case (Some job)
  let ?attempt = "\<lambda>s. case convert job payload s of ((r, out), s') \<Rightarrow> (try_bind r (\<lambda>_. Inr out), s')"
  obtain c g1 s1 where a: "attempt_guarded others now0 now1 ?attempt (is_valid_output (tc_output job)) g s = (c, g1, s1)"
    by (metis prod_cases3)
  have same: "g' = g1" "s' = s1" "(mime', payload') = (case c of Some d \<Rightarrow> (output_mime (tc_output job), d) | None \<Rightarrow> (mime, payload))"
    using assms Some a by (auto simp: route_with_def split: option.splits)
  have fault: "\<exists>e. fst (?attempt s) = Inl e \<and> \<not> is_converter_fault e"
    if "\<forall>job. \<exists>e. fst (fst (convert job payload s)) = Inl e \<and> \<not> is_converter_fault e"
    using that [rule_format, of job] by (auto split: prod.splits)
  show ?thesis
  proof (intro conjI impI)
    show "(mime', payload') = (mime, payload) \<or>
      (\<exists>job t. plan mime payload = Some job \<and> fst (convert job payload s) = (Inr t, payload') \<and>
         payload' \<noteq> [] \<and> mime' = output_mime (tc_output job) \<and> detect_image_mime payload' = Some mime')"
      by (rule route_with_cases [OF assms])
    show "g' = g" "s' = s" if "plan mime payload = None" using that Some by simp_all
    show "(mime', payload') = (mime, payload)" "s' = s" if "\<not> attempted others now0 g"
      using attempt_not_called [OF that a] same by simp_all
    show "gd_throttle g' = gd_throttle g" if "others = alone"
      using attempt_alone_throttle a same(1) that by metis
    show "gd_breaker g' = gd_breaker g"
      if "others = alone \<and> (\<exists>f. br_inner (gd_breaker g) = BClosed f) \<and>
       (thr_limit (gd_throttle g) \<le> in_use (gd_throttle g) \<or>
        (\<forall>job. \<exists>e. fst (fst (convert job payload s)) = Inl e \<and> \<not> is_converter_fault e))"
      using attempt_alone_busy [of g _ now0 now1 ?attempt _ s c g1 s1] a same(1) that fault by metis
  qed
qed


definition png_magic :: bytes where "png_magic = [CHR 0x89, CHR 0x50, CHR 0x4E, CHR 0x47]"

definition fresh_guards :: guards where
  "fresh_guards = \<lparr> gd_breaker = BREAKER, gd_throttle = THROTTLE \<rparr>"

theorem route_witness:
  "route_with alone 0 1 (\<lambda>job input s. ((Inl (ETimeout 15), []), s + 1)) ''image/bmp'' ''BM'' fresh_guards (0::nat) =
     ((''image/bmp'', ''BM''), fresh_guards\<lparr> gd_breaker := BREAKER\<lparr> br_inner := BClosed 1 \<rparr> \<rparr>, 1) \<and>
   gd_throttle (fresh_guards\<lparr> gd_breaker := BREAKER\<lparr> br_inner := BClosed 1 \<rparr> \<rparr>) = gd_throttle fresh_guards"
proof -
  have plan: "plan ''image/bmp'' ''BM'' = Some \<lparr> tc_input = Bmp, tc_output = OutPng \<rparr>" by code_simp
  have run: "route_with alone 0 1 (\<lambda>job input s. ((Inl (ETimeout 15), []), s + 1)) ''image/bmp'' ''BM'' fresh_guards (0::nat) =
     ((''image/bmp'', ''BM''), fresh_guards\<lparr> gd_breaker := BREAKER\<lparr> br_inner := BClosed 1 \<rparr> \<rparr>, 1)"
    by (simp add: route_with_def plan attempt_guarded_def alone_def fresh_guards_def BREAKER_def THROTTLE_def
        breaker_new_def throttle_new_def permit_new_def acquire_at_def throttle_acquire_def throttle_release_def attempt_outcome_def
        is_converter_fault_def resolve_at_def breaker_resolve_def u32_max_def const_defs)
  from route_never_loses [OF run] run show ?thesis by simp
qed

section \<open>Many conversions at once\<close>

text \<open>
  The attempts of any number of threads over the shared guards, one step per critical section: asking
  the breaker, asking the throttle, giving the slot back when the converter is gone, resolving the
  permit. \<open>RSlot\<close> is a running converter process.
\<close>

datatype route_pc = RIdle | RPermit permit | RSlot permit | RGone permit permit_outcome

inductive route_step :: "guards \<times> route_pc list \<Rightarrow> guards \<times> route_pc list \<Rightarrow> bool" where
  admitted: "i < length ts \<Longrightarrow> ts ! i = RIdle \<Longrightarrow> acquire_at now (gd_breaker g) = (Some p, b) \<Longrightarrow>
    route_step (g, ts) (g\<lparr> gd_breaker := b \<rparr>, ts[i := RPermit p])"
| rejected: "i < length ts \<Longrightarrow> ts ! i = RIdle \<Longrightarrow> acquire_at now (gd_breaker g) = (None, b) \<Longrightarrow>
    route_step (g, ts) (g\<lparr> gd_breaker := b \<rparr>, ts)"
| throttled: "i < length ts \<Longrightarrow> ts ! i = RPermit p \<Longrightarrow> throttle_acquire (gd_throttle g) = None \<Longrightarrow>
    route_step (g, ts) (g\<lparr> gd_breaker := snd (resolve_at p PRelease now (gd_breaker g)) \<rparr>, ts[i := RIdle])"
| started: "i < length ts \<Longrightarrow> ts ! i = RPermit p \<Longrightarrow> throttle_acquire (gd_throttle g) = Some t \<Longrightarrow>
    route_step (g, ts) (g\<lparr> gd_throttle := t \<rparr>, ts[i := RSlot p])"
| gone: "i < length ts \<Longrightarrow> ts ! i = RSlot p \<Longrightarrow>
    route_step (g, ts) (g\<lparr> gd_throttle := throttle_release (gd_throttle g) \<rparr>, ts[i := RGone p out])"
| resolved: "i < length ts \<Longrightarrow> ts ! i = RGone p out \<Longrightarrow>
    route_step (g, ts) (g\<lparr> gd_breaker := snd (resolve_at p out now (gd_breaker g)) \<rparr>, ts[i := RIdle])"

inductive route_reach :: "nat \<Rightarrow> guards \<times> route_pc list \<Rightarrow> bool" for m where
  route_init: "route_reach m (fresh_guards, replicate m RIdle)"
| route_next: "route_reach m c \<Longrightarrow> route_step c c' \<Longrightarrow> route_reach m c'"

definition pc_permits :: "route_pc \<Rightarrow> permit multiset" where
  "pc_permits t = (case t of RIdle \<Rightarrow> {#} | RPermit p \<Rightarrow> {#p#} | RSlot p \<Rightarrow> {#p#} | RGone p _ \<Rightarrow> {#p#})"

definition pc_slots :: "route_pc \<Rightarrow> nat multiset" where
  "pc_slots t = (case t of RSlot _ \<Rightarrow> {#1#} | _ \<Rightarrow> {#})"

definition pooled :: "('a \<Rightarrow> 'b multiset) \<Rightarrow> 'a list \<Rightarrow> 'b multiset" where
  "pooled f ts = sum_list (map f ts)"

lemma pooled_update:
  "i < length ts \<Longrightarrow> pooled f (ts[i := t]) + f (ts ! i) = pooled f ts + f t"
  by (induction ts arbitrary: i) (auto simp: pooled_def nth_Cons split: nat.splits)

lemma pooled_mem: "i < length ts \<Longrightarrow> f (ts ! i) \<subseteq># pooled f ts"
  by (induction ts arbitrary: i)
    (auto simp: pooled_def nth_Cons subset_mset.add_increasing split: nat.splits)

lemma pooled_keep: "i < length ts \<Longrightarrow> f (ts ! i) = f t \<Longrightarrow> pooled f (ts[i := t]) = pooled f ts"
  using pooled_update [of i ts f t] by simp

lemma pooled_gain: "i < length ts \<Longrightarrow> f (ts ! i) = {#} \<Longrightarrow> f t = {#x#} \<Longrightarrow> pooled f (ts[i := t]) = add_mset x (pooled f ts)"
  using pooled_update [of i ts f t] by simp

lemma pooled_lose:
  assumes "i < length ts" "f (ts ! i) = {#x#}" "f t = {#}"
  shows "pooled f (ts[i := t]) = pooled f ts - {#x#}" "x \<in># pooled f ts"
proof -
  have "add_mset x (pooled f (ts[i := t])) = pooled f ts" using pooled_update [of i ts f t] assms by simp
  then show "pooled f (ts[i := t]) = pooled f ts - {#x#}" "x \<in># pooled f ts"
    by (metis add_mset_remove_trivial, metis union_single_eq_member)
qed

lemma pooled_idle: "pooled pc_permits (replicate m RIdle) = {#}" "pooled pc_slots (replicate m RIdle) = {#}"
  by (induction m) (simp_all add: pooled_def pc_permits_def pc_slots_def)

text \<open>Every run of the threads is a run of the breaker and a run of the throttle with these holders.\<close>

abbreviation throttle_run :: "process_throttle \<times> nat multiset \<Rightarrow> bool" where
  "throttle_run \<equiv> pool_run (unit_acq throttle_acquire) (unit_rel throttle_release) THROTTLE"

lemma route_simulates:
  "route_reach m (g, ts) \<Longrightarrow>
     breaker_reach IMAGE_BREAKER_THRESHOLD IMAGE_BREAKER_COOLDOWN_SECS (gd_breaker g, pooled pc_permits ts) \<and>
     throttle_run (gd_throttle g, pooled pc_slots ts)"
proof (induction "(g, ts)" arbitrary: g ts rule: route_reach.induct)
  case route_init
  show ?case
    by (simp add: fresh_guards_def BREAKER_def pooled_idle reach_new pool_start)
next
  case (route_next c)
  obtain g0 ts0 where c: "c = (g0, ts0)" by (cases c)
  note br = route_next(2) [OF c, THEN conjunct1] and thr = route_next(2) [OF c, THEN conjunct2]
  from route_next(3) [unfolded c] show ?case
  proof (cases rule: route_step.cases)
    case (admitted i now p b)
    then show ?thesis
      using reach_next [OF br step_acquire] thr
      by (simp add: pooled_gain [of i ts0 pc_permits _ p] pooled_keep [of i ts0 pc_slots] pc_permits_def pc_slots_def)
  next
    case (rejected i now b)
    then show ?thesis using reach_next [OF br step_skip] thr by simp
  next
    case (throttled i p now)
    then show ?thesis
      using reach_next [OF br step_resolve [of p]] thr pooled_lose [of i ts0 pc_permits p RIdle]
      by (simp add: pooled_keep [of i ts0 pc_slots] pc_permits_def pc_slots_def)
  next
    case (started i p t)
    then show ?thesis
      using br pool_take [OF thr, of 1]
      by (simp add: unit_acq_def pooled_gain [of i ts0 pc_slots _ 1] pooled_keep [of i ts0 pc_permits]
          pc_permits_def pc_slots_def)
  next
    case (gone i p out)
    then show ?thesis
      using br pool_give [OF thr, of 1] pooled_lose [of i ts0 pc_slots 1 "RGone p out"]
      by (simp add: unit_rel_def pooled_keep [of i ts0 pc_permits] pc_permits_def pc_slots_def)
  next
    case (resolved i p out now)
    then show ?thesis
      using reach_next [OF br step_resolve [of p]] thr pooled_lose [of i ts0 pc_permits p RIdle]
      by (simp add: pooled_keep [of i ts0 pc_slots] pc_permits_def pc_slots_def)
  qed
qed

definition running :: "route_pc list \<Rightarrow> nat" where
  "running ts = length (filter (\<lambda>t. case t of RSlot _ \<Rightarrow> True | _ \<Rightarrow> False) ts)"

lemma running_slots: "running ts = sum_mset (pooled pc_slots ts)"
  by (induction ts) (auto simp: running_def pooled_def pc_slots_def split: route_pc.splits)

lemma pooled_quiet: "list_all (\<lambda>t. t = RIdle) ts \<Longrightarrow> pooled pc_permits ts = {#} \<and> running ts = 0"
  by (induction ts) (auto simp: pooled_def pc_permits_def running_def)

text \<open>C26: However many conversions run at once and however they interleave and end, at most two converter
  processes exist, the throttle counts exactly them, at most one attempt is a canary, and when all are
  done every slot is free and the breaker is not waiting for a probe that will never report.\<close>

theorem conversions_bounded:
  assumes "route_reach m (g, ts)"
  shows "running ts \<le> IMAGE_CONCURRENCY_LIMIT \<and> in_use (gd_throttle g) = running ts \<and>
    canaries (pooled pc_permits ts) \<le> 1 \<and>
    (list_all (\<lambda>t. t = RIdle) ts \<longrightarrow> in_use (gd_throttle g) = 0 \<and> br_inner (gd_breaker g) \<noteq> BHalfOpen True)"
proof -
  note sim = route_simulates [OF assms]
  have "in_use THROTTLE = 0" "thr_limit THROTTLE = IMAGE_CONCURRENCY_LIMIT"
    by (simp_all add: THROTTLE_def throttle_new_def const_defs)
  then have slots: "in_use (gd_throttle g) = running ts" "running ts \<le> IMAGE_CONCURRENCY_LIMIT"
    using throttle.run_exact [OF sim [THEN conjunct2]] by (simp_all add: running_slots)
  have "IMAGE_BREAKER_THRESHOLD \<le> u32_max" by (simp add: u32_max_def const_defs)
  from breaker_reach_inv [OF this sim [THEN conjunct1]]
  have inv: "canaries (pooled pc_permits ts) = (if br_inner (gd_breaker g) = BHalfOpen True then 1 else 0)"
    by (simp add: breaker_inv_def)
  then show ?thesis
    using slots pooled_quiet [of ts] by (auto simp: canaries_def split: if_splits)
qed

theorem conversions_witness: "running [RSlot (permit_new False), RIdle] \<le> IMAGE_CONCURRENCY_LIMIT"
proof -
  let ?p = "permit_new False" and ?b = "BREAKER\<lparr> br_inner := BClosed 0 \<rparr>"
  let ?g = "fresh_guards\<lparr> gd_breaker := BREAKER \<rparr>"
  have "route_reach 2 (?g, (replicate 2 RIdle)[0 := RPermit ?p])"
    by (rule route_next [OF route_init admitted [of 0 _ 0]])
      (simp_all add: fresh_guards_def BREAKER_def breaker_new_def acquire_at_def)
  then have "route_reach 2 (?g\<lparr> gd_throttle := THROTTLE\<lparr> in_use := 1 \<rparr> \<rparr>, (replicate 2 RIdle)[0 := RPermit ?p, 0 := RSlot ?p])"
    by (rule route_next [OF _ started [of 0]])
      (simp_all add: fresh_guards_def THROTTLE_def throttle_new_def throttle_acquire_def const_defs)
  from conversions_bounded [OF this] show ?thesis by (simp add: numeral_2_eq_2 running_def)
qed

end
