(* ===== verification/Spool.thy ===== *)
theory Spool
  imports Selection Route
begin

text \<open>
  \<^verbatim>\<open>crates/daemon/src/spool.rs\<close>: the daemon's spooler. The hash is the argument \<open>digest\<close> (SHA3-256 in the
  program, a crate); the answers of the file system and of the kernel copy are the record \<open>spool_os\<close>. The
  spooler fulfils the contract of the Wayland layer (the interpretation \<open>fsp\<close>), so what that layer proved
  of draining a pipe holds for the running program.
\<close>

section \<open>Files of the spool directory\<close>

text \<open>The answers to the two attempts to create the file, to \<^verbatim>\<open>mkdir\<close>, to writing the head, and to the copy.\<close>

record spool_os =
  so_open :: "nat \<Rightarrow> io_error option"
  so_granted :: nat
  so_head :: "io_error option"
  so_fstat :: "io_error + bool"
  so_pipe :: bool
  so_kernel :: "kernel_answer list"

record file_spooler =
  fsp_dir :: path
  fsp_next :: nat

definition file_exists :: io_error where [std_defs]:
  "file_exists = OtherError ''file exists''"

text \<open>\<^verbatim>\<open>OpenOptions\<close> with \<^verbatim>\<open>create_new\<close>: never an existing file, never without the directory.\<close>

definition open_new :: "io_error option \<Rightarrow> path \<Rightarrow> path \<Rightarrow> fsys \<Rightarrow> (io_error + unit) \<times> fsys" where [std_defs]:
  "open_new refusal dir p fs =
     (case refusal of
        Some e \<Rightarrow> (Inl e, fs)
      | None \<Rightarrow>
          if fs_dirs fs dir = None then (Inl NotFound, fs)
          else if path_exists fs p then (Inl file_exists, fs)
          else (Inr (), write_file p [] fs))"

definition fresh_path :: "nat \<Rightarrow> file_spooler \<Rightarrow> path \<times> file_spooler" where
  "fresh_path pid sp =
     (path_push (fsp_dir sp) (show_nat pid @ ''-'' @ show_nat (fsp_next sp) @ ''.'' @ SPOOL_FILE_EXTENSION),
      sp\<lparr> fsp_next := wrap64 (fsp_next sp + 1) \<rparr>)"

definition spool_create :: "spool_os \<Rightarrow> path \<Rightarrow> path \<Rightarrow> fsys \<Rightarrow> (io_error + unit) \<times> fsys" where
  "spool_create os dir p fs =
     (case open_new (so_open os 0) dir p fs of
        (Inl e, fs1) \<Rightarrow>
          if e = NotFound then
            (case create_dir_all 448 (so_granted os) dir fs1 of
               (False, fs2) \<Rightarrow> (Inl (OtherError ''cannot create the spool directory''), fs2)
             | (True, fs2) \<Rightarrow> open_new (so_open os 1) dir p fs2)
          else (Inl e, fs1)
      | (Inr u, fs1) \<Rightarrow> (Inr u, fs1))"

text \<open>Copying the rest of the pipe: a read error of the pipe is an error of the copy.\<close>

definition spool_copy :: "spool_os \<Rightarrow> reader \<Rightarrow> nat \<Rightarrow> (payload_error + copied) \<times> copy_state" where
  "spool_copy os src limit =
     (case stream_error src of
        Some e \<Rightarrow> (Inl (PIo e), copy_start (stream_bytes src) (so_kernel os))
      | None \<Rightarrow>
          copy_to_file (so_fstat os) (so_pipe os) True limit (copy_start (stream_bytes src) (so_kernel os)))"

definition tap_finish :: "(bytes \<Rightarrow> bytes) \<Rightarrow> bytes \<Rightarrow> bytes option" where
  "tap_finish digest seen = (if length (digest seen) = DIGEST_LEN then Some (digest seen) else None)"

definition spool_with :: "spool_os \<Rightarrow> (bytes \<Rightarrow> bytes) \<Rightarrow> path \<Rightarrow> path \<Rightarrow> spool_fun" where
  "spool_with os digest dir p head src limit fs =
     (case spool_create os dir p fs of
        (Inl _, fs1) \<Rightarrow> (SpoolUnavailable src, fs1)
      | (Inr _, fs1) \<Rightarrow>
          if limit < length head then (SpoolRejected, remove_file p fs1)
          else if so_head os \<noteq> None then (SpoolRejected, remove_file p fs1)
          else
            (case spool_copy os src (limit - length head) of
               (r, st) \<Rightarrow>
                 (let fs2 = write_file p (head @ cp_dst st) fs1;
                      seen = head @ cp_tap st;
                      rest_len = (case r of Inr c \<Rightarrow> Some (copied_len c) | Inl PEmpty \<Rightarrow> Some 0 | Inl _ \<Rightarrow> None)
                  in case (rest_len, tap_finish digest seen) of
                       (Some n, Some d) \<Rightarrow> (SpoolDone (spooled_new p (length head + n) d), fs2)
                     | _ \<Rightarrow> (SpoolRejected, remove_file p fs2))))"

text \<open>\<^verbatim>\<open>FileSpooler::spool\<close> takes the next name.\<close>

definition spool :: "spool_os \<Rightarrow> (bytes \<Rightarrow> bytes) \<Rightarrow> nat \<Rightarrow> file_spooler \<Rightarrow> spool_fun" where
  "spool os digest pid sp = spool_with os digest (fsp_dir sp) (fst (fresh_path pid sp))"

section \<open>Converting a spool file\<close>

definition path_segments :: "path \<Rightarrow> path list" where [std_defs]:
  "path_segments p = split_on CHR ''/'' p"

definition path_parent :: "path \<Rightarrow> path option" where [std_defs]:
  "path_parent p = (if p = [] \<or> p = ''/'' then None else Some (join_with ''/'' (butlast (path_segments p))))"

text \<open>\<^verbatim>\<open>file_stem\<close>: the last segment up to its last dot, unless that is its first character.\<close>

definition file_stem :: "path \<Rightarrow> string option" where [std_defs]:
  "file_stem p =
     (let name = last (path_segments p);
          pieces = split_on CHR ''.'' name
      in if name = [] \<or> name = ''..'' then None
         else if length pieces = 1 \<or> butlast pieces = [[]] then Some name
         else Some (join_with ''.'' (butlast pieces)))"

definition file_extension :: "path \<Rightarrow> string option" where [std_defs]:
  "file_extension p =
     (let name = last (path_segments p);
          pieces = split_on CHR ''.'' name
      in if name = [] \<or> name = ''..'' \<or> length pieces = 1 \<or> butlast pieces = [[]] then None
         else Some (last pieces))"

definition to_str :: "string \<Rightarrow> string option" where [std_defs]:
  "to_str s = (if valid_utf8 s then Some s else None)"

definition create_derived :: "io_error option \<Rightarrow> path \<Rightarrow> fsys \<Rightarrow> (io_error + path) \<times> fsys" where
  "create_derived refusal source fs =
     (case (path_parent source, Option.bind (file_stem source) to_str) of
        (Some dir, Some stem) \<Rightarrow>
          (let p = path_push dir (stem @ ''-t.'' @ SPOOL_FILE_EXTENSION)
           in case open_new refusal dir p fs of
                (Inl e, fs') \<Rightarrow> (Inl e, fs')
              | (Inr _, fs') \<Rightarrow> (Inr p, fs'))
      | _ \<Rightarrow> (Inl InvalidInput, fs))"

record convert_env =
  ce_host :: host
  ce_exec :: exec
  ce_fstat :: "io_error + bool"
  ce_pipe :: bool
  ce_scratch :: "io_error + path"
  ce_read_back :: "io_error option"
  ce_create :: "io_error option"

definition no_digest :: io_error where
  "no_digest = OtherError ''the converted payload's digest was unavailable''"

definition transcode_spooled ::
    "convert_env \<Rightarrow> (bytes \<Rightarrow> bytes) \<Rightarrow> spooled_file \<Rightarrow> transcode \<Rightarrow> nat \<Rightarrow> fsys \<Rightarrow> (pipeline_error + spooled_file) \<times> fsys" where
  "transcode_spooled ce digest source job limit fs =
     (case file_open fs (sp_path source) of
        Inl e \<Rightarrow> (Inl (ESource e), fs)
      | Inr input \<Rightarrow>
          (case create_derived (ce_create ce) (sp_path source) fs of
             (Inl e, fs1) \<Rightarrow> (Inl (ESink e), fs1)
           | (Inr p, fs1) \<Rightarrow>
               (case transcode_file (ce_host ce) (ce_exec ce) (ce_fstat ce) (ce_pipe ce) (ce_scratch ce)
                       (ce_read_back ce) job input \<lparr> snk_file = [], snk_limit = limit, snk_tap = [] \<rparr> of
                  (Inl e, snk) \<Rightarrow> (Inl e, remove_file p fs1)
                | (Inr t, snk) \<Rightarrow>
                    (case tap_finish digest (snk_tap snk) of
                       None \<Rightarrow> (Inl (ESink no_digest), remove_file p fs1)
                     | Some d \<Rightarrow> (Inr (spooled_new p (bytes_out t) d), write_file p (snk_file snk) fs1)))))"

section \<open>Debris of crashed runs\<close>

text \<open>\<open>alive\<close> answers \<^verbatim>\<open>kill(pid, 0)\<close>.\<close>

definition process_exists :: "(int \<Rightarrow> bool) \<Rightarrow> int \<Rightarrow> bool" where
  "process_exists alive pid \<longleftrightarrow> 0 < pid \<and> alive pid"

definition i32_of :: "nat \<Rightarrow> int" where
  "i32_of n = (let m = int n mod 2 ^ 32 in if m < 2 ^ 31 then m else m - 2 ^ 32)"

definition spool_owner :: "path \<Rightarrow> int option" where
  "spool_owner p = Option.bind (Option.bind (file_stem p) to_str) (\<lambda>s. parse_i32 (hd (split_on CHR ''-'' s)))"

definition is_orphan :: "(int \<Rightarrow> bool) \<Rightarrow> nat \<Rightarrow> path \<Rightarrow> bool" where
  "is_orphan alive me p \<longleftrightarrow>
     Option.bind (file_extension p) to_str = Some SPOOL_FILE_EXTENSION \<and>
     (case spool_owner p of
        Some pid \<Rightarrow> pid \<noteq> i32_of me \<and> \<not> process_exists alive pid
      | None \<Rightarrow> True)"

text \<open>\<open>entries\<close> is what \<^verbatim>\<open>read_dir\<close> lists.\<close>

definition sweep_stale :: "(int \<Rightarrow> bool) \<Rightarrow> nat \<Rightarrow> path list \<Rightarrow> fsys \<Rightarrow> fsys" where
  "sweep_stale alive me entries fs = fold (\<lambda>p fs. if is_orphan alive me p then remove_file p fs else fs) entries fs"

definition spooler_open ::
    "(int \<Rightarrow> bool) \<Rightarrow> nat \<Rightarrow> nat \<Rightarrow> path list \<Rightarrow> path \<Rightarrow> fsys \<Rightarrow> file_spooler option \<times> fsys" where
  "spooler_open alive me granted entries dir fs =
     (case create_dir_all 448 granted dir fs of
        (False, fs') \<Rightarrow> (None, fs')
      | (True, fs') \<Rightarrow> (Some \<lparr> fsp_dir = dir, fsp_next = 0 \<rparr>, sweep_stale alive me entries fs'))"

section \<open>The spooler fulfils the contract of the Wayland layer\<close>

lemma open_new_ok:
  "open_new refusal dir p fs = (Inr u, fs') \<Longrightarrow> fs_files fs p = None \<and> fs_files fs' = (fs_files fs)(p \<mapsto> [])"
  by (auto simp: open_new_def path_exists_def split: option.splits if_splits)

lemma open_new_fail: "open_new refusal dir p fs = (Inl e, fs') \<Longrightarrow> fs' = fs"
  by (auto simp: open_new_def split: option.splits if_splits)

lemma create_dir_all_files: "create_dir_all m g p fs = (b, fs') \<Longrightarrow> fs_files fs' = fs_files fs"
  by (metis fs_files_create snd_conv)

lemma spool_create_ok:
  "spool_create os dir p fs = (Inr u, fs') \<Longrightarrow> fs_files fs p = None \<and> fs_files fs' = (fs_files fs)(p \<mapsto> [])"
  by (auto simp: spool_create_def split: prod.splits sum.splits if_splits bool.splits
      dest!: open_new_ok open_new_fail create_dir_all_files)

lemma spool_create_fail: "spool_create os dir p fs = (Inl e, fs') \<Longrightarrow> fs_files fs' = fs_files fs"
  by (auto simp: spool_create_def split: prod.splits sum.splits if_splits bool.splits
      dest!: open_new_fail create_dir_all_files)

lemma spool_copy_ok:
  assumes "limit < u64_max" and "spool_copy os src limit = (r, st)"
    and "(case r of Inr c \<Rightarrow> Some (copied_len c) | Inl PEmpty \<Rightarrow> Some 0 | Inl _ \<Rightarrow> None) = Some n"
  shows "stream_error src = None \<and> n = length (stream_bytes src) \<and> length (stream_bytes src) \<le> limit \<and>
    cp_dst st = stream_bytes src \<and> cp_tap st = stream_bytes src"
proof (cases "stream_error src")
  case None
  with assms copy_to_file_outcome [OF assms(1), of "stream_bytes src" True "so_fstat os" "so_pipe os" "so_kernel os"]
  show ?thesis
    by (cases r) (auto simp: spool_copy_def copy_outcome_def copy_complete_def ends_well_def split: payload_error.splits)
next
  case (Some e)
  with assms show ?thesis by (auto simp: spool_copy_def)
qed

lemma fresh_removed: "m p = None \<Longrightarrow> (m(p := x))(p := None) = m"
  by auto


lemma spool_with_done:
  assumes lim: "limit < u64_max" and run: "spool_with os digest dir p head src limit fs = (SpoolDone sp, fs')"
  shows "spooled_as digest sp (head @ stream_bytes src) fs fs' \<and> stream_error src = None \<and>
    length (head @ stream_bytes src) \<le> limit \<and> sp_path sp = p"
proof -
  obtain u fs1 where cr: "spool_create os dir p fs = (Inr u, fs1)" and fits: "length head \<le> limit"
    using run by (auto simp: spool_with_def split: prod.splits sum.splits if_splits)
  obtain r st where cp: "spool_copy os src (limit - length head) = (r, st)" by fastforce
  obtain n d where n: "(case r of Inr c \<Rightarrow> Some (copied_len c) | Inl PEmpty \<Rightarrow> Some 0 | Inl _ \<Rightarrow> None) = Some n"
    and d: "tap_finish digest (head @ cp_tap st) = Some d"
    and sp: "sp = spooled_new p (length head + n) d" "fs' = write_file p (head @ cp_dst st) fs1"
    using run cr cp fits
    by (auto simp: spool_with_def Let_def split: if_splits option.splits sum.splits payload_error.splits)
  have "limit - length head < u64_max" using lim by linarith
  from spool_copy_ok [OF this cp n] spool_create_ok [OF cr] d sp fits show ?thesis
    by (auto simp: spooled_as_def spooled_new_def tap_finish_def split: if_splits)
qed

lemma spool_with_rejected:
  assumes "spool_with os digest dir p head src limit fs = (SpoolRejected, fs')"
  shows "fs_files fs' = fs_files fs"
proof -
  obtain u fs1 where cr: "spool_create os dir p fs = (Inr u, fs1)"
    using assms by (auto simp: spool_with_def split: prod.splits sum.splits)
  from spool_create_ok [OF cr] assms cr show ?thesis
    by (auto simp: spool_with_def Let_def fresh_removed split: if_splits prod.splits option.splits)
qed

lemma spool_with_unavailable:
  "spool_with os digest dir p head src limit fs = (SpoolUnavailable src', fs') \<Longrightarrow>
     src' = src \<and> fs_files fs' = fs_files fs"
  by (auto simp: spool_with_def Let_def split: prod.splits sum.splits if_splits option.splits dest: spool_create_fail)

interpretation fsp: payload_spooler "spool os digest pid sp" digest for os digest pid sp
  by unfold_locales
    (auto simp: spool_def dest: spool_with_done spool_with_rejected spool_with_unavailable)

text \<open>C24: What an application sent is what the ingestion thread hands to the worker, byte for byte, whichever road
  the payload takes: kept in memory, or drained by the kernel into a new spool file whose length and
  digest describe exactly those bytes. Only a file list is rewritten, into its decoded paths; a payload
  that is empty, too large or broken is handed over not at all and leaves no file behind.\<close>

theorem ingest_is_faithful:
  assumes "ingest_job pd r mime (Some (spool os digest pid sp)) fs = (res, fs')"
  shows "case res of
      None \<Rightarrow> fs_files fs' = fs_files fs
    | Some job \<Rightarrow>
        stream_bytes r \<noteq> [] \<and> length (stream_bytes r) \<le> MAX_PAYLOAD_BYTES \<and> stream_error r = None \<and>
        (case job_payload job of
           Memory d \<Rightarrow> fs_files fs' = fs_files fs \<and>
             (if mime_base_eq mime MIME_URI_LIST
              then d = normalize_uri_list pd (stream_bytes r) \<and> d \<noteq> [] \<and> job_mime job = mime
              else d = stream_bytes r \<and> job_mime job = relabel_by_magic mime d)
         | Spooled f \<Rightarrow> fs_files fs' = (fs_files fs)(sp_path f \<mapsto> stream_bytes r) \<and> fs_files fs (sp_path f) = None \<and>
             sp_len f = length (stream_bytes r) \<and> sp_digest f = digest (stream_bytes r) \<and>
             job_mime job = relabel_by_magic mime (take INLINE_PAYLOAD_THRESHOLD_BYTES (stream_bytes r))
         | _ \<Rightarrow> False)"
proof (cases res)
  case None
  with fsp.ingest_nothing assms show ?thesis by auto
next
  case (Some job)
  with fsp.ingest_faithful [of pd r mime os digest pid sp fs job fs'] assms show ?thesis
    by (auto simp: spooled_as_def split: payload.splits if_splits)
qed

definition calm_spool :: spool_os where
  "calm_spool = \<lparr> so_open = (\<lambda>_. None), so_granted = 9, so_head = None, so_fstat = Inr True, so_pipe = True, so_kernel = [] \<rparr>"

theorem ingest_faithful_witness:
  "ingest_job (\<lambda>d. d) [RdData ''he'', RdIntr, RdData ''llo''] ''text/plain''
      (Some (spool calm_spool (\<lambda>d. replicate 32 CHR ''x'') 7 \<lparr> fsp_dir = ''/s'', fsp_next = 0 \<rparr>)) empty_fs =
    (Some (job_new ''text/plain'' ''hello''), empty_fs) \<and> stream_bytes [RdData ''he'', RdIntr, RdData ''llo''] = ''hello''"
proof -
  let ?sp = "spool calm_spool (\<lambda>d. replicate 32 CHR ''x'') 7 \<lparr> fsp_dir = ''/s'', fsp_next = 0 \<rparr>"
  have label: "is_text_like_mime ''text/plain''" "\<not> mime_base_eq ''text/plain'' MIME_URI_LIST"
    "detect_image_mime ''hello'' = None" by code_simp+
  have run: "ingest_job (\<lambda>d. d) [RdData ''he'', RdIntr, RdData ''llo''] ''text/plain'' (Some ?sp) empty_fs =
      (Some (job_new ''text/plain'' ''hello''), empty_fs)"
    using label by (simp add: ingest_job_def drain_pipe_def route_payload_def read_pipe_payload_def read_bounded_def
        normalise_payload_def sat_add_def u64_max_def MAX_PAYLOAD_BYTES_def)
  from ingest_is_faithful [OF run] run show ?thesis by (simp add: job_new_def)
qed

section \<open>Conversion between spool files leaves the original alone\<close>

lemma create_derived_ok:
  "create_derived refusal source fs = (Inr p, fs') \<Longrightarrow> fs_files fs p = None \<and> fs_files fs' = (fs_files fs)(p \<mapsto> [])"
  by (auto simp: create_derived_def Let_def split: option.splits prod.splits sum.splits dest: open_new_ok)

lemma create_derived_fail: "create_derived refusal source fs = (Inl e, fs') \<Longrightarrow> fs_files fs' = fs_files fs"
  by (auto simp: create_derived_def Let_def split: option.splits prod.splits sum.splits dest: open_new_fail)

lemma transcode_file_ok:
  assumes "transcode_file h exec is_pipe pipe_ok scratch read_err job input
      \<lparr> snk_file = [], snk_limit = limit, snk_tap = [] \<rparr> = (Inr t, snk')" and lim: "limit < u64_max"
  shows "snk_tap snk' = snk_file snk' \<and> bytes_out t = length (snk_file snk') \<and> snk_file snk' \<noteq> [] \<and>
    detect_image_mime (take SIGNATURE_PROBE_BYTES (snk_file snk')) = Some (output_mime (tc_output job))"
proof -
  let ?snk = "\<lparr> snk_file = [], snk_limit = limit, snk_tap = [] \<rparr>"
  have run: "run_file_with_timeout h exec is_pipe pipe_ok scratch (transcode_args job) input ?snk
        IMAGE_TRANSCODE_TIMEOUT_SECS = (Inr t, snk')"
    and sig: "check_signature read_err (tc_output job) (snk_file snk') = Inr ()"
    using assms(1) by (auto simp: transcode_file_def try_bind_Inr_iff split: prod.splits sum.splits)
  have l: "snk_limit ?snk < u64_max" using lim by simp
  show ?thesis
    by (rule run_file_ok [OF l run]) (use sig in \<open>auto simp: check_signature_ok\<close>)
qed

lemma transcode_spooled_spec:
  assumes "transcode_spooled ce digest source job limit fs = (r, fs')" and lim: "limit < u64_max"
  shows "case r of
      Inl e \<Rightarrow> fs_files fs' = fs_files fs
    | Inr out \<Rightarrow> \<exists>d. spooled_as digest out d fs fs' \<and> d \<noteq> [] \<and> sp_path out \<noteq> sp_path source \<and>
        detect_image_mime (take SIGNATURE_PROBE_BYTES d) = Some (output_mime (tc_output job))"
proof (cases "file_open fs (sp_path source)")
  case (Inl e)
  with assms show ?thesis by (auto simp: transcode_spooled_def)
next
  case fo: (Inr input)
  then have src: "fs_files fs (sp_path source) \<noteq> None" by (auto simp: file_open_def split: option.splits)
  obtain c fs1 where cr: "create_derived (ce_create ce) (sp_path source) fs = (c, fs1)" by fastforce
  show ?thesis
  proof (cases c)
    case (Inl e)
    with assms cr fo create_derived_fail [of "ce_create ce" "sp_path source" fs e fs1]
    show ?thesis by (auto simp: transcode_spooled_def)
  next
    case p: (Inr p)
    note new = create_derived_ok [OF cr [unfolded p]]
    obtain t snk where tf: "transcode_file (ce_host ce) (ce_exec ce) (ce_fstat ce) (ce_pipe ce) (ce_scratch ce)
        (ce_read_back ce) job input \<lparr> snk_file = [], snk_limit = limit, snk_tap = [] \<rparr> = (t, snk)" by fastforce
    show ?thesis
    proof (cases t)
      case (Inl e)
      with assms(1) fo cr p tf new show ?thesis by (auto simp: transcode_spooled_def fresh_removed fun_upd_idem)
    next
      case (Inr counts)
      note ok = transcode_file_ok [OF tf [unfolded Inr] lim]
      show ?thesis
      proof (cases "tap_finish digest (snk_tap snk)")
        case None
        with assms(1) fo cr p tf Inr new show ?thesis by (auto simp: transcode_spooled_def fresh_removed fun_upd_idem)
      next
        case (Some d)
        then have "d = digest (snk_file snk)" using ok by (auto simp: tap_finish_def split: if_splits)
        with assms(1) fo cr p tf Inr Some new ok src show ?thesis
          by (auto simp: transcode_spooled_def spooled_as_def spooled_new_def intro!: exI [of _ "snk_file snk"])
      qed
    qed
  qed
qed

section \<open>The sweep spares the living\<close>

lemma sweep_files:
  "fs_files (sweep_stale alive me entries fs) p =
     (if p \<in> set entries \<and> is_orphan alive me p then None else fs_files fs p)"
  unfolding sweep_stale_def by (induction entries arbitrary: fs) auto

lemma sweep_spares:
  assumes "spool_owner p = Some pid" and "pid = i32_of me \<or> process_exists alive pid"
  shows "fs_files (sweep_stale alive me entries fs) p = fs_files fs p"
  using assms by (auto simp: sweep_files is_orphan_def)

end
