(* ===== verification/Cache.thy ===== *)
theory Cache
  imports Payload
begin

text \<open>
  \<^verbatim>\<open>crates/storage/src/cache.rs\<close>: the on-disk cache of large payloads, one file per fingerprint. The
  operating system's answers are arguments: whether a write or copy completes, stops after some bytes
  or cannot open its file, whether a \<^verbatim>\<open>rename\<close> and an \<^verbatim>\<open>unlink\<close> are granted.
\<close>

section \<open>Operations\<close>

datatype write_answer = WDone | WRefused | WShort nat

record os_answers =
  os_write :: write_answer
  os_rename :: bool
  os_copy :: write_answer
  os_unlink :: "path \<Rightarrow> bool"

definition os_fine :: os_answers where
  "os_fine = \<lparr> os_write = WDone, os_rename = True, os_copy = WDone, os_unlink = (\<lambda>_. True) \<rparr>"

record file_cache =
  cache_dir :: path

datatype adoption = Placed | Present

definition cache_path :: "file_cache \<Rightarrow> string \<Rightarrow> path" where
  "cache_path c hash = path_push (cache_dir c) (hash @ ''.'' @ CACHE_FILE_EXTENSION)"

text \<open>\<^verbatim>\<open>fs::write\<close>: creates or truncates the file, then writes; a failure leaves what got written.\<close>

definition fs_write :: "write_answer \<Rightarrow> path \<Rightarrow> bytes \<Rightarrow> fsys \<Rightarrow> (io_error + unit) \<times> fsys" where [std_defs]:
  "fs_write ans p d fs =
     (case ans of
        WDone \<Rightarrow> (Inr (), write_file p d fs)
      | WRefused \<Rightarrow> (Inl (OtherError ''open''), fs)
      | WShort k \<Rightarrow> (Inl (OtherError ''write''), write_file p (take k d) fs))"

definition fs_unlink :: "(path \<Rightarrow> bool) \<Rightarrow> path \<Rightarrow> fsys \<Rightarrow> fsys" where [std_defs]:
  "fs_unlink granted p fs = (if granted p then remove_file p fs else fs)"

definition cache_store :: "os_answers \<Rightarrow> file_cache \<Rightarrow> string \<Rightarrow> bytes \<Rightarrow> fsys \<Rightarrow> (io_error + unit) \<times> fsys" where
  "cache_store os c hash data fs =
     (let p = cache_path c hash
      in if path_exists fs p then (Inr (), fs) else fs_write (os_write os) p data fs)"

definition adopt :: "os_answers \<Rightarrow> file_cache \<Rightarrow> string \<Rightarrow> path \<Rightarrow> fsys \<Rightarrow> (io_error + adoption) \<times> fsys" where
  "adopt os c hash source fs =
     (let target = cache_path c hash
      in if path_exists fs target then (Inr Present, fs)
         else (case fs_files fs source of
                 None \<Rightarrow> (Inl NotFound, fs_unlink (os_unlink os) target fs)
               | Some d \<Rightarrow>
                   if os_rename os then (Inr Placed, write_file target d (remove_file source fs))
                   else (case fs_write (os_copy os) target d fs of
                           (Inr _, fs1) \<Rightarrow> (Inr Placed, fs_unlink (os_unlink os) source fs1)
                         | (Inl e, fs1) \<Rightarrow> (Inl e, fs_unlink (os_unlink os) target fs1))))"

definition cache_read :: "file_cache \<Rightarrow> string \<Rightarrow> fsys \<Rightarrow> bytes option" where
  "cache_read c hash fs = fs_files fs (cache_path c hash)"

definition cache_remove :: "os_answers \<Rightarrow> file_cache \<Rightarrow> string \<Rightarrow> fsys \<Rightarrow> fsys" where
  "cache_remove os c hash fs = fs_unlink (os_unlink os) (cache_path c hash) fs"

fun remove_many :: "os_answers \<Rightarrow> file_cache \<Rightarrow> string list \<Rightarrow> fsys \<Rightarrow> fsys" where
  "remove_many os c [] fs = fs"
| "remove_many os c (h # hs) fs = remove_many os c hs (cache_remove os c h fs)"

text \<open>
  \<^verbatim>\<open>clear\<close>: \<^verbatim>\<open>remove_dir_all\<close> (on failure an arbitrary part, \<open>left\<close>, survives) and \<^verbatim>\<open>create_dir_all\<close>.
\<close>

definition below :: "path \<Rightarrow> path \<Rightarrow> bool" where
  "below dir p \<longleftrightarrow> p = dir \<or> prefix (dir @ ''/'') p"

definition remove_tree :: "path \<Rightarrow> (path \<Rightarrow> bool) \<Rightarrow> fsys \<Rightarrow> fsys" where [std_defs]:
  "remove_tree dir left fs =
     fs\<lparr> fs_files := (\<lambda>p. if below dir p \<and> \<not> left p then None else fs_files fs p),
         fs_dirs := (\<lambda>p. if below dir p \<and> \<not> left p then None else fs_dirs fs p) \<rparr>"

definition cache_clear :: "(path \<Rightarrow> bool) option \<Rightarrow> nat \<Rightarrow> nat \<Rightarrow> file_cache \<Rightarrow> fsys \<Rightarrow> bool \<times> fsys" where
  "cache_clear rm_failure mode granted c fs =
     (case rm_failure of
        Some left \<Rightarrow> (False, remove_tree (cache_dir c) left fs)
      | None \<Rightarrow> create_dir_all mode granted (cache_dir c) (remove_tree (cache_dir c) (\<lambda>_. False) fs))"

section \<open>Entries do not interfere\<close>

text \<open>A place for each key: what a client needs to reason about one entry at a time.\<close>

locale keyed_files =
  fixes valid :: "'k \<Rightarrow> bool" and place :: "'k \<Rightarrow> path"
  assumes place_inj: "valid a \<Longrightarrow> valid b \<Longrightarrow> place a = place b \<longleftrightarrow> a = b"
begin

lemma write_other:
  "valid a \<Longrightarrow> valid b \<Longrightarrow> a \<noteq> b \<Longrightarrow> fs_files (write_file (place a) d fs) (place b) = fs_files fs (place b)"
  by (simp add: place_inj)

lemma remove_other:
  "valid a \<Longrightarrow> valid b \<Longrightarrow> a \<noteq> b \<Longrightarrow> fs_files (remove_file (place a) fs) (place b) = fs_files fs (place b)"
  by (simp add: place_inj)

lemma unlink_other:
  "valid a \<Longrightarrow> valid b \<Longrightarrow> a \<noteq> b \<Longrightarrow> fs_files (fs_unlink g (place a) fs) (place b) = fs_files fs (place b)"
  using place_inj [of b a] by (simp add: fs_unlink_def)

end

definition hex_hash :: "string \<Rightarrow> bool" where
  "hex_hash h \<longleftrightarrow> (\<exists>d. h = to_hex d)"

lemma hex_no_slash: "hex_hash h \<Longrightarrow> CHR ''/'' \<notin> set h"
proof -
  have "CHR ''/'' \<notin> set (to_hex d)" for d
  proof (induction d)
    case (Cons b d)
    have lt: "byte_val b div 16 < length hex_digits" "byte_val b mod 16 < length hex_digits"
      using byte_val_less [of b] by (simp_all add: hex_digits_distinct less_mult_imp_div_less)
    have "CHR ''/'' \<notin> set hex_digits" by code_simp
    then show ?case using Cons nth_mem [OF lt(1)] nth_mem [OF lt(2)] by (auto simp: to_hex_Cons)
  qed (simp add: to_hex_def)
  then show "hex_hash h \<Longrightarrow> CHR ''/'' \<notin> set h" by (auto simp: hex_hash_def)
qed

lemma cache_path_inj:
  "hex_hash a \<Longrightarrow> hex_hash b \<Longrightarrow> cache_path c a = cache_path c b \<longleftrightarrow> a = b"
proof -
  assume ab: "hex_hash a" "hex_hash b"
  have plain: "\<not> (h @ ''.'' @ CACHE_FILE_EXTENSION \<noteq> [] \<and> hd (h @ ''.'' @ CACHE_FILE_EXTENSION) = CHR ''/'')"
    if "hex_hash h" for h
    using hex_no_slash [OF that] by (cases h) auto
  show "cache_path c a = cache_path c b \<longleftrightarrow> a = b"
    using plain [OF ab(1)] plain [OF ab(2)] by (auto simp: cache_path_def path_push_def)
qed

interpretation ce: keyed_files hex_hash "cache_path c" for c
  by unfold_locales (rule cache_path_inj)

lemma remove_many_other:
  "list_all hex_hash hs \<Longrightarrow> hex_hash h \<Longrightarrow> h \<notin> set hs \<Longrightarrow>
     fs_files (remove_many os c hs fs) (cache_path c h) = fs_files fs (cache_path c h)"
  by (induction os c hs fs rule: remove_many.induct) (auto simp: cache_remove_def ce.unlink_other)

lemma remove_many_shrinks:
  "fs_files (remove_many os c hs fs) p = Some d \<Longrightarrow> fs_files fs p = Some d"
  by (induction os c hs fs rule: remove_many.induct)
    (auto simp: cache_remove_def fs_unlink_def split: if_splits)

section \<open>The cache only holds what its names say\<close>

text \<open>\<open>key d\<close> is the fingerprint the database would give \<open>d\<close>.\<close>

definition cache_sound :: "(bytes \<Rightarrow> string) \<Rightarrow> file_cache \<Rightarrow> fsys \<Rightarrow> bool" where
  "cache_sound key c fs \<longleftrightarrow>
     (\<forall>h d. hex_hash h \<longrightarrow> fs_files fs (cache_path c h) = Some d \<longrightarrow> key d = h)"

lemma cache_sound_remove_many: "cache_sound key c fs \<Longrightarrow> cache_sound key c (remove_many os c hs fs)"
  by (auto simp: cache_sound_def dest: remove_many_shrinks)

lemma cache_sound_unlink: "cache_sound key c fs \<Longrightarrow> cache_sound key c (fs_unlink g p fs)"
  by (auto simp: cache_sound_def fs_unlink_def split: if_splits)

lemma cache_sound_write:
  assumes "cache_sound key c fs" and "\<And>h. hex_hash h \<Longrightarrow> p = cache_path c h \<Longrightarrow> key d = h"
  shows "cache_sound key c (write_file p d fs)"
  using assms by (auto simp: cache_sound_def split: if_splits)

lemma adopt_sound:
  assumes sound: "cache_sound key c fs" and h: "hex_hash h" and d: "fs_files fs source = Some d" "key d = h"
    and rm: "os_unlink os (cache_path c h)"
  shows "cache_sound key c (snd (adopt os c h source fs))"
proof -
  have here: "cache_sound key c (write_file (cache_path c h) d fs')" if "cache_sound key c fs'" for fs'
    by (rule cache_sound_write [OF that]) (use h d(2) cache_path_inj in auto)
  have gone: "cache_sound key c (remove_file (cache_path c h) (write_file (cache_path c h) x fs))" for x
    using sound by (auto simp: cache_sound_def split: if_splits)
  have src: "cache_sound key c (remove_file source fs)"
    using cache_sound_unlink [OF sound, of "\<lambda>_. True" source] by (simp add: fs_unlink_def)
  have tgt: "cache_sound key c (remove_file (cache_path c h) fs)"
    using cache_sound_unlink [OF sound, of "\<lambda>_. True" "cache_path c h"] by (simp add: fs_unlink_def)
  show ?thesis
    using sound d rm tgt here [OF sound] here [OF src] gone cache_sound_unlink
    by (cases "os_copy os") (auto simp: adopt_def fs_write_def Let_def fs_unlink_def)
qed

text \<open>\<^verbatim>\<open>FileCache::adopt\<close> is all or nothing: when it succeeds the entry holds the whole source (or the
  entry that was already there is left exactly as it was), and when it fails there is no entry, so a
  truncated copy is never served; no other entry changes.\<close>

lemma adopt_all_or_nothing:
  assumes "hex_hash h" and "fs_files fs source = Some d" and "\<not> path_exists fs (cache_path c h)"
    and "os_unlink os (cache_path c h)" and "source \<noteq> cache_path c h"
    and "adopt os c h source fs = (r, fs')"
  shows "(case r of Inr _ \<Rightarrow> r = Inr Placed \<and> cache_read c h fs' = Some d
          | Inl _ \<Rightarrow> cache_read c h fs' = None \<and> fs_files fs' source = Some d) \<and>
    (\<forall>h'. hex_hash h' \<and> h' \<noteq> h \<and> cache_path c h' \<noteq> source \<longrightarrow> cache_read c h' fs' = cache_read c h' fs)"
proof (cases "os_rename os")
  case True
  then show ?thesis
    using assms cache_path_inj [of _ h c] by (auto simp: adopt_def Let_def cache_read_def)
next
  case False
  then show ?thesis
    using assms cache_path_inj [of _ h c]
    by (cases "os_copy os") (auto simp: adopt_def fs_write_def Let_def cache_read_def fs_unlink_def split: if_splits)
qed

theorem adopt_witness:
  "cache_read \<lparr> cache_dir = ''/c'' \<rparr> (to_hex ''k'')
     (snd (adopt (os_fine\<lparr> os_rename := False, os_copy := WShort 1 \<rparr>) \<lparr> cache_dir = ''/c'' \<rparr> (to_hex ''k'') ''/c/spool/1.part''
        (write_file ''/c/spool/1.part'' ''abc'' empty_fs))) = None"
proof -
  let ?c = "\<lparr> cache_dir = ''/c'' \<rparr>"
  let ?os = "os_fine\<lparr> os_rename := False, os_copy := WShort 1 \<rparr>"
  let ?fs = "write_file ''/c/spool/1.part'' ''abc'' empty_fs"
  let ?a = "adopt ?os ?c (to_hex ''k'') ''/c/spool/1.part'' ?fs"
  have p: "cache_path ?c (to_hex ''k'') = ''/c/6b.cache''" by code_simp
  have fs: "\<not> path_exists ?fs (cache_path ?c (to_hex ''k''))"
    by (simp add: p path_exists_def empty_fs_def write_file_def)
  have inl: "fst ?a = Inl (OtherError ''write'')"
    by (simp add: adopt_def Let_def p path_exists_def empty_fs_def write_file_def os_fine_def fs_write_def)
  from adopt_all_or_nothing [of "to_hex ''k''" ?fs "''/c/spool/1.part''" "''abc''" ?c ?os "fst ?a" "snd ?a"] fs inl
  show ?thesis by (auto simp: hex_hash_def p os_fine_def)
qed

end
