(* ===== verification/Storage.thy ===== *)
theory Storage
  imports DbProps Cache Config
begin

text \<open>
  \<^verbatim>\<open>crates/storage/src/lib.rs\<close>: the facade \<^verbatim>\<open>ClipboardDb\<close> that coordinates the database and the file
  cache. Everything outside the repository that an operation consults (SHA3-256, SQLite's row order
  and failing statements, the operating system's answers, the clock) is one record, \<open>world\<close>.
\<close>

section \<open>Operations\<close>

record world =
  w_sha :: "bytes \<Rightarrow> bytes"
  w_ord :: "clip_row list \<Rightarrow> clip_row list"
  w_fails :: "stmt \<Rightarrow> bool"
  w_os :: os_answers
  w_now :: int

record clipboard_db =
  db_store :: sqlite_store
  db_cache :: file_cache

datatype storage_error = SqlErr sql_error | SpoolTooLarge | SpoolOpen | SpoolLength | AdoptErr io_error

definition read_spooled :: "spooled_file \<Rightarrow> fsys \<Rightarrow> storage_error + bytes" where
  "read_spooled sp fs =
     (let len = sp_len sp in
      if MAX_PAYLOAD_BYTES < len then Inl SpoolTooLarge
      else (case file_open fs (sp_path sp) of
              Inl _ \<Rightarrow> Inl SpoolOpen
            | Inr d \<Rightarrow>
                let data = take (len + 1) d
                in if length data \<noteq> len then Inl SpoolLength else Inr data))"

definition insert_with_hash ::
    "world \<Rightarrow> string \<Rightarrow> bytes \<Rightarrow> string \<Rightarrow> nat \<Rightarrow> clipboard_db \<Rightarrow> fsys \<Rightarrow>
     (storage_error + int) \<times> clipboard_db \<times> fsys" where
  "insert_with_hash w mime data hash n db fs =
     (case upsert_record (w_sha w) (w_ord w) (w_fails w) (w_now w) mime data hash n (db_store db) of
        (Inl e, s') \<Rightarrow> (Inl (SqlErr e), db\<lparr> db_store := s' \<rparr>, fs)
      | (Inr out, s') \<Rightarrow>
          if real_id out = - 1 then (Inr (- 1), db\<lparr> db_store := s' \<rparr>, fs)
          else
            (let fs1 = (if is_image out then snd (cache_store (w_os w) (db_cache db) hash data fs) else fs);
                 fs2 = remove_many (w_os w) (db_cache db) (expired_hashes out) fs1
             in (Inr (real_id out), db\<lparr> db_store := s' \<rparr>, fs2)))"

definition insert_raw ::
    "world \<Rightarrow> env \<Rightarrow> string \<Rightarrow> bytes \<Rightarrow> clipboard_db \<Rightarrow> fsys \<Rightarrow> (storage_error + int) \<times> clipboard_db \<times> fsys" where
  "insert_raw w env mime data db fs =
     insert_with_hash w mime data (to_hex (w_sha w data)) (get_max_history env fs) db fs"

definition insert_spooled ::
    "world \<Rightarrow> string \<Rightarrow> spooled_file \<Rightarrow> nat \<Rightarrow> clipboard_db \<Rightarrow> fsys \<Rightarrow>
     (storage_error + int) \<times> clipboard_db \<times> fsys" where
  "insert_spooled w mime sp n db fs =
     (if is_skipped mime (sp_len sp) then (Inr (- 1), db, spooled_drop sp fs)
      else
        let hash = hex_digest sp in
        if \<not> is_detachable mime then
          (case read_spooled sp fs of
             Inl e \<Rightarrow> (Inl e, db, spooled_drop sp fs)
           | Inr data \<Rightarrow>
               (let (r, db', fs') = insert_with_hash w mime data hash n db fs
                in (r, db', spooled_drop sp fs')))
        else
          (case adopt (w_os w) (db_cache db) hash (sp_path sp) fs of
             (Inl e, fs1) \<Rightarrow> (Inl (AdoptErr e), db, spooled_drop sp fs1)
           | (Inr how, fs1) \<Rightarrow>
               (let fs2 = (case how of
                             Placed \<Rightarrow> snd (spooled_into_path sp fs1)
                           | Present \<Rightarrow> spooled_drop sp fs1)
                in case upsert_detached (w_sha w) (w_ord w) (w_fails w) (w_now w) mime (sp_len sp) hash n (db_store db) of
                     (Inl e, s') \<Rightarrow>
                       (Inl (SqlErr e), db\<lparr> db_store := s' \<rparr>,
                        if how = Placed then cache_remove (w_os w) (db_cache db) hash fs2 else fs2)
                   | (Inr out, s') \<Rightarrow>
                       (Inr (real_id out), db\<lparr> db_store := s' \<rparr>,
                        remove_many (w_os w) (db_cache db) (expired_hashes out) fs2))))"

definition search_metadata ::
    "(string \<Rightarrow> string \<Rightarrow> bool) \<Rightarrow> world \<Rightarrow> string list \<Rightarrow> nat \<Rightarrow> clipboard_db \<Rightarrow> (nat \<times> meta_row) list" where
  "search_metadata like w queries limit db =
     (if queries = [] then []
      else store_search_metadata like (w_ord w) (w_fails w) queries limit (db_store db))"

definition get_content_by_id :: "world \<Rightarrow> int \<Rightarrow> clipboard_db \<Rightarrow> fsys \<Rightarrow> (string \<times> bytes) option" where
  "get_content_by_id w rid db fs =
     (case get_row_content (w_fails w) rid (db_store db) of
        None \<Rightarrow> None
      | Some (mime, Some data, hash) \<Rightarrow> Some (mime, data)
      | Some (mime, None, hash) \<Rightarrow> map_option (Pair mime) (cache_read (db_cache db) hash fs))"

datatype content_location = InlineBlob int | CacheFile path

definition locate_content :: "world \<Rightarrow> int \<Rightarrow> clipboard_db \<Rightarrow> (string \<times> content_location) option" where
  "locate_content w rid db =
     (case get_row_location (w_fails w) rid (db_store db) of
        None \<Rightarrow> None
      | Some (mime, has_content, hash) \<Rightarrow>
          Some (mime, if has_content then InlineBlob rid else CacheFile (cache_path (db_cache db) hash)))"

definition db_delete_by_id ::
    "world \<Rightarrow> int \<Rightarrow> clipboard_db \<Rightarrow> fsys \<Rightarrow> (storage_error + bool) \<times> clipboard_db \<times> fsys" where
  "db_delete_by_id w rid db fs =
     (case delete_by_id (w_fails w) rid (db_store db) of
        (Inl e, s') \<Rightarrow> (Inl (SqlErr e), db\<lparr> db_store := s' \<rparr>, fs)
      | (Inr (deleted, hash), s') \<Rightarrow>
          (Inr deleted, db\<lparr> db_store := s' \<rparr>,
           case hash of Some h \<Rightarrow> cache_remove (w_os w) (db_cache db) h fs | None \<Rightarrow> fs))"

definition db_wipe ::
    "world \<Rightarrow> (path \<Rightarrow> bool) option \<Rightarrow> nat \<Rightarrow> nat \<Rightarrow> clipboard_db \<Rightarrow> fsys \<Rightarrow>
     (storage_error + unit) \<times> clipboard_db \<times> fsys" where
  "db_wipe w rm_failure mode granted db fs =
     (case store_wipe (w_fails w) (db_store db) of
        (Inl e, s') \<Rightarrow> (Inl (SqlErr e), db\<lparr> db_store := s' \<rparr>, fs)
      | (Inr _, s') \<Rightarrow>
          (Inr (), db\<lparr> db_store := s' \<rparr>, snd (cache_clear rm_failure mode granted (db_cache db) fs)))"

definition db_update_timestamp :: "world \<Rightarrow> int \<Rightarrow> clipboard_db \<Rightarrow> (sql_error + unit) \<times> clipboard_db" where [simp]:
  "db_update_timestamp w rid db =
     (fst (update_timestamp (w_fails w) (w_now w) rid (db_store db)),
      db\<lparr> db_store := snd (update_timestamp (w_fails w) (w_now w) rid (db_store db)) \<rparr>)"

definition db_validate_keywords :: "(string \<Rightarrow> string \<Rightarrow> bool) \<Rightarrow> world \<Rightarrow> string list \<Rightarrow> clipboard_db \<Rightarrow> string list \<times> string list" where [simp]:
  "db_validate_keywords like w keywords db = validate_keywords like (w_fails w) keywords (db_store db)"

definition db_get_total_count :: "world \<Rightarrow> clipboard_db \<Rightarrow> nat" where [simp]:
  "db_get_total_count w db = get_total_count (w_fails w) (db_store db)"

definition set_pin_by_id :: "world \<Rightarrow> int \<Rightarrow> bool \<Rightarrow> clipboard_db \<Rightarrow> (storage_error + bool) \<times> clipboard_db" where
  "set_pin_by_id w rid pin db =
     (case set_pinned (w_fails w) rid pin (db_store db) of
        (Inl e, s') \<Rightarrow> (Inl (SqlErr e), db\<lparr> db_store := s' \<rparr>)
      | (Inr b, s') \<Rightarrow> (Inr b, db\<lparr> db_store := s' \<rparr>))"

section \<open>Rows after an upsert\<close>

lemma content_of_None: "content_of s r = None \<longleftrightarrow> \<not> r_chunked r \<and> r_content r = CNull"
  by (auto simp: content_of_def cell_bytes_def split: cell.splits)

lemma unique_hash:
  assumes "rows_ok s" and "a \<in> set (clipboard s)" and "b \<in> set (clipboard s)"
    and "r_hash a = Some h" and "r_hash b = Some h"
  shows "a = b"
proof -
  have "distinct (List.map_filter f xs) \<Longrightarrow> x \<in> set xs \<Longrightarrow> y \<in> set xs \<Longrightarrow> f x = Some v \<Longrightarrow> f y = Some v \<Longrightarrow> x = y"
    for f :: "clip_row \<Rightarrow> string option" and xs x y v
    by (induction xs) (auto simp: map_filter_simps set_map_filter split: option.splits)
  with assms show ?thesis by (auto simp: rows_ok_def)
qed

context ts_order
begin

text \<open>A row of the new state is an old row, the touched old row, or the new one.\<close>

lemma upsert_rows:
  assumes ok: "store_ok sha s" and cf: "no_collision sha body s"
    and up: "upsert sha ord fails now mime body hash n s = (Inr out, s')" and r: "r \<in> set (clipboard s')"
  shows "(\<exists>r0 \<in> set (clipboard s). r_hash r = r_hash r0 \<and> r_size r = r_size r0 \<and> content_of s' r = content_of s r0) \<or>
    find_hash hash s = None \<and> r_hash r = Some hash \<and> r_size r = body_len body \<and>
      content_of s' r = expected_content mime body"
proof -
  obtain s1 where p: "place_record sha fails now mime body hash s = Inr (real_id out, s1)"
      and rot: "rotate_rows ord fails n s1 = Inr (expired_hashes out, s')"
    by (rule upsert_Inr [OF up])
  note spec = place_record_spec [OF ok p cf]
  note rr = rotate_rows_ok [OF spec(1) rot]
  have r1: "r \<in> set (clipboard s1)" and c1: "content_of s' r = content_of s1 r" using rr(2,3) r by auto
  show ?thesis
  proof (cases "r_id r = real_id out")
    case False
    with spec(2) r1 have "r \<in> set (clipboard s)" "load (r_id r) (chunk_db s1) = load (r_id r) (chunk_db s)"
      by (auto simp: placed_def)
    then show ?thesis using c1 by (auto simp: content_of_def)
  next
    case True
    have d: "distinct (map r_id (clipboard s1))" using spec(1) by (simp add: store_ok_def rows_ok_def)
    show ?thesis
    proof (cases "find_hash hash s")
      case None
      obtain q where "q \<in> set (clipboard s1)" "r_id q = real_id out" "r_size q = body_len body"
          "r_hash q = Some hash" "content_of s1 q = expected_content mime body"
        using spec(3) [OF None] by blast
      moreover from this True r1 d have "q = r" using same_id_same_row by metis
      ultimately show ?thesis using None c1 by simp
    next
      case (Some k)
      note t = place_record_touch [OF Some p]
      obtain r0 where r0: "r0 \<in> set (clipboard s)" "r = (if r_id r0 = k then r0\<lparr> r_ts := now \<rparr> else r0)"
        using r1 by (auto simp: t(2) touch_row_set)
      have "content_of s1 r = content_of s r0" using r0(2) by (simp add: content_of_def t(2))
      with r0 c1 show ?thesis by (intro disjI1 bexI [of _ r0]) simp_all
    qed
  qed
qed

lemma expired_not_kept:
  assumes ok: "store_ok sha s" and cf: "no_collision sha body s"
    and up: "upsert sha ord fails now mime body hash n s = (Inr out, s')"
    and r: "r \<in> set (clipboard s')" "r_hash r = Some h"
  shows "h \<notin> set (expired_hashes out)"
proof
  assume h: "h \<in> set (expired_hashes out)"
  obtain s1 where p: "place_record sha fails now mime body hash s = Inr (real_id out, s1)"
      and rot: "rotate_rows ord fails n s1 = Inr (expired_hashes out, s')"
    by (rule upsert_Inr [OF up])
  note spec = place_record_spec [OF ok p cf]
  note rr = rotate_rows_ok [OF spec(1) rot]
  from h obtain e where e: "e \<in> set (expiring_rows ord n s1)" "r_hash e = Some h"
    by (auto simp: rr(4) set_map_filter)
  have "rows_ok s1" using spec(1) by (simp add: store_ok_def)
  from unique_hash [OF this _ _ r(2) e(2)] e(1) expiring_subset rr(2) r(1) have "r = e" by blast
  with e(1) rr(2) r(1) show False by blast
qed

lemma expired_from_rows:
  assumes ok: "store_ok sha s" and cf: "no_collision sha body s"
    and up: "upsert sha ord fails now mime body hash n s = (Inr out, s')"
    and h: "h \<in> set (expired_hashes out)"
  shows "h = hash \<or> (\<exists>r \<in> set (clipboard s). r_hash r = Some h)"
proof -
  obtain s1 where p: "place_record sha fails now mime body hash s = Inr (real_id out, s1)"
      and rot: "rotate_rows ord fails n s1 = Inr (expired_hashes out, s')"
    by (rule upsert_Inr [OF up])
  note spec = place_record_spec [OF ok p cf]
  obtain e where e: "e \<in> set (clipboard s1)" "r_hash e = Some h"
    using h rotate_rows_ok(4) [OF spec(1) rot] expiring_subset by (fastforce simp: set_map_filter)
  show ?thesis
  proof (cases "r_id e = real_id out")
    case True
    have d: "distinct (map r_id (clipboard s1))" using spec(1) by (simp add: store_ok_def rows_ok_def)
    then have "r_hash e = Some hash"
      using spec(2) e(1) True same_id_same_row by (fastforce simp: placed_def)
    with e show ?thesis by simp
  next
    case False
    with spec(2) e show ?thesis by (auto simp: placed_def)
  qed
qed

end


section \<open>Every row without bytes has its file\<close>

definition row_key :: "(bytes \<Rightarrow> bytes) \<Rightarrow> bytes \<Rightarrow> string" where
  "row_key sha d = to_hex (sha d)"

definition cache_complete :: "clipboard_db \<Rightarrow> fsys \<Rightarrow> bool" where
  "cache_complete db fs \<longleftrightarrow>
     (\<forall>r \<in> set (clipboard (db_store db)).
        (\<forall>h. r_hash r = Some h \<longrightarrow> hex_hash h) \<and>
        (content_of (db_store db) r = None \<longrightarrow>
           (\<exists>h d. r_hash r = Some h \<and> cache_read (db_cache db) h fs = Some d \<and> int (length d) = r_size r)))"

definition storage_ok :: "(bytes \<Rightarrow> bytes) \<Rightarrow> clipboard_db \<Rightarrow> fsys \<Rightarrow> bool" where
  "storage_ok sha db fs \<longleftrightarrow>
     store_ok sha (db_store db) \<and> cache_sound (row_key sha) (db_cache db) fs \<and> cache_complete db fs"

lemma hex_hash_to_hex [simp]: "hex_hash (to_hex d)"
  by (auto simp: hex_hash_def)

text \<open>After an upsert, the file cache only has to answer for the row that was placed.\<close>

lemma cache_complete_upsert:
  assumes ord: "ts_order ord" and ok: "storage_ok sha db fs" and cf: "no_collision sha body (db_store db)"
    and up: "upsert sha ord fails now mime body hash n (db_store db) = (Inr out, s')"
    and hash: "hex_hash hash"
    and keep: "\<And>h d. hex_hash h \<Longrightarrow> cache_read (db_cache db) h fs = Some d \<Longrightarrow> cache_read (db_cache db) h fs1 = Some d"
    and new: "expected_content mime body = None \<Longrightarrow>
      \<exists>d. cache_read (db_cache db) hash fs1 = Some d \<and> int (length d) = body_len body"
  shows "cache_complete (db\<lparr> db_store := s' \<rparr>) (remove_many os (db_cache db) (expired_hashes out) fs1)"
proof -
  let ?s = "db_store db"
  let ?fs = "remove_many os (db_cache db) (expired_hashes out) fs1"
  have sok: "store_ok sha ?s" and comp: "cache_complete db fs" using ok by (simp_all add: storage_ok_def)
  have "h = hash \<or> (\<exists>r \<in> set (clipboard ?s). r_hash r = Some h)" if "h \<in> set (expired_hashes out)" for h
    by (rule ts_order.expired_from_rows [OF ord sok cf up that])
  then have hexs: "list_all hex_hash (expired_hashes out)"
    using hash comp by (auto simp: cache_complete_def list_all_iff)
  have row: "(\<forall>h. r_hash r = Some h \<longrightarrow> hex_hash h) \<and> (content_of s' r = None \<longrightarrow>
      (\<exists>h d. r_hash r = Some h \<and> cache_read (db_cache db) h fs1 = Some d \<and> int (length d) = r_size r))"
    if r: "r \<in> set (clipboard s')" for r
    using ts_order.upsert_rows [OF ord sok cf up r]
  proof
    assume "\<exists>r0 \<in> set (clipboard ?s). r_hash r = r_hash r0 \<and> r_size r = r_size r0 \<and> content_of s' r = content_of ?s r0"
    then obtain r0 where r0: "r0 \<in> set (clipboard ?s)" "r_hash r = r_hash r0" "r_size r = r_size r0"
        "content_of s' r = content_of ?s r0" by blast
    with comp keep show ?thesis unfolding cache_complete_def by metis
  next
    assume "find_hash hash ?s = None \<and> r_hash r = Some hash \<and> r_size r = body_len body \<and>
      content_of s' r = expected_content mime body"
    with new hash show ?thesis by auto
  qed
  have survives: "cache_read (db_cache db) h ?fs = Some d"
    if "r \<in> set (clipboard s')" "r_hash r = Some h" "cache_read (db_cache db) h fs1 = Some d" for r h d
    using remove_many_other [OF hexs, of h os "db_cache db" fs1] row [OF that(1)] that
      ts_order.expired_not_kept [OF ord sok cf up that(1,2)] by (simp add: cache_read_def)
  show ?thesis
    unfolding cache_complete_def
  proof (intro ballI conjI)
    fix r assume "r \<in> set (clipboard (db_store (db\<lparr> db_store := s' \<rparr>)))"
    then have r: "r \<in> set (clipboard s')" by simp
    show "\<forall>h. r_hash r = Some h \<longrightarrow> hex_hash h" using row [OF r] by blast
    show "content_of (db_store (db\<lparr> db_store := s' \<rparr>)) r = None \<longrightarrow>
        (\<exists>h d. r_hash r = Some h \<and> cache_read (db_cache (db\<lparr> db_store := s' \<rparr>)) h ?fs = Some d \<and>
           int (length d) = r_size r)"
      using row [OF r] survives [OF r] by auto
  qed
qed


lemma upsert_id_pos:
  assumes "store_ok sha s" and "no_collision sha body s"
    and "upsert sha ord fails now mime body hash n s = (Inr out, s')"
  shows "0 < real_id out"
proof -
  obtain s1 where p: "place_record sha fails now mime body hash s = Inr (real_id out, s1)"
    by (rule upsert_Inr [OF assms(3)])
  note spec = place_record_spec [OF assms(1) p assms(2)]
  then obtain r where "r \<in> set (clipboard s1)" "r_id r = real_id out" by (auto simp: placed_def)
  with spec(1) show ?thesis by (auto simp: store_ok_def rows_ok_def)
qed

text \<open>What an insertion needs of the operating system and of the cache directory.\<close>

definition entry_free :: "clipboard_db \<Rightarrow> string \<Rightarrow> bytes \<Rightarrow> fsys \<Rightarrow> bool" where
  "entry_free db hash data fs \<longleftrightarrow>
     fs_dirs fs (cache_path (db_cache db) hash) = None \<and>
     (\<forall>d. cache_read (db_cache db) hash fs = Some d \<longrightarrow> d = data)"

lemma cache_store_read:
  assumes "hex_hash hash" and "entry_free db hash data fs" and "os_write os = WDone"
  shows "cache_read (db_cache db) hash (snd (cache_store os (db_cache db) hash data fs)) = Some data"
    and "hex_hash h \<Longrightarrow> cache_read (db_cache db) h fs = Some d \<Longrightarrow>
      cache_read (db_cache db) h (snd (cache_store os (db_cache db) hash data fs)) = Some d"
    and "cache_sound key (db_cache db) fs \<Longrightarrow> key data = hash \<Longrightarrow>
      cache_sound key (db_cache db) (snd (cache_store os (db_cache db) hash data fs))"
  using assms cache_path_inj [of _ hash "db_cache db"]
  by (auto simp: cache_store_def entry_free_def cache_read_def path_exists_def fs_write_def Let_def
      cache_sound_def)

lemma storage_ok_fs_cong:
  assumes "storage_ok sha db fs" and "\<And>h. hex_hash h \<Longrightarrow> cache_read (db_cache db) h fs' = cache_read (db_cache db) h fs"
  shows "storage_ok sha db fs'"
  using assms by (auto simp: storage_ok_def cache_sound_def cache_complete_def cache_read_def)

lemma insert_with_hash_ok:
  assumes ord: "ts_order (w_ord w)" and ok: "storage_ok (w_sha w) db fs"
    and cf: "collision_free (w_sha w) data (chunk_db (db_store db))"
    and hash: "hash = to_hex (w_sha w data)" and free: "entry_free db hash data fs"
    and wr: "os_write (w_os w) = WDone"
    and ins: "insert_with_hash w mime data hash n db fs = (r, db', fs')"
  shows "storage_ok (w_sha w) db' fs'"
proof -
  let ?sha = "w_sha w"
  let ?s = "db_store db"
  let ?up = "upsert ?sha (w_ord w) (w_fails w) (w_now w) mime (Bytes data) hash n ?s"
  have nc: "no_collision ?sha (Bytes data) ?s" using cf by (simp add: no_collision_def)
  have sok: "store_ok ?sha ?s" using ok by (simp add: storage_ok_def)
  have hh: "hex_hash hash" by (simp add: hash)
  show ?thesis
  proof (cases "is_skipped mime (length data)")
    case True
    with ins ok show ?thesis by (auto simp: insert_with_hash_def upsert_record_def skipped_outcome_def)
  next
    case False
    obtain q s' where up: "?up = (q, s')" by fastforce
    show ?thesis
    proof (cases q)
      case (Inl e)
      with up upsert_Inl have "s' = ?s" by blast
      with Inl up ins False ok show ?thesis by (auto simp: insert_with_hash_def upsert_record_def)
    next
      case (Inr out)
      note up' = up [unfolded Inr]
      let ?fs1 = "if is_image out then snd (cache_store (w_os w) (db_cache db) hash data fs) else fs"
      have "real_id out \<noteq> - 1" using upsert_id_pos [OF sok nc up'] by simp
      with ins up' False have res: "db' = db\<lparr> db_store := s' \<rparr>"
          "fs' = remove_many (w_os w) (db_cache db) (expired_hashes out) ?fs1"
        by (auto simp: insert_with_hash_def upsert_record_def Let_def)
      have img: "is_image out = is_cache_class mime" by (rule upsert_Inr [OF up'])
      have keep: "hex_hash h \<Longrightarrow> cache_read (db_cache db) h fs = Some d \<Longrightarrow>
          cache_read (db_cache db) h ?fs1 = Some d" for h d
        using cache_store_read(2) [OF hh free wr] by simp
      have new: "\<exists>d. cache_read (db_cache db) hash ?fs1 = Some d \<and> int (length d) = body_len (Bytes data)"
        if "expected_content mime (Bytes data) = None"
      proof -
        have "is_image out" using that img by (auto simp: expected_content_def stored_inline_def split: if_splits)
        then show ?thesis using cache_store_read(1) [OF hh free wr] by (simp add: body_len_def)
      qed
      have "store_ok ?sha s'" using ts_order.upsert_ok [OF ord sok nc] up' by (metis snd_conv)
      moreover have "cache_sound (row_key ?sha) (db_cache db) ?fs1"
        using ok cache_store_read(3) [OF hh free wr, of "row_key ?sha"] hash
        by (simp add: storage_ok_def row_key_def)
      moreover have "cache_complete db' fs'"
        unfolding res by (rule cache_complete_upsert [OF ord ok nc up' hh keep new])
      ultimately show ?thesis by (simp add: storage_ok_def res cache_sound_remove_many)
    qed
  qed
qed

section \<open>Adopting a spool file\<close>

definition spool_apart :: "clipboard_db \<Rightarrow> path \<Rightarrow> bool" where
  "spool_apart db p \<longleftrightarrow> (\<forall>h. hex_hash h \<longrightarrow> cache_path (db_cache db) h \<noteq> p)"

lemma spooled_drop_read:
  "spool_apart db (sp_path sp) \<Longrightarrow> hex_hash h \<Longrightarrow>
     cache_read (db_cache db) h (spooled_drop sp fs) = cache_read (db_cache db) h fs"
  by (auto simp: spooled_drop_def cache_read_def spool_apart_def)

lemma storage_ok_drop:
  "storage_ok sha db fs \<Longrightarrow> spool_apart db (sp_path sp) \<Longrightarrow> storage_ok sha db (spooled_drop sp fs)"
  by (rule storage_ok_fs_cong) (simp_all add: spooled_drop_read)

definition spool_record :: "(bytes \<Rightarrow> bytes) \<Rightarrow> spooled_file \<Rightarrow> bytes \<Rightarrow> fsys \<Rightarrow> bool" where
  "spool_record sha sp d fs \<longleftrightarrow>
     sp_owned sp \<and> fs_files fs (sp_path sp) = Some d \<and> sp_len sp = length d \<and> sp_digest sp = sha d"

lemma insert_with_hash_cache: "insert_with_hash w mime data hash n db fs = (r, db', fs') \<Longrightarrow> db_cache db' = db_cache db"
  by (auto simp: insert_with_hash_def Let_def split: prod.splits sum.splits if_splits)

text \<open>What adoption leaves: the entry for this fingerprint is complete, every other as it was.\<close>

lemma adopt_reads:
  assumes ad: "adopt os (db_cache db) hash (sp_path sp) fs = (Inr how, fs1)"
    and free: "entry_free db hash d fs" and apart: "spool_apart db (sp_path sp)"
    and src: "fs_files fs (sp_path sp) = Some d" and hh: "hex_hash hash"
  shows "cache_read (db_cache db) hash fs1 = Some d"
    and "hex_hash h \<Longrightarrow> h \<noteq> hash \<Longrightarrow> cache_read (db_cache db) h fs1 = cache_read (db_cache db) h fs"
    and "how = Placed \<Longrightarrow> cache_read (db_cache db) hash fs = None"
    and "how = Present \<Longrightarrow> fs1 = fs"
  using ad free apart src hh cache_path_inj [of _ hash "db_cache db"]
  by (auto simp: adopt_def Let_def entry_free_def spool_apart_def cache_read_def path_exists_def fs_write_def
      fs_unlink_def split: if_splits write_answer.splits prod.splits sum.splits)


lemma adopt_fails:
  assumes ad: "adopt os (db_cache db) hash (sp_path sp) fs = (Inl e, fs1)"
    and apart: "spool_apart db (sp_path sp)" and src: "fs_files fs (sp_path sp) = Some d"
    and hh: "hex_hash hash" and rm: "os_unlink os (cache_path (db_cache db) hash)" and h: "hex_hash h"
  shows "cache_read (db_cache db) h fs1 = cache_read (db_cache db) h fs"
  using ad apart src hh h rm cache_path_inj [of h hash "db_cache db"]
  by (auto simp: adopt_def Let_def spool_apart_def cache_read_def path_exists_def fs_write_def fs_unlink_def
      split: if_splits write_answer.splits prod.splits sum.splits)

lemma spooled_gone: "sp_owned sp \<Longrightarrow> fs_files (spooled_drop sp fs) (sp_path sp) = None"
  by (simp add: spooled_drop_def)

lemma into_path_fs [simp]: "snd (spooled_into_path sp fs) = fs"
  by (simp add: spooled_into_path_def spooled_drop_def)

lemma adopt_source_gone:
  assumes "adopt os (db_cache db) hash (sp_path sp) fs = (Inr Placed, fs1)" and "spool_apart db (sp_path sp)"
    and "hex_hash hash" and "os_unlink os (sp_path sp)"
  shows "fs_files fs1 (sp_path sp) = None"
  using assms
  by (auto simp: adopt_def Let_def spool_apart_def fs_unlink_def
      split: if_splits prod.splits sum.splits option.splits)

lemma remove_many_gone: "fs_files fs p = None \<Longrightarrow> fs_files (remove_many os c hs fs) p = None"
  using remove_many_shrinks by (metis option.exhaust)

text \<open>The adoption branch of \<^verbatim>\<open>insert_spooled\<close>, from its row operation on.\<close>

lemma adopted_row_ok:
  assumes ord: "ts_order (w_ord w)" and ok: "storage_ok (w_sha w) db fs"
    and hh: "hex_hash hash" "hash = to_hex (w_sha w d)" and len: "len = length d"
    and read: "cache_read (db_cache db) hash fs2 = Some d"
    and others: "\<And>h. hex_hash h \<Longrightarrow> h \<noteq> hash \<Longrightarrow> cache_read (db_cache db) h fs2 = cache_read (db_cache db) h fs"
    and same: "\<And>x. cache_read (db_cache db) hash fs = Some x \<Longrightarrow> x = d"
    and up: "upsert (w_sha w) (w_ord w) (w_fails w) (w_now w) mime (Detached len) hash n (db_store db) = (Inr out, s')"
  shows "storage_ok (w_sha w) (db\<lparr> db_store := s' \<rparr>) (remove_many (w_os w) (db_cache db) (expired_hashes out) fs2)"
proof -
  have nc: "no_collision (w_sha w) (Detached len) (db_store db)" by (simp add: no_collision_def)
  have sok: "store_ok (w_sha w) (db_store db)" using ok by (simp add: storage_ok_def)
  have keep: "hex_hash h \<Longrightarrow> cache_read (db_cache db) h fs = Some x \<Longrightarrow> cache_read (db_cache db) h fs2 = Some x" for h x
    using others [of h] read same by (cases "h = hash") auto
  have "store_ok (w_sha w) s'" using ts_order.upsert_ok [OF ord sok nc] up by (metis snd_conv)
  moreover have "cache_sound (row_key (w_sha w)) (db_cache db) fs2"
    unfolding cache_sound_def
  proof (intro allI impI)
    fix h x assume hx: "hex_hash h" "fs_files fs2 (cache_path (db_cache db) h) = Some x"
    show "row_key (w_sha w) x = h"
    proof (cases "h = hash")
      case True
      with hx read hh(2) show ?thesis by (simp add: cache_read_def row_key_def)
    next
      case False
      with hx others [of h] ok show ?thesis by (auto simp: storage_ok_def cache_sound_def cache_read_def)
    qed
  qed
  moreover have "cache_complete (db\<lparr> db_store := s' \<rparr>) (remove_many (w_os w) (db_cache db) (expired_hashes out) fs2)"
    by (rule cache_complete_upsert [OF ord ok nc up hh(1) keep]) (use read len in \<open>auto simp: body_len_def\<close>)
  ultimately show ?thesis by (simp add: storage_ok_def cache_sound_remove_many)
qed

text \<open>A row that could not be written: the file just placed goes again.\<close>

lemma adoption_undone:
  assumes ok: "storage_ok sha db fs" and apart: "spool_apart db (sp_path sp)" and hh: "hex_hash (hex_digest sp)"
    and rm: "os_unlink os (cache_path (db_cache db) (hex_digest sp))"
    and free: "entry_free db (hex_digest sp) d fs" and src: "fs_files fs (sp_path sp) = Some d"
    and ad: "adopt os (db_cache db) (hex_digest sp) (sp_path sp) fs = (Inr how, fs1)"
  shows "storage_ok sha db
    (if how = Placed then cache_remove os (db_cache db) (hex_digest sp) (snd (spooled_into_path sp fs1)) else spooled_drop sp fs1)"
proof (rule storage_ok_fs_cong [OF ok])
  note a = adopt_reads [OF ad free apart src hh]
  fix h assume h: "hex_hash h"
  show "cache_read (db_cache db) h
      (if how = Placed then cache_remove os (db_cache db) (hex_digest sp) (snd (spooled_into_path sp fs1)) else spooled_drop sp fs1) =
    cache_read (db_cache db) h fs"
  proof (cases how)
    case Placed
    then show ?thesis
      using a(2) [OF h] a(3) rm ce.unlink_other [OF hh h]
      by (cases "h = hex_digest sp") (auto simp: cache_remove_def cache_read_def fs_unlink_def)
  next
    case Present
    then show ?thesis using a(4) spooled_drop_read [OF apart h] by simp
  qed
qed

lemma insert_spooled_read_ok:
  assumes ord: "ts_order (w_ord w)" and ok: "storage_ok (w_sha w) db fs"
    and cf: "collision_free (w_sha w) d (chunk_db (db_store db))"
    and rec: "spool_record (w_sha w) sp d fs" and free: "entry_free db (hex_digest sp) d fs"
    and apart: "spool_apart db (sp_path sp)" and wr: "os_write (w_os w) = WDone"
    and road: "\<not> is_skipped mime (sp_len sp)" "\<not> is_detachable mime"
    and ins: "insert_spooled w mime sp n db fs = (r, db', fs')"
  shows "storage_ok (w_sha w) db' fs'"
proof (cases "read_spooled sp fs")
  case (Inl e)
  with ins road storage_ok_drop [OF ok apart] show ?thesis by (auto simp: insert_spooled_def Let_def)
next
  case (Inr data)
  then have data: "data = d"
    using rec by (auto simp: spool_record_def read_spooled_def file_open_def Let_def split: if_splits)
  obtain q db1 fs1 where i: "insert_with_hash w mime d (hex_digest sp) n db fs = (q, db1, fs1)" by (metis prod_cases3)
  have hash: "hex_digest sp = to_hex (w_sha w d)" using rec by (simp add: spool_record_def hex_digest_def)
  have "storage_ok (w_sha w) db1 fs1" by (rule insert_with_hash_ok [OF ord ok cf hash free wr i])
  moreover have "spool_apart db1 (sp_path sp)" using apart insert_with_hash_cache [OF i] by (simp add: spool_apart_def)
  ultimately show ?thesis using ins road Inr data i storage_ok_drop by (auto simp: insert_spooled_def Let_def)
qed

lemma insert_spooled_adopt_ok:
  assumes ord: "ts_order (w_ord w)" and ok: "storage_ok (w_sha w) db fs"
    and rec: "spool_record (w_sha w) sp d fs" and free: "entry_free db (hex_digest sp) d fs"
    and apart: "spool_apart db (sp_path sp)"
    and rm: "os_unlink (w_os w) (cache_path (db_cache db) (hex_digest sp))"
    and road: "\<not> is_skipped mime (sp_len sp)" "is_detachable mime"
    and ins: "insert_spooled w mime sp n db fs = (r, db', fs')"
  shows "storage_ok (w_sha w) db' fs'"
proof -
  let ?hash = "hex_digest sp"
  have hash: "?hash = to_hex (w_sha w d)" and src: "fs_files fs (sp_path sp) = Some d" and len: "sp_len sp = length d"
    using rec by (simp_all add: spool_record_def hex_digest_def)
  have hh: "hex_hash ?hash" by (simp add: hash)
  obtain q fs1 where ad: "adopt (w_os w) (db_cache db) ?hash (sp_path sp) fs = (q, fs1)" by fastforce
  show ?thesis
  proof (cases q)
    case (Inl e)
    have "storage_ok (w_sha w) db fs1"
      by (rule storage_ok_fs_cong [OF ok]) (rule adopt_fails [OF ad [unfolded Inl] apart src hh rm])
    from storage_ok_drop [OF this apart] ins road ad Inl show ?thesis by (auto simp: insert_spooled_def Let_def)
  next
    case (Inr how)
    note a = adopt_reads [OF ad [unfolded Inr] free apart src hh]
    let ?fs2 = "case how of Placed \<Rightarrow> fs1 | Present \<Rightarrow> spooled_drop sp fs1"
    have fs2: "cache_read (db_cache db) h ?fs2 = cache_read (db_cache db) h fs1" if "hex_hash h" for h
      using spooled_drop_read [OF apart that] by (cases how) simp_all
    obtain u s' where up: "upsert (w_sha w) (w_ord w) (w_fails w) (w_now w) mime (Detached (sp_len sp))
        ?hash n (db_store db) = (u, s')" by fastforce
    show ?thesis
    proof (cases u)
      case (Inl e)
      with up upsert_Inl have "s' = db_store db" by blast
      with adoption_undone [OF ok apart hh rm free src ad [unfolded Inr]] ins road ad Inr up Inl show ?thesis
        by (cases how) (auto simp: insert_spooled_def upsert_detached_def Let_def)
    next
      case (Inr out)
      have "storage_ok (w_sha w) (db\<lparr> db_store := s' \<rparr>) (remove_many (w_os w) (db_cache db) (expired_hashes out) ?fs2)"
        by (rule adopted_row_ok [OF ord ok hh hash len _ _ _ up [unfolded Inr]])
          (use a fs2 hh free in \<open>simp_all add: entry_free_def\<close>)
      with ins road ad \<open>q = Inr how\<close> up Inr show ?thesis
        by (cases how) (auto simp: insert_spooled_def upsert_detached_def Let_def)
    qed
  qed
qed

lemma insert_spooled_ok:
  assumes ord: "ts_order (w_ord w)" and ok: "storage_ok (w_sha w) db fs"
    and cf: "collision_free (w_sha w) d (chunk_db (db_store db))"
    and rec: "spool_record (w_sha w) sp d fs" and free: "entry_free db (hex_digest sp) d fs"
    and apart: "spool_apart db (sp_path sp)" and wr: "os_write (w_os w) = WDone"
    and rm: "os_unlink (w_os w) (cache_path (db_cache db) (hex_digest sp))"
    and ins: "insert_spooled w mime sp n db fs = (r, db', fs')"
  shows "storage_ok (w_sha w) db' fs'"
proof (cases "is_skipped mime (sp_len sp)")
  case True
  with ins storage_ok_drop [OF ok apart] show ?thesis by (auto simp: insert_spooled_def)
next
  case False
  then show ?thesis
    using insert_spooled_read_ok [OF ord ok cf rec free apart wr False _ ins]
      insert_spooled_adopt_ok [OF ord ok rec free apart rm False _ ins] by blast
qed

lemma insert_spooled_source_gone:
  assumes owned: "sp_owned sp" and apart: "spool_apart db (sp_path sp)" and hh: "hex_hash (hex_digest sp)"
    and rm: "os_unlink (w_os w) (sp_path sp)"
    and ins: "insert_spooled w mime sp n db fs = (r, db', fs')"
  shows "fs_files fs' (sp_path sp) = None"
proof (cases "is_skipped mime (sp_len sp) \<or> \<not> is_detachable mime")
  case True
  then show ?thesis
    using ins spooled_gone [OF owned]
    by (auto simp: insert_spooled_def Let_def split: if_splits sum.splits prod.splits)
next
  case False
  obtain q fs1 where ad: "adopt (w_os w) (db_cache db) (hex_digest sp) (sp_path sp) fs = (q, fs1)" by fastforce
  show ?thesis
  proof (cases q)
    case (Inl e)
    with False ad ins spooled_gone [OF owned] show ?thesis by (auto simp: insert_spooled_def Let_def)
  next
    case (Inr how)
    let ?fs2 = "case how of Placed \<Rightarrow> fs1 | Present \<Rightarrow> spooled_drop sp fs1"
    have gone: "fs_files ?fs2 (sp_path sp) = None"
      using adopt_source_gone [OF _ apart hh rm] ad Inr spooled_gone [OF owned] by (cases how) auto
    then have "fs_files (cache_remove (w_os w) c h ?fs2) (sp_path sp) = None" for c h
      by (auto simp: cache_remove_def fs_unlink_def)
    with False ad Inr ins gone remove_many_gone [OF gone] show ?thesis
      by (cases how) (auto simp: insert_spooled_def Let_def split: sum.splits prod.splits if_splits)
  qed
qed


definition calm_world :: "(stmt \<Rightarrow> bool) \<Rightarrow> os_answers \<Rightarrow> int \<Rightarrow> world" where
  "calm_world fails os now =
     \<lparr> w_sha = (\<lambda>d. d), w_ord = order_by_ts_desc, w_fails = fails, w_os = os, w_now = now \<rparr>"

definition fresh_db :: clipboard_db where
  "fresh_db = \<lparr> db_store = empty_store, db_cache = \<lparr> cache_dir = ''/c'' \<rparr> \<rparr>"

definition spool_fs :: fsys where
  "spool_fs = write_file ''/c/spool/1.part'' ''PNG'' empty_fs"

definition sample_spool :: spooled_file where
  "sample_spool = spooled_new ''/c/spool/1.part'' 3 ''PNG''"

lemma sample_spool_facts:
  "spool_record (\<lambda>d. d) sample_spool ''PNG'' spool_fs" "spool_apart fresh_db (sp_path sample_spool)"
  "collision_free (\<lambda>d. d) ''PNG'' (chunk_db (db_store fresh_db))"
  "entry_free fresh_db (hex_digest sample_spool) ''PNG'' spool_fs"
  "storage_ok (\<lambda>d. d) fresh_db spool_fs"
proof -
  have apart: "cache_path \<lparr> cache_dir = ''/c'' \<rparr> h \<noteq> ''/c/spool/1.part''" if "hex_hash h" for h
  proof
    assume p: "cache_path \<lparr> cache_dir = ''/c'' \<rparr> h = ''/c/spool/1.part''"
    have "last (cache_path \<lparr> cache_dir = ''/c'' \<rparr> h) = CHR ''e''"
      by (simp add: cache_path_def path_push_def CACHE_FILE_EXTENSION_def)
    with p show False by simp
  qed
  then show "spool_apart fresh_db (sp_path sample_spool)"
    by (simp add: spool_apart_def sample_spool_def spooled_new_def fresh_db_def)
  show "spool_record (\<lambda>d. d) sample_spool ''PNG'' spool_fs"
    by (simp add: spool_record_def sample_spool_def spooled_new_def spool_fs_def)
  show "collision_free (\<lambda>d. d) ''PNG'' (chunk_db (db_store fresh_db))" by (simp add: collision_free_def)
  have "hex_hash (hex_digest sample_spool)" by (simp add: hex_digest_def)
  from apart [OF this] show "entry_free fresh_db (hex_digest sample_spool) ''PNG'' spool_fs"
    by (auto simp: entry_free_def fresh_db_def cache_read_def spool_fs_def empty_fs_def write_file_def)
  show "storage_ok (\<lambda>d. d) fresh_db spool_fs"
    using apart store_ok_empty
    by (auto simp: storage_ok_def fresh_db_def cache_sound_def cache_complete_def spool_fs_def empty_store_def
        empty_fs_def)
qed


section \<open>What was stored is what is served\<close>

context ts_order
begin

lemma upsert_new_row:
  assumes ok: "store_ok sha s" and cf: "no_collision sha body s"
    and up: "upsert sha ord fails now mime body hash n s = (Inr out, s')"
    and new: "find_hash hash s = None" and newest: "\<And>r. r \<in> set (clipboard s) \<Longrightarrow> r_ts r < now"
    and cap: "0 < sql_offset n"
  shows "\<exists>r \<in> set (clipboard s'). r_id r = real_id out \<and> r_mime r = mime \<and> r_hash r = Some hash \<and>
    content_of s' r = expected_content mime body"
proof -
  obtain s1 where p: "place_record sha fails now mime body hash s = Inr (real_id out, s1)"
    by (rule upsert_Inr [OF up])
  obtain r where r: "r \<in> set (clipboard s1)" "r_id r = real_id out" "r_mime r = mime" "r_hash r = Some hash"
      "content_of s1 r = expected_content mime body"
    using place_record_spec(3) [OF ok p cf new] by blast
  from upsert_keeps_placed [OF ok cf up newest cap p r(1,2)] r show ?thesis by auto
qed

end

lemma adopt_succeeds:
  "fs_files fs source = Some d \<Longrightarrow> os_copy os = WDone \<or> os_rename os \<Longrightarrow>
     \<exists>how fs1. adopt os c hash source fs = (Inr how, fs1)"
  by (auto simp: adopt_def Let_def fs_write_def)

text \<open>A payload is \<open>new\<close> when nothing fails, its fingerprint is unknown, it is the newest and the cap admits it.\<close>

definition new_entry :: "world \<Rightarrow> string \<Rightarrow> nat \<Rightarrow> clipboard_db \<Rightarrow> bool" where
  "new_entry w hash n db \<longleftrightarrow> w_fails w = (\<lambda>_. False) \<and> find_hash hash (db_store db) = None \<and>
     last_seq (db_store db) < i64_max \<and> (\<forall>r \<in> set (clipboard (db_store db)). r_ts r < w_now w) \<and> 0 < sql_offset n"

lemma upsert_served:
  assumes ord: "ts_order (w_ord w)" and ok: "storage_ok (w_sha w) db fs" and nc: "no_collision (w_sha w) body (db_store db)"
    and new: "new_entry w hash n db" and hh: "hex_hash hash"
    and up: "upsert (w_sha w) (w_ord w) (\<lambda>_. False) (w_now w) mime body hash n (db_store db) = (Inr out, s')"
    and row: "case expected_content mime body of Some c \<Rightarrow> c = d | None \<Rightarrow> cache_read (db_cache db) hash fs2 = Some d"
  defines "fs3 \<equiv> remove_many (w_os w) (db_cache db) (expired_hashes out) fs2"
  shows "get_content_by_id w (real_id out) (db\<lparr> db_store := s' \<rparr>) fs3 = Some (mime, d)"
    and "expected_content mime body = None \<Longrightarrow>
      locate_content w (real_id out) (db\<lparr> db_store := s' \<rparr>) = Some (mime, CacheFile (cache_path (db_cache db) hash)) \<and>
      fs_files fs3 (cache_path (db_cache db) hash) = Some d"
proof -
  have sok: "store_ok (w_sha w) (db_store db)" using ok by (simp add: storage_ok_def)
  have nf: "w_fails w = (\<lambda>_. False)" using new by (simp add: new_entry_def)
  obtain r where r: "r \<in> set (clipboard s')" "r_id r = real_id out" "r_mime r = mime" "r_hash r = Some hash"
      "content_of s' r = expected_content mime body"
    using ts_order.upsert_new_row [OF ord sok nc up] new by (auto simp: new_entry_def)
  have hexs: "list_all hex_hash (expired_hashes out)"
    using ts_order.expired_from_rows [OF ord sok nc up] hh ok
    by (auto simp: list_all_iff storage_ok_def cache_complete_def)
  have keep: "cache_read (db_cache db) hash fs3 = cache_read (db_cache db) hash fs2"
    using remove_many_other [OF hexs hh ts_order.expired_not_kept [OF ord sok nc up r(1,4)]]
    by (simp add: cache_read_def fs3_def)
  have ok': "store_ok (w_sha w) s'" using ts_order.upsert_ok [OF ord sok nc] up by (metis snd_conv)
  have content: "get_row_content (w_fails w) (real_id out) s' = Some (mime, expected_content mime body, hash)"
    using get_row_content_eq [OF ok' r(1,4), of "\<lambda>_. False"] r nf by simp
  then show "get_content_by_id w (real_id out) (db\<lparr> db_store := s' \<rparr>) fs3 = Some (mime, d)"
    using row keep by (auto simp: get_content_by_id_def split: option.splits)
  have "get_row (real_id out) s' = Some r"
    using get_row_Some_iff [of s'] ok' r by (simp add: store_ok_def rows_ok_def)
  then show "locate_content w (real_id out) (db\<lparr> db_store := s' \<rparr>) = Some (mime, CacheFile (cache_path (db_cache db) hash)) \<and>
      fs_files fs3 (cache_path (db_cache db) hash) = Some d" if "expected_content mime body = None"
    using r nf that row keep by (auto simp: locate_content_def get_row_location_def content_of_None cache_read_def)
qed

lemma upsert_goes_through:
  assumes "storage_ok (w_sha w) db fs" and "new_entry w hash n db"
  obtains out s' where "upsert (w_sha w) (w_ord w) (\<lambda>_. False) (w_now w) mime body hash n (db_store db) = (Inr out, s')"
  using upsert_succeeds [of "w_sha w" "db_store db" "\<lambda>_. False"] assms unfolding new_entry_def storage_ok_def by metis

lemma insert_spooled_served:
  assumes ord: "ts_order (w_ord w)" and ok: "storage_ok (w_sha w) db fs"
    and rec: "spool_record (w_sha w) sp d fs" and free: "entry_free db (hex_digest sp) d fs"
    and apart: "spool_apart db (sp_path sp)" and cp: "os_copy (w_os w) = WDone \<or> os_rename (w_os w)"
    and skip: "\<not> is_skipped mime (sp_len sp)" and det: "is_detachable mime" and new: "new_entry w (hex_digest sp) n db"
  shows "\<exists>rid db' fs'. insert_spooled w mime sp n db fs = (Inr rid, db', fs') \<and>
    get_content_by_id w rid db' fs' = Some (mime, d) \<and>
    locate_content w rid db' = Some (mime, CacheFile (cache_path (db_cache db) (hex_digest sp))) \<and>
    fs_files fs' (cache_path (db_cache db) (hex_digest sp)) = Some d"
proof -
  let ?hash = "hex_digest sp"
  let ?body = "Detached (sp_len sp)"
  have hash: "?hash = to_hex (w_sha w d)" and src: "fs_files fs (sp_path sp) = Some d"
    using rec by (simp_all add: spool_record_def hex_digest_def)
  have hh: "hex_hash ?hash" by (simp add: hash)
  have nc: "no_collision (w_sha w) ?body (db_store db)" by (simp add: no_collision_def)
  obtain how fs1 where ad: "adopt (w_os w) (db_cache db) ?hash (sp_path sp) fs = (Inr how, fs1)"
    using adopt_succeeds [OF src cp] by blast
  let ?fs2 = "case how of Placed \<Rightarrow> fs1 | Present \<Rightarrow> spooled_drop sp fs1"
  have fs2: "cache_read (db_cache db) ?hash ?fs2 = Some d"
    using adopt_reads(1) [OF ad free apart src hh] spooled_drop_read [OF apart hh] by (cases how) simp_all
  obtain out s' where up: "upsert (w_sha w) (w_ord w) (\<lambda>_. False) (w_now w) mime ?body ?hash n (db_store db) = (Inr out, s')"
    by (rule upsert_goes_through [OF ok new])
  have "insert_spooled w mime sp n db fs =
      (Inr (real_id out), db\<lparr> db_store := s' \<rparr>, remove_many (w_os w) (db_cache db) (expired_hashes out) ?fs2)"
    using ad up skip det new by (cases how) (simp_all add: insert_spooled_def upsert_detached_def Let_def new_entry_def)
  with upsert_served [OF ord ok nc new hh up, of ?fs2 d] fs2 show ?thesis
    by (simp add: expected_content_def)
qed

lemma insert_with_hash_served:
  assumes ord: "ts_order (w_ord w)" and ok: "storage_ok (w_sha w) db fs"
    and cf: "collision_free (w_sha w) data (chunk_db (db_store db))"
    and hash: "hash = to_hex (w_sha w data)" and free: "entry_free db hash data fs" and wr: "os_write (w_os w) = WDone"
    and skip: "\<not> is_skipped mime (length data)" and new: "new_entry w hash n db"
  shows "\<exists>rid db' fs'. insert_with_hash w mime data hash n db fs = (Inr rid, db', fs') \<and>
    get_content_by_id w rid db' fs' = Some (mime, data)"
proof -
  let ?body = "Bytes data"
  have hh: "hex_hash hash" by (simp add: hash)
  have nc: "no_collision (w_sha w) ?body (db_store db)" using cf by (simp add: no_collision_def)
  have sok: "store_ok (w_sha w) (db_store db)" using ok by (simp add: storage_ok_def)
  obtain out s' where up: "upsert (w_sha w) (w_ord w) (\<lambda>_. False) (w_now w) mime ?body hash n (db_store db) = (Inr out, s')"
    by (rule upsert_goes_through [OF ok new])
  let ?fs1 = "if is_image out then snd (cache_store (w_os w) (db_cache db) hash data fs) else fs"
  have img: "is_image out = is_cache_class mime" by (rule upsert_Inr [OF up])
  have "real_id out \<noteq> - 1" using upsert_id_pos [OF sok nc up] by simp
  then have "insert_with_hash w mime data hash n db fs =
      (Inr (real_id out), db\<lparr> db_store := s' \<rparr>, remove_many (w_os w) (db_cache db) (expired_hashes out) ?fs1)"
    using up skip new by (simp add: insert_with_hash_def upsert_record_def Let_def new_entry_def)
  moreover have "case expected_content mime ?body of Some c \<Rightarrow> c = data
      | None \<Rightarrow> cache_read (db_cache db) hash ?fs1 = Some data"
    using img cache_store_read(1) [OF hh free wr] by (auto simp: expected_content_def stored_inline_def)
  ultimately show ?thesis
    using upsert_served(1) [OF ord ok nc new hh up, of ?fs1 data] by simp
qed

text \<open>an image that arrives as a spool file and is new, newest and within the cap is served back
  byte for byte under the returned id, and the location handed to the zero-copy egress is the cache
  file that holds exactly these bytes.\<close>

lemma insert_spooled_roundtrip:
  assumes "ts_order (w_ord w)" and "storage_ok (w_sha w) db fs"
    and "spool_record (w_sha w) sp d fs" and "entry_free db (hex_digest sp) d fs"
    and "spool_apart db (sp_path sp)" and "os_copy (w_os w) = WDone \<or> os_rename (w_os w)"
    and "w_fails w = (\<lambda>_. False)" and "\<not> is_skipped mime (sp_len sp)" and "is_detachable mime"
    and "find_hash (hex_digest sp) (db_store db) = None" and "last_seq (db_store db) < i64_max"
    and "\<forall>r \<in> set (clipboard (db_store db)). r_ts r < w_now w" and "0 < sql_offset n"
  shows "\<exists>rid db' fs'. insert_spooled w mime sp n db fs = (Inr rid, db', fs') \<and>
    get_content_by_id w rid db' fs' = Some (mime, d) \<and>
    locate_content w rid db' = Some (mime, CacheFile (cache_path (db_cache db) (hex_digest sp))) \<and>
    fs_files fs' (cache_path (db_cache db) (hex_digest sp)) = Some d"
  by (rule insert_spooled_served [OF assms(1-6,8,9)]) (simp add: new_entry_def assms(7,10-13))

theorem insert_spooled_roundtrip_witness:
  "\<exists>rid db' fs'. insert_spooled (calm_world (\<lambda>_. False) os_fine 5) ''image/png'' sample_spool 3 fresh_db spool_fs
      = (Inr rid, db', fs') \<and>
    get_content_by_id (calm_world (\<lambda>_. False) os_fine 5) rid db' fs' = Some (''image/png'', ''PNG'')"
proof -
  let ?w = "calm_world (\<lambda>_. False) os_fine 5"
  have img: "\<not> is_skipped ''image/png'' 3" "is_detachable ''image/png''" by code_simp+
  have len: "sp_len sample_spool = 3" by (simp add: sample_spool_def spooled_new_def)
  from insert_spooled_roundtrip [of ?w fresh_db spool_fs sample_spool "''PNG''" "''image/png''" 3]
    sample_spool_facts by_ts.ts_order_axioms img
  show ?thesis
    by (simp add: len calm_world_def os_fine_def sql_offset_def as_i64_def)
      (auto simp: fresh_db_def empty_store_def find_hash_def i64_max_def)
qed

section \<open>A short write is kept as the payload\<close>

text \<open>
  \<^verbatim>\<open>FileCache::store\<close> does not clean up after a failed \<^verbatim>\<open>fs::write\<close>, and the facade ignores its error:
  the entry then holds a prefix of the payload under the payload's fingerprint.
\<close>

lemma cache_store_short_write:
  assumes "\<not> path_exists fs (cache_path c hash)" and "os_write os = WShort k"
  shows "cache_read c hash (snd (cache_store os c hash data fs)) = Some (take k data)"
  using assms by (simp add: cache_store_def fs_write_def cache_read_def Let_def)

end
