(* ===== verification/Metrics.thy ===== *)
theory Metrics
  imports Utils Db
begin

text \<open>
  \<^verbatim>\<open>crates/daemon/src/metrics.rs\<close>: the daemon's counters. \<open>clock\<close> is the wall clock in milliseconds
  relative to the epoch; every read of it is an argument of its own.
\<close>

definition now_ms :: "int \<Rightarrow> int" where
  "now_ms clock = (if clock < 0 then 0 else as_i64 (nat clock))"

record daemon_metrics =
  started_at_ms :: int
  ingress_count :: nat
  egress_count :: nat
  last_event_at_ms :: int

definition metrics_new :: "int \<Rightarrow> daemon_metrics" where
  "metrics_new clock =
     \<lparr> started_at_ms = now_ms clock, ingress_count = 0, egress_count = 0, last_event_at_ms = 0 \<rparr>"

definition record_ingress :: "int \<Rightarrow> daemon_metrics \<Rightarrow> daemon_metrics" where
  "record_ingress clock m =
     m\<lparr> ingress_count := wrap64 (ingress_count m + 1), last_event_at_ms := now_ms clock \<rparr>"

definition record_egress :: "int \<Rightarrow> daemon_metrics \<Rightarrow> daemon_metrics" where
  "record_egress clock m =
     m\<lparr> egress_count := wrap64 (egress_count m + 1), last_event_at_ms := now_ms clock \<rparr>"

definition show_bool :: "bool \<Rightarrow> string" where [std_defs]:
  "show_bool b = (if b then ''true'' else ''false'')"

definition format_status :: "int \<Rightarrow> int \<Rightarrow> bool \<Rightarrow> nat \<Rightarrow> nat \<Rightarrow> daemon_metrics \<Rightarrow> string" where
  "format_status clock clock' paused shed_r shed_q m =
     ''uptime_ms='' @ show_int (now_ms clock - started_at_ms m) @
     '' ingress='' @ show_nat (ingress_count m) @
     '' egress='' @ show_nat (egress_count m) @
     '' paused='' @ show_bool paused @
     '' last_event_ms_ago='' @
       show_int (if last_event_at_ms m = 0 then - 1 else now_ms clock' - last_event_at_ms m) @
     '' shed_readers='' @ show_nat shed_r @
     '' shed_queue='' @ show_nat shed_q @ [CHR 0x0A]"

section \<open>The status answer is one line of key=value pairs\<close>

lemma show_nat_no: "c \<in> {CHR '' '', CHR ''='', CHR 0x0A} \<Longrightarrow> c \<notin> set (show_nat n)"
  using show_nat_digits [of c n] by (auto simp: is_digit_def byte_val_def)

lemma show_int_no: "c \<in> {CHR '' '', CHR ''='', CHR 0x0A} \<Longrightarrow> c \<notin> set (show_int i)"
  using show_int_bytes [of c i] by (auto simp: is_digit_def byte_val_def)

lemma show_bool_no: "c \<in> {CHR '' '', CHR ''='', CHR 0x0A} \<Longrightarrow> c \<notin> set (show_bool b)"
  by (auto simp: show_bool_def)

lemma format_status_one_line:
  "\<exists>line. format_status c c' p r q m = line @ [CHR 0x0A] \<and> CHR 0x0A \<notin> set line"
  unfolding format_status_def
  by (intro exI conjI, simp only: append_assoc [symmetric]) (auto simp: show_nat_no show_int_no show_bool_no)

lemma recorded_counts [simp]:
  "ingress_count (record_ingress c m) = wrap64 (ingress_count m + 1)" "egress_count (record_ingress c m) = egress_count m"
  "egress_count (record_egress c m) = wrap64 (egress_count m + 1)" "ingress_count (record_egress c m) = ingress_count m"
  by (simp_all add: record_ingress_def record_egress_def)

end
