(* ===== verification/Worker.thy ===== *)
theory Worker
  imports Spool Storage Metrics
begin

text \<open>
  \<^verbatim>\<open>crates/daemon/src/worker.rs\<close>: the thread that persists. It takes one job at a time from the bounded
  queue, runs it through the image pipeline, stores it, and gives its bytes back to the budget. What
  the outside answers while one job is processed is the record \<open>job_env\<close>.
\<close>

section \<open>State\<close>

record job_env =
  je_world :: world
  je_conv :: convert_env
  je_probe :: bool
  je_others :: "nat \<Rightarrow> guards \<Rightarrow> guards"
  je_before :: nat
  je_after :: nat
  je_stat :: bool
  je_clock :: int

record worker_state =
  wk_db :: clipboard_db
  wk_guards :: guards
  wk_conv :: conv_state
  wk_metrics :: daemon_metrics

type_synonym saved = "string \<times> nat"

section \<open>Operations\<close>

definition fingerprint :: "(bytes \<Rightarrow> bytes) \<Rightarrow> bytes \<Rightarrow> string" where
  "fingerprint sha data = to_hex (sha data)"

definition process_job :: "job_env \<Rightarrow> string \<Rightarrow> bytes \<Rightarrow> worker_state \<Rightarrow> (string \<times> bytes \<times> string) \<times> worker_state" where
  "process_job je mime data st =
     (case route_for_ingest (ce_host (je_conv je)) (ce_exec (je_conv je)) (ce_scratch (je_conv je)) (je_probe je)
             (je_others je) (je_before je) (je_after je) mime data (wk_guards st) (wk_conv st) of
        ((mime', data'), g, cv) \<Rightarrow>
          ((mime', data', fingerprint (w_sha (je_world je)) data'), st\<lparr> wk_guards := g, wk_conv := cv \<rparr>))"

definition materialise :: "bool \<Rightarrow> clipboard_job \<Rightarrow> fsys \<Rightarrow> (string \<times> bytes) option \<times> fsys" where
  "materialise stat_ok job fs =
     (case into_bytes stat_ok job MAX_PAYLOAD_BYTES fs of
        (Inr m, fs') \<Rightarrow> (Some m, fs')
      | (Inl _, fs') \<Rightarrow> (None, fs'))"

definition read_head :: "path \<Rightarrow> fsys \<Rightarrow> bytes" where
  "read_head p fs = (case file_open fs p of Inr d \<Rightarrow> take SNIFF_HEAD_BYTES d | Inl _ \<Rightarrow> [])"

text \<open>The superseded original is unlinked when the conversion replaces it.\<close>

definition convert_if_wanted ::
    "job_env \<Rightarrow> string \<Rightarrow> spooled_file \<Rightarrow> worker_state \<Rightarrow> fsys \<Rightarrow> (string \<times> spooled_file) \<times> worker_state \<times> fsys" where
  "convert_if_wanted je mime spooled st fs =
     (case route_file_for_ingest (je_probe je) (je_others je) (je_before je) (je_after je)
             (\<lambda>job. transcode_spooled (je_conv je) (w_sha (je_world je)) spooled job MAX_PAYLOAD_BYTES)
             mime (read_head (sp_path spooled) fs) (wk_guards st) (wk_conv st, fs) of
        (routed, g, cv, fs') \<Rightarrow>
          (let st' = st\<lparr> wk_guards := g, wk_conv := cv \<rparr>
           in case routed of
                Converted converted out \<Rightarrow> ((converted, out), st', spooled_drop spooled fs')
              | Original \<Rightarrow> ((mime, spooled), st', fs')))"

text \<open>\<^verbatim>\<open>usize::try_from\<close> of a 64-bit length does not fail on the 64-bit targets modelled here.\<close>

definition store_spooled ::
    "job_env \<Rightarrow> string \<Rightarrow> spooled_file \<Rightarrow> nat \<Rightarrow> worker_state \<Rightarrow> fsys \<Rightarrow>
     (storage_error + saved option) \<times> worker_state \<times> fsys" where
  "store_spooled je mime spooled max_history st fs =
     (case convert_if_wanted je mime spooled st fs of
        ((mime', spooled'), st1, fs1) \<Rightarrow>
          (case insert_spooled (je_world je) mime' spooled' max_history (wk_db st1) fs1 of
             (r, db, fs2) \<Rightarrow>
               (try_bind r (\<lambda>_. Inr (Some (mime', sp_len spooled'))), st1\<lparr> wk_db := db \<rparr>, fs2)))"

definition store_materialised ::
    "job_env \<Rightarrow> clipboard_job \<Rightarrow> nat \<Rightarrow> worker_state \<Rightarrow> fsys \<Rightarrow>
     (storage_error + saved option) \<times> worker_state \<times> fsys" where
  "store_materialised je job max_history st fs =
     (case materialise (je_stat je) job fs of
        (None, fs1) \<Rightarrow> (Inr None, st, fs1)
      | (Some (mime, data), fs1) \<Rightarrow>
          (case process_job je mime data st of
             ((mime', data', hash), st1) \<Rightarrow>
               (case insert_with_hash (je_world je) mime' data' hash max_history (wk_db st1) fs1 of
                  (r, db, fs2) \<Rightarrow>
                    (try_bind r (\<lambda>_. Inr (Some (mime', length data'))), st1\<lparr> wk_db := db \<rparr>, fs2))))"

definition store_job ::
    "job_env \<Rightarrow> clipboard_job \<Rightarrow> nat \<Rightarrow> worker_state \<Rightarrow> fsys \<Rightarrow>
     (storage_error + saved option) \<times> worker_state \<times> fsys" where
  "store_job je job max_history st fs =
     (case job_payload job of
        Spooled spooled \<Rightarrow> store_spooled je (job_mime job) spooled max_history st fs
      | p \<Rightarrow> store_materialised je (from_payload (job_mime job) p) max_history st fs)"

text \<open>
  One turn of the loop: take the oldest job, store it, drop its permit whatever became of it, count a
  success. \<open>None\<close> is \<^verbatim>\<open>recv\<close> failing: no job left and no sender either. While a sender is alive an
  empty queue blocks the thread, which is a turn that does not happen.
\<close>

definition worker_turn ::
    "job_env \<Rightarrow> nat \<Rightarrow> queue_world \<times> worker_state \<Rightarrow> (queue_world \<times> worker_state) option" where
  "worker_turn je max_history = (\<lambda>(q, st).
     (case qw_jobs q of
        [] \<Rightarrow> None
      | job # rest \<Rightarrow>
          (case store_job je job max_history st (qw_fs q) of
             (stored, st', fs') \<Rightarrow>
               Some (q\<lparr> qw_jobs := rest, qw_fs := fs', qw_budget := budget_release (permit_bytes job) (qw_budget q) \<rparr>,
                 case stored of
                   Inr (Some _) \<Rightarrow> st'\<lparr> wk_metrics := record_ingress (je_clock je) (wk_metrics st') \<rparr>
                 | _ \<Rightarrow> st'))))"

text \<open>The loop once every sender is gone: it ends when the queue is empty.\<close>

function worker_loop ::
    "(nat \<Rightarrow> job_env) \<Rightarrow> nat \<Rightarrow> nat \<Rightarrow> queue_world \<times> worker_state \<Rightarrow> queue_world \<times> worker_state" where
  "worker_loop jes max_history i w =
     (case worker_turn (jes i) max_history w of
        None \<Rightarrow> w
      | Some w' \<Rightarrow> worker_loop jes max_history (Suc i) w')"
  by pat_completeness auto
termination
  by (relation "measure (\<lambda>(jes, n, i, w). length (qw_jobs (fst w)))")
    (auto simp: worker_turn_def split: list.splits prod.splits)

declare worker_loop.simps [simp del]

section \<open>Names of spool files\<close>

lemma part_apart: "p = q @ ''.part'' \<Longrightarrow> spool_apart db p"
proof -
  assume p: "p = q @ ''.part''"
  have "cache_path c h \<noteq> p" for c h
  proof
    assume "cache_path c h = p"
    moreover have "last (cache_path c h) = CHR ''e''"
      by (simp add: cache_path_def path_push_def CACHE_FILE_EXTENSION_def)
    ultimately show False using p by simp
  qed
  then show ?thesis by (simp add: spool_apart_def)
qed


section \<open>The conversion of a spool file\<close>

lemma converter_call_Inr: "converter_call probe run (cv, s) = (Inr x, cv', s') \<Longrightarrow> run s = (Inr x, s')"
  by (auto simp: converter_call_def Let_def split: prod.splits bool.splits if_splits)

lemma converter_call_Inl:
  "converter_call probe run (cv, s) = (Inl e, cv', s') \<Longrightarrow> s' = s \<or> run s = (Inl e, s')"
  by (auto simp: converter_call_def Let_def split: prod.splits bool.splits if_splits)

lemma route_file_cases:
  assumes "route_file_for_ingest probe others t0 t1 convert mime head g (cv, s) = (r, g', cv', s')"
  shows "case r of
      Original \<Rightarrow> s' = s \<or> (\<exists>job e. convert job s = (Inl e, s'))
    | Converted m out \<Rightarrow> \<exists>job. plan mime head = Some job \<and> m = output_mime (tc_output job) \<and> convert job s = (Inr out, s')"
proof (cases "plan mime head")
  case None
  with assms show ?thesis by (auto simp: route_file_for_ingest_def route_file_with_def)
next
  case (Some job)
  let ?call = "converter_call probe (convert job)"
  obtain c g1 w where a: "attempt_guarded others t0 t1 ?call (\<lambda>_. True) g (cv, s) = (c, g1, w)"
    by (metis prod_cases3)
  obtain res cv1 s1 where call: "?call (cv, s) = (res, cv1, s1)" by (metis prod_cases3)
  have w: "(cv', s') = w" and r: "r = (case c of Some out \<Rightarrow> Converted (output_mime (tc_output job)) out | None \<Rightarrow> Original)"
    using assms Some a by (auto simp: route_file_for_ingest_def route_file_with_def split: option.splits)
  show ?thesis
  proof (cases "attempted others t0 g")
    case False
    with attempt_not_called [OF _ a] w r show ?thesis by auto
  next
    case True
    from attempt_called [OF True a] call have c: "c = (case res of Inr x \<Rightarrow> Some x | Inl _ \<Rightarrow> None)" and "w = (cv1, s1)"
      by (auto simp: attempt_outcome_def split: sum.splits)
    with w have s1: "s' = s1" by simp
    show ?thesis
    proof (cases res)
      case (Inl e)
      with converter_call_Inl [OF call [unfolded Inl]] c r s1 show ?thesis by auto
    next
      case (Inr x)
      with converter_call_Inr [OF call [unfolded Inr]] c r s1 Some show ?thesis by auto
    qed
  qed
qed

lemma open_new_dirs: "open_new refusal dir p fs = (r, fs') \<Longrightarrow> fs_dirs fs' = fs_dirs fs"
  by (auto simp: open_new_def frame_simps split: option.splits if_splits)

lemma create_derived_dirs: "create_derived refusal source fs = (r, fs') \<Longrightarrow> fs_dirs fs' = fs_dirs fs"
  by (auto simp: create_derived_def Let_def split: option.splits prod.splits sum.splits dest: open_new_dirs)

lemma transcode_spooled_dirs:
  "transcode_spooled ce digest source job limit fs = (r, fs') \<Longrightarrow> fs_dirs fs' = fs_dirs fs"
  by (auto simp: transcode_spooled_def frame_simps split: sum.splits prod.splits option.splits dest: create_derived_dirs)

lemma create_derived_part: "create_derived refusal source fs = (Inr p, fs') \<Longrightarrow> \<exists>q. p = q @ ''.part''"
  by (auto simp: create_derived_def Let_def SPOOL_FILE_EXTENSION_def path_push_def split: option.splits prod.splits sum.splits)

lemma transcode_spooled_part:
  "transcode_spooled ce digest source job limit fs = (Inr out, fs') \<Longrightarrow> \<exists>q. sp_path out = q @ ''.part''"
  by (auto simp: transcode_spooled_def spooled_new_def split: sum.splits prod.splits option.splits dest: create_derived_part)

text \<open>What the worker hands to the storage layer: the file it was given, or a conversion of it.\<close>

definition conversion_of :: "string \<Rightarrow> bytes \<Rightarrow> string \<Rightarrow> bytes \<Rightarrow> bool" where
  "conversion_of mime d mime' d' \<longleftrightarrow> plan mime d \<noteq> None \<and> d' \<noteq> [] \<and> mime' = ''image/png'' \<and>
     detect_image_mime (take SIGNATURE_PROBE_BYTES d') = Some ''image/png''"

lemma png_only: "plan mime d = Some job \<Longrightarrow> output_mime (tc_output job) = ''image/png''"
  by (auto simp: plan_Some ingest_target_png)

lemma plan_read_head: "fs_files fs p = Some d \<Longrightarrow> plan mime (read_head p fs) = plan mime d"
  by (simp add: read_head_def file_open_def plan_take)

lemma payload_limit: "MAX_PAYLOAD_BYTES < u64_max"
  by (simp add: const_defs u64_max_def)

lemma convert_spec:
  assumes "convert_if_wanted je mime sp st fs = ((mime', sp'), st', fs')"
    and rec: "spool_record (w_sha (je_world je)) sp d fs"
  shows "wk_db st' = wk_db st" "fs_dirs fs' = fs_dirs fs"
    "mime' = mime \<and> sp' = sp \<and> fs_files fs' = fs_files fs \<or>
     (\<exists>d'. conversion_of mime d mime' d' \<and> spool_record (w_sha (je_world je)) sp' d' fs' \<and>
        fs_files fs (sp_path sp') = None \<and> sp_path sp' \<noteq> sp_path sp \<and> (\<exists>q. sp_path sp' = q @ ''.part'') \<and>
        fs_files fs' = (fs_files fs)(sp_path sp := None, sp_path sp' \<mapsto> d'))"
proof -
  let ?conv = "\<lambda>job. transcode_spooled (je_conv je) (w_sha (je_world je)) sp job MAX_PAYLOAD_BYTES"
  have own: "sp_owned sp" and src: "fs_files fs (sp_path sp) = Some d" using rec by (auto simp: spool_record_def)
  obtain r g cv fs1 where route: "route_file_for_ingest (je_probe je) (je_others je) (je_before je) (je_after je) ?conv
      mime (read_head (sp_path sp) fs) (wk_guards st) (wk_conv st, fs) = (r, g, cv, fs1)" by (metis prod_cases4)
  note spec = route_file_cases [OF route]
  have res: "st' = st\<lparr> wk_guards := g, wk_conv := cv \<rparr>"
    "case r of Original \<Rightarrow> mime' = mime \<and> sp' = sp \<and> fs' = fs1
       | Converted m out \<Rightarrow> mime' = m \<and> sp' = out \<and> fs' = spooled_drop sp fs1"
    using assms(1) route by (auto simp: convert_if_wanted_def Let_def split: file_route.splits)
  show "wk_db st' = wk_db st" using res(1) by simp
  show "fs_dirs fs' = fs_dirs fs"
    using spec res(2) by (cases r) (auto simp: spooled_drop_def frame_simps dest: transcode_spooled_dirs)
  show "mime' = mime \<and> sp' = sp \<and> fs_files fs' = fs_files fs \<or>
     (\<exists>d'. conversion_of mime d mime' d' \<and> spool_record (w_sha (je_world je)) sp' d' fs' \<and>
        fs_files fs (sp_path sp') = None \<and> sp_path sp' \<noteq> sp_path sp \<and> (\<exists>q. sp_path sp' = q @ ''.part'') \<and>
        fs_files fs' = (fs_files fs)(sp_path sp := None, sp_path sp' \<mapsto> d'))"
  proof (cases r)
    case Original
    with spec res(2) transcode_spooled_spec [OF _ payload_limit] show ?thesis by fastforce
  next
    case (Converted m out)
    with spec obtain job where job: "plan mime (read_head (sp_path sp) fs) = Some job"
      "m = output_mime (tc_output job)" "?conv job fs = (Inr out, fs1)" by auto
    obtain d' where d': "spooled_as (w_sha (je_world je)) out d' fs fs1" "d' \<noteq> []" "sp_path out \<noteq> sp_path sp"
        "detect_image_mime (take SIGNATURE_PROBE_BYTES d') = Some (output_mime (tc_output job))"
      using transcode_spooled_spec [OF job(3) payload_limit] by auto
    have "conversion_of mime d mime' d'"
      using job plan_read_head [OF src] png_only d' res(2) Converted by (auto simp: conversion_of_def)
    moreover have "spool_record (w_sha (je_world je)) sp' d' fs'"
      using d' res(2) Converted own by (auto simp: spool_record_def spooled_as_def spooled_drop_def)
    moreover have "fs_files fs' = (fs_files fs)(sp_path sp := None, sp_path sp' \<mapsto> d')"
      using d' res(2) Converted own by (auto simp: spooled_as_def spooled_drop_def)
    ultimately show ?thesis
      using d' transcode_spooled_part [OF job(3)] res(2) Converted by (auto simp: spooled_as_def)
  qed
qed


section \<open>What becomes of a job\<close>

text \<open>The pair the storage layer is asked to keep, and what is asked of the storage for it.\<close>

definition to_store :: "job_env \<Rightarrow> clipboard_job \<Rightarrow> worker_state \<Rightarrow> fsys \<Rightarrow> (string \<times> bytes) option" where
  "to_store je job st fs =
     (case job_payload job of
        Spooled sp \<Rightarrow>
          (case convert_if_wanted je (job_mime job) sp st fs of
             ((m, sp'), st1, fs1) \<Rightarrow> map_option (Pair m) (fs_files fs1 (sp_path sp')))
      | p \<Rightarrow>
          (case fst (materialise (je_stat je) (from_payload (job_mime job) p) fs) of
             None \<Rightarrow> None
           | Some (m, d) \<Rightarrow> (case process_job je m d st of ((m', d', h), st1) \<Rightarrow> Some (m', d'))))"

definition fits :: "(bytes \<Rightarrow> bytes) \<Rightarrow> clipboard_db \<Rightarrow> fsys \<Rightarrow> bytes \<Rightarrow> bool" where
  "fits sha db fs d \<longleftrightarrow> collision_free sha d (chunk_db (db_store db)) \<and> entry_free db (to_hex (sha d)) d fs"

text \<open>A job as the ingestion thread makes it: a spooled payload owns a file of the spool directory.\<close>

definition job_wf :: "(bytes \<Rightarrow> bytes) \<Rightarrow> clipboard_job \<Rightarrow> fsys \<Rightarrow> bool" where
  "job_wf sha job fs \<longleftrightarrow>
     (case job_payload job of
        Spooled sp \<Rightarrow> (\<exists>d q. spool_record sha sp d fs \<and> sp_path sp = q @ ''.part'')
      | _ \<Rightarrow> True)"

lemma fits_cong:
  assumes "fits sha db fs d" and "fs_dirs fs' = fs_dirs fs"
    and "\<And>h. hex_hash h \<Longrightarrow> cache_read (db_cache db) h fs' = cache_read (db_cache db) h fs"
  shows "fits sha db fs' d"
  using assms by (simp add: fits_def entry_free_def)

text \<open>After the conversion there is one spool file, with a true record, and the cache is as it was.\<close>

lemma converted_spool:
  assumes conv: "convert_if_wanted je mime sp st fs = ((mime', sp'), st', fs')"
    and rec: "spool_record (w_sha (je_world je)) sp d fs" and part: "sp_path sp = q @ ''.part''"
  obtains d' where "spool_record (w_sha (je_world je)) sp' d' fs'" "spool_apart db (sp_path sp')"
    "(mime', d') = (mime, d) \<or> conversion_of mime d mime' d'"
    "sp_path sp' = sp_path sp \<or> fs_files fs' (sp_path sp) = None"
    "\<forall>p. p \<noteq> sp_path sp' \<longrightarrow> fs_files fs p = None \<longrightarrow> fs_files fs' p = None"
    "\<And>h. hex_hash h \<Longrightarrow> cache_read (db_cache db) h fs' = cache_read (db_cache db) h fs"
proof -
  have apart: "spool_apart db (sp_path sp)" by (rule part_apart [OF part])
  from convert_spec(3) [OF conv rec] show ?thesis
  proof
    assume same: "mime' = mime \<and> sp' = sp \<and> fs_files fs' = fs_files fs"
    with rec apart show ?thesis by (intro that [of d]) (auto simp: spool_record_def cache_read_def)
  next
    assume "\<exists>d'. conversion_of mime d mime' d' \<and> spool_record (w_sha (je_world je)) sp' d' fs' \<and>
        fs_files fs (sp_path sp') = None \<and> sp_path sp' \<noteq> sp_path sp \<and> (\<exists>q. sp_path sp' = q @ ''.part'') \<and>
        fs_files fs' = (fs_files fs)(sp_path sp := None, sp_path sp' \<mapsto> d')"
    then obtain d' q' where d': "conversion_of mime d mime' d'" "spool_record (w_sha (je_world je)) sp' d' fs'"
        "sp_path sp' \<noteq> sp_path sp" "sp_path sp' = q' @ ''.part''"
        "fs_files fs' = (fs_files fs)(sp_path sp := None, sp_path sp' \<mapsto> d')" by auto
    have "spool_apart db (sp_path sp')" by (rule part_apart [OF d'(4)])
    with d' apart show ?thesis by (intro that [of d']) (auto simp: cache_read_def spool_apart_def)
  qed
qed


text \<open>Nothing outside the cache is created by an insertion.\<close>

lemma insert_with_hash_apart:
  assumes "spool_apart db p" and "hex_hash hash" and gone: "fs_files fs p = None"
    and ins: "insert_with_hash w mime d hash n db fs = (r, db', fs')"
  shows "fs_files fs' p = None"
proof -
  have "fs_files (snd (cache_store (w_os w) (db_cache db) hash d fs)) p = None"
    using assms(1,2) gone by (auto simp: spool_apart_def cache_store_def Let_def fs_write_def split: write_answer.splits)
  with ins gone show ?thesis
    by (auto simp: insert_with_hash_def Let_def split: sum.splits prod.splits if_splits intro!: remove_many_gone)
qed

lemma insert_spooled_apart:
  assumes apart: "spool_apart db p" and hh: "hex_hash (hex_digest sp)" and gone: "fs_files fs p = None"
    and ins: "insert_spooled w mime sp n db fs = (r, db', fs')"
  shows "fs_files fs' p = None"
proof -
  have path: "cache_path (db_cache db) (hex_digest sp) \<noteq> p" using apart hh by (simp add: spool_apart_def)
  have drop: "fs_files (spooled_drop sp f) p = None" if "fs_files f p = None" for f
    using that by (simp add: spooled_drop_def)
  have ad: "fs_files f p = None" if "adopt (w_os w) (db_cache db) (hex_digest sp) (sp_path sp) fs = (a, f)" for a f
    using that path gone
    by (auto simp: adopt_def Let_def fs_write_def fs_unlink_def split: if_splits option.splits write_answer.splits)
  have rm: "fs_files (cache_remove (w_os w) c h f) p = None" if "fs_files f p = None" for c h f
    using that by (auto simp: cache_remove_def fs_unlink_def)
  show ?thesis
    using ins gone
    by (auto simp: insert_spooled_def Let_def split: if_splits sum.splits prod.splits adoption.splits
        intro!: drop remove_many_gone rm intro: ad insert_with_hash_apart [OF apart hh gone])
qed

text \<open>The streaming road.\<close>

lemma store_spooled_ok:
  fixes je defines "w \<equiv> je_world je"
  assumes ord: "ts_order (w_ord w)" and ok: "storage_ok (w_sha w) (wk_db st) fs"
    and rec: "spool_record (w_sha w) sp d fs" and part: "sp_path sp = q @ ''.part''"
    and fit: "\<And>m d. to_store je \<lparr> job_mime = mime, job_payload = Spooled sp, job_permit = pm \<rparr> st fs = Some (m, d) \<Longrightarrow>
      fits (w_sha w) (wk_db st) fs d"
    and wr: "os_write (w_os w) = WDone" and rm: "\<And>p. os_unlink (w_os w) p"
    and run: "store_spooled je mime sp n st fs = (r, st', fs')"
  shows "storage_ok (w_sha w) (wk_db st') fs'" "fs_files fs' (sp_path sp) = None"
    "spool_apart (wk_db st) p \<Longrightarrow> fs_files fs p = None \<Longrightarrow> fs_files fs' p = None"
proof -
  obtain mime1 sp1 st1 fs1 where conv: "convert_if_wanted je mime sp st fs = ((mime1, sp1), st1, fs1)"
    by (metis prod.exhaust)
  obtain d1 where d1: "spool_record (w_sha w) sp1 d1 fs1" "spool_apart (wk_db st) (sp_path sp1)"
      "sp_path sp1 = sp_path sp \<or> fs_files fs1 (sp_path sp) = None" "\<forall>p. p \<noteq> sp_path sp1 \<longrightarrow> fs_files fs p = None \<longrightarrow> fs_files fs1 p = None"
      "\<And>h. hex_hash h \<Longrightarrow> cache_read (db_cache (wk_db st)) h fs1 = cache_read (db_cache (wk_db st)) h fs"
    using converted_spool [OF conv _ part, of d "wk_db st"] rec unfolding w_def by metis
  obtain a db fs2 where ins: "insert_spooled w mime1 sp1 n (wk_db st) fs1 = (a, db, fs2)" by (metis prod_cases3)
  have res: "wk_db st' = db" "fs' = fs2"
    using run conv ins convert_spec(1) [OF conv] rec by (auto simp: store_spooled_def w_def)
  have hash: "hex_digest sp1 = to_hex (w_sha w d1)" and own: "sp_owned sp1" using d1(1) by (auto simp: spool_record_def hex_digest_def)
  have "to_store je \<lparr> job_mime = mime, job_payload = Spooled sp, job_permit = pm \<rparr> st fs = Some (mime1, d1)"
    using conv d1(1) by (simp add: to_store_def spool_record_def)
  then have "fits (w_sha w) (wk_db st) fs1 d1"
    using fits_cong [OF fit] convert_spec(2) [OF conv] rec d1(5) unfolding w_def by blast
  then have "collision_free (w_sha w) d1 (chunk_db (db_store (wk_db st)))" "entry_free (wk_db st) (hex_digest sp1) d1 fs1"
    by (simp_all add: fits_def hash)
  moreover have "storage_ok (w_sha w) (wk_db st) fs1" by (rule storage_ok_fs_cong [OF ok d1(5)])
  ultimately show "storage_ok (w_sha w) (wk_db st') fs'"
    using insert_spooled_ok [OF ord _ _ d1(1) _ d1(2) wr rm ins] res by simp
  have hh: "hex_hash (hex_digest sp1)" by (simp add: hash)
  show "fs_files fs' (sp_path sp) = None"
    using insert_spooled_source_gone [OF own d1(2) hh rm ins] insert_spooled_apart [OF part_apart [OF part] hh _ ins] d1(3) res
    by auto
  show "fs_files fs' p = None" if "spool_apart (wk_db st) p" "fs_files fs p = None"
    using insert_spooled_source_gone [OF own d1(2) hh rm ins] insert_spooled_apart [OF that(1) hh _ ins] d1(4) that(2) res
    by (cases "p = sp_path sp1") auto
qed


text \<open>The in-memory road.\<close>

lemma materialise_spec:
  assumes "\<And>sp. p \<noteq> Spooled sp"
  shows "materialise stat_ok (from_payload mime p) fs =
    (case payload_content fs p of
       Inr d \<Rightarrow> (if d = [] \<or> MAX_PAYLOAD_BYTES < length d then None else Some (mime, d), fs)
     | Inl e \<Rightarrow> (None, fs))"
  using assms
  by (cases p) (auto simp: materialise_def into_bytes_def from_payload_def payload_read_bounded_def payload_content_def
      file_open_def read_bounded_spec [OF payload_limit] split: option.splits)

lemma detect_png: "detect_image_mime x = Some ''image/png'' \<longleftrightarrow> 4 \<le> length x \<and> take 4 x = png_magic"
  unfolding detect_image_mime_def png_magic_def Let_def by simp

lemma png_by_head:
  "detect_image_mime x = Some ''image/png'' \<Longrightarrow> detect_image_mime (take SIGNATURE_PROBE_BYTES x) = Some ''image/png''"
  by (simp add: detect_png SIGNATURE_PROBE_BYTES_def)

lemma process_job_spec:
  assumes "process_job je mime d st = ((mime', d', h), st')"
  shows "wk_db st' = wk_db st" "h = to_hex (w_sha (je_world je) d')" "(mime', d') = (mime, d) \<or> conversion_of mime d mime' d'"
proof -
  obtain g cv where r: "route_for_ingest (ce_host (je_conv je)) (ce_exec (je_conv je)) (ce_scratch (je_conv je))
      (je_probe je) (je_others je) (je_before je) (je_after je) mime d (wk_guards st) (wk_conv st) = ((mime', d'), g, cv)"
    using assms by (auto simp: process_job_def split: prod.splits)
  from route_with_cases [OF r [unfolded route_for_ingest_def]]
  show "(mime', d') = (mime, d) \<or> conversion_of mime d mime' d'"
    by (auto simp: conversion_of_def png_only png_by_head)
  show "wk_db st' = wk_db st" "h = to_hex (w_sha (je_world je) d')"
    using assms r by (auto simp: process_job_def fingerprint_def)
qed

lemma store_materialised_ok:
  fixes je defines "w \<equiv> je_world je"
  assumes ord: "ts_order (w_ord w)" and ok: "storage_ok (w_sha w) (wk_db st) fs" and p: "\<And>sp. p \<noteq> Spooled sp"
    and fit: "\<And>m d. to_store je \<lparr> job_mime = mime, job_payload = p, job_permit = pm \<rparr> st fs = Some (m, d) \<Longrightarrow>
      fits (w_sha w) (wk_db st) fs d"
    and wr: "os_write (w_os w) = WDone"
    and run: "store_materialised je (from_payload mime p) n st fs = (r, st', fs')"
  shows "storage_ok (w_sha w) (wk_db st') fs' \<and>
    (\<forall>p. spool_apart (wk_db st) p \<longrightarrow> fs_files fs p = None \<longrightarrow> fs_files fs' p = None)"
proof (cases "fst (materialise (je_stat je) (from_payload mime p) fs)")
  case None
  with run ok materialise_spec [OF p, of "je_stat je" mime fs] show ?thesis
    by (auto simp: store_materialised_def split: sum.splits prod.splits if_splits)
next
  case (Some md)
  obtain m d where md: "md = (m, d)" by fastforce
  with Some materialise_spec [OF p, of "je_stat je" mime fs]
  have mat: "materialise (je_stat je) (from_payload mime p) fs = (Some (m, d), fs)" by (auto split: sum.splits)
  obtain m' d' h st1 where pj: "process_job je m d st = ((m', d', h), st1)" by (metis prod.exhaust)
  obtain a db fs2 where ins: "insert_with_hash w m' d' h n (wk_db st) fs = (a, db, fs2)" by (metis prod_cases3)
  note spec = process_job_spec [OF pj]
  have "to_store je \<lparr> job_mime = mime, job_payload = p, job_permit = pm \<rparr> st fs = Some (m', d')"
    using mat pj p by (auto simp: to_store_def split: payload.splits)
  from fit [OF this] have "storage_ok (w_sha w) db fs2"
    using insert_with_hash_ok [OF ord ok _ _ _ wr ins] spec(2) by (simp add: fits_def w_def)
  moreover have "hex_hash h" by (simp add: spec(2))
  moreover have "wk_db st' = db" "fs' = fs2"
    using run mat pj ins spec(1) by (auto simp: store_materialised_def w_def)
  ultimately show ?thesis using insert_with_hash_apart [OF _ _ _ ins] by simp
qed

lemma store_job_ok:
  fixes je defines "w \<equiv> je_world je"
  assumes ord: "ts_order (w_ord w)" and ok: "storage_ok (w_sha w) (wk_db st) fs" and wf: "job_wf (w_sha w) job fs"
    and fit: "\<And>m d. to_store je job st fs = Some (m, d) \<Longrightarrow> fits (w_sha w) (wk_db st) fs d"
    and wr: "os_write (w_os w) = WDone" and rm: "\<And>p. os_unlink (w_os w) p"
    and run: "store_job je job n st fs = (r, st', fs')"
  shows "storage_ok (w_sha w) (wk_db st') fs' \<and>
    (\<forall>sp. job_payload job = Spooled sp \<longrightarrow> fs_files fs' (sp_path sp) = None) \<and>
    (\<forall>p. spool_apart (wk_db st) p \<longrightarrow> fs_files fs p = None \<longrightarrow> fs_files fs' p = None)"
proof (cases "\<exists>sp. job_payload job = Spooled sp")
  case True
  then obtain sp where sp: "job_payload job = Spooled sp" by blast
  then have job: "job = \<lparr> job_mime = job_mime job, job_payload = Spooled sp, job_permit = job_permit job \<rparr>" by (cases job) simp
  obtain d q where rec: "spool_record (w_sha w) sp d fs" and part: "sp_path sp = q @ ''.part''"
    using wf sp by (auto simp: job_wf_def)
  have run': "store_spooled je (job_mime job) sp n st fs = (r, st', fs')" using run sp by (simp add: store_job_def)
  have "\<And>m d. to_store je \<lparr> job_mime = job_mime job, job_payload = Spooled sp, job_permit = job_permit job \<rparr> st fs = Some (m, d) \<Longrightarrow>
      fits (w_sha (je_world je)) (wk_db st) fs d"
    unfolding job [symmetric] by (rule fit [unfolded w_def])
  from store_spooled_ok [OF ord [unfolded w_def] ok [unfolded w_def] rec [unfolded w_def] part this wr [unfolded w_def]
      rm [unfolded w_def] run'] sp show ?thesis by (simp add: w_def)
next
  case False
  then have p: "\<And>sp. job_payload job \<noteq> Spooled sp" by blast
  have job: "job = \<lparr> job_mime = job_mime job, job_payload = job_payload job, job_permit = job_permit job \<rparr>" by (cases job) simp
  have run': "store_materialised je (from_payload (job_mime job) (job_payload job)) n st fs = (r, st', fs')"
    using run p by (auto simp: store_job_def split: payload.splits)
  have "\<And>m d. to_store je \<lparr> job_mime = job_mime job, job_payload = job_payload job, job_permit = job_permit job \<rparr> st fs = Some (m, d) \<Longrightarrow>
      fits (w_sha (je_world je)) (wk_db st) fs d"
    unfolding job [symmetric] by (rule fit [unfolded w_def])
  from store_materialised_ok [OF ord [unfolded w_def] ok [unfolded w_def] p this wr [unfolded w_def] run'] p
  show ?thesis by (simp add: w_def)
qed


lemma to_store_faithful:
  assumes store: "to_store je job st fs = Some (m, d)" and wf: "job_wf (w_sha (je_world je)) job fs"
  shows "\<exists>d0. payload_content fs (job_payload job) = Inr d0 \<and>
    ((m, d) = (job_mime job, d0) \<or> conversion_of (job_mime job) d0 m d)"
proof (cases "\<exists>sp. job_payload job = Spooled sp")
  case True
  then obtain sp where sp: "job_payload job = Spooled sp" by blast
  obtain d0 q where rec: "spool_record (w_sha (je_world je)) sp d0 fs" and part: "sp_path sp = q @ ''.part''"
    using wf sp by (auto simp: job_wf_def)
  obtain m1 sp1 st1 fs1 where conv: "convert_if_wanted je (job_mime job) sp st fs = ((m1, sp1), st1, fs1)"
    by (metis prod.exhaust)
  obtain d1 where "spool_record (w_sha (je_world je)) sp1 d1 fs1"
      "(m1, d1) = (job_mime job, d0) \<or> conversion_of (job_mime job) d0 m1 d1"
    by (rule converted_spool [OF conv rec part])
  with store sp conv rec show ?thesis
    by (auto simp: to_store_def spool_record_def payload_content_def file_open_def)
next
  case False
  then have p: "\<And>sp. job_payload job \<noteq> Spooled sp" by blast
  obtain m0 d0 h st1 where "payload_content fs (job_payload job) = Inr d0"
      "process_job je (job_mime job) d0 st = ((m, d, h), st1)"
    using store materialise_spec [OF p, of "je_stat je" "job_mime job" fs] p
    by (auto simp: to_store_def split: payload.splits sum.splits option.splits prod.splits if_splits)
  with process_job_spec(3) show ?thesis by blast
qed

section \<open>One turn of the worker\<close>

lemma turn_acct:
  assumes "acct 0 q" and "qw_jobs q = job # rest"
  shows "acct 0 (q\<lparr> qw_jobs := rest, qw_fs := fs', qw_budget := budget_release (permit_bytes job) (qw_budget q) \<rparr>)"
  using assms budget.rel_used [of "permit_bytes job" "qw_budget q"] by (auto simp: acct_def queue_held_def)



definition calm_env :: job_env where
  "calm_env =
     \<lparr> je_world = calm_world (\<lambda>_. False) os_fine 5,
       je_conv = \<lparr> ce_host = good_host, ce_exec = (\<lambda>cmd d. Inr png_child), ce_fstat = Inr True, ce_pipe = True,
         ce_scratch = Inr ''/run/y4p'', ce_read_back = None, ce_create = None \<rparr>,
       je_probe = True, je_others = alone, je_before = 0, je_after = 1, je_stat = True, je_clock = 7 \<rparr>"

definition fresh_worker :: worker_state where
  "fresh_worker =
     \<lparr> wk_db = fresh_db, wk_guards = fresh_guards,
       wk_conv = \<lparr> cv_available = None, cv_warned = False, cv_warned_scratch = False, cv_messages = 0, cv_runs = 0 \<rparr>,
       wk_metrics = metrics_new 1 \<rparr>"

definition pdf_job :: clipboard_job where
  "pdf_job = \<lparr> job_mime = ''application/pdf'', job_payload = Spooled sample_spool, job_permit = Some 3 \<rparr>"

definition pdf_queue :: queue_world where
  "pdf_queue = \<lparr> qw_jobs = [pdf_job], qw_capacity = 2, qw_open = True, qw_working = [], qw_waiting = [],
     qw_budget = \<lparr> budget_used = 3, budget_limit = 10 \<rparr>, qw_fs = spool_fs \<rparr>"

lemma pdf_facts:
  "ts_order (w_ord (je_world calm_env))" "storage_ok (w_sha (je_world calm_env)) (wk_db fresh_worker) (qw_fs pdf_queue)"
  "acct 0 pdf_queue" "qw_jobs pdf_queue = [pdf_job]" "job_wf (w_sha (je_world calm_env)) pdf_job (qw_fs pdf_queue)"
  "to_store calm_env pdf_job fresh_worker (qw_fs pdf_queue) = Some (''application/pdf'', ''PNG'')"
  "fits (w_sha (je_world calm_env)) (wk_db fresh_worker) (qw_fs pdf_queue) ''PNG''"
  "os_write (w_os (je_world calm_env)) = WDone" "\<forall>p. os_unlink (w_os (je_world calm_env)) p"
proof -
  have plan: "plan ''application/pdf'' ''PNG'' = None" by code_simp
  have head: "read_head (sp_path sample_spool) spool_fs = ''PNG''"
    by (simp add: read_head_def sample_spool_def spooled_new_def spool_fs_def file_open_def SNIFF_HEAD_BYTES_def)
  show "to_store calm_env pdf_job fresh_worker (qw_fs pdf_queue) = Some (''application/pdf'', ''PNG'')"
    by (simp add: to_store_def pdf_job_def pdf_queue_def convert_if_wanted_def route_file_for_ingest_def
        route_file_with_def head plan) (simp add: spool_fs_def sample_spool_def spooled_new_def)
  have "hex_digest sample_spool = to_hex ''PNG''" by (simp add: hex_digest_def sample_spool_def spooled_new_def)
  with sample_spool_facts show "fits (w_sha (je_world calm_env)) (wk_db fresh_worker) (qw_fs pdf_queue) ''PNG''"
    by (simp add: fits_def calm_env_def calm_world_def fresh_worker_def pdf_queue_def)
  have "sp_path sample_spool = ''/c/spool/1'' @ ''.part''" by (simp add: sample_spool_def spooled_new_def)
  with sample_spool_facts(1) show "job_wf (w_sha (je_world calm_env)) pdf_job (qw_fs pdf_queue)"
    unfolding job_wf_def pdf_job_def pdf_queue_def calm_env_def calm_world_def by auto
  show "ts_order (w_ord (je_world calm_env))" using by_ts.ts_order_axioms by (simp add: calm_env_def calm_world_def)
  show "storage_ok (w_sha (je_world calm_env)) (wk_db fresh_worker) (qw_fs pdf_queue)"
    using sample_spool_facts(5) by (simp add: calm_env_def calm_world_def fresh_worker_def pdf_queue_def)
qed (simp_all add: acct_def queue_held_def pdf_queue_def pdf_job_def permit_bytes_def calm_env_def calm_world_def os_fine_def)


section \<open>What was stored is served\<close>

lemma convert_metrics: "convert_if_wanted je mime sp st fs = (a, st', fs') \<Longrightarrow> wk_metrics st' = wk_metrics st"
  by (auto simp: convert_if_wanted_def Let_def split: prod.splits file_route.splits)

lemma process_metrics: "process_job je mime d st = (a, st') \<Longrightarrow> wk_metrics st' = wk_metrics st"
  by (auto simp: process_job_def split: prod.splits)

lemma read_spooled_ok:
  "spool_record sha sp d fs \<Longrightarrow> length d \<le> MAX_PAYLOAD_BYTES \<Longrightarrow> read_spooled sp fs = Inr d"
  by (simp add: read_spooled_def spool_record_def file_open_def)

lemma get_content_drop:
  assumes "storage_ok sha db fs" and "spool_apart db (sp_path sp)"
  shows "get_content_by_id w rid db (spooled_drop sp fs) = get_content_by_id w rid db fs"
proof -
  have "hex_hash h" if "get_row_content (w_fails w) rid (db_store db) = Some (m, c, h)" for m c h
  proof -
    obtain r where "get_row rid (db_store db) = Some r" "r_hash r = Some h"
      using \<open>get_row_content (w_fails w) rid (db_store db) = Some (m, c, h)\<close>
      by (auto simp: get_row_content_def split: option.splits if_splits)
    moreover from this have "r \<in> set (clipboard (db_store db))"
      using get_row_Some_iff [of "db_store db" rid r] assms(1) by (simp add: storage_ok_def store_ok_def rows_ok_def)
    ultimately show ?thesis using assms(1) by (simp add: storage_ok_def cache_complete_def)
  qed
  then show ?thesis
    using spooled_drop_read [OF assms(2)] by (auto simp: get_content_by_id_def split: option.splits)
qed

text \<open>Both roads of the facade for a spooled payload.\<close>

lemma spooled_payload_served:
  assumes ord: "ts_order (w_ord w)" and ok: "storage_ok (w_sha w) db fs"
    and rec: "spool_record (w_sha w) sp d fs" and fit: "fits (w_sha w) db fs d" and apart: "spool_apart db (sp_path sp)"
    and cp: "os_copy (w_os w) = WDone \<or> os_rename (w_os w)" and wr: "os_write (w_os w) = WDone"
    and len: "length d \<le> MAX_PAYLOAD_BYTES" and skip: "\<not> is_skipped mime (length d)"
    and new: "new_entry w (to_hex (w_sha w d)) n db"
  shows "\<exists>rid db' fs'. insert_spooled w mime sp n db fs = (Inr rid, db', fs') \<and> get_content_by_id w rid db' fs' = Some (mime, d)"
proof -
  have hash: "hex_digest sp = to_hex (w_sha w d)" and sl: "sp_len sp = length d"
    using rec by (simp_all add: spool_record_def hex_digest_def)
  show ?thesis
  proof (cases "is_detachable mime")
    case True
    then show ?thesis
      using insert_spooled_served [OF ord ok rec _ apart cp _ True, of n] fit skip new by (auto simp: fits_def hash sl)
  next
    case False
    obtain rid db' fs' where ins: "insert_with_hash w mime d (hex_digest sp) n db fs = (Inr rid, db', fs')"
        "get_content_by_id w rid db' fs' = Some (mime, d)"
      using insert_with_hash_served [OF ord ok _ hash _ wr skip, of n] fit new unfolding fits_def hash by blast
    have "storage_ok (w_sha w) db' fs'"
      using insert_with_hash_ok [OF ord ok _ hash _ wr ins(1)] fit by (simp add: fits_def hash)
    moreover have "spool_apart db' (sp_path sp)"
      using apart insert_with_hash_cache [OF ins(1)] by (simp add: spool_apart_def)
    ultimately have "get_content_by_id w rid db' (spooled_drop sp fs') = Some (mime, d)"
      using ins(2) get_content_drop by simp
    then show ?thesis using ins False skip read_spooled_ok [OF rec len] by (simp add: insert_spooled_def sl)
  qed
qed


lemma store_job_serves:
  fixes je defines "w \<equiv> je_world je"
  assumes ord: "ts_order (w_ord w)" and ok: "storage_ok (w_sha w) (wk_db st) fs" and wf: "job_wf (w_sha w) job fs"
    and store: "to_store je job st fs = Some (m, d)" and fit: "fits (w_sha w) (wk_db st) fs d"
    and cp: "os_copy (w_os w) = WDone \<or> os_rename (w_os w)" and wr: "os_write (w_os w) = WDone"
    and len: "length d \<le> MAX_PAYLOAD_BYTES" and skip: "\<not> is_skipped m (length d)"
    and new: "new_entry w (to_hex (w_sha w d)) n (wk_db st)"
  shows "\<exists>st' fs' rid. store_job je job n st fs = (Inr (Some (m, length d)), st', fs') \<and>
    get_content_by_id w rid (wk_db st') fs' = Some (m, d) \<and> wk_metrics st' = wk_metrics st"
proof (cases "\<exists>sp. job_payload job = Spooled sp")
  case True
  then obtain sp where sp: "job_payload job = Spooled sp" by blast
  obtain d0 q where rec: "spool_record (w_sha (je_world je)) sp d0 fs" and part: "sp_path sp = q @ ''.part''"
    using wf sp by (auto simp: job_wf_def w_def)
  obtain m1 sp1 st1 fs1 where conv: "convert_if_wanted je (job_mime job) sp st fs = ((m1, sp1), st1, fs1)"
    by (metis prod.exhaust)
  obtain d1 where d1: "spool_record (w_sha w) sp1 d1 fs1" "spool_apart (wk_db st) (sp_path sp1)"
      "\<And>h. hex_hash h \<Longrightarrow> cache_read (db_cache (wk_db st)) h fs1 = cache_read (db_cache (wk_db st)) h fs"
    using converted_spool [OF conv rec part, of "wk_db st"] unfolding w_def by metis
  have md: "m1 = m" "d1 = d" using store sp conv d1(1) by (auto simp: to_store_def spool_record_def)
  have ok1: "storage_ok (w_sha w) (wk_db st) fs1" by (rule storage_ok_fs_cong [OF ok d1(3)])
  have fit1: "fits (w_sha w) (wk_db st) fs1 d" by (rule fits_cong [OF fit convert_spec(2) [OF conv rec] d1(3)])
  obtain rid db' fs' where "insert_spooled w m sp1 n (wk_db st) fs1 = (Inr rid, db', fs')"
      "get_content_by_id w rid db' fs' = Some (m, d)"
    using spooled_payload_served [OF ord ok1 d1(1) [unfolded md] fit1 d1(2) cp wr len skip new] by blast
  with conv sp md d1(1) convert_spec(1) [OF conv rec] convert_metrics [OF conv] show ?thesis
    by (auto simp: store_job_def store_spooled_def w_def spool_record_def)
next
  case False
  then have p: "\<And>sp. job_payload job \<noteq> Spooled sp" by blast
  obtain m0 d0 h st1 where mat: "materialise (je_stat je) (from_payload (job_mime job) (job_payload job)) fs = (Some (m0, d0), fs)"
      and pj: "process_job je m0 d0 st = ((m, d, h), st1)"
    using store materialise_spec [OF p, of "je_stat je" "job_mime job" fs] p
    by (auto simp: to_store_def split: payload.splits sum.splits option.splits prod.splits if_splits)
  obtain rid db' fs' where "insert_with_hash w m d h n (wk_db st) fs = (Inr rid, db', fs')"
      "get_content_by_id w rid db' fs' = Some (m, d)"
    using insert_with_hash_served [OF ord ok _ _ _ wr skip, of h n] fit new process_job_spec(2) [OF pj]
    unfolding fits_def w_def by blast
  with mat pj p process_job_spec(1) [OF pj] process_metrics [OF pj] show ?thesis
    by (auto simp: store_job_def store_materialised_def w_def split: payload.splits)
qed

text \<open>What the worker stores can be pasted again: a job whose content is new, the newest and within the cap is
  persisted in one turn, and the bytes served under its id are, byte for byte, those the image pipeline
  left of the copied payload, under the type they really have; the success is counted once.\<close>

lemma worker_serves:
  assumes "ts_order (w_ord (je_world je))" and "storage_ok (w_sha (je_world je)) (wk_db st) (qw_fs q)"
    and "qw_jobs q = job # rest" and "job_wf (w_sha (je_world je)) job (qw_fs q)"
    and "to_store je job st (qw_fs q) = Some (m, d)" and "fits (w_sha (je_world je)) (wk_db st) (qw_fs q) d"
    and "os_copy (w_os (je_world je)) = WDone \<or> os_rename (w_os (je_world je))"
    and "os_write (w_os (je_world je)) = WDone"
    and "length d \<le> MAX_PAYLOAD_BYTES" and "\<not> is_skipped m (length d)"
    and "new_entry (je_world je) (to_hex (w_sha (je_world je) d)) n (wk_db st)"
  shows "\<exists>q' st' rid. worker_turn je n (q, st) = Some (q', st') \<and>
    get_content_by_id (je_world je) rid (wk_db st') (qw_fs q') = Some (m, d) \<and>
    ingress_count (wk_metrics st') = wrap64 (ingress_count (wk_metrics st) + 1)"
  using store_job_serves [OF assms(1,2,4-11)] assms(3) by (auto simp: worker_turn_def)

theorem worker_serves_witness:
  "\<exists>q' st' rid. worker_turn calm_env 3 (pdf_queue, fresh_worker) = Some (q', st') \<and>
     get_content_by_id (je_world calm_env) rid (wk_db st') (qw_fs q') = Some (''application/pdf'', ''PNG'')"
proof -
  have "\<not> is_skipped ''application/pdf'' (length ''PNG'')" by code_simp
  moreover have "new_entry (je_world calm_env) (to_hex (w_sha (je_world calm_env) ''PNG'')) 3 (wk_db fresh_worker)"
    by (simp add: new_entry_def calm_env_def calm_world_def fresh_worker_def fresh_db_def empty_store_def find_hash_def
        i64_max_def sql_offset_def as_i64_def)
  moreover have "length ''PNG'' \<le> MAX_PAYLOAD_BYTES" by (simp add: const_defs)
  ultimately show ?thesis
    using worker_serves [OF pdf_facts(1,2,4,5,6,7) _ pdf_facts(8)] by (fastforce simp: calm_env_def calm_world_def os_fine_def)
qed

section \<open>The loop ends and gives everything back\<close>

lemma turn_shape:
  assumes "qw_jobs q = job # rest"
  obtains q' st' where "worker_turn je n (q, st) = Some (q', st')" "qw_jobs q' = rest" "qw_waiting q' = qw_waiting q"
    "qw_working q' = qw_working q" "acct 0 q \<Longrightarrow> acct 0 q'"
proof -
  obtain r st1 fs1 where "store_job je job n st (qw_fs q) = (r, st1, fs1)" by (metis prod_cases3)
  then have "worker_turn je n (q, st) =
      Some (q\<lparr> qw_jobs := rest, qw_fs := fs1, qw_budget := budget_release (permit_bytes job) (qw_budget q) \<rparr>,
        case r of Inr (Some _) \<Rightarrow> st1\<lparr> wk_metrics := record_ingress (je_clock je) (wk_metrics st1) \<rparr> | _ \<Rightarrow> st1)"
    using assms by (simp add: worker_turn_def)
  then show ?thesis by (rule that) (use turn_acct [OF _ assms] in simp_all)
qed

text \<open>C6: Once every sender is gone the worker ends, whatever fails on the way: it takes every queued job, one turn
  each, and no byte of the budget stays reserved for them.\<close>

theorem worker_loop_drains:
  assumes "acct 0 q" and "worker_loop jes n i (q, st) = (q', st')"
  shows "qw_jobs q' = [] \<and> acct 0 q' \<and> budget_used (qw_budget q') = sum_list (map permit_bytes (qw_working q)) + sum_list (qw_waiting q)"
  using assms
proof (induction "qw_jobs q" arbitrary: q st i)
  case Nil
  then show ?case by (subst (asm) worker_loop.simps) (auto simp: worker_turn_def acct_def queue_held_def)
next
  case (Cons job rest)
  obtain q1 st1 where t: "worker_turn (jes i) n (q, st) = Some (q1, st1)" "qw_jobs q1 = rest" "qw_waiting q1 = qw_waiting q"
      "qw_working q1 = qw_working q" "acct 0 q1"
    using turn_shape [OF Cons(2) [symmetric]] Cons.prems(1) by metis
  have "worker_loop jes n (Suc i) (q1, st1) = (q', st')"
    using Cons.prems(2) t(1) by (subst (asm) worker_loop.simps) simp
  from Cons(1) [OF t(2) [symmetric] t(5) this] t show ?case by simp
qed

theorem worker_loop_witness:
  "budget_used (qw_budget (fst (worker_loop (\<lambda>_. calm_env) 3 0 (pdf_queue, fresh_worker)))) = 0"
proof -
  obtain q' st' where "worker_loop (\<lambda>_. calm_env) 3 0 (pdf_queue, fresh_worker) = (q', st')" by fastforce
  with worker_loop_drains [OF pdf_facts(3) this] show ?thesis by (simp add: pdf_queue_def)
qed

end
