(* ===== verification/Egress.thy ===== *)
theory Egress
  imports Selection
begin

text \<open>
  \<^verbatim>\<open>crates/wayland/src/handlers/data_control/source.rs\<close>: serving a published entry. A receiver is what
  arrived at the other end of the pipe, how many bytes it reads before it closes its end (\<open>None\<close>: it reads
  everything), and whether our end is non-blocking, in which case a write places no more than the pipe
  has room for. Growing the pipe (\<^verbatim>\<open>pipe::grow\<close>, theory \<open>Pipe\<close>) moves no byte and its result is ignored
  by the code, so it does not appear here.
\<close>

section \<open>Receivers\<close>

record receiver =
  rc_got :: bytes
  rc_takes :: "nat option"
  rc_nonblock :: bool
  rc_room :: nat

definition accepted :: "bytes \<Rightarrow> receiver \<Rightarrow> bytes" where
  "accepted d rc = (case rc_takes rc of None \<Rightarrow> d | Some k \<Rightarrow> take (k - length (rc_got rc)) d)"

text \<open>\<^verbatim>\<open>write_all\<close>, and the kernel's own writes of \<^verbatim>\<open>sendfile\<close>.\<close>

definition deliver :: "bytes \<Rightarrow> receiver \<Rightarrow> io_error option \<times> receiver" where [std_defs]:
  "deliver d rc =
     (let can = accepted d rc;
          placed = (if rc_nonblock rc then take (rc_room rc) can else can)
      in (if placed = d then None else if placed = can then Some BrokenPipe else Some WouldBlock,
          rc\<lparr> rc_got := rc_got rc @ placed, rc_room := rc_room rc - length placed \<rparr>))"

text \<open>\<^verbatim>\<open>io::copy\<close> into the receiver, and into a sink for at most \<open>n\<close> bytes.\<close>

fun copy_into :: "reader \<Rightarrow> receiver \<Rightarrow> io_error option \<times> receiver" where
  "copy_into [] rc = (None, rc)"
| "copy_into (RdIntr # evs) rc = copy_into evs rc"
| "copy_into (RdErr e # evs) rc = (Some e, rc)"
| "copy_into (RdData d # evs) rc =
     (if d = [] then (None, rc)
      else (case deliver d rc of
              (None, rc') \<Rightarrow> copy_into evs rc'
            | (Some e, rc') \<Rightarrow> (Some e, rc')))"

fun skip_bytes :: "nat \<Rightarrow> reader \<Rightarrow> (io_error + nat) \<times> reader" where
  "skip_bytes n [] = (Inr 0, [])"
| "skip_bytes n (ev # evs) =
     (if n = 0 then (Inr 0, ev # evs)
      else (case ev of
              RdIntr \<Rightarrow> skip_bytes n evs
            | RdErr e \<Rightarrow> (Inl e, evs)
            | RdData d \<Rightarrow>
                if d = [] then (Inr 0, evs)
                else if length d \<le> n then
                  (case skip_bytes (n - length d) evs of
                     (Inl e, r) \<Rightarrow> (Inl e, r)
                   | (Inr k, r) \<Rightarrow> (Inr (length d + k), r))
                else (Inr n, RdData (drop n d) # evs)))"

section \<open>The egress operations\<close>

datatype errno = EPIPE | ECONNRESET | EINTR | EINVAL | ENOSYS | ESPIPE | EOtherNo nat

text \<open>What \<^verbatim>\<open>sendfile(2)\<close> answers: it would move up to that many bytes, or it fails.\<close>

datatype sf_answer = SfMoves nat | SfErr errno

datatype egress_report =
    NotDuplicated io_error
  | NoThread
  | WriteFailed io_error
  | NotRead payload_error
  | NotOpened io_error
  | SendfileFailed errno
  | CopyFailed io_error

definition receiver_left :: "io_error \<Rightarrow> bool" where
  "receiver_left e \<longleftrightarrow> e = BrokenPipe \<or> e = ConnectionReset"

definition write_bytes :: "bytes \<Rightarrow> receiver \<Rightarrow> egress_report option \<times> receiver" where
  "write_bytes data dest =
     (case deliver data dest of
        (Some e, dest') \<Rightarrow> (if receiver_left e then None else Some (WriteFailed e), dest')
      | (None, dest') \<Rightarrow> (None, dest'))"

definition copy_remaining :: "payload_reader \<Rightarrow> receiver \<Rightarrow> nat \<Rightarrow> egress_report option \<times> receiver" where
  "copy_remaining src dest already_sent =
     (case (if 0 < already_sent then skip_bytes already_sent (reader_events src)
            else (Inr already_sent, reader_events src)) of
        (Inr skipped, evs) \<Rightarrow>
          if skipped = already_sent then
            (case copy_into evs dest of
               (Some e, dest') \<Rightarrow> (if receiver_left e then None else Some (CopyFailed e), dest')
             | (None, dest') \<Rightarrow> (None, dest'))
          else (None, dest)
      | (Inl e, evs) \<Rightarrow> (None, dest))"

definition CHUNK :: nat where "CHUNK = 2 ^ 30"

text \<open>
  The kernel moves at least one byte unless the source is at its end; a source without a file offset
  is refused with \<^verbatim>\<open>ESPIPE\<close>. Answers beyond the list are those of an unhindered kernel.
\<close>

definition sf_step :: "sf_answer \<Rightarrow> payload_reader \<Rightarrow> nat \<Rightarrow> receiver \<Rightarrow> errno option \<times> nat \<times> receiver" where
  "sf_step ans src offset dest =
     (case (ans, src) of
        (SfErr e, _) \<Rightarrow> (Some e, 0, dest)
      | (SfMoves k, RFile d _) \<Rightarrow>
          (let left = length d - offset;
               n = min left (max 1 (min k CHUNK))
           in case deliver (take n (drop offset d)) dest of
                (None, dest') \<Rightarrow> (None, n, dest')
              | (Some e, dest') \<Rightarrow> (Some (if e = BrokenPipe then EPIPE else EOtherNo 11), 0, dest'))
      | (SfMoves k, _) \<Rightarrow> (Some ESPIPE, 0, dest))"

function transfer_loop ::
    "sf_answer list \<Rightarrow> payload_reader \<Rightarrow> nat \<Rightarrow> receiver \<Rightarrow> egress_report option \<times> receiver" where
  "transfer_loop answers src offset dest =
     (case sf_step (case answers of [] \<Rightarrow> SfMoves CHUNK | a # _ \<Rightarrow> a) src offset dest of
        (Some e, _, dest') \<Rightarrow>
          (case e of
             EPIPE \<Rightarrow> (None, dest')
           | ECONNRESET \<Rightarrow> (None, dest')
           | EINTR \<Rightarrow> (case answers of [] \<Rightarrow> (None, dest') | _ # rest \<Rightarrow> transfer_loop rest src offset dest')
           | EINVAL \<Rightarrow> copy_remaining src dest' offset
           | ENOSYS \<Rightarrow> copy_remaining src dest' offset
           | ESPIPE \<Rightarrow> copy_remaining src dest' offset
           | EOtherNo _ \<Rightarrow> (Some (SendfileFailed e), dest'))
      | (None, n, dest') \<Rightarrow>
          if n = 0 then (None, dest') else transfer_loop (tl answers) src (offset + n) dest')"
  by pat_completeness auto
termination
  by (relation "measure (\<lambda>(answers, src, offset, dest). length answers +
       (case src of RFile d _ \<Rightarrow> length d - offset | _ \<Rightarrow> 0))")
    (auto simp: sf_step_def Let_def min_def max_def split: sf_answer.splits payload_reader.splits prod.splits option.splits
      if_splits list.splits)

declare transfer_loop.simps [simp del]

definition transfer_payload :: "sf_answer list \<Rightarrow> payload_reader \<Rightarrow> receiver \<Rightarrow> egress_report option \<times> receiver" where
  "transfer_payload answers src dest =
     (case src of
        RMemory _ \<Rightarrow> copy_remaining src dest 0
      | _ \<Rightarrow> transfer_loop answers src 0 dest)"

definition serve_descriptor_payload ::
    "bool \<Rightarrow> sf_answer list \<Rightarrow> payload \<Rightarrow> bool \<Rightarrow> fsys \<Rightarrow> receiver \<Rightarrow> egress_report option \<times> receiver" where
  "serve_descriptor_payload stat_ok answers payload strip_markup fs dest =
     (if strip_markup then
        (case payload_read_bounded stat_ok payload MAX_PAYLOAD_BYTES fs of
           (Inr data, _) \<Rightarrow> write_bytes (strip_html_tags data) dest
         | (Inl e, _) \<Rightarrow> (Some (NotRead e), dest))
      else
        (case into_reader stat_ok payload fs of
           (Inr reader, _) \<Rightarrow> transfer_payload answers reader dest
         | (Inl e, _) \<Rightarrow> (Some (NotOpened e), dest)))"

record egress_env =
  eg_fcntl :: bool
  eg_thread :: bool
  eg_dup :: "io_error option"
  eg_stat :: bool
  eg_sendfile :: "sf_answer list"

definition spawn_egress :: "bool \<Rightarrow> (receiver \<Rightarrow> egress_report option \<times> receiver) \<Rightarrow> receiver \<Rightarrow> egress_report option \<times> receiver" where
  "spawn_egress thread_ok job dest = (if thread_ok then job dest else (Some NoThread, dest))"

definition on_send ::
    "egress_env \<Rightarrow> source_metadata \<Rightarrow> string \<Rightarrow> fsys \<Rightarrow> receiver \<Rightarrow> egress_report option \<times> receiver" where
  "on_send env meta mime_type fs dest0 =
     (let dest = (if eg_fcntl env then dest0\<lparr> rc_nonblock := False \<rparr> else dest0)
      in if mime_is_compatible mime_type (sm_mime meta) then
           (let strip_markup = (is_html_mime (sm_mime meta) \<and> \<not> is_html_mime mime_type)
            in case payload_as_bytes (sm_payload meta) of
                 Some data \<Rightarrow>
                   spawn_egress (eg_thread env) (write_bytes (if strip_markup then strip_html_tags data else data)) dest
               | None \<Rightarrow>
                   (case payload_try_clone (eg_dup env) (sm_payload meta) of
                      Inr payload \<Rightarrow>
                        spawn_egress (eg_thread env)
                          (serve_descriptor_payload (eg_stat env) (eg_sendfile env) payload strip_markup fs) dest
                    | Inl e \<Rightarrow> (Some (NotDuplicated e), dest)))
         else (None, dest))"

definition on_cancelled :: "wayland_state \<Rightarrow> wayland_state" where
  "on_cancelled st = st\<lparr> ws_current_source := None \<rparr>"

section \<open>What a receiver may rely on\<close>

text \<open>
  \<open>served_to calm d rc res\<close>: whatever happened, a beginning of \<open>d\<close> arrived and nothing else; and when
  nothing on our side failed (\<open>calm\<close>) and the pipe blocks, everything arrived that the receiver was
  willing to read, and nothing is reported.
\<close>

definition served_to :: "bool \<Rightarrow> bytes \<Rightarrow> receiver \<Rightarrow> 'e option \<times> receiver \<Rightarrow> bool" where
  "served_to calm d rc res \<longleftrightarrow>
     (\<exists>p. prefix p d \<and> rc_got (snd res) = rc_got rc @ p \<and>
        (calm \<and> \<not> rc_nonblock rc \<longrightarrow> p = accepted d rc \<and> fst res = None))"

lemma accepted_prefix: "prefix (accepted d rc) d"
  by (auto simp: accepted_def take_is_prefix split: option.splits)

lemma accepted_Nil [simp]: "accepted [] rc = []"
  by (simp add: accepted_def split: option.splits)

lemma accepted_append:
  assumes "rc_got rc' = rc_got rc @ a" and "rc_takes rc' = rc_takes rc"
  shows "accepted a rc = a \<Longrightarrow> accepted (a @ b) rc = a @ accepted b rc'"
    and "accepted a rc \<noteq> a \<Longrightarrow> accepted (a @ b) rc = accepted a rc"
  using assms by (auto simp: accepted_def split: option.splits)

lemma deliver_cases:
  assumes "deliver d rc = (e, rc')"
  obtains "e = None" "rc_got rc' = rc_got rc @ d" "rc_takes rc' = rc_takes rc" "rc_nonblock rc' = rc_nonblock rc" "accepted d rc = d"
  | x p where "e = Some x" "prefix p d" "rc_got rc' = rc_got rc @ p"
      "\<not> rc_nonblock rc \<Longrightarrow> p = accepted d rc \<and> accepted d rc \<noteq> d \<and> x = BrokenPipe"
proof (cases e)
  case None
  have "prefix (take n (accepted d rc)) d" for n using accepted_prefix take_is_prefix prefix_order.trans by metis
  with None assms show ?thesis
    by (intro that(1)) (auto simp: deliver_def Let_def split: if_splits, metis accepted_prefix prefix_order.antisym take_is_prefix)
next
  case (Some x)
  have "prefix (take n (accepted d rc)) d" for n using accepted_prefix take_is_prefix prefix_order.trans by metis
  with Some assms accepted_prefix [of d rc] show ?thesis
    by (intro that(2) [of x "if rc_nonblock rc then take (rc_room rc) (accepted d rc) else accepted d rc"])
      (auto simp: deliver_def Let_def split: if_splits)
qed

lemma served_nothing: "\<not> calm \<Longrightarrow> served_to calm d rc (r, rc)"
  by (auto simp: served_to_def)

lemma write_served: "served_to True d rc (write_bytes d rc)"
proof -
  obtain e rc' where dl: "deliver d rc = (e, rc')" by fastforce
  then show ?thesis
    by (cases rule: deliver_cases) (auto simp: dl served_to_def write_bytes_def receiver_left_def)
qed

lemma served_append:
  assumes "rc_got rc' = rc_got rc @ a" and "rc_takes rc' = rc_takes rc" and "rc_nonblock rc' = rc_nonblock rc"
    and "accepted a rc = a" and "served_to calm b rc' res"
  shows "served_to calm (a @ b) rc res"
  using assms accepted_append(1) [OF assms(1,2,4), of b] by (auto simp: served_to_def)

lemma served_cut:
  assumes "prefix p a" and "rc_got rc' = rc_got rc @ p" and "\<not> rc_nonblock rc \<Longrightarrow> p = accepted a rc \<and> accepted a rc \<noteq> a"
    and "calm \<and> \<not> rc_nonblock rc \<Longrightarrow> r = None"
  shows "served_to calm (a @ b) rc (r, rc')"
  using assms accepted_append(2) [of "rc\<lparr> rc_got := rc_got rc @ a \<rparr>" rc a b]
  by (auto simp: served_to_def intro: prefix_prefix)

definition quiet :: "io_error option \<Rightarrow> io_error option" where
  "quiet e = (case e of Some x \<Rightarrow> if receiver_left x then None else e | None \<Rightarrow> None)"

lemma copy_served:
  "served_to (stream_error evs = None) (stream_bytes evs) rc (case copy_into evs rc of (e, rc') \<Rightarrow> (quiet e, rc'))"
proof (induction evs rc rule: copy_into.induct)
  case (4 d evs rc)
  show ?case
  proof (cases "d = []")
    case False
    obtain e rc' where dl: "deliver d rc = (e, rc')" by fastforce
    then show ?thesis
    proof (cases rule: deliver_cases)
      case 1
      from served_append [OF 1(2-5) 4 [OF False, of e rc', unfolded dl, simplified 1, OF refl refl]] False dl 1(1)
      show ?thesis by simp
    next
      case (2 x p)
      have "served_to (stream_error evs = None) (d @ stream_bytes evs) rc (quiet (Some x), rc')"
        by (rule served_cut [OF 2(2,3)]) (use 2(4) in \<open>auto simp: quiet_def receiver_left_def\<close>)
      with False dl 2(1) show ?thesis by simp
    qed
  qed (simp add: served_to_def quiet_def)
qed (auto simp: served_to_def quiet_def)

lemma served_report:
  assumes "served_to calm d rc (r, rc')" and "r = None \<longrightarrow> q = None"
  shows "served_to calm d rc (q, rc')"
  using assms by (auto simp: served_to_def)

lemma copied_served:
  assumes "skipped = already" and "(if 0 < already then skip_bytes already (reader_events src) else (Inr already, reader_events src)) =
      (Inr skipped, evs)"
  shows "served_to (stream_error evs = None) (stream_bytes evs) rc (copy_remaining src rc already)"
proof -
  obtain e rc' where c: "copy_into evs rc = (e, rc')" by fastforce
  with copy_served [of evs rc] have "served_to (stream_error evs = None) (stream_bytes evs) rc (quiet e, rc')" by simp
  then show ?thesis
    using c assms by (auto simp: copy_remaining_def quiet_def split: option.splits if_splits elim!: served_report)
qed

lemma copy_remaining_start:
  "served_to (stream_error (reader_events src) = None) (stream_bytes (reader_events src)) rc (copy_remaining src rc 0)"
  by (rule copied_served [of 0]) simp_all

lemma copy_remaining_served:
  assumes "offset \<le> length d"
  shows "served_to True (drop offset d) rc (copy_remaining (RFile d l) rc offset)"
proof -
  let ?evs = "if offset = 0 then [RdData d] else if length d = offset then [] else [RdData (drop offset d)]"
  have "(if 0 < offset then skip_bytes offset (reader_events (RFile d l)) else (Inr offset, reader_events (RFile d l))) =
      (Inr offset, ?evs)"
    using assms by (auto simp: reader_events_def)
  from copied_served [OF refl this, of rc] show ?thesis using assms by (auto split: if_splits)
qed

definition steady :: "sf_answer list \<Rightarrow> bool" where
  "steady answers \<longleftrightarrow> list_all (\<lambda>a. case a of SfErr e \<Rightarrow> e \<in> {EINTR, EINVAL, ENOSYS, ESPIPE} | SfMoves _ \<Rightarrow> True) answers"

text \<open>One answer of \<^verbatim>\<open>sendfile\<close> for a file: an error that is judged, or a piece that the receiver takes or cuts short.\<close>

lemma transfer_error:
  "transfer_loop (SfErr e # rest) (RFile d l) offset rc =
     (case e of EINTR \<Rightarrow> transfer_loop rest (RFile d l) offset rc
      | EPIPE \<Rightarrow> (None, rc) | ECONNRESET \<Rightarrow> (None, rc) | EOtherNo _ \<Rightarrow> (Some (SendfileFailed e), rc)
      | _ \<Rightarrow> copy_remaining (RFile d l) rc offset)"
  by (subst transfer_loop.simps) (simp add: sf_step_def split: errno.splits)

lemma transfer_cut_short:
  assumes "sf_step (case answers of [] \<Rightarrow> SfMoves CHUNK | a # _ \<Rightarrow> a) (RFile d l) offset rc = (Some (if x = BrokenPipe then EPIPE else EOtherNo n), 0, rc')"
    and "prefix p a" and "rc_got rc' = rc_got rc @ p"
    and "\<not> rc_nonblock rc \<Longrightarrow> x = BrokenPipe \<and> p = accepted a rc \<and> accepted a rc \<noteq> a"
  shows "served_to calm (a @ b) rc (transfer_loop answers (RFile d l) offset rc)"
proof -
  have "transfer_loop answers (RFile d l) offset rc =
      ((if x = BrokenPipe then None else Some (SendfileFailed (EOtherNo n))), rc')"
    by (subst transfer_loop.simps) (simp add: assms(1))
  moreover have "served_to calm (a @ b) rc ((if x = BrokenPipe then None else Some (SendfileFailed (EOtherNo n))), rc')"
    by (rule served_cut [OF assms(2,3)]) (use assms(4) in auto)
  ultimately show ?thesis by simp
qed

lemma transfer_file_served:
  "offset \<le> length d \<Longrightarrow> served_to (steady answers) (drop offset d) rc (transfer_loop answers (RFile d l) offset rc)"
proof (induction answers "RFile d l" offset rc rule: transfer_loop.induct)
  case (1 answers offset rc)
  define ans where "ans = (case answers of [] \<Rightarrow> SfMoves CHUNK | a # _ \<Rightarrow> a)"
  note loop = transfer_loop.simps [of answers "RFile d l" offset rc, folded ans_def]
  show ?case
  proof (cases ans)
    case (SfMoves k)
    let ?n = "min (length d - offset) (max 1 (min k CHUNK))"
    let ?a = "take ?n (drop offset d)"
    have split: "drop offset d = ?a @ drop (offset + ?n) d" by (metis append_take_drop_id drop_drop add.commute)
    obtain e rc' where dl: "deliver ?a rc = (e, rc')" by fastforce
    then show ?thesis
    proof (cases rule: deliver_cases)
      case d1: 1
      then have step: "sf_step ans (RFile d l) offset rc = (None, ?n, rc')"
        using SfMoves dl by (simp add: sf_step_def Let_def)
      show ?thesis
      proof (cases "?n = 0")
        case True
        then have "offset = length d" using 1(3) by (simp add: min_def max_def split: if_splits)
        with True step d1 show ?thesis by (subst loop) (auto simp: served_to_def)
      next
        case False
        have "offset + ?n \<le> length d" using 1(3) by simp
        from 1(1) [OF step [unfolded ans_def, symmetric] refl refl False this]
        have "served_to (steady answers) (drop (offset + ?n) d) rc' (transfer_loop (tl answers) (RFile d l) (offset + ?n) rc')"
          by (cases answers) (auto simp: steady_def served_to_def)
        from served_append [OF d1(2-5) this] show ?thesis
          unfolding loop step split [symmetric] using False by (simp only: prod.case option.case if_False)
      qed
    next
      case d2: (2 x p)
      then have "sf_step ans (RFile d l) offset rc = (Some (if x = BrokenPipe then EPIPE else EOtherNo 11), 0, rc')"
        using SfMoves dl by (simp add: sf_step_def Let_def)
      from transfer_cut_short [OF this [unfolded ans_def] d2(2,3)] d2(4) split show ?thesis by metis
    qed
  next
    case (SfErr e)
    then obtain rest where rest: "answers = SfErr e # rest" by (auto simp: ans_def split: list.splits)
    have step: "sf_step ans (RFile d l) offset rc = (Some e, 0, rc)" using SfErr by (simp add: sf_step_def)
    have copy: "served_to c (drop offset d) rc (copy_remaining (RFile d l) rc offset)" for c
      using copy_remaining_served [OF 1(3)] by (auto simp: served_to_def)
    show ?thesis
    proof (cases e)
      case EINTR
      with 1(2) [OF step [unfolded ans_def, symmetric] refl refl EINTR rest 1(3)] rest show ?thesis
        by (simp add: steady_def transfer_error)
    qed (use rest copy in \<open>auto simp: steady_def transfer_error intro!: served_nothing\<close>)
  qed
qed

lemma transfer_stream_served:
  "served_to (steady answers \<and> stream_error (sd_reader sd) = None) (stream_bytes (sd_reader sd)) rc
     (transfer_loop answers (RStream sd) 0 rc)"
proof (induction answers)
  case Nil
  show ?case
    using copy_remaining_start [of "RStream sd" rc]
    by (subst transfer_loop.simps) (simp add: sf_step_def reader_events_def steady_def)
next
  case (Cons a rest)
  have copy: "served_to (c \<and> stream_error (sd_reader sd) = None) (stream_bytes (sd_reader sd)) rc
      (copy_remaining (RStream sd) rc 0)" for c
    using copy_remaining_start [of "RStream sd" rc] by (auto simp: served_to_def reader_events_def)
  show ?case
  proof (cases a)
    case (SfMoves k)
    then show ?thesis using copy by (subst transfer_loop.simps) (simp add: sf_step_def)
  next
    case (SfErr e)
    then show ?thesis
      using copy Cons by (cases e; subst transfer_loop.simps) (auto simp: sf_step_def steady_def intro!: served_nothing)
  qed
qed

section \<open>Serving an entry\<close>

text \<open>The bytes a payload holds, up to the first error of its source.\<close>

definition held_bytes :: "fsys \<Rightarrow> payload \<Rightarrow> bytes" where
  "held_bytes fs p =
     (case p of
        Memory d \<Rightarrow> d
      | Stream sd \<Rightarrow> stream_bytes (sd_reader sd)
      | PFile q \<Rightarrow> (case fs_files fs q of Some d \<Rightarrow> d | None \<Rightarrow> [])
      | Spooled sp \<Rightarrow> [])"

definition promised :: "source_metadata \<Rightarrow> string \<Rightarrow> fsys \<Rightarrow> bytes" where
  "promised meta mime fs =
     (let d = held_bytes fs (sm_payload meta)
      in if \<not> mime_is_compatible mime (sm_mime meta) then []
         else if is_html_mime (sm_mime meta) \<and> \<not> is_html_mime mime then strip_html_tags d else d)"

text \<open>Nothing on the serving side fails; a payload to be stripped can be read at all.\<close>

definition egress_calm :: "egress_env \<Rightarrow> source_metadata \<Rightarrow> fsys \<Rightarrow> bool" where
  "egress_calm env meta fs \<longleftrightarrow> eg_fcntl env \<and> eg_thread env \<and> eg_dup env = None \<and> steady (eg_sendfile env) \<and>
     (case sm_payload meta of
        Memory _ \<Rightarrow> True
      | Stream sd \<Rightarrow> stream_error (sd_reader sd) = None \<and> stream_bytes (sd_reader sd) \<noteq> [] \<and>
          length (stream_bytes (sd_reader sd)) \<le> MAX_PAYLOAD_BYTES
      | PFile q \<Rightarrow> (\<exists>d. fs_files fs q = Some d \<and> d \<noteq> [] \<and> length d \<le> MAX_PAYLOAD_BYTES)
      | Spooled _ \<Rightarrow> False)"

lemma payload_limit_u64: "MAX_PAYLOAD_BYTES < u64_max"
  by (simp add: const_defs u64_max_def)

lemma serve_file_served:
  "served_to (steady answers \<and> (\<exists>d. fs_files fs q = Some d \<and> d \<noteq> [] \<and> length d \<le> MAX_PAYLOAD_BYTES))
     (if strip then strip_html_tags (held_bytes fs (PFile q)) else held_bytes fs (PFile q)) rc
     (serve_descriptor_payload stat_ok answers (PFile q) strip fs rc)"
proof (cases "fs_files fs q")
  case None
  then show ?thesis
    by (auto simp: serve_descriptor_payload_def payload_read_bounded_def into_reader_def file_open_def intro!: served_nothing)
next
  case (Some d)
  then have rd: "payload_read_bounded stat_ok (PFile q) MAX_PAYLOAD_BYTES fs =
      (if MAX_PAYLOAD_BYTES < length d then Inl (TooLarge MAX_PAYLOAD_BYTES) else if d = [] then Inl PEmpty else Inr d, fs)"
    using read_bounded_spec [OF payload_limit_u64, of "[RdData d]"] by (auto simp: payload_read_bounded_def file_open_def)
  have weak: "served_to c x rc r" if "served_to True x rc r" for c x and r :: "egress_report option \<times> receiver"
    using that by (auto simp: served_to_def)
  show ?thesis
  proof (cases strip)
    case True
    then show ?thesis
      using Some rd write_served weak
      by (auto simp: serve_descriptor_payload_def held_bytes_def intro!: served_nothing)
  next
    case False
    have "served_to (steady answers) d rc (transfer_loop answers (RFile d l) 0 rc)" for l
      using transfer_file_served [of 0 d answers rc l] by simp
    with False Some show ?thesis
      by (auto simp: serve_descriptor_payload_def held_bytes_def into_reader_def file_open_def transfer_payload_def served_to_def)
  qed
qed

lemma serve_stream_served:
  "served_to (steady answers \<and> stream_error (sd_reader sd) = None \<and> stream_bytes (sd_reader sd) \<noteq> [] \<and>
       length (stream_bytes (sd_reader sd)) \<le> MAX_PAYLOAD_BYTES)
     (if strip then strip_html_tags (held_bytes fs (Stream sd)) else held_bytes fs (Stream sd)) rc
     (serve_descriptor_payload stat_ok answers (Stream sd) strip fs rc)"
proof (cases strip)
  case False
  with transfer_stream_served [of answers sd rc] show ?thesis
    by (auto simp: serve_descriptor_payload_def held_bytes_def into_reader_def transfer_payload_def served_to_def)
next
  case True
  let ?d = "stream_bytes (sd_reader sd)"
  have rd: "payload_read_bounded stat_ok (Stream sd) MAX_PAYLOAD_BYTES fs =
      (if MAX_PAYLOAD_BYTES < length ?d then Inl (TooLarge MAX_PAYLOAD_BYTES)
       else case stream_error (sd_reader sd) of Some e \<Rightarrow> Inl (PIo e) | None \<Rightarrow> if ?d = [] then Inl PEmpty else Inr ?d, fs)"
    by (simp add: payload_read_bounded_def read_bounded_spec [OF payload_limit_u64])
  have "served_to c (strip_html_tags ?d) rc (write_bytes (strip_html_tags ?d) rc)" for c
    using write_served [of "strip_html_tags ?d" rc] by (auto simp: served_to_def)
  with True rd show ?thesis
    by (auto simp: serve_descriptor_payload_def held_bytes_def split: option.splits intro!: served_nothing)
qed

lemma on_send_served:
  "served_to (egress_calm env meta fs) (promised meta mime fs) (if eg_fcntl env then rc\<lparr> rc_nonblock := False \<rparr> else rc)
     (on_send env meta mime fs rc)"
proof -
  let ?rc = "if eg_fcntl env then rc\<lparr> rc_nonblock := False \<rparr> else rc"
  let ?strip = "is_html_mime (sm_mime meta) \<and> \<not> is_html_mime mime"
  show ?thesis
  proof (cases "mime_is_compatible mime (sm_mime meta)")
    case False
    then show ?thesis by (auto simp: served_to_def on_send_def promised_def Let_def)
  next
    case compat: True
    show ?thesis
    proof (cases "eg_thread env")
      case False
      with compat show ?thesis
        by (auto simp: on_send_def Let_def spawn_egress_def egress_calm_def payload_try_clone_def payload_as_bytes_def
            split: payload.splits option.splits intro!: served_nothing)
    next
      case True
      have weak: "served_to c x r q" if "served_to b x r q" "c \<Longrightarrow> b" for b c x r and q :: "egress_report option \<times> receiver"
        using that by (auto simp: served_to_def)
      show ?thesis
      proof (cases "sm_payload meta")
        case (Memory d)
        then show ?thesis
          using True compat weak [OF write_served]
          by (simp add: on_send_def Let_def spawn_egress_def payload_as_bytes_def promised_def held_bytes_def)
      next
        case (Stream sd)
        from weak [OF serve_stream_served [of "eg_sendfile env" sd ?strip fs ?rc "eg_stat env"], of "egress_calm env meta fs"]
        show ?thesis using Stream True compat
          by (cases "eg_dup env") (auto simp: on_send_def Let_def spawn_egress_def payload_as_bytes_def payload_try_clone_def
              promised_def egress_calm_def intro!: served_nothing)
      next
        case (PFile q)
        from weak [OF serve_file_served [of "eg_sendfile env" fs q ?strip ?rc "eg_stat env"], of "egress_calm env meta fs"]
        show ?thesis using PFile True compat
          by (simp add: on_send_def Let_def spawn_egress_def payload_as_bytes_def payload_try_clone_def promised_def egress_calm_def)
      next
        case (Spooled sp)
        then show ?thesis using compat
          by (auto simp: on_send_def Let_def payload_as_bytes_def payload_try_clone_def egress_calm_def intro!: served_nothing)
      qed
    qed
  qed
qed

text \<open>C4: A paste is exact or cut short, never wrong. Whatever the kernel answers, wherever the payload lives and
  however the receiver behaves, what arrives is a beginning of the promised bytes: the stored ones, with
  the tags removed exactly when markup was asked for as plain text, nothing when the type does not
  match. When nothing on the serving side fails, everything arrives that the receiver reads: a
  \<^verbatim>\<open>sendfile\<close> that gives up midway continues as a copy without losing or repeating a byte, and a receiver
  that leaves early is not reported as a failure.\<close>

theorem paste_exact:
  assumes "on_send env meta mime fs rc = (report, rc')" and "rc_got rc = []"
  shows "prefix (rc_got rc') (promised meta mime fs) \<and>
    (egress_calm env meta fs \<longrightarrow>
       rc_got rc' = (case rc_takes rc of None \<Rightarrow> promised meta mime fs | Some k \<Rightarrow> take k (promised meta mime fs)) \<and>
       report = None)"
  using on_send_served [of env meta fs mime rc] assms
  by (auto simp: served_to_def accepted_def egress_calm_def split: if_splits option.splits)

theorem paste_witness:
  "rc_got (snd (on_send \<lparr> eg_fcntl = True, eg_thread = True, eg_dup = None, eg_stat = True,
        eg_sendfile = [SfErr EINTR, SfMoves 3, SfErr EINVAL] \<rparr>
      \<lparr> sm_mime = ''text/plain'', sm_payload = PFile ''/c/e.cache'' \<rparr> ''UTF8_STRING''
      (write_file ''/c/e.cache'' ''hello world'' empty_fs)
      \<lparr> rc_got = [], rc_takes = Some 8, rc_nonblock = True, rc_room = 0 \<rparr>)) = ''hello wo''"
proof -
  let ?env = "\<lparr> eg_fcntl = True, eg_thread = True, eg_dup = None, eg_stat = True,
        eg_sendfile = [SfErr EINTR, SfMoves 3, SfErr EINVAL] \<rparr>"
  let ?meta = "\<lparr> sm_mime = ''text/plain'', sm_payload = PFile ''/c/e.cache'' \<rparr>"
  let ?fs = "write_file ''/c/e.cache'' ''hello world'' empty_fs"
  let ?rc = "\<lparr> rc_got = [], rc_takes = Some 8, rc_nonblock = True, rc_room = 0 \<rparr>"
  have mimes: "mime_is_compatible ''UTF8_STRING'' ''text/plain''" "\<not> is_html_mime ''text/plain''" by code_simp+
  have "egress_calm ?env ?meta ?fs" by (simp add: egress_calm_def steady_def const_defs)
  moreover have "promised ?meta ''UTF8_STRING'' ?fs = ''hello world''"
    using mimes by (simp add: promised_def held_bytes_def)
  ultimately show ?thesis
    using paste_exact [of ?env ?meta "''UTF8_STRING''" ?fs ?rc, OF surjective_pairing] by simp
qed

end
