(* ===== verification/Daemon.thy ===== *)
theory Daemon
  imports Selection Storage Metrics Spool
begin

text \<open>
  The daemon's event loop: the IPC protocol (\<^verbatim>\<open>crates/daemon/src/ipc.rs\<close>), the registry handler
  (\<^verbatim>\<open>crates/wayland/src/handlers/mod.rs\<close>), publishing an entry and the loop itself
  (\<^verbatim>\<open>crates/daemon/src/lib.rs\<close>), and the one-shot \<^verbatim>\<open>paste-from\<close> (\<^verbatim>\<open>crates/wayland/src/lib.rs\<close>).
  One turn of a loop consumes one record of what the outside delivered during it.
\<close>

section \<open>IPC\<close>

datatype ipc_command = Restore int | ExitCmd | Status | Pause | Resume

definition decode :: "bytes \<Rightarrow> ipc_command option" where
  "decode buf =
     (if length buf \<le> 1 then None
      else
        (let c = hd buf in
         if c = IPC_CMD_EXIT then Some ExitCmd
         else if c = IPC_CMD_STATUS then Some Status
         else if c = IPC_CMD_PAUSE then Some Pause
         else if c = IPC_CMD_RESUME then Some Resume
         else if c = IPC_CMD_RESTORE then map_option Restore (parse_i64 (trim (from_utf8_lossy (butlast (tl buf)))))
         else None))"

text \<open>\<^verbatim>\<open>BufRead::read_until\<close>: up to and with the delimiter, or to the end of the stream.\<close>

fun read_until :: "byte \<Rightarrow> bytes \<Rightarrow> bytes" where
  "read_until d [] = []"
| "read_until d (c # s) = (if c = d then [c] else c # read_until d s)"

text \<open>
  A pending connection is the bytes the client sends, or \<open>None\<close> when reading them fails; the second result is what is
  written back.
\<close>

definition accept_and_dispatch :: "bytes option option \<Rightarrow> string \<Rightarrow> ipc_command option \<times> string option" where
  "accept_and_dispatch conn status =
     (case conn of
        None \<Rightarrow> (None, None)
      | Some None \<Rightarrow> (None, None)
      | Some (Some sent) \<Rightarrow>
          (case decode (read_until IPC_DELIMITER sent) of
             None \<Rightarrow> (None, None)
           | Some cmd \<Rightarrow> (Some cmd, if cmd = Status then Some status else None)))"

text \<open>What the clients send: \<^verbatim>\<open>copy_to.rs\<close> and \<^verbatim>\<open>store.rs\<close>, \<^verbatim>\<open>status.rs\<close>, \<^verbatim>\<open>pause.rs\<close>, \<^verbatim>\<open>resume.rs\<close>; and \<^verbatim>\<open>start_daemon\<close>.\<close>

definition restore_request :: "int \<Rightarrow> bytes" where
  "restore_request rid = [IPC_CMD_RESTORE] @ show_int rid @ [IPC_DELIMITER]"

definition status_request :: bytes where "status_request = [IPC_CMD_STATUS, IPC_DELIMITER]"
definition pause_request :: bytes where "pause_request = [IPC_CMD_PAUSE, IPC_DELIMITER]"
definition resume_request :: bytes where "resume_request = [IPC_CMD_RESUME, IPC_DELIMITER]"
definition exit_request :: bytes where "exit_request = [IPC_CMD_EXIT]"

section \<open>The registry\<close>

definition INTERFACE_MANAGER :: string where "INTERFACE_MANAGER = ''ext_data_control_manager_v1''"
definition INTERFACE_SEAT :: string where "INTERFACE_SEAT = ''wl_seat''"

definition on_global :: "nat \<Rightarrow> string \<Rightarrow> nat \<Rightarrow> wayland_state \<Rightarrow> wayland_state" where
  "on_global name interface version st0 =
     (let st = (if interface = INTERFACE_MANAGER \<and> 1 \<le> version
                then st0\<lparr> ws_manager := True, ws_manager_id := Some name \<rparr> else st0)
      in if interface = INTERFACE_SEAT \<and> \<not> ws_seat st
         then st\<lparr> ws_seat := True, ws_seat_id := Some name \<rparr> else st)"

definition on_global_remove :: "nat \<Rightarrow> wayland_state \<Rightarrow> wayland_state" where
  "on_global_remove name st0 =
     (let st = (if Some name = ws_manager_id st0 then st0\<lparr> ws_manager := False, ws_manager_id := None \<rparr> else st0)
      in if Some name = ws_seat_id st then st\<lparr> ws_seat := False, ws_seat_id := None, ws_device := False \<rparr> else st)"

section \<open>Publishing an entry\<close>

definition bind_data_device :: "wayland_state \<Rightarrow> bool \<times> wayland_state" where
  "bind_data_device st =
     (if ws_device st then (True, st)
      else if ws_manager st \<and> ws_seat st then (True, st\<lparr> ws_device := True \<rparr>)
      else (False, st))"

definition advertised :: "string \<Rightarrow> string list" where
  "advertised mime =
     mime # (if is_html_mime mime then filter (\<lambda>alt. alt \<noteq> mime) HTML_MIME_ALTS
             else if contains_str mime ''text'' \<or> contains_str mime ''UTF8'' then filter (\<lambda>alt. alt \<noteq> mime) TEXT_MIME_ALTS
             else [])"

record daemon =
  dm_wl :: wayland_state
  dm_metrics :: daemon_metrics
  dm_exiting :: bool
  dm_selection :: "(string list \<times> source_metadata) option"

text \<open>
  \<open>dm_selection\<close> is what the compositor was last told to offer. The counter of own selections is a
  \<^verbatim>\<open>u32\<close>.
\<close>

definition handle_restore_request :: "world \<Rightarrow> int \<Rightarrow> int \<Rightarrow> clipboard_db \<Rightarrow> fsys \<Rightarrow> daemon \<Rightarrow> daemon" where
  "handle_restore_request w clock target read_db fs dm =
     (case locate_content w target read_db of
        Some (mime, location) \<Rightarrow>
          if ws_manager (dm_wl dm) then
            (let payload = (case location of
                              InlineBlob rid \<Rightarrow>
                                Memory (case get_content_by_id w rid read_db fs of Some (_, d) \<Rightarrow> d | None \<Rightarrow> [])
                            | CacheFile p \<Rightarrow> PFile p);
                 meta = \<lparr> sm_mime = mime, sm_payload = payload \<rparr>;
                 st = (dm_wl dm)\<lparr> ws_provider_locks := (ws_provider_locks (dm_wl dm) + 1) mod 2 ^ 32,
                                  ws_current_source := Some meta \<rparr>
             in dm\<lparr> dm_wl := st,
                    dm_selection := (if ws_device st then Some (advertised mime, meta) else dm_selection dm),
                    dm_metrics := record_egress clock (dm_metrics dm) \<rparr>)
          else dm
      | None \<Rightarrow> dm)"

section \<open>The loop\<close>

datatype wl_error = WlIo io_error | WlProtocol

definition read_failure_is_fatal :: "wl_error \<Rightarrow> bool" where
  "read_failure_is_fatal e = (case e of WlIo k \<Rightarrow> k \<noteq> WouldBlock \<and> k \<noteq> Interrupted | WlProtocol \<Rightarrow> True)"

definition read_compositor_events :: "wl_error option \<Rightarrow> bool" where
  "read_compositor_events answer = (case answer of None \<Rightarrow> True | Some e \<Rightarrow> \<not> read_failure_is_fatal e)"

text \<open>
  Events the queue dispatches. A selection comes with what the pipe would deliver; \<open>ReaderDone\<close> is a reader thread
  that ends and gives its place in the gate back, and \<open>SignalExit\<close> the signal handler of \<^verbatim>\<open>main.rs\<close>.
\<close>

datatype wl_event =
    Global nat string nat
  | GlobalRemove nat
  | SelectionEv bool bool "string list option"
  | Cancelled
  | ReaderDone
  | OtherEv

definition dispatch :: "(bytes \<Rightarrow> bytes) \<Rightarrow> wl_event \<Rightarrow> wayland_state \<Rightarrow> wayland_state" where
  "dispatch percent_decode ev st =
     (case ev of
        Global name interface version \<Rightarrow> on_global name interface version st
      | GlobalRemove name \<Rightarrow> on_global_remove name st
      | SelectionEv pipe_ok thread_ok offered \<Rightarrow> fst (on_selection percent_decode pipe_ok thread_ok (\<lambda>_. []) offered st)
      | Cancelled \<Rightarrow> st\<lparr> ws_current_source := None \<rparr>
      | ReaderDone \<Rightarrow> (if 0 < gate_active (ws_gate st) then st\<lparr> ws_gate := gate_release (ws_gate st) \<rparr> else st)
      | OtherEv \<Rightarrow> st)"

record loop_env =
  le_events :: "wl_event list"
  le_poll :: int
  le_ipc_ready :: bool
  le_conn :: "bytes option option"
  le_hangup :: bool
  le_readable :: bool
  le_guard :: bool
  le_read :: "wl_error option"
  le_world :: world
  le_fs :: fsys
  le_clocks :: "int \<times> int"
  le_signal :: bool
  le_db :: clipboard_db

text \<open>The process-wide flag of \<^verbatim>\<open>core/src/lib.rs\<close>, which the signal handler raises too.\<close>

definition request_exit :: "daemon \<Rightarrow> daemon" where [simp]:
  "request_exit dm = dm\<lparr> dm_exiting := True \<rparr>"

definition is_exiting :: "daemon \<Rightarrow> bool" where [simp]:
  "is_exiting dm = dm_exiting dm"

definition handle_command :: "loop_env \<Rightarrow> clipboard_db \<Rightarrow> ipc_command \<Rightarrow> daemon \<Rightarrow> daemon" where
  "handle_command le read_db cmd dm =
     (case cmd of
        ExitCmd \<Rightarrow> request_exit dm
      | Restore target \<Rightarrow> handle_restore_request (le_world le) (fst (le_clocks le)) target read_db (le_fs le) dm
      | Status \<Rightarrow> dm
      | Pause \<Rightarrow> dm\<lparr> dm_wl := (dm_wl dm)\<lparr> ws_paused := True \<rparr> \<rparr>
      | Resume \<Rightarrow> dm\<lparr> dm_wl := (dm_wl dm)\<lparr> ws_paused := False \<rparr> \<rparr>)"

definition status_line :: "loop_env \<Rightarrow> daemon \<Rightarrow> string" where
  "status_line le dm =
     format_status (fst (le_clocks le)) (snd (le_clocks le)) (ws_paused (dm_wl dm))
       (shed_readers (ws_stats (dm_wl dm))) (shed_queue (ws_stats (dm_wl dm))) (dm_metrics dm)"

text \<open>One turn: whether the loop goes on, what was answered to a client, and the new state.\<close>

definition daemon_turn ::
    "(bytes \<Rightarrow> bytes) \<Rightarrow> clipboard_db \<Rightarrow> loop_env \<Rightarrow> daemon \<Rightarrow> bool \<times> string option \<times> daemon" where
  "daemon_turn percent_decode read_db le dm0 =
     (let st1 = fold (dispatch percent_decode) (le_events le) (dm_wl dm0);
          st2 = (if ws_device st1 then st1 else snd (bind_data_device st1));
          dm1 = dm0\<lparr> dm_wl := st2, dm_exiting := dm_exiting dm0 \<or> le_signal le \<rparr>
      in if le_poll le < 0 then (True, None, dm1)
         else
           (let (cmd, reply) = (if le_ipc_ready le then accept_and_dispatch (le_conn le) (status_line le dm1) else (None, None));
                dm2 = (case cmd of None \<Rightarrow> dm1 | Some c \<Rightarrow> handle_command le read_db c dm1)
            in if le_hangup le then (False, reply, dm2)
               else if le_readable le \<and> le_guard le \<and> \<not> read_compositor_events (le_read le) then (False, reply, dm2)
               else (True, reply, dm2)))"

text \<open>\<open>None\<close>: still serving when what the outside delivered is used up.\<close>

fun daemon_loop :: "(bytes \<Rightarrow> bytes) \<Rightarrow> loop_env list \<Rightarrow> daemon \<Rightarrow> daemon option" where
  "daemon_loop pd les dm =
     (if is_exiting dm then Some dm
      else
        (case les of
           [] \<Rightarrow> None
         | le # rest \<Rightarrow>
             (case daemon_turn pd (le_db le) le dm of
                (True, _, dm') \<Rightarrow> daemon_loop pd rest dm'
              | (False, _, dm') \<Rightarrow> Some dm')))"

declare daemon_loop.simps [simp del]

section \<open>Starting up\<close>

text \<open>
  What the outside answers while the daemon starts: whether an older daemon accepts the connection, whether the
  socket can be bound, the compositor reached and the database opened for reading, the globals announced during the first
  round trip (\<open>None\<close>: it fails), and whether the spool directory is usable.
\<close>

record start_env =
  se_old :: bool
  se_bind :: bool
  se_compositor :: bool
  se_read_db :: bool
  se_globals :: "wl_event list option"
  se_clock :: int
  se_alive :: "int \<Rightarrow> bool"
  se_pid :: nat
  se_granted :: nat
  se_spool_entries :: "path list"

record started =
  sd_told_old :: "bytes option"
  sd_daemon :: "daemon option"
  sd_spooler :: "file_spooler option"
  sd_fs :: fsys

definition serve_setup ::
    "(bytes \<Rightarrow> bytes) \<Rightarrow> config \<Rightarrow> path \<Rightarrow> start_env \<Rightarrow> fsys \<Rightarrow> (daemon option \<times> file_spooler option) \<times> fsys" where
  "serve_setup pd cfg spool_dir se fs =
     (if \<not> se_compositor se then ((None, None), fs)
      else if \<not> se_read_db se then ((None, None), fs)
      else
        (case spooler_open (se_alive se) (se_pid se) (se_granted se) (se_spool_entries se) spool_dir fs of
           (spooler, fs') \<Rightarrow>
             (case se_globals se of
                None \<Rightarrow> ((None, spooler), fs')
              | Some evs \<Rightarrow>
                  (case bind_data_device (fold (dispatch pd) evs (new_daemon cfg)) of
                     (False, _) \<Rightarrow> ((None, spooler), fs')
                   | (True, st) \<Rightarrow>
                       ((Some \<lparr> dm_wl = st, dm_metrics = metrics_new (se_clock se), dm_exiting = False, dm_selection = None \<rparr>,
                         spooler), fs')))))"

text \<open>
  The socket file exists from \<^verbatim>\<open>bind\<close> on; the guard removes it when the function returns, here on every failure after
  the bind.
\<close>

definition start_daemon ::
    "(bytes \<Rightarrow> bytes) \<Rightarrow> config \<Rightarrow> path \<Rightarrow> path \<Rightarrow> start_env \<Rightarrow> fsys \<Rightarrow> started" where
  "start_daemon pd cfg socket spool_dir se fs =
     (let told = (if se_old se then Some exit_request else None);
          fs1 = remove_file socket fs
      in if \<not> se_bind se then \<lparr> sd_told_old = told, sd_daemon = None, sd_spooler = None, sd_fs = fs1 \<rparr>
         else
           (case serve_setup pd cfg spool_dir se (write_file socket [] fs1) of
              ((dm, spooler), fs2) \<Rightarrow>
                \<lparr> sd_told_old = told, sd_daemon = dm, sd_spooler = spooler,
                  sd_fs = (if dm = None then socket_guard_drop \<lparr> guard_path = socket \<rparr> fs2 else fs2) \<rparr>))"

section \<open>Reading the clipboard once\<close>

record action_env =
  ae_elapsed :: nat
  ae_poll :: int
  ae_guard :: bool
  ae_read :: "wl_error option"
  ae_events :: "wl_event list"
  ae_later :: "wl_event list"
  ae_interrupted :: bool

definition ACTION_TIMEOUT_MS :: nat where "ACTION_TIMEOUT_MS = 1000"

text \<open>\<open>action_dispatch\<close> knows what each pipe delivers, since in this mode the handler reads it at once.\<close>

definition action_dispatch :: "(bytes \<Rightarrow> bytes) \<Rightarrow> (string \<Rightarrow> reader) \<Rightarrow> wl_event \<Rightarrow> wayland_state \<Rightarrow> wayland_state" where
  "action_dispatch pd answer ev st =
     (case ev of
        SelectionEv pipe_ok thread_ok offered \<Rightarrow> fst (on_selection pd pipe_ok thread_ok answer offered st)
      | _ \<Rightarrow> dispatch pd ev st)"

fun paste_loop :: "(bytes \<Rightarrow> bytes) \<Rightarrow> (string \<Rightarrow> reader) \<Rightarrow> action_env list \<Rightarrow> wayland_state \<Rightarrow> wayland_state" where
  "paste_loop pd answer aes st =
     (if ws_selection_received st then st
      else
        (case aes of
           [] \<Rightarrow> st
         | ae # rest \<Rightarrow>
             if ACTION_TIMEOUT_MS \<le> ae_elapsed ae then st
             else
               (let run = (\<lambda>evs. fold (action_dispatch pd answer) evs);
                    goes_on = (if 0 < ae_poll ae then
                                 \<not> ae_guard ae \<or>
                                 (case ae_read ae of None \<Rightarrow> True | Some e \<Rightarrow> e = WlIo WouldBlock)
                               else if ae_poll ae < 0 then ae_interrupted ae else True);
                    st1 = (if 0 < ae_poll ae \<and> ae_guard ae \<and> ae_read ae = None then run (ae_events ae) st else st)
                in if goes_on then paste_loop pd answer rest (run (ae_later ae) st1) else st1)))"

declare paste_loop.simps [simp del]

text \<open>The loop's list of turns is cut where the watchdog's second is over; the globals come with the first round trip.\<close>

definition paste_from_os ::
    "(bytes \<Rightarrow> bytes) \<Rightarrow> config \<Rightarrow> bool \<Rightarrow> (string \<Rightarrow> reader) \<Rightarrow> wl_event list \<Rightarrow> action_env list \<Rightarrow> string \<Rightarrow> bytes" where
  "paste_from_os pd cfg connected answer globals aes mime =
     (if \<not> connected then []
      else
        (let st = fold (action_dispatch pd answer) globals (new_action mime cfg)
         in if ws_manager st \<and> ws_seat st then ws_rx_buf (paste_loop pd answer aes (st\<lparr> ws_device := True \<rparr>)) else []))"

section \<open>Requests arrive, except one\<close>

lemmas ipc_bytes = IPC_CMD_RESTORE_def IPC_CMD_EXIT_def IPC_CMD_STATUS_def IPC_CMD_PAUSE_def IPC_CMD_RESUME_def IPC_DELIMITER_def

lemma utf8_width_ascii: "byte_val c < 128 \<Longrightarrow> utf8_width c = 1"
  by (simp add: utf8_width_def)

lemma lossy_ascii: "\<forall>c \<in> set s. byte_val c < 128 \<Longrightarrow> from_utf8_lossy s = s"
proof (induction s)
  case (Cons c s)
  then have "from_utf8_lossy (c # s) = c # from_utf8_lossy s"
    by (simp add: from_utf8_lossy_def utf8_chunks.simps(2) Let_def step_ok_def step_len_def utf8_width_ascii)
  with Cons show ?case by simp
qed (simp add: from_utf8_lossy_def)

lemma show_int_ascii: "c \<in> set (show_int i) \<Longrightarrow> byte_val c < 128 \<and> c \<noteq> IPC_DELIMITER"
  using show_int_bytes [of c i] by (auto simp: is_digit_def byte_val_def ipc_bytes)

lemma read_until_append: "d \<notin> set a \<Longrightarrow> read_until d (a @ d # b) = a @ [d]"
  by (induction a) auto

lemma restore_request_read: "read_until IPC_DELIMITER (restore_request rid @ junk) = restore_request rid"
proof -
  have "IPC_DELIMITER \<notin> set ([IPC_CMD_RESTORE] @ show_int rid)"
    using show_int_ascii by (auto simp: ipc_bytes)
  from read_until_append [OF this, of junk] show ?thesis by (simp add: restore_request_def)
qed

lemma told_old: "sd_told_old (start_daemon pd cfg sock sdir se fs) = (if se_old se then Some exit_request else None)"
  by (simp add: start_daemon_def Let_def split: prod.splits)

lemma exit_undecoded:
  "accept_and_dispatch (Some (Some exit_request)) status = (None, None)" "decode (exit_request @ [IPC_DELIMITER]) = Some ExitCmd"
  by (simp_all add: accept_and_dispatch_def exit_request_def decode_def ipc_bytes)

text \<open>C19: What a client sends is what the daemon does: a restore request carries any row id exactly, whatever follows its
  delimiter, and status, pause and resume are told apart, the status line being the only answer. The
  one exception is the request a starting daemon sends to the running one: without the delimiter it is a
  single byte, which the decoder takes for an empty message, so the old daemon is never told to exit.\<close>

theorem ipc_protocol:
  assumes "i64_min \<le> rid" and "rid \<le> i64_max"
  shows "accept_and_dispatch (Some (Some (restore_request rid @ junk))) status = (Some (Restore rid), None) \<and>
    accept_and_dispatch (Some (Some (status_request @ junk))) status = (Some Status, Some status) \<and>
    accept_and_dispatch (Some (Some (pause_request @ junk))) status = (Some Pause, None) \<and>
    accept_and_dispatch (Some (Some (resume_request @ junk))) status = (Some Resume, None) \<and>
    (\<forall>sent. sd_told_old (start_daemon pd cfg sock sdir se fs) = Some sent \<longrightarrow>
       accept_and_dispatch (Some (Some sent)) status = (None, None) \<and>
       decode (sent @ [IPC_DELIMITER]) = Some ExitCmd)"
proof (intro conjI)
  have "from_utf8_lossy (show_int rid) = show_int rid" using show_int_ascii by (simp add: lossy_ascii)
  then have "decode (restore_request rid) = Some (Restore rid)"
    using parse_i64_show_int [OF assms] by (simp add: decode_def restore_request_def Let_def butlast_append) (simp add: ipc_bytes)
  then show "accept_and_dispatch (Some (Some (restore_request rid @ junk))) status = (Some (Restore rid), None)"
    by (simp add: accept_and_dispatch_def restore_request_read)
  show "\<forall>sent. sd_told_old (start_daemon pd cfg sock sdir se fs) = Some sent \<longrightarrow>
       accept_and_dispatch (Some (Some sent)) status = (None, None) \<and> decode (sent @ [IPC_DELIMITER]) = Some ExitCmd"
    using told_old [of pd cfg sock sdir se fs] exit_undecoded by auto
qed (simp_all add: accept_and_dispatch_def decode_def status_request_def pause_request_def resume_request_def ipc_bytes Let_def)

theorem ipc_witness:
  "accept_and_dispatch (Some (Some (restore_request (- 42) @ ''zz''))) [] = (Some (Restore (- 42)), None) \<and>
   accept_and_dispatch (Some (Some exit_request)) [] = (None, None)"
proof -
  let ?se = "\<lparr> se_old = True, se_bind = False, se_compositor = True, se_read_db = True, se_globals = None, se_clock = 0,
    se_alive = (\<lambda>_. False), se_pid = 1, se_granted = 0, se_spool_entries = [] \<rparr>"
  have "sd_told_old (start_daemon (\<lambda>d. d) default_config ''/s'' ''/c'' ?se empty_fs) = Some exit_request"
    by (simp add: start_daemon_def Let_def)
  with ipc_protocol [of "- 42" "''zz''" "[]" "\<lambda>d. d" default_config "''/s''" "''/c''" ?se empty_fs] show ?thesis
    by (simp add: i64_min_def i64_max_def)
qed

section \<open>Every advertised type is served\<close>

definition text_kind :: "string \<Rightarrow> bool" where
  "text_kind mime \<longleftrightarrow> is_html_mime mime \<or> starts_with_ignore_ascii_case (mime_base mime) ''text/'' \<or> is_alias (mime_base mime)"

lemma lower_letter: "97 \<le> byte_val (to_ascii_lower c) \<Longrightarrow> byte_val (to_ascii_lower c) \<le> 122 \<Longrightarrow> byte_val c < 128 \<and> \<not> ws1 c \<and> c \<noteq> CHR '';''"
  by (auto simp: to_ascii_lower_def ws1_def byte_val_def split: if_splits)

lemma lower_semicolon: "to_ascii_lower (CHR '';'') = CHR '';''"
  by code_simp

text \<open>A base that reads like a letter-bounded constant is its own base.\<close>

lemma base_fixed:
  assumes eq: "eq_ignore_ascii_case b p" and p: "p \<noteq> []" "to_ascii_lowercase p = p" "CHR '';'' \<notin> set p"
    "97 \<le> byte_val (hd p)" "byte_val (hd p) \<le> 122" "97 \<le> byte_val (last p)" "byte_val (last p) \<le> 122"
  shows "mime_base b = b"
proof -
  have low: "map to_ascii_lower b = p" using eq p(2) by (simp add: eq_ignore_ascii_case_def to_ascii_lowercase_def)
  have b: "b \<noteq> []" using low p(1) by auto
  have "to_ascii_lower (hd b) = hd p" "to_ascii_lower (last b) = last p" using low b by (auto simp: hd_map last_map)
  then have ends: "byte_val (hd b) < 128 \<and> \<not> ws1 (hd b)" "byte_val (last b) < 128 \<and> \<not> ws1 (last b)"
    using p lower_letter [of "hd b"] lower_letter [of "last b"] by simp_all
  have "CHR '';'' \<notin> set b" using low p(3) lower_semicolon by (metis image_eqI set_map)
  then have "split_on (CHR '';'') b = [b]" by (rule split_on_plain)
  with ends b show ?thesis by (simp add: mime_base_def trim_id)
qed

lemma html_base: "is_html_mime m \<Longrightarrow> is_html_mime (mime_base m)"
  using base_fixed [of "mime_base m" "''text/html''"] base_fixed [of "mime_base m" "''application/xhtml+xml''"]
  by (auto simp: is_html_mime_def Let_def to_ascii_lowercase_def to_ascii_lower_def byte_val_def)

lemma alts_alias: "list_all (\<lambda>a. is_alias (mime_base a)) TEXT_MIME_ALTS"
  by code_simp

lemma alts_html: "list_all (\<lambda>a. is_alias (mime_base a) \<or> is_html_mime (mime_base a)) HTML_MIME_ALTS"
  by code_simp

lemma alias_compatible: "is_alias (mime_base a) \<Longrightarrow> text_kind m \<Longrightarrow> mime_is_compatible a m"
  using html_base [of m] by (auto simp: mime_is_compatible_def text_kind_def Let_def)

lemma html_compatible: "is_html_mime (mime_base a) \<Longrightarrow> is_html_mime m \<Longrightarrow> mime_is_compatible a m"
  using html_base [of m] by (auto simp: mime_is_compatible_def Let_def)

text \<open>C20: A restored entry of a text type, a text alias or HTML is served under every type it is advertised with. The
  advertisement itself is decided by a substring, though: a document type such as OpenDocument text is advertised as
  plain text and then refused when it is asked for as such.\<close>

theorem advertised_types_served:
  "(\<forall>mime a. text_kind mime \<and> a \<in> set (advertised mime) \<longrightarrow> mime_is_compatible a mime) \<and>
   ''text/plain'' \<in> set (advertised ''application/vnd.oasis.opendocument.text'') \<and>
   \<not> mime_is_compatible ''text/plain'' ''application/vnd.oasis.opendocument.text''"
proof (intro conjI allI impI)
  fix mime a assume a: "text_kind mime \<and> a \<in> set (advertised mime)"
  then consider "a = mime" | "is_html_mime mime" "a \<in> set HTML_MIME_ALTS" | "a \<in> set TEXT_MIME_ALTS"
    by (auto simp: advertised_def split: if_splits)
  then show "mime_is_compatible a mime"
  proof cases
    case 2
    with alts_html have "is_alias (mime_base a) \<or> is_html_mime (mime_base a)" by (auto simp: list_all_iff)
    then show ?thesis using 2(1) a alias_compatible html_compatible by blast
  next
    case 3
    with alts_alias a alias_compatible show ?thesis by (auto simp: list_all_iff)
  qed (simp add: mime_is_compatible_def)
next
  show "''text/plain'' \<in> set (advertised ''application/vnd.oasis.opendocument.text'')" by code_simp
  show "\<not> mime_is_compatible ''text/plain'' ''application/vnd.oasis.opendocument.text''" by code_simp
qed

theorem advertised_witness: "mime_is_compatible ''UTF8_STRING'' ''text/html;charset=utf-8''"
proof -
  have "text_kind ''text/html;charset=utf-8''" "''UTF8_STRING'' \<in> set (advertised ''text/html;charset=utf-8'')" by code_simp+
  then show ?thesis using advertised_types_served by blast
qed

section \<open>The state of the loop\<close>

text \<open>
  The two bound globals and their names go together, a device needs its seat, and the readers' gate is
  never overdrawn.
\<close>

definition globals_ok :: "wayland_state \<Rightarrow> bool" where
  "globals_ok st \<longleftrightarrow> (ws_manager st \<longleftrightarrow> ws_manager_id st \<noteq> None) \<and> (ws_seat st \<longleftrightarrow> ws_seat_id st \<noteq> None) \<and>
     (ws_device st \<longrightarrow> ws_seat st) \<and> gate_active (ws_gate st) \<le> gate_limit (ws_gate st)"

lemma gate_bounded:
  "gate_try_acquire g = Some g' \<Longrightarrow> gate_active g' \<le> gate_limit g' \<and> gate_active g' = gate_active g + 1 \<and> gate_limit g' = gate_limit g"
  "0 < gate_active g \<Longrightarrow> gate_active (gate_release g) = gate_active g - 1 \<and> gate_limit (gate_release g) = gate_limit g"
  using gate.rel_used [of 1 g, unfolded gate_release_n_one] by (auto simp: gate_try_acquire_def split: if_splits)

lemma on_selection_frame:
  assumes "on_selection pd pipe_ok thread_ok answer offered st = (st', req)"
  shows "ws_manager st' = ws_manager st" "ws_manager_id st' = ws_manager_id st" "ws_seat st' = ws_seat st"
    "ws_seat_id st' = ws_seat_id st" "ws_device st' = ws_device st" "ws_paused st' = ws_paused st"
    "ws_current_source st' = ws_current_source st"
  using assms
  by (auto simp: on_selection_def shed_unallocatable_pipe_def Let_def split: if_splits option.splits prod.splits)

lemma on_selection_gate:
  assumes "on_selection pd pipe_ok thread_ok answer offered st = (st', req)"
  shows "gate_active (ws_gate st) \<le> gate_limit (ws_gate st) \<Longrightarrow> gate_active (ws_gate st') \<le> gate_limit (ws_gate st')"
    "ws_paused st \<Longrightarrow> ws_gate st' = ws_gate st"
  using assms gate_bounded(1) [of "ws_gate st"] gate_bounded(2)
  by (auto simp: on_selection_def shed_unallocatable_pipe_def Let_def split: if_splits option.splits prod.splits)

lemma dispatch_ok: "globals_ok st \<Longrightarrow> globals_ok (dispatch pd ev st)"
proof (cases ev)
  case (SelectionEv a b c)
  obtain st' req where run: "on_selection pd a b (\<lambda>_. []) c st = (st', req)" by fastforce
  then show "globals_ok st \<Longrightarrow> ?thesis"
    using SelectionEv on_selection_frame [OF run] on_selection_gate(1) [OF run] by (auto simp: globals_ok_def dispatch_def)
next
  case ReaderDone
  then show "globals_ok st \<Longrightarrow> ?thesis" using gate_bounded(2) [of "ws_gate st"] by (auto simp: globals_ok_def dispatch_def)
qed (auto simp: globals_ok_def dispatch_def on_global_def on_global_remove_def Let_def)

lemma dispatches_ok: "globals_ok st \<Longrightarrow> globals_ok (fold (dispatch pd) evs st)"
  by (induction evs arbitrary: st) (simp_all add: dispatch_ok)

lemma dispatch_paused:
  assumes "ws_paused st"
  shows "ws_paused (dispatch pd ev st) \<and> gate_active (ws_gate (dispatch pd ev st)) \<le> gate_active (ws_gate st)"
proof (cases ev)
  case (SelectionEv a b c)
  obtain st' req where run: "on_selection pd a b (\<lambda>_. []) c st = (st', req)" by fastforce
  then show ?thesis
    using SelectionEv assms on_selection_frame(6) [OF run] on_selection_gate(2) [OF run] by (simp add: dispatch_def)
next
  case ReaderDone
  then show ?thesis using assms gate_bounded(2) [of "ws_gate st"] by (auto simp: dispatch_def)
qed (use assms in \<open>auto simp: dispatch_def on_global_def on_global_remove_def Let_def\<close>)

lemma dispatches_paused:
  "ws_paused st \<Longrightarrow> gate_active (ws_gate (fold (dispatch pd) evs st)) \<le> gate_active (ws_gate st)"
proof (induction evs arbitrary: st)
  case (Cons ev evs)
  from dispatch_paused [OF Cons.prems, of pd ev] Cons.IH [of "dispatch pd ev st"] show ?case by simp
qed simp

lemma restore_frame:
  "ws_manager (dm_wl (handle_restore_request w c t db fs dm)) = ws_manager (dm_wl dm)"
  "ws_manager_id (dm_wl (handle_restore_request w c t db fs dm)) = ws_manager_id (dm_wl dm)"
  "ws_seat (dm_wl (handle_restore_request w c t db fs dm)) = ws_seat (dm_wl dm)"
  "ws_seat_id (dm_wl (handle_restore_request w c t db fs dm)) = ws_seat_id (dm_wl dm)"
  "ws_device (dm_wl (handle_restore_request w c t db fs dm)) = ws_device (dm_wl dm)"
  "ws_gate (dm_wl (handle_restore_request w c t db fs dm)) = ws_gate (dm_wl dm)"
  "ws_paused (dm_wl (handle_restore_request w c t db fs dm)) = ws_paused (dm_wl dm)"
  "dm_exiting (handle_restore_request w c t db fs dm) = dm_exiting dm"
  by (simp_all add: handle_restore_request_def Let_def split: option.splits prod.splits)

lemma command_frame:
  "globals_ok (dm_wl (handle_command le db cmd dm)) = globals_ok (dm_wl dm)"
  "ws_manager (dm_wl (handle_command le db cmd dm)) = ws_manager (dm_wl dm)"
  "ws_seat (dm_wl (handle_command le db cmd dm)) = ws_seat (dm_wl dm)"
  "ws_device (dm_wl (handle_command le db cmd dm)) = ws_device (dm_wl dm)"
  "ws_gate (dm_wl (handle_command le db cmd dm)) = ws_gate (dm_wl dm)"
  by (cases cmd; simp add: handle_command_def restore_frame globals_ok_def)+

lemma bind_ok:
  assumes "globals_ok st"
  shows "globals_ok (snd (bind_data_device st)) \<and>
    (ws_manager (snd (bind_data_device st)) \<and> ws_seat (snd (bind_data_device st)) \<longrightarrow> ws_device (snd (bind_data_device st)))"
  using assms by (auto simp: bind_data_device_def globals_ok_def)

text \<open>C15: Whatever the compositor and the clients send, a turn of the event loop keeps the bound globals consistent and the
  number of reader threads within its limit, heals itself (with a manager and a seat there is a device again, even after the
  seat was unplugged and came back), starts no reader while it is paused, answers only a status request, and goes
  on exactly while the compositor connection lives.\<close>

theorem daemon_turn_invariant:
  assumes "globals_ok (dm_wl dm)" and "daemon_turn pd read_db le dm = (go_on, reply, dm')"
  shows "globals_ok (dm_wl dm') \<and>
    (ws_manager (dm_wl dm') \<and> ws_seat (dm_wl dm') \<longrightarrow> ws_device (dm_wl dm')) \<and>
    (ws_paused (dm_wl dm) \<longrightarrow> gate_active (ws_gate (dm_wl dm')) \<le> gate_active (ws_gate (dm_wl dm))) \<and>
    (reply \<noteq> None \<longrightarrow> le_ipc_ready le \<and> (\<exists>sent. le_conn le = Some (Some sent) \<and> decode (read_until IPC_DELIMITER sent) = Some Status)) \<and>
    (go_on \<longleftrightarrow> le_poll le < 0 \<or>
       \<not> le_hangup le \<and> \<not> (le_readable le \<and> le_guard le \<and> (\<exists>e. le_read le = Some e \<and> read_failure_is_fatal e)))"
proof -
  define st1 where "st1 = fold (dispatch pd) (le_events le) (dm_wl dm)"
  define st2 where "st2 = (if ws_device st1 then st1 else snd (bind_data_device st1))"
  define dm1 where "dm1 = dm\<lparr> dm_wl := st2, dm_exiting := dm_exiting dm \<or> le_signal le \<rparr>"
  define ipc where "ipc = (if le_ipc_ready le then accept_and_dispatch (le_conn le) (status_line le dm1) else (None, None))"
  define dm2 where "dm2 = (case fst ipc of None \<Rightarrow> dm1 | Some c \<Rightarrow> handle_command le read_db c dm1)"
  have ok1: "globals_ok st1" using dispatches_ok [OF assms(1)] by (simp add: st1_def)
  have ok2: "globals_ok st2 \<and> (ws_manager st2 \<and> ws_seat st2 \<longrightarrow> ws_device st2)"
    using ok1 bind_ok [OF ok1] by (simp add: st2_def)
  have ok3: "globals_ok (dm_wl dm2) \<and> (ws_manager (dm_wl dm2) \<and> ws_seat (dm_wl dm2) \<longrightarrow> ws_device (dm_wl dm2))"
    using ok2 command_frame by (auto simp: dm2_def dm1_def split: option.splits)
  have "ws_gate st2 = ws_gate st1" by (simp add: st2_def bind_data_device_def)
  then have gates: "ws_paused (dm_wl dm) \<longrightarrow> gate_active (ws_gate (dm_wl dm2)) \<le> gate_active (ws_gate (dm_wl dm)) \<and>
      gate_active (ws_gate (dm_wl dm1)) \<le> gate_active (ws_gate (dm_wl dm))"
    using dispatches_paused [of "dm_wl dm" pd "le_events le"] command_frame(5)
    by (auto simp: dm2_def dm1_def st1_def split: option.splits)
  have rep: "snd ipc \<noteq> None \<longrightarrow> le_ipc_ready le \<and>
      (\<exists>sent. le_conn le = Some (Some sent) \<and> decode (read_until IPC_DELIMITER sent) = Some Status)"
    by (auto simp: ipc_def accept_and_dispatch_def split: option.splits if_splits)
  have turn: "daemon_turn pd read_db le dm =
      (if le_poll le < 0 then (True, None, dm1)
       else (\<not> le_hangup le \<and> \<not> (le_readable le \<and> le_guard le \<and> \<not> read_compositor_events (le_read le)), snd ipc, dm2))"
    unfolding daemon_turn_def st1_def [symmetric] st2_def [symmetric] dm1_def [symmetric] Let_def ipc_def [symmetric] dm2_def
    by (cases ipc) simp
  have "(\<not> read_compositor_events (le_read le)) = (\<exists>e. le_read le = Some e \<and> read_failure_is_fatal e)"
    by (auto simp: read_compositor_events_def split: option.splits)
  with assms(2) turn ok2 ok3 rep gates show ?thesis by (auto simp: dm1_def split: if_splits)
qed

definition idle_env :: loop_env where
  "idle_env = \<lparr> le_events = [], le_poll = 0, le_ipc_ready = False, le_conn = None, le_hangup = False, le_readable = False,
     le_guard = False, le_read = None, le_world = calm_world (\<lambda>_. False) os_fine 5, le_fs = empty_fs, le_clocks = (0, 0), le_signal = False,
     le_db = fresh_db \<rparr>"

definition young_daemon :: daemon where
  "young_daemon = \<lparr> dm_wl = new_daemon default_config, dm_metrics = metrics_new 0, dm_exiting = False, dm_selection = None \<rparr>"

lemma young_ok: "globals_ok (dm_wl young_daemon)"
  by (simp add: globals_ok_def young_daemon_def new_daemon_def)

theorem daemon_turn_witness:
  "ws_device (dm_wl (snd (snd (daemon_turn (\<lambda>d. d) fresh_db
     (idle_env\<lparr> le_events := [Global 1 INTERFACE_MANAGER 1, Global 2 INTERFACE_SEAT 9, GlobalRemove 2, Global 3 INTERFACE_SEAT 9] \<rparr>)
     young_daemon))))"
proof -
  let ?le = "idle_env\<lparr> le_events := [Global 1 INTERFACE_MANAGER 1, Global 2 INTERFACE_SEAT 9, GlobalRemove 2, Global 3 INTERFACE_SEAT 9] \<rparr>"
  obtain go reply dm' where run: "daemon_turn (\<lambda>d. d) fresh_db ?le young_daemon = (go, reply, dm')" by (metis prod_cases3)
  have "ws_manager (dm_wl dm') \<and> ws_seat (dm_wl dm')"
    using run by (simp add: daemon_turn_def Let_def dispatch_def on_global_def on_global_remove_def young_daemon_def new_daemon_def
        INTERFACE_MANAGER_def INTERFACE_SEAT_def bind_data_device_def idle_env_def) auto
  with daemon_turn_invariant [OF young_ok run] run show ?thesis by simp
qed

section \<open>A restore without a device costs the next copy\<close>

text \<open>C40: While the seat is gone there is no device, and restoring an entry then publishes nothing, so the compositor has no
  own selection to announce. The counter of expected announcements is raised all the same: the next genuine
  selection, whatever it holds, is taken for the daemon's own and is not read.\<close>

theorem restore_without_device:
  assumes "ws_manager (dm_wl dm)" and "\<not> ws_device (dm_wl dm)" and "ws_provider_locks (dm_wl dm) = 0"
    and "locate_content w target read_db = Some loc"
    and "handle_restore_request w clock target read_db fs dm = dm'"
  shows "dm_selection dm' = dm_selection dm \<and> ws_provider_locks (dm_wl dm') = 1 \<and>
    on_selection pd pipe_ok thread_ok answer offered (dm_wl dm') =
      ((dm_wl dm')\<lparr> ws_selection_received := True, ws_provider_locks := 0 \<rparr>, None)"
  using assms by (auto simp: handle_restore_request_def on_selection_def Let_def split: prod.splits)

definition one_db :: clipboard_db where
  "one_db = fresh_db\<lparr> db_store := empty_store\<lparr> clipboard := [\<lparr> r_id = 1, r_ts = 4, r_mime = ''text/plain'', r_size = 2,
     r_preview = None, r_content = CText ''hi'', r_hash = Some ''6869'', r_pinned = False, r_chunked = False \<rparr>], last_seq := 1 \<rparr> \<rparr>"

theorem restore_without_device_witness:
  "snd (on_selection (\<lambda>d. d) True True (\<lambda>_. []) (Some [''text/plain''])
     (dm_wl (handle_restore_request (calm_world (\<lambda>_. False) os_fine 5) 9 1 one_db empty_fs
        (young_daemon\<lparr> dm_wl := (new_daemon default_config)\<lparr> ws_manager := True, ws_manager_id := Some 1 \<rparr> \<rparr>)))) = None"
proof -
  let ?dm = "young_daemon\<lparr> dm_wl := (new_daemon default_config)\<lparr> ws_manager := True, ws_manager_id := Some 1 \<rparr> \<rparr>"
  let ?w = "calm_world (\<lambda>_. False) os_fine 5"
  have "locate_content ?w 1 one_db = Some (''text/plain'', InlineBlob 1)"
    by (simp add: locate_content_def get_row_location_def get_row_def one_db_def calm_world_def)
  from restore_without_device [of ?dm ?w 1 one_db _ 9 empty_fs, OF _ _ _ this refl, of "\<lambda>d. d" True True "\<lambda>_. []" "Some [''text/plain'']"]
  show ?thesis by (simp add: new_daemon_def)
qed

section \<open>The loop can be ended\<close>

lemma turn_exiting:
  assumes "daemon_turn pd db le dm = (go, reply, dm')"
  shows "dm_exiting dm \<or> le_signal le \<Longrightarrow> dm_exiting dm'"
    "0 \<le> le_poll le \<Longrightarrow> le_ipc_ready le \<Longrightarrow> le_conn le = Some (Some sent) \<Longrightarrow>
       decode (read_until IPC_DELIMITER sent) = Some ExitCmd \<Longrightarrow> dm_exiting dm'"
proof -
  have cmd: "dm_exiting (handle_command le db c d)" if "dm_exiting d" for c d
    using that by (cases c) (simp_all add: handle_command_def restore_frame)
  show "dm_exiting dm \<or> le_signal le \<Longrightarrow> dm_exiting dm'"
    using assms by (auto simp: daemon_turn_def Let_def cmd split: if_splits option.splits prod.splits)
  show "0 \<le> le_poll le \<Longrightarrow> le_ipc_ready le \<Longrightarrow> le_conn le = Some (Some sent) \<Longrightarrow>
       decode (read_until IPC_DELIMITER sent) = Some ExitCmd \<Longrightarrow> dm_exiting dm'"
    using assms by (auto simp: daemon_turn_def Let_def accept_and_dispatch_def handle_command_def split: if_splits option.splits)
qed

lemma exiting_stops: "dm_exiting dm \<Longrightarrow> daemon_loop pd les dm = Some dm"
  by (subst daemon_loop.simps) simp

text \<open>C16: A signal or an exit request ends the loop with the turn that sees it, whatever else arrives in it.\<close>

theorem exit_ends_loop:
  assumes "le_signal le \<or> 0 \<le> le_poll le \<and> le_ipc_ready le \<and>
      (\<exists>sent. le_conn le = Some (Some sent) \<and> decode (read_until IPC_DELIMITER sent) = Some ExitCmd)"
  shows "\<exists>dm'. daemon_loop pd (le # rest) dm = Some dm'"
proof (cases "dm_exiting dm")
  case True
  then show ?thesis using exiting_stops by blast
next
  case False
  obtain go reply dm' where t: "daemon_turn pd (le_db le) le dm = (go, reply, dm')" by (metis prod_cases3)
  have "dm_exiting dm'" using turn_exiting [OF t] assms by blast
  with False t exiting_stops show ?thesis by (cases go) (simp_all add: daemon_loop.simps [of pd "le # rest"])
qed

theorem exit_ends_witness:
  "\<exists>dm'. daemon_loop (\<lambda>d. d) [idle_env\<lparr> le_ipc_ready := True, le_conn := Some (Some [IPC_CMD_EXIT, IPC_DELIMITER]) \<rparr>] young_daemon = Some dm'"
  by (rule exit_ends_loop) (simp add: idle_env_def decode_def ipc_bytes)

end
