(* ===== verification/EndToEnd.thy ===== *)
theory EndToEnd
  imports Worker Egress Daemon
begin

text \<open>
  The way of one selection through the whole program: an ingestion thread reads it (\<^verbatim>\<open>device.rs\<close>), the worker stores it
  (\<^verbatim>\<open>worker.rs\<close>), the daemon offers it again (\<^verbatim>\<open>handle_restore_request\<close>) and the source handler serves it (\<^verbatim>\<open>source.rs\<close>).
\<close>

section \<open>From the pipe to a job\<close>

text \<open>The bytes a selection stands for: what the application sent, and for a file list the decoded paths.\<close>

definition received :: "(bytes \<Rightarrow> bytes) \<Rightarrow> string \<Rightarrow> reader \<Rightarrow> bytes" where
  "received pd mime r = (if mime_base_eq mime MIME_URI_LIST then normalize_uri_list pd (stream_bytes r) else stream_bytes r)"

lemma spool_part_path:
  assumes "spool os digest pid sp head src limit fs = (SpoolDone f, fs')"
  shows "\<exists>q. sp_path f = q @ ''.part''"
proof -
  have "sp_path f = fst (fresh_path pid sp)"
    using assms by (auto simp: spool_def spool_with_def Let_def spooled_new_def split: prod.splits sum.splits if_splits option.splits)
  then show ?thesis by (simp add: fresh_path_def path_push_def SPOOL_FILE_EXTENSION_def)
qed

lemma ingest_part_path:
  assumes "ingest_job pd r mime (Some (spool os digest pid sp)) fs = (Some job, fs')" and "job_payload job = Spooled f"
  shows "\<exists>q. sp_path f = q @ ''.part''"
  using assms
  by (auto simp: ingest_job_def drain_pipe_def job_new_def from_payload_def ok_drained_def dest: spool_part_path
      split: prod.splits sum.splits option.splits if_splits drained.splits spool_outcome.splits)

lemma uri_list_text_like: "is_text_like_mime MIME_URI_LIST"
  by code_simp

lemma uri_list_text: "mime_base_eq mime MIME_URI_LIST \<Longrightarrow> is_text_like_mime mime"
  using text_like_cong [of mime MIME_URI_LIST] uri_list_text_like by simp

text \<open>A job made by an ingestion thread is well formed and holds the bytes that were received.\<close>

lemma ingested_job:
  assumes run: "ingest_job pd r mime (Some (spool os sha pid sp)) fs = (Some job, fs')"
  shows "job_wf sha job fs'" "payload_content fs' (job_payload job) = Inr (received pd mime r)"
    "received pd mime r \<noteq> []" "\<And>sd. job_payload job \<noteq> Stream sd" "\<And>q. job_payload job \<noteq> PFile q"
proof -
  note f = fsp.ingest_faithful [OF run]
  have "job_wf sha job fs' \<and> payload_content fs' (job_payload job) = Inr (received pd mime r) \<and> received pd mime r \<noteq> [] \<and>
      (\<forall>sd. job_payload job \<noteq> Stream sd) \<and> (\<forall>q. job_payload job \<noteq> PFile q)"
  proof (cases "job_payload job")
    case (Spooled f)
    obtain q where "sp_path f = q @ ''.part''" using ingest_part_path [OF run Spooled] by blast
    with Spooled f uri_list_text [of mime] show ?thesis
      by (auto simp: job_wf_def payload_content_def received_def spooled_as_def spool_record_def file_open_def)
  qed (use f in \<open>auto simp: job_wf_def payload_content_def received_def split: if_splits\<close>)
  then show "job_wf sha job fs'" "payload_content fs' (job_payload job) = Inr (received pd mime r)"
    "received pd mime r \<noteq> []" "\<And>sd. job_payload job \<noteq> Stream sd" "\<And>q. job_payload job \<noteq> PFile q" by auto
qed

section \<open>From a job to an entry\<close>

lemma to_store_permit [simp]: "to_store je (job\<lparr> job_permit := p \<rparr>) st fs = to_store je job st fs"
  by (cases "job_payload job") (simp_all add: to_store_def)

lemma job_wf_permit [simp]: "job_wf sha (job\<lparr> job_permit := p \<rparr>) fs = job_wf sha job fs"
  by (simp add: job_wf_def)

section \<open>From an entry to a paste\<close>

text \<open>What can be read under an id is what a restore of it offers.\<close>

lemma located:
  assumes "get_content_by_id w rid db fs = Some (m, d)"
  obtains loc where "locate_content w rid db = Some (m, loc)"
    "case loc of InlineBlob k \<Rightarrow> k = rid | CacheFile p \<Rightarrow> fs_files fs p = Some d"
proof -
  from assms obtain r h where r: "\<not> w_fails w StQuery" "get_row rid (db_store db) = Some r" "r_hash r = Some h" "m = r_mime r"
    by (auto simp: get_content_by_id_def get_row_content_def split: option.splits if_splits)
  show ?thesis
  proof (cases "r_content r \<noteq> CNull \<or> r_chunked r")
    case True
    with r show ?thesis by (intro that [of "InlineBlob rid"]) (simp_all add: locate_content_def get_row_location_def)
  next
    case False
    with r assms show ?thesis
      by (intro that [of "CacheFile (cache_path (db_cache db) h)"])
        (auto simp: locate_content_def get_row_location_def get_content_by_id_def get_row_content_def cell_bytes_def cache_read_def)
  qed
qed

lemma compatible_refl: "mime_is_compatible m m"
  by (simp add: mime_is_compatible_def)

text \<open>Nothing on the serving side fails.\<close>

definition egress_fine :: "egress_env \<Rightarrow> bool" where
  "egress_fine env \<longleftrightarrow> eg_fcntl env \<and> eg_thread env \<and> eg_dup env = None \<and> steady (eg_sendfile env)"

lemma restored_paste:
  assumes got: "get_content_by_id w rid db fs = Some (m, d)" and d: "d \<noteq> []" "length d \<le> MAX_PAYLOAD_BYTES"
    and wl: "ws_manager (dm_wl dm)" "ws_device (dm_wl dm)"
  obtains meta where "dm_selection (handle_restore_request w clock rid db fs dm) = Some (advertised m, meta)"
    "\<And>env rc. egress_fine env \<Longrightarrow> rc_got rc = [] \<Longrightarrow> rc_takes rc = None \<Longrightarrow> rc_got (snd (on_send env meta m fs rc)) = d"
proof -
  obtain loc where loc: "locate_content w rid db = Some (m, loc)"
      "case loc of InlineBlob k \<Rightarrow> k = rid | CacheFile p \<Rightarrow> fs_files fs p = Some d" using located [OF got] .
  define meta where "meta = \<lparr> sm_mime = m, sm_payload = (case loc of InlineBlob k \<Rightarrow> Memory d | CacheFile p \<Rightarrow> PFile p) \<rparr>"
  have "promised meta m fs = d"
    using loc(2) compatible_refl by (auto simp: promised_def meta_def held_bytes_def Let_def split: content_location.splits)
  moreover have "egress_fine env \<Longrightarrow> egress_calm env meta fs" for env
    using loc(2) d by (auto simp: egress_fine_def egress_calm_def meta_def split: content_location.splits)
  ultimately have "rc_got (snd (on_send env meta m fs rc)) = d"
    if "egress_fine env" "rc_got rc = []" "rc_takes rc = None" for env rc
    using on_send_served [of env meta fs m rc] that
    by (auto simp: served_to_def accepted_def egress_fine_def)
  moreover have "dm_selection (handle_restore_request w clock rid db fs dm) = Some (advertised m, meta)"
    using loc wl got by (auto simp: handle_restore_request_def meta_def Let_def split: content_location.splits)
  ultimately show ?thesis by (rule that [rotated])
qed

section \<open>The whole way\<close>

text \<open>What the storage must have room for: content it does not hold yet, newer than everything stored.\<close>

definition storable :: "job_env \<Rightarrow> nat \<Rightarrow> worker_state \<Rightarrow> fsys \<Rightarrow> string \<times> bytes \<Rightarrow> bool" where
  "storable je n st fs md =
     (case md of (m, d) \<Rightarrow>
        fits (w_sha (je_world je)) (wk_db st) fs d \<and> length d \<le> MAX_PAYLOAD_BYTES \<and> \<not> is_skipped m (length d) \<and>
        new_entry (je_world je) (to_hex (w_sha (je_world je) d)) n (wk_db st))"

lemma ingested_to_store:
  assumes run: "ingest_job pd r mime (Some (spool os (w_sha (je_world je)) pid sp)) fs = (Some job, fs')"
    and small: "length (received pd mime r) \<le> MAX_PAYLOAD_BYTES"
  shows "to_store je job st fs' \<noteq> None"
proof (cases "job_payload job")
  case (Memory d)
  have "payload_content fs' (Memory d) = Inr (received pd mime r)" using ingested_job(2) [OF run] Memory by simp
  with materialise_spec [of "Memory d" "je_stat je" "job_mime job" fs'] small ingested_job(3) [OF run] Memory show ?thesis
    by (auto simp: to_store_def split: prod.splits)
next
  case (Spooled f)
  obtain d q where rec: "spool_record (w_sha (je_world je)) f d fs'" and part: "sp_path f = q @ ''.part''"
    using ingested_job(1) [OF run] Spooled by (auto simp: job_wf_def)
  obtain m1 sp1 st1 fs1 where conv: "convert_if_wanted je (job_mime job) f st fs' = ((m1, sp1), st1, fs1)" by (metis prod.exhaust)
  obtain d1 where "spool_record (w_sha (je_world je)) sp1 d1 fs1" by (rule converted_spool [OF conv rec part])
  with Spooled conv show ?thesis by (simp add: to_store_def spool_record_def)
qed (use ingested_job(4,5) [OF run] in auto)

text \<open>C1: The way of a selection through the program: what an application sent reaches the history in one turn of the
  worker, by memory or by spool file, as it is or as the PNG the image pipeline made of it; restoring the
  entry makes the daemon offer it to the compositor under its type and the compatible ones; and a receiver that asks for the type gets
  exactly the stored bytes, from memory, from the chunk tables or straight from the cache file.\<close>

theorem copy_then_paste:
  assumes "ingest_job pd r mime (Some (spool os (w_sha (je_world je)) pid sp)) fs0 = (Some job, fs)"
    and "length (received pd mime r) \<le> MAX_PAYLOAD_BYTES"
    and "ts_order (w_ord (je_world je))" and "storage_ok (w_sha (je_world je)) (wk_db st) fs"
    and "qw_jobs q = job\<lparr> job_permit := permit \<rparr> # rest" and "qw_fs q = fs"
    and "\<forall>md. to_store je job st fs = Some md \<longrightarrow> storable je n st fs md"
    and "os_copy (w_os (je_world je)) = WDone \<or> os_rename (w_os (je_world je))" and "os_write (w_os (je_world je)) = WDone"
    and "ws_manager (dm_wl dm)" and "ws_device (dm_wl dm)"
  shows "\<exists>q' st' rid m d meta. worker_turn je n (q, st) = Some (q', st') \<and>
    ((m, d) = (job_mime job, received pd mime r) \<or> conversion_of (job_mime job) (received pd mime r) m d) \<and>
    dm_selection (handle_restore_request (je_world je) clock rid (wk_db st') (qw_fs q') dm) = Some (advertised m, meta) \<and>
    (\<forall>env rc. egress_fine env \<and> rc_got rc = [] \<and> rc_takes rc = None \<longrightarrow>
       rc_got (snd (on_send env meta m (qw_fs q') rc)) = d)"
proof -
  note run = assms(1)
  obtain m d where md: "to_store je job st fs = Some (m, d)"
    using ingested_to_store [OF run assms(2), of st] by auto
  have room: "storable je n st fs (m, d)" using assms(7) md by blast
  have src: "(m, d) = (job_mime job, received pd mime r) \<or> conversion_of (job_mime job) (received pd mime r) m d"
    using to_store_faithful [OF md ingested_job(1) [OF run]] ingested_job(2) [OF run] by auto
  let ?job = "job\<lparr> job_permit := permit \<rparr>"
  obtain st1 fs1 rid where stored: "store_job je ?job n st fs = (Inr (Some (m, length d)), st1, fs1)"
      "get_content_by_id (je_world je) rid (wk_db st1) fs1 = Some (m, d)"
    using store_job_serves [OF assms(3,4) _ _ _ assms(8,9), of ?job m d n] ingested_job(1) [OF run] md room
    unfolding storable_def by auto
  define q' where "q' = q\<lparr> qw_jobs := rest, qw_fs := fs1, qw_budget := budget_release (permit_bytes ?job) (qw_budget q) \<rparr>"
  define st' where "st' = st1\<lparr> wk_metrics := record_ingress (je_clock je) (wk_metrics st1) \<rparr>"
  have turn: "worker_turn je n (q, st) = Some (q', st')"
    using assms(5,6) stored(1) by (simp add: worker_turn_def q'_def st'_def)
  have got: "get_content_by_id (je_world je) rid (wk_db st') (qw_fs q') = Some (m, d)"
    using stored(2) by (simp add: q'_def st'_def)
  have "d \<noteq> []" "length d \<le> MAX_PAYLOAD_BYTES" using room by (auto simp: storable_def is_skipped_def)
  from restored_paste [OF got this assms(10,11)] obtain meta where
    "dm_selection (handle_restore_request (je_world je) clock rid (wk_db st') (qw_fs q') dm) = Some (advertised m, meta)"
    "\<And>env rc. egress_fine env \<Longrightarrow> rc_got rc = [] \<Longrightarrow> rc_takes rc = None \<Longrightarrow> rc_got (snd (on_send env meta m (qw_fs q') rc)) = d"
    by blast
  with turn src show ?thesis by blast
qed

definition hello_reader :: reader where
  "hello_reader = [RdData ''he'', RdIntr, RdData ''llo'']"

definition hello_queue :: queue_world where
  "hello_queue = pdf_queue\<lparr> qw_jobs := [(job_new ''text/plain'' ''hello'')\<lparr> job_permit := Some 5 \<rparr>], qw_fs := empty_fs \<rparr>"

definition bound_daemon :: daemon where
  "bound_daemon = young_daemon\<lparr> dm_wl := (new_daemon default_config)\<lparr> ws_manager := True, ws_device := True \<rparr> \<rparr>"

definition fine_egress :: egress_env where
  "fine_egress = \<lparr> eg_fcntl = True, eg_thread = True, eg_dup = None, eg_stat = True, eg_sendfile = [] \<rparr>"

definition patient_receiver :: receiver where
  "patient_receiver = \<lparr> rc_got = [], rc_takes = None, rc_nonblock = True, rc_room = 0 \<rparr>"

lemma patient: "egress_fine fine_egress" "rc_got patient_receiver = []" "rc_takes patient_receiver = None"
  by (simp_all add: egress_fine_def fine_egress_def patient_receiver_def steady_def)

lemma hello_run:
  "ingest_job (\<lambda>d. d) hello_reader ''text/plain'' (Some (spool calm_spool (w_sha (je_world calm_env)) 7 \<lparr> fsp_dir = ''/s'', fsp_next = 0 \<rparr>))
     empty_fs = (Some (job_new ''text/plain'' ''hello''), empty_fs)"
  "received (\<lambda>d. d) ''text/plain'' hello_reader = ''hello''"
proof -
  have label: "is_text_like_mime ''text/plain''" "\<not> mime_base_eq ''text/plain'' MIME_URI_LIST" "detect_image_mime ''hello'' = None"
    by code_simp+
  show "ingest_job (\<lambda>d. d) hello_reader ''text/plain'' (Some (spool calm_spool (w_sha (je_world calm_env)) 7 \<lparr> fsp_dir = ''/s'', fsp_next = 0 \<rparr>))
     empty_fs = (Some (job_new ''text/plain'' ''hello''), empty_fs)"
    using label by (simp add: hello_reader_def ingest_job_def drain_pipe_def route_payload_def read_pipe_payload_def read_bounded_def
        normalise_payload_def sat_add_def u64_max_def MAX_PAYLOAD_BYTES_def)
  show "received (\<lambda>d. d) ''text/plain'' hello_reader = ''hello''" using label by (simp add: received_def hello_reader_def)
qed

lemma hello_plan: "plan ''text/plain'' ''hello'' = None"
  by code_simp

lemma hello_storable:
  assumes "to_store calm_env (job_new ''text/plain'' ''hello'') fresh_worker empty_fs = Some md"
  shows "storable calm_env 3 fresh_worker empty_fs md"
proof -
  obtain m d where md: "md = (m, d)" by (cases md)
  from to_store_faithful [OF assms [unfolded md]] hello_plan have "m = ''text/plain''" "d = ''hello''"
    by (auto simp: job_wf_def job_new_def payload_content_def conversion_of_def)
  moreover have "\<not> is_skipped ''text/plain'' (length ''hello'')" by code_simp
  moreover have "length ''hello'' \<le> MAX_PAYLOAD_BYTES" by (simp add: const_defs)
  ultimately show ?thesis
    by (simp add: md storable_def fits_def collision_free_def entry_free_def calm_env_def calm_world_def fresh_worker_def fresh_db_def
        empty_store_def empty_fs_def cache_read_def new_entry_def find_hash_def i64_max_def sql_offset_def as_i64_def)
qed

theorem copy_then_paste_witness:
  "\<exists>q' st' rid meta. worker_turn calm_env 3 (hello_queue, fresh_worker) = Some (q', st') \<and>
     dm_selection (handle_restore_request (je_world calm_env) 9 rid (wk_db st') (qw_fs q') bound_daemon) = Some (advertised ''text/plain'', meta) \<and>
     rc_got (snd (on_send fine_egress meta ''text/plain'' (qw_fs q') patient_receiver)) = ''hello''"
proof -
  have "\<exists>q' st' rid m d meta. worker_turn calm_env 3 (hello_queue, fresh_worker) = Some (q', st') \<and>
    ((m, d) = (job_mime (job_new ''text/plain'' ''hello''), received (\<lambda>d. d) ''text/plain'' hello_reader) \<or>
       conversion_of (job_mime (job_new ''text/plain'' ''hello'')) (received (\<lambda>d. d) ''text/plain'' hello_reader) m d) \<and>
    dm_selection (handle_restore_request (je_world calm_env) 9 rid (wk_db st') (qw_fs q') bound_daemon) = Some (advertised m, meta) \<and>
    (\<forall>env rc. egress_fine env \<and> rc_got rc = [] \<and> rc_takes rc = None \<longrightarrow>
       rc_got (snd (on_send env meta m (qw_fs q') rc)) = d)"
  proof (rule copy_then_paste [OF hello_run(1)])
    show "ts_order (w_ord (je_world calm_env))" by (rule pdf_facts(1))
    show "storage_ok (w_sha (je_world calm_env)) (wk_db fresh_worker) empty_fs"
      using store_ok_empty by (simp add: storage_ok_def fresh_worker_def fresh_db_def cache_sound_def cache_complete_def empty_store_def empty_fs_def)
    show "\<forall>md. to_store calm_env (job_new ''text/plain'' ''hello'') fresh_worker empty_fs = Some md \<longrightarrow> storable calm_env 3 fresh_worker empty_fs md"
      using hello_storable by blast
    show "length (received (\<lambda>d. d) ''text/plain'' hello_reader) \<le> MAX_PAYLOAD_BYTES" by (simp add: hello_run(2) const_defs)
  qed (simp_all add: hello_queue_def calm_env_def calm_world_def os_fine_def bound_daemon_def)
  then obtain q' st' rid m d meta where w: "worker_turn calm_env 3 (hello_queue, fresh_worker) = Some (q', st')" "m = ''text/plain''" "d = ''hello''"
      "dm_selection (handle_restore_request (je_world calm_env) 9 rid (wk_db st') (qw_fs q') bound_daemon) = Some (advertised m, meta)"
      "rc_got (snd (on_send fine_egress meta m (qw_fs q') patient_receiver)) = d"
    unfolding hello_run(2) using patient by (auto simp: job_new_def conversion_of_def hello_plan)
  then show ?thesis by (intro exI [of _ q'] exI [of _ st'] exI [of _ rid] exI [of _ meta]) simp
qed

end
