(* ===== verification/CliArgs.thy ===== *)
theory CliArgs
  imports Storage
begin

text \<open>
  The command line's arguments (\<^verbatim>\<open>crates/cli/src/utils.rs\<close>) and the formatting of a listing
  (\<^verbatim>\<open>crates/cli/src/formatter.rs\<close>). The width of a character on a terminal comes from the crate
  \<^verbatim>\<open>unicode-width\<close> and is the argument \<open>width\<close>.
\<close>

section \<open>Arguments\<close>

record arg_context =
  a_raw :: bool
  a_full :: bool
  a_force :: bool
  a_verbose :: bool
  a_help :: bool
  a_version :: bool
  a_use_id :: bool
  positionals :: "string list"
  unknown_flags :: "string list"

definition arg_none :: arg_context where
  "arg_none = \<lparr> a_raw = False, a_full = False, a_force = False, a_verbose = False, a_help = False, a_version = False,
     a_use_id = False, positionals = [], unknown_flags = [] \<rparr>"

definition long_flag :: "string \<Rightarrow> arg_context \<Rightarrow> arg_context" where
  "long_flag arg ctx =
     (if arg = ''--raw'' then ctx\<lparr> a_raw := True \<rparr>
      else if arg = ''--full'' then ctx\<lparr> a_full := True \<rparr>
      else if arg = ''--force'' then ctx\<lparr> a_force := True \<rparr>
      else if arg = ''--verbose'' then ctx\<lparr> a_verbose := True \<rparr>
      else if arg = ''--help'' then ctx\<lparr> a_help := True \<rparr>
      else if arg = ''--version'' then ctx\<lparr> a_version := True \<rparr>
      else if arg = ''--id'' then ctx\<lparr> a_use_id := True \<rparr>
      else ctx\<lparr> unknown_flags := unknown_flags ctx @ [arg] \<rparr>)"

definition short_flag :: "string \<Rightarrow> arg_context \<Rightarrow> arg_context" where
  "short_flag c ctx =
     (if c = ''R'' then ctx\<lparr> a_raw := True \<rparr>
      else if c = ''A'' then ctx\<lparr> a_full := True \<rparr>
      else if c = ''f'' then ctx\<lparr> a_force := True \<rparr>
      else if c = ''v'' then ctx\<lparr> a_verbose := True \<rparr>
      else if c = ''h'' then ctx\<lparr> a_help := True \<rparr>
      else if c = ''V'' then ctx\<lparr> a_version := True \<rparr>
      else if c = ''i'' then ctx\<lparr> a_use_id := True \<rparr>
      else ctx\<lparr> unknown_flags := unknown_flags ctx @ [''-'' @ c] \<rparr>)"

definition parse_arg :: "string \<Rightarrow> arg_context \<Rightarrow> arg_context" where
  "parse_arg arg ctx =
     (if prefix ''--'' arg then long_flag arg ctx
      else if prefix ''-'' arg \<and> 1 < length arg then fold short_flag (drop 1 (str_chars arg)) ctx
      else ctx\<lparr> positionals := positionals ctx @ [arg] \<rparr>)"

definition arg_parse :: "string list \<Rightarrow> arg_context" where
  "arg_parse args = fold parse_arg (drop 2 args) arg_none"

definition is_option :: "string \<Rightarrow> bool" where
  "is_option arg \<longleftrightarrow> prefix ''-'' arg"

definition has_flag :: "string list \<Rightarrow> string \<Rightarrow> string \<Rightarrow> bool" where
  "has_flag args long short \<longleftrightarrow> list_ex (\<lambda>a. a = long \<or> a = short) args"

section \<open>Ranges and targets\<close>

datatype range_selection = Single nat | Range nat nat | Latest nat

datatype arg_error = InvalidIndex string | InvalidRange string | InvalidId string | NotANumber string | Negative int | OutOfBounds int

definition range_end :: "string \<Rightarrow> arg_error + nat option" where
  "range_end s =
     (if s = [] then Inr None
      else (case parse_usize s of None \<Rightarrow> Inl (InvalidIndex s) | Some n \<Rightarrow> Inr (Some n)))"

definition nth_piece :: "nat \<Rightarrow> string list \<Rightarrow> string" where
  "nth_piece i ps = (if i < length ps then ps ! i else [])"

definition parse_range :: "string option \<Rightarrow> nat \<Rightarrow> arg_error + range_selection" where
  "parse_range arg default_limit =
     (case arg of
        None \<Rightarrow> Inr (Latest default_limit)
      | Some a \<Rightarrow>
          (let s = trim a in
           if CHR ''-'' \<in> set s then
             (let parts = split_on (CHR ''-'') s in
              try_bind (range_end (trim (nth_piece 0 parts))) (\<lambda>n1.
              try_bind (range_end (trim (nth_piece 1 parts))) (\<lambda>n2.
              case (n1, n2) of
                (Some start, Some stop) \<Rightarrow> Inr (Range (min start stop) (max start stop))
              | (Some start, None) \<Rightarrow> Inr (Range start (sat_add start default_limit))
              | (None, Some stop) \<Rightarrow> Inr (Range 0 stop)
              | (None, None) \<Rightarrow> Inl (InvalidRange s))))
           else
             (case parse_usize s of None \<Rightarrow> Inl (InvalidId s) | Some n \<Rightarrow> Inr (Single n))))"

definition db_fetch_metadata :: "world \<Rightarrow> nat \<Rightarrow> clipboard_db \<Rightarrow> meta_row list" where
  "db_fetch_metadata w limit db = fetch_metadata (w_ord w) (w_fails w) limit (db_store db)"

definition resolve_target_id ::
    "world \<Rightarrow> env \<Rightarrow> fsys \<Rightarrow> string \<Rightarrow> bool \<Rightarrow> clipboard_db \<Rightarrow> arg_error + int" where
  "resolve_target_id w env fs arg use_id db =
     (case parse_i64 arg of
        None \<Rightarrow> Inl (NotANumber arg)
      | Some val \<Rightarrow>
          if val < 0 then Inl (Negative val)
          else if use_id then Inr val
          else
            (let meta = db_fetch_metadata w (get_max_history env fs) db in
             if nat val < length meta then Inr (fst (meta ! nat val)) else Inl (OutOfBounds val)))"

section \<open>Formatting\<close>

definition format_time :: "int \<Rightarrow> nat \<Rightarrow> string" where
  "format_time clock timestamp_ms =
     (let now = (if clock < 0 then 0 else wrap64 (nat clock));
          diff_sec = (now - timestamp_ms) div 1000
      in if diff_sec < 60 then show_nat diff_sec @ TIME_UNIT_SEC
         else if diff_sec < 3600 then show_nat (diff_sec div 60) @ TIME_UNIT_MIN
         else show_nat (diff_sec div 3600) @ TIME_UNIT_HOUR)"

definition clean_char :: "string \<Rightarrow> string" where
  "clean_char c = (if c \<in> {[CHR 0x0A], [CHR 0x0D], [CHR 0x09]} then '' '' else c)"

definition char_width :: "(string \<Rightarrow> nat option) \<Rightarrow> string \<Rightarrow> nat" where
  "char_width width c = (case width c of Some n \<Rightarrow> n | None \<Rightarrow> 0)"

text \<open>The characters taken, and the column reached.\<close>

fun preview_loop :: "(string \<Rightarrow> nat option) \<Rightarrow> nat \<Rightarrow> string list \<Rightarrow> string list \<Rightarrow> nat \<Rightarrow> string list \<times> nat" where
  "preview_loop width ell [] acc current = (acc, current)"
| "preview_loop width ell (c # cs) acc current =
     (let w = char_width width c in
      if PREVIEW_WIDTH - ell < current + w then (acc @ [ELLIPSIS], current + ell)
      else preview_loop width ell cs (acc @ [c]) (current + w))"

definition preview_content :: "(string \<Rightarrow> nat option) \<Rightarrow> nat \<Rightarrow> string \<Rightarrow> string" where
  "preview_content width ellipsis_width s =
     (case preview_loop width ellipsis_width (map clean_char (str_chars s)) [] 0 of
        (cs, current) \<Rightarrow> concat cs @ replicate (PREVIEW_WIDTH - current) (CHR '' ''))"

definition pin_marker :: "bool \<Rightarrow> string" where
  "pin_marker pinned = (if pinned then ''*'' else '' '')"

definition pin_marker_raw :: "bool \<Rightarrow> string" where
  "pin_marker_raw pinned = (if pinned then ''*'' else ''-'')"

definition RICH_MARKUP_ALTS :: "string list" where
  "RICH_MARKUP_ALTS = [''application/xhtml+xml'', ''application/json'', ''application/xml'']"

definition get_label :: "string \<Rightarrow> string" where
  "get_label mime =
     (if mime = MIME_URI_LIST then LABEL_FILE
      else if prefix ''image/'' mime then LABEL_IMAGE
      else if contains_str mime ''text'' \<or> contains_str mime ''UTF8'' \<or> mime \<in> set RICH_MARKUP_ALTS then LABEL_TEXT
      else LABEL_DATA)"

section \<open>Columns stay aligned\<close>

lemma preview_loop_columns:
  assumes "preview_loop width ell cs acc current = (out, col)" and "current \<le> PREVIEW_WIDTH - ell" and "ell \<le> PREVIEW_WIDTH"
  shows "col \<le> PREVIEW_WIDTH \<and> (\<exists>k \<le> length cs. out = acc @ take k cs \<and> col = current + sum_list (map (char_width width) (take k cs)) \<or>
      out = acc @ take k cs @ [ELLIPSIS] \<and> col = current + sum_list (map (char_width width) (take k cs)) + ell)"
  using assms
proof (induction cs arbitrary: acc current)
  case (Cons c cs)
  show ?case
  proof (cases "PREVIEW_WIDTH - ell < current + char_width width c")
    case True
    with Cons.prems show ?thesis by (auto intro!: exI [of _ 0])
  next
    case False
    with Cons.prems Cons.IH [of "acc @ [c]" "current + char_width width c"]
    obtain k where "col \<le> PREVIEW_WIDTH" "k \<le> length cs"
        "out = (acc @ [c]) @ take k cs \<and> col = current + char_width width c + sum_list (map (char_width width) (take k cs)) \<or>
         out = (acc @ [c]) @ take k cs @ [ELLIPSIS] \<and> col = current + char_width width c + sum_list (map (char_width width) (take k cs)) + ell"
      by auto
    then show ?thesis by (intro conjI exI [of _ "Suc k"]) auto
  qed
qed auto

text \<open>Every preview fills its column exactly, whatever the characters' widths, so the table never shifts.\<close>

lemma preview_aligned:
  assumes "ell \<le> PREVIEW_WIDTH"
  obtains cs col where "preview_content width ell s = concat cs @ replicate (PREVIEW_WIDTH - col) (CHR '' '')"
    "col \<le> PREVIEW_WIDTH"
    "\<exists>k. cs = take k (map clean_char (str_chars s)) \<and> col = sum_list (map (char_width width) cs) \<or>
         cs = take k (map clean_char (str_chars s)) @ [ELLIPSIS] \<and>
           col = sum_list (map (char_width width) (take k (map clean_char (str_chars s)))) + ell"
proof -
  obtain cs col where run: "preview_loop width ell (map clean_char (str_chars s)) [] 0 = (cs, col)" by fastforce
  from preview_loop_columns [OF run] assms that [of cs col] run show ?thesis
    by (fastforce simp: preview_content_def)
qed

end
