(* ===== verification/Cli.thy ===== *)
theory Cli
  imports CliArgs Search Daemon
begin

text \<open>
  The commands of \<^verbatim>\<open>crates/cli/src\<close> and the composition in \<^verbatim>\<open>src/main.rs\<close>. A command's effect is the list
  of what it printed and sent, its exit code when it ends the process, the database and the file system.
  Errors whose text comes from a library are kept as values.
\<close>

section \<open>Effects\<close>

datatype cli_event =
    OutLine string
  | OutBytes bytes
  | ErrLine string
  | ErrDb storage_error
  | ErrArg arg_error
  | ToDaemon bytes

record cli_env =
  cl_world :: world
  cl_env :: env
  cl_like :: "string \<Rightarrow> string \<Rightarrow> bool"
  cl_connect :: bool
  cl_write :: bool
  cl_reply :: "io_error + string"
  cl_stdin :: "io_error + bytes"
  cl_clock :: int
  cl_width :: "string \<Rightarrow> nat option"
  cl_ellipsis :: nat
  cl_rm :: "(path \<Rightarrow> bool) option"
  cl_mode :: nat
  cl_granted :: nat

type_synonym cli_result = "cli_event list \<times> nat option \<times> clipboard_db \<times> fsys"

definition LOG_INFO :: string where "LOG_INFO = ''info: ''"
definition LOG_WARN :: string where "LOG_WARN = ''warn: ''"
definition LOG_ERROR :: string where "LOG_ERROR = ''error: ''"
definition TABLE_SEP :: string where "TABLE_SEP = '' | ''"
definition WIDTH_ID :: nat where "WIDTH_ID = 6"
definition WIDTH_WHEN :: nat where "WIDTH_WHEN = 8"
definition WIDTH_SIZE :: nat where "WIDTH_SIZE = 11"

definition log_save :: "string \<Rightarrow> nat \<Rightarrow> string" where
  "log_save mime sz = LOG_INFO @ ''saved: '' @ mime @ '' ('' @ show_nat sz @ '' bytes)''"

definition log_restore :: "nat \<Rightarrow> string" where
  "log_restore idx = LOG_INFO @ ''restored ID ['' @ show_nat idx @ ''] to clipboard''"

definition err :: "string \<Rightarrow> cli_event" where "err s = ErrLine (LOG_ERROR @ s)"
definition info :: "string \<Rightarrow> cli_event" where "info s = OutLine (LOG_INFO @ s)"

definition quoted :: "string \<Rightarrow> string" where "quoted s = CHR 0x27 # s @ [CHR 0x27]"

definition unsupported :: "string \<Rightarrow> cli_event" where
  "unsupported cmd = err (''command '' @ quoted cmd @ '' does not support specified options.'')"

definition no_positionals :: "string \<Rightarrow> cli_event" where
  "no_positionals cmd = err (''command '' @ quoted cmd @ '' does not accept positional arguments.'')"

definition plain_result :: "cli_event list \<Rightarrow> clipboard_db \<Rightarrow> fsys \<Rightarrow> cli_result" where
  "plain_result evs db fs = (evs, None, db, fs)"

definition pad_left :: "nat \<Rightarrow> string \<Rightarrow> string" where
  "pad_left n s = replicate (n - length (str_chars s)) (CHR '' '') @ s"

definition first_positional :: "arg_context \<Rightarrow> string option" where
  "first_positional ctx = (case positionals ctx of [] \<Rightarrow> None | p # _ \<Rightarrow> Some p)"

section \<open>Listing\<close>

type_synonym index_item = "nat \<times> meta_row"

definition enumerate_items :: "meta_row list \<Rightarrow> index_item list" where
  "enumerate_items items = zip [0..<length items] items"

definition select_items :: "bool \<Rightarrow> range_selection \<Rightarrow> meta_row list \<Rightarrow> index_item list" where
  "select_items full selection all_items =
     (let len = length all_items in
      if full then enumerate_items all_items
      else
        (case selection of
           Single n \<Rightarrow> if n < len then [(n, all_items ! n)] else []
         | Range start stop \<Rightarrow>
             if len = 0 then []
             else
               (let s = min start (len - 1); e = min stop (len - 1)
                in if s \<le> e then take (e - s + 1) (drop s (enumerate_items all_items)) else [])
         | Latest limit \<Rightarrow> take limit (enumerate_items all_items)))"

definition raw_preview :: "meta_row \<Rightarrow> string" where
  "raw_preview item =
     (case item of
        (rid, ts, mime, sz, preview, pinned) \<Rightarrow>
          if prefix ''image/'' mime
          then ''['' @ nth_piece 1 (split_on (CHR ''/'') mime) @ ''] - '' @ show_int sz @ '' bytes''
          else (case preview of Some p \<Rightarrow> p | None \<Rightarrow> []))"

definition shown_id :: "bool \<Rightarrow> index_item \<Rightarrow> string" where
  "shown_id use_id item = (if use_id then show_int (fst (snd item)) else show_nat (fst item))"

definition as_u64 :: "int \<Rightarrow> nat" where
  "as_u64 i = nat (i mod 2 ^ 64)"

definition render_row :: "cli_env \<Rightarrow> bool \<Rightarrow> bool \<Rightarrow> index_item \<Rightarrow> string" where
  "render_row ce is_raw use_id item =
     (case snd item of
        (rid, ts, mime, sz, preview, pinned) \<Rightarrow>
          (let label = get_label mime;
               formatted = preview_content (cl_width ce) (cl_ellipsis ce) (raw_preview (snd item))
           in if is_raw then
                ''['' @ pad_left (WIDTH_ID div 2) (shown_id use_id item) @ ''] '' @ pin_marker_raw pinned @ '' '' @ label @ '' '' @ formatted
              else
                ''['' @ pad_left (WIDTH_ID - 2) (shown_id use_id item) @ '']'' @ TABLE_SEP @
                pad_left WIDTH_WHEN (format_time (cl_clock ce) (as_u64 ts)) @ TABLE_SEP @
                pad_left (WIDTH_SIZE - 2) (show_int sz) @ '' B'' @ TABLE_SEP @
                pin_marker pinned @ label @ '' '' @ formatted))"

definition table_width :: nat where
  "table_width = WIDTH_ID + WIDTH_WHEN + WIDTH_SIZE + PREVIEW_WIDTH + 7 + length TABLE_SEP * 3"

definition render_list :: "cli_env \<Rightarrow> string \<Rightarrow> index_item list \<Rightarrow> nat \<Rightarrow> bool \<Rightarrow> bool \<Rightarrow> nat \<Rightarrow> cli_event list" where
  "render_list ce title items total_stored is_raw use_id max_history =
     (if is_raw then []
      else [OutLine (CHR 0x0A # ''--- '' @ title @ '' ---''),
            OutLine (pad_left WIDTH_ID LIST_HEADER_ID @ TABLE_SEP @ pad_left WIDTH_WHEN LIST_HEADER_WHEN @ TABLE_SEP @
              pad_left WIDTH_SIZE LIST_HEADER_SIZE @ TABLE_SEP @ LIST_HEADER_CONTENT),
            OutLine (concat (replicate table_width TABLE_LINE_CHAR))]) @
     map (\<lambda>i. OutLine (render_row ce is_raw use_id i)) items @
     (if is_raw then []
      else [OutLine (concat (replicate table_width TABLE_LINE_CHAR)),
            info (''shown '' @ show_nat (length items) @ '' items | history: '' @ show_nat total_stored @ '' / '' @
              show_nat max_history @ '' entries'')])"

definition list_run :: "cli_env \<Rightarrow> string list \<Rightarrow> clipboard_db \<Rightarrow> fsys \<Rightarrow> cli_result" where
  "list_run ce args db fs =
     (let ctx = arg_parse args in
      if unknown_flags ctx \<noteq> [] then plain_result [err (''unknown option detected: '' @ quoted (hd (unknown_flags ctx)))] db fs
      else if 1 < length (positionals ctx) then plain_result [err (''command '' @ quoted ''list'' @ '' accepts only one range argument.'')] db fs
      else
        (case parse_range (first_positional ctx) 25 of
           Inl e \<Rightarrow> plain_result [ErrArg e] db fs
         | Inr selection \<Rightarrow>
             (let max_history = get_max_history (cl_env ce) fs;
                  all_items = db_fetch_metadata (cl_world ce) max_history db;
                  total_stored = db_get_total_count (cl_world ce) db;
                  target_items = select_items (a_full ctx) selection all_items
              in if target_items = [] then
                   plain_result (if a_raw ctx then [] else [info ''no entries found matching the criteria.'']) db fs
                 else
                   plain_result
                     (render_list ce ''Clipboard History'' target_items total_stored (a_raw ctx) (a_use_id ctx) max_history) db fs)))"

section \<open>Search\<close>

definition ws_char :: "string \<Rightarrow> bool" where [std_defs]:
  "ws_char c = (case c of [a] \<Rightarrow> ws1 a | [a, b] \<Rightarrow> ws2 a b | [a, b, d] \<Rightarrow> ws3 a b d | _ \<Rightarrow> False)"

fun words :: "string list \<Rightarrow> string \<Rightarrow> string list" where
  "words [] acc = (if acc = [] then [] else [acc])"
| "words (c # cs) acc =
     (if ws_char c then (if acc = [] then words cs [] else acc # words cs []) else words cs (acc @ c))"

definition split_whitespace :: "string \<Rightarrow> string list" where [std_defs]:
  "split_whitespace s = words (str_chars s) []"

text \<open>\<^verbatim>\<open>filter(|kw| seen.insert(kw.clone()))\<close>: the first occurrence of each keyword.\<close>

fun first_seen :: "string list \<Rightarrow> string list \<Rightarrow> string list" where
  "first_seen seen [] = []"
| "first_seen seen (k # ks) = (if k \<in> set seen then first_seen seen ks else k # first_seen (k # seen) ks)"

definition search_keywords :: "arg_context \<Rightarrow> string list" where
  "search_keywords ctx = first_seen [] (concat (map split_whitespace (positionals ctx)))"

definition search_run :: "cli_env \<Rightarrow> string list \<Rightarrow> clipboard_db \<Rightarrow> fsys \<Rightarrow> cli_result" where
  "search_run ce args db fs =
     (let ctx = arg_parse args in
      if unknown_flags ctx \<noteq> [] \<or> a_full ctx \<or> a_force ctx then plain_result [unsupported ''search''] db fs
      else
        (let keywords = search_keywords ctx in
         if keywords = [] then
           plain_result [err ''missing required search keyword.'',
             OutLine ''usage: y4p search <keywords...> [--raw | -R] [--id | -i]''] db fs
         else
           (let (valid, invalid) = db_validate_keywords (cl_like ce) (cl_world ce) keywords db in
            if valid = [] then
              plain_result [info (''no entries matching '' @ quoted (join_with '' '' keywords) @ '' were found.'')] db fs
            else
              (let warned = (if invalid = [] then []
                             else [ErrLine (LOG_WARN @ ''ignored non-existent keywords: '' @ quoted (join_with '' '' invalid))]);
                   max_history = get_max_history (cl_env ce) fs;
                   results = search_metadata (cl_like ce) (cl_world ce) valid max_history db;
                   total_stored = db_get_total_count (cl_world ce) db
               in if results = [] then
                    plain_result (warned @ [info (''no entries matching '' @ quoted (join_with '' '' valid) @ '' were found.'')]) db fs
                  else
                    plain_result
                      (warned @ render_list ce
                         (''search: '' @ quoted (join_with '' AND '' valid) @ '' ('' @ show_nat (length results) @ '' hits)'')
                         results total_stored (a_raw ctx) (a_use_id ctx) max_history) db fs))))"

section \<open>Acting on one entry\<close>

text \<open>The common front of the commands that take a target.\<close>

definition with_target ::
    "cli_env \<Rightarrow> arg_context \<Rightarrow> bool \<Rightarrow> string \<Rightarrow> string \<Rightarrow> clipboard_db \<Rightarrow> fsys \<Rightarrow> (int \<Rightarrow> cli_result) \<Rightarrow> cli_result" where
  "with_target ce ctx rejects cmd missing db fs act =
     (if rejects then plain_result [unsupported cmd] db fs
      else
        (case first_positional ctx of
           None \<Rightarrow> plain_result [err missing] db fs
         | Some arg \<Rightarrow>
             (case resolve_target_id (cl_world ce) (cl_env ce) fs arg (a_use_id ctx) db of
                Inl e \<Rightarrow> plain_result [ErrArg e] db fs
              | Inr rid \<Rightarrow> act rid)))"

definition show_run :: "cli_env \<Rightarrow> string list \<Rightarrow> clipboard_db \<Rightarrow> fsys \<Rightarrow> cli_result" where
  "show_run ce args db fs =
     (let ctx = arg_parse args in
      with_target ce ctx (unknown_flags ctx \<noteq> [] \<or> a_full ctx \<or> a_force ctx) ''show'' ''missing required identifier.'' db fs
        (\<lambda>rid.
           case get_content_by_id (cl_world ce) rid db fs of
             None \<Rightarrow> plain_result [err (''failed to fetch payload for ID '' @ show_int rid @ ''.'')] db fs
           | Some (mime, payload) \<Rightarrow>
               if a_raw ctx then plain_result [OutBytes payload] db fs
               else
                 plain_result
                   ([OutLine ''--- DETAILS ---'', OutLine (''DB_ID:    '' @ show_int rid), OutLine (''MIME:     '' @ mime),
                     OutLine (''SIZE:     '' @ show_nat (length payload) @ '' bytes''), OutLine ''---------------''] @
                    (if contains_str mime ''text'' \<or> contains_str mime ''UTF8'' then [OutLine (from_utf8_lossy payload)]
                     else [OutLine ''[binary payload: terminal display suppressed]'',
                           OutLine (''hint: utilize '' @ quoted ''--raw'' @ '' to pipe data to a file.'')]) @
                    [OutLine ''---------------'']) db fs))"

definition copy_to_run :: "cli_env \<Rightarrow> string list \<Rightarrow> clipboard_db \<Rightarrow> fsys \<Rightarrow> cli_result" where
  "copy_to_run ce args db fs =
     (let ctx = arg_parse args in
      with_target ce ctx (unknown_flags ctx \<noteq> [] \<or> a_raw ctx \<or> a_full ctx \<or> a_force ctx) ''copy-to'' ''missing ID.'' db fs
        (\<lambda>rid.
           let db' = snd (db_update_timestamp (cl_world ce) rid db)
           in if cl_connect ce then
                (if cl_write ce
                 then plain_result (ToDaemon (restore_request rid) # (if a_verbose ctx then [OutLine (log_restore (as_u64 rid))] else [])) db' fs
                 else plain_result [] db' fs)
              else plain_result [err ''daemon is not running.''] db' fs))"

definition delete_run :: "cli_env \<Rightarrow> string list \<Rightarrow> clipboard_db \<Rightarrow> fsys \<Rightarrow> cli_result" where
  "delete_run ce args db fs =
     (let ctx = arg_parse args in
      with_target ce ctx (unknown_flags ctx \<noteq> [] \<or> a_raw ctx \<or> a_full ctx \<or> a_force ctx \<or> a_verbose ctx) ''delete''
        ''missing required identifier.'' db fs
        (\<lambda>rid.
           case db_delete_by_id (cl_world ce) rid db fs of
             (Inr True, db', fs') \<Rightarrow> plain_result [info (''removed entry [ID: '' @ show_int rid @ ''].'')] db' fs'
           | (Inr False, db', fs') \<Rightarrow> plain_result [err (''record with ID '' @ show_int rid @ '' not found.'')] db' fs'
           | (Inl e, db', fs') \<Rightarrow> plain_result [ErrDb e] db' fs'))"

definition set_pin_state :: "cli_env \<Rightarrow> string list \<Rightarrow> bool \<Rightarrow> string \<Rightarrow> clipboard_db \<Rightarrow> fsys \<Rightarrow> cli_result" where
  "set_pin_state ce args is_pinned cmd_name db fs =
     (let ctx = arg_parse args in
      with_target ce ctx (unknown_flags ctx \<noteq> [] \<or> a_raw ctx \<or> a_full ctx \<or> a_force ctx \<or> a_verbose ctx) cmd_name
        ''missing required identifier.'' db fs
        (\<lambda>rid.
           case set_pin_by_id (cl_world ce) rid is_pinned db of
             (Inr True, db') \<Rightarrow>
               plain_result [info ((if is_pinned then ''pinned'' else ''unpinned'') @ '' entry [ID: '' @ show_int rid @ ''].'')] db' fs
           | (Inr False, db') \<Rightarrow> plain_result [err (''record with ID '' @ show_int rid @ '' not found.'')] db' fs
           | (Inl e, db') \<Rightarrow> plain_result [ErrDb e] db' fs))"

definition pin_run :: "cli_env \<Rightarrow> string list \<Rightarrow> clipboard_db \<Rightarrow> fsys \<Rightarrow> cli_result" where
  "pin_run ce args db fs = set_pin_state ce args True ''pin'' db fs"

definition unpin_run :: "cli_env \<Rightarrow> string list \<Rightarrow> clipboard_db \<Rightarrow> fsys \<Rightarrow> cli_result" where
  "unpin_run ce args db fs = set_pin_state ce args False ''unpin'' db fs"

definition wipe_run :: "cli_env \<Rightarrow> string list \<Rightarrow> clipboard_db \<Rightarrow> fsys \<Rightarrow> cli_result" where
  "wipe_run ce args db fs =
     (let ctx = arg_parse args in
      if unknown_flags ctx \<noteq> [] \<or> a_raw ctx \<or> a_full ctx \<or> a_verbose ctx then plain_result [unsupported ''wipe''] db fs
      else if positionals ctx \<noteq> [] then plain_result [no_positionals ''wipe''] db fs
      else if \<not> a_force ctx then
        ([err ''refusing to wipe without confirmation.'', ErrLine ''usage: y4p wipe --force''], Some 1, db, fs)
      else
        (case db_wipe (cl_world ce) (cl_rm ce) (cl_mode ce) (cl_granted ce) db fs of
           (Inr _, db', fs') \<Rightarrow> plain_result [info ''storage purged and optimized (VACUUM completed).''] db' fs'
         | (Inl e, db', fs') \<Rightarrow> plain_result [ErrDb e] db' fs'))"

definition store_run :: "cli_env \<Rightarrow> string list \<Rightarrow> clipboard_db \<Rightarrow> fsys \<Rightarrow> cli_result" where
  "store_run ce args db fs =
     (let ctx = arg_parse args in
      if unknown_flags ctx \<noteq> [] \<or> a_raw ctx \<or> a_full ctx \<or> a_force ctx then plain_result [unsupported ''store''] db fs
      else if 1 < length (positionals ctx) then
        plain_result [err (''command '' @ quoted ''store'' @ '' accepts at most one MIME type argument.'')] db fs
      else
        (let mime = (case first_positional ctx of Some m \<Rightarrow> m | None \<Rightarrow> DEFAULT_MIME)
         in case cl_stdin ce of
              Inl _ \<Rightarrow> plain_result [err ''standard input stream read failure.''] db fs
            | Inr buffer \<Rightarrow>
                if buffer = [] then
                  plain_result (if a_verbose ctx then [info ''null payload detected; skipping storage.''] else []) db fs
                else
                  (case insert_raw (cl_world ce) (cl_env ce) mime buffer db fs of
                     (Inr rid, db', fs') \<Rightarrow>
                       if 0 \<le> rid then
                         plain_result
                           ((if a_verbose ctx then [OutLine (log_save mime (length buffer))] else []) @
                            (if cl_connect ce then [ToDaemon (restore_request rid)] else []) @
                            (if a_verbose ctx then [info ''system clipboard synchronized.''] else [])) db' fs'
                       else
                         plain_result (if a_verbose ctx then [info ''payload skipped by storage policy; not synchronized.''] else []) db' fs'
                   | (Inl e, db', fs') \<Rightarrow> plain_result [ErrDb e] db' fs')))"

section \<open>Talking to the daemon\<close>

text \<open>\<^verbatim>\<open>pause\<close> and \<^verbatim>\<open>resume\<close> refuse every option and argument with exit code 1.\<close>

definition daemon_request :: "cli_env \<Rightarrow> string list \<Rightarrow> string \<Rightarrow> bytes \<Rightarrow> string \<Rightarrow> cli_event list \<times> nat option" where
  "daemon_request ce args cmd request done_msg =
     (let ctx = arg_parse args in
      if unknown_flags ctx \<noteq> [] \<or> a_raw ctx \<or> a_full ctx \<or> a_force ctx \<or> a_verbose ctx \<or> a_use_id ctx then
        ([err (''command '' @ quoted cmd @ '' does not support options.'')], Some 1)
      else if positionals ctx \<noteq> [] then ([no_positionals cmd], Some 1)
      else if \<not> cl_connect ce \<or> \<not> cl_write ce then ([err ''daemon is not running.''], Some 1)
      else ([ToDaemon request, info done_msg], None))"

definition pause_run :: "cli_env \<Rightarrow> string list \<Rightarrow> clipboard_db \<Rightarrow> fsys \<Rightarrow> cli_result" where
  "pause_run ce args db fs =
     (case daemon_request ce args ''pause'' pause_request MSG_MONITOR_PAUSED of (evs, x) \<Rightarrow> (evs, x, db, fs))"

definition resume_run :: "cli_env \<Rightarrow> string list \<Rightarrow> clipboard_db \<Rightarrow> fsys \<Rightarrow> cli_result" where
  "resume_run ce args db fs =
     (case daemon_request ce args ''resume'' resume_request MSG_MONITOR_RESUMED of (evs, x) \<Rightarrow> (evs, x, db, fs))"

definition status_run :: "cli_env \<Rightarrow> string list \<Rightarrow> clipboard_db \<Rightarrow> fsys \<Rightarrow> cli_result" where
  "status_run ce args db fs =
     (let ctx = arg_parse args in
      if unknown_flags ctx \<noteq> [] \<or> a_raw ctx \<or> a_full ctx \<or> a_force ctx \<or> a_verbose ctx \<or> a_use_id ctx then
        plain_result [unsupported ''status''] db fs
      else if positionals ctx \<noteq> [] then plain_result [no_positionals ''status''] db fs
      else if \<not> cl_connect ce then ([err ''daemon is not running.''], Some 1, db, fs)
      else if \<not> cl_write ce then ([err ''failed to send status request.''], Some 1, db, fs)
      else
        (case cl_reply ce of
           Inr (c # response) \<Rightarrow> plain_result [ToDaemon status_request, OutBytes (c # response)] db fs
         | _ \<Rightarrow> ([ToDaemon status_request, err ''no response from daemon.''], Some 1, db, fs)))"

definition daemon_run :: "string list \<Rightarrow> cli_event list \<times> bool option" where
  "daemon_run args =
     (let ctx = arg_parse args in
      if unknown_flags ctx \<noteq> [] \<or> a_raw ctx \<or> a_full ctx \<or> a_force ctx then ([unsupported ''daemon''], None)
      else if positionals ctx \<noteq> [] then ([no_positionals ''daemon'', OutLine ''usage: y4p daemon [--verbose | -v]''], None)
      else
        (info MSG_DAEMON_START # (if a_verbose ctx then [info ''extended event logging is active.''] else []),
         Some (a_verbose ctx)))"

definition paste_from_run :: "string list \<Rightarrow> cli_event list \<times> string option" where
  "paste_from_run args =
     (let ctx = arg_parse args in
      if unknown_flags ctx \<noteq> [] \<or> a_raw ctx \<or> a_full ctx \<or> a_force ctx \<or> a_verbose ctx then
        ([err (''command '' @ quoted ''paste-from'' @ '' does not support options.'')], None)
      else if 1 < length (positionals ctx) then
        ([err (''command '' @ quoted ''paste-from'' @ '' accepts at most one MIME type argument.'')], None)
      else ([], Some (case first_positional ctx of Some m \<Rightarrow> m | None \<Rightarrow> DEFAULT_MIME)))"

section \<open>The dispatcher\<close>

text \<open>The help and version texts are constants the commands only print; they appear as what was asked for.\<close>

datatype cli_action = ActNone | RunDaemon bool | PasteFrom string

datatype cli_page = NoPage | HelpPage | VersionPage

definition cli_dispatch ::
    "cli_env \<Rightarrow> string list \<Rightarrow> clipboard_db \<Rightarrow> fsys \<Rightarrow> cli_page \<times> cli_action \<times> cli_result" where
  "cli_dispatch ce args db fs =
     (if length args < 2 \<or> has_flag args ''--help'' ''-h'' then (HelpPage, ActNone, plain_result [] db fs)
      else if has_flag args ''--version'' ''-V'' then (VersionPage, ActNone, plain_result [] db fs)
      else
        (let cmd = args ! 1;
             run = (\<lambda>r. (NoPage, ActNone, r)) in
         if is_option cmd then
           (NoPage, ActNone, [err (''invalid command format: '' @ quoted cmd), OutLine ''usage: y4p <command> [options]''], Some 1, db, fs)
         else if cmd = ''daemon'' then
           (case daemon_run args of
              (evs, v) \<Rightarrow> (NoPage, case v of Some verbose \<Rightarrow> RunDaemon verbose | None \<Rightarrow> ActNone, plain_result evs db fs))
         else if cmd = ''list'' then run (list_run ce args db fs)
         else if cmd = ''search'' then run (search_run ce args db fs)
         else if cmd = ''show'' then run (show_run ce args db fs)
         else if cmd = ''copy-to'' then run (copy_to_run ce args db fs)
         else if cmd = ''store'' then run (store_run ce args db fs)
         else if cmd = ''delete'' then run (delete_run ce args db fs)
         else if cmd = ''wipe'' then run (wipe_run ce args db fs)
         else if cmd = ''pin'' then run (pin_run ce args db fs)
         else if cmd = ''unpin'' then run (unpin_run ce args db fs)
         else if cmd = ''paste-from'' then
           (case paste_from_run args of
              (evs, m) \<Rightarrow> (NoPage, case m of Some mime \<Rightarrow> PasteFrom mime | None \<Rightarrow> ActNone, plain_result evs db fs))
         else if cmd = ''status'' then run (status_run ce args db fs)
         else if cmd = ''pause'' then run (pause_run ce args db fs)
         else if cmd = ''resume'' then run (resume_run ce args db fs)
         else if cmd = ''help'' then (HelpPage, ActNone, plain_result [] db fs)
         else if cmd = ''version'' then (VersionPage, ActNone, plain_result [] db fs)
         else
           (NoPage, ActNone, [err (''unknown command: '' @ quoted cmd), OutLine (''consult '' @ quoted ''y4p help'' @ '' for valid operations.'')],
            Some 1, db, fs)))"

text \<open>
  \<^verbatim>\<open>main\<close>, and its handler for an interrupt: a second one ends any process at once, the first one ends every process but the
  daemon, which leaves its loop by itself. \<open>started\<close> answers \<^verbatim>\<open>start_daemon\<close> and \<open>pasted\<close> \<^verbatim>\<open>paste_from_os\<close>.
\<close>

definition on_interrupt :: "bool \<Rightarrow> bool \<Rightarrow> nat option \<times> bool" where
  "on_interrupt is_daemon exiting =
     (if exiting then (Some 1, True) else if is_daemon then (None, True) else (Some 130, True))"

definition y4p_main ::
    "cli_env \<Rightarrow> bool \<Rightarrow> storage_error option \<Rightarrow> bool \<Rightarrow> (string \<Rightarrow> bytes) \<Rightarrow> io_error option \<Rightarrow> string list \<Rightarrow> clipboard_db \<Rightarrow> fsys \<Rightarrow>
     cli_page \<times> cli_result" where
  "y4p_main ce handler_ok open_err started pasted stdout_err args db fs =
     (if \<not> handler_ok then (NoPage, [err ''failed to set signal handler''], Some 1, db, fs)
      else
        (case open_err of
           Some e \<Rightarrow> (NoPage, [ErrDb e], Some 1, db, fs)
         | None \<Rightarrow>
             (case cli_dispatch ce args db fs of
                (page, act, evs, x, db', fs') \<Rightarrow>
                  if x \<noteq> None then (page, evs, x, db', fs')
                  else
                    (case act of
                       ActNone \<Rightarrow> (page, evs, x, db', fs')
                     | RunDaemon verbose \<Rightarrow>
                         (page, evs @ [err (if started then MSG_DAEMON_STOP else MSG_DAEMON_START_FAILED)], x, db', fs')
                     | PasteFrom mime \<Rightarrow>
                         (let raw = pasted mime in
                          if raw = [] then
                            (page, evs @ [err (''null or empty payload retrieved for MIME: '' @ mime)], Some 1, db', fs')
                          else if stdout_err \<noteq> None then
                            (page, evs @ [err ''standard output stream failure''], x, db', fs')
                          else (page, evs @ [OutBytes raw], x, db', fs'))))))"

section \<open>A printed index names the entry it is printed for\<close>

lemma enumerate_mem: "(i, m) \<in> set (enumerate_items items) \<longleftrightarrow> i < length items \<and> items ! i = m"
  by (auto simp: enumerate_items_def set_zip intro!: exI [of _ i])

lemma select_items_mem: "(i, m) \<in> set (select_items full sel items) \<Longrightarrow> i < length items \<and> items ! i = m"
  by (auto simp: select_items_def Let_def enumerate_mem split: if_splits range_selection.splits
      dest!: in_set_takeD in_set_dropD)

lemma resolve_index:
  assumes "int i \<le> i64_max"
  shows "resolve_target_id w env fs (show_nat i) False db =
    (let items = db_fetch_metadata w (get_max_history env fs) db
     in if i < length items then Inr (fst (items ! i)) else Inl (OutOfBounds (int i)))"
proof -
  have "parse_i64 (show_nat i) = Some (int i)"
    using parse_i64_show_int [of "int i"] assms by (simp add: show_int_def i64_min_def)
  then show ?thesis by (simp add: resolve_target_id_def Let_def)
qed

lemma search_position:
  assumes "ts_order (w_ord w)" and "w_fails w = (\<lambda>_. False)" and "distinct (map r_ts (clipboard (db_store db)))"
    and "(i, m) \<in> set (search_metadata like w queries limit db)"
  shows "i < length (clipboard (db_store db)) \<and> map meta_of (w_ord w (clipboard (db_store db))) ! i = m"
proof -
  obtain r where r: "r \<in> set (search_rows like (w_ord w) queries (db_store db))" "i = newer_count (db_store db) r" "m = meta_of r"
    using assms(2,4) by (auto simp: search_metadata_def store_search_metadata_def sql_limit_def dest: in_set_takeD split: if_splits)
  then have "r \<in> set (clipboard (db_store db))" using ts_order.ord_set [OF assms(1)] by (auto simp: search_rows_def)
  from ts_order.newer_count_position [OF assms(1,3) this] r ts_order.ord_length [OF assms(1)] show ?thesis by simp
qed

definition crowded_db :: clipboard_db where
  "crowded_db = fresh_db\<lparr> db_store := empty_store\<lparr> clipboard :=
     [\<lparr> r_id = 1, r_ts = 5, r_mime = ''text/plain'', r_size = 2, r_preview = Some ''hi'', r_content = CText ''hi'',
        r_hash = Some ''6869'', r_pinned = True, r_chunked = False \<rparr>,
      \<lparr> r_id = 2, r_ts = 9, r_mime = ''text/plain'', r_size = 2, r_preview = Some ''yo'', r_content = CText ''yo'',
        r_hash = Some ''796f'', r_pinned = False, r_chunked = False \<rparr>], last_seq := 2 \<rparr> \<rparr>"

lemma cap_of_one: "get_max_history [ENV_MAX_HISTORY \<mapsto> ''1''] empty_fs = 1"
proof -
  have "parse_i64 (trim ''1'') = Some 1" by code_simp
  then show ?thesis by (simp add: get_max_history_def)
qed

lemma crowded_order: "order_by_ts_desc (clipboard (db_store crowded_db)) = rev (clipboard (db_store crowded_db))"
  by (simp add: crowded_db_def order_by_ts_desc_def)

lemma crowded_hit: "map fst (search_metadata like_ci (calm_world (\<lambda>_. False) os_fine 10) [''hi''] 1 crowded_db) = [1]"
proof -
  have "search_rows like_ci order_by_ts_desc [''hi''] (db_store crowded_db) = [hd (clipboard (db_store crowded_db))]" by code_simp
  moreover have "newer_count (db_store crowded_db) (hd (clipboard (db_store crowded_db))) = 1" by code_simp
  ultimately show ?thesis
    by (simp add: search_metadata_def store_search_metadata_def calm_world_def sql_limit_def as_i64_def)
qed

lemma crowded_index:
  "resolve_target_id (calm_world (\<lambda>_. False) os_fine 10) [ENV_MAX_HISTORY \<mapsto> ''1''] empty_fs (show_nat 1) False crowded_db =
     Inl (OutOfBounds 1)"
  by (simp add: resolve_index i64_max_def Let_def cap_of_one db_fetch_metadata_def fetch_metadata_def calm_world_def sql_limit_def
      as_i64_def crowded_order)

text \<open>C21: The index printed in front of an entry is the one to use for it: whatever range was listed, giving a printed index
  to \<^verbatim>\<open>show\<close>, \<^verbatim>\<open>copy-to\<close>, \<^verbatim>\<open>delete\<close>, \<^verbatim>\<open>pin\<close> or \<^verbatim>\<open>unpin\<close> selects exactly that entry, and so does the index of a search hit that lies
  within the retention cap. Beyond the cap the promise breaks: pinned entries do not count against the
  cap, so a history can be longer than it, and the index printed for an old pinned hit is then refused as out of bounds.\<close>

theorem printed_index_selects:
  assumes "ts_order (w_ord w)" and "w_fails w = (\<lambda>_. False)" and "distinct (map r_ts (clipboard (db_store db)))"
    and "int (length (clipboard (db_store db))) \<le> i64_max"
  shows "(\<forall>(i, m) \<in> set (select_items full sel (db_fetch_metadata w (get_max_history env fs) db)).
       resolve_target_id w env fs (show_nat i) False db = Inr (fst m)) \<and>
    (\<forall>(i, m) \<in> set (search_metadata like w queries (get_max_history env fs) db).
       i < length (db_fetch_metadata w (get_max_history env fs) db) \<longrightarrow>
         resolve_target_id w env fs (show_nat i) False db = Inr (fst m)) \<and>
    (let cw = calm_world (\<lambda>_. False) os_fine 10; one = [ENV_MAX_HISTORY \<mapsto> ''1''] in
       map fst (search_metadata like_ci cw [''hi''] (get_max_history one empty_fs) crowded_db) = [1] \<and>
       resolve_target_id cw one empty_fs (show_nat 1) False crowded_db = Inl (OutOfBounds 1))"
proof (intro conjI)
  let ?items = "db_fetch_metadata w (get_max_history env fs) db"
  have items: "\<exists>n. ?items = take n (map meta_of (w_ord w (clipboard (db_store db))))"
    using assms(2) by (auto simp: db_fetch_metadata_def fetch_metadata_def sql_limit_def take_map intro: exI [of _ "length (w_ord w (clipboard (db_store db)))"])
  have len: "length ?items \<le> length (clipboard (db_store db))"
    using items ts_order.ord_length [OF assms(1)] by auto
  have index: "resolve_target_id w env fs (show_nat i) False db = Inr (fst (?items ! i))" if "i < length ?items" for i
    using that len assms(4) by (simp add: resolve_index Let_def)
  show "\<forall>(i, m) \<in> set (select_items full sel ?items). resolve_target_id w env fs (show_nat i) False db = Inr (fst m)"
    using select_items_mem index by fastforce
  show "\<forall>(i, m) \<in> set (search_metadata like w queries (get_max_history env fs) db).
      i < length ?items \<longrightarrow> resolve_target_id w env fs (show_nat i) False db = Inr (fst m)"
  proof (clarify)
    fix i m assume m: "(i, m) \<in> set (search_metadata like w queries (get_max_history env fs) db)" and i: "i < length ?items"
    have "?items ! i = m" using search_position [OF assms(1-3) m] items i by auto
    then show "resolve_target_id w env fs (show_nat i) False db = Inr (fst m)" using index [OF i] by simp
  qed
  show "let cw = calm_world (\<lambda>_. False) os_fine 10; one = [ENV_MAX_HISTORY \<mapsto> ''1''] in
       map fst (search_metadata like_ci cw [''hi''] (get_max_history one empty_fs) crowded_db) = [1] \<and>
       resolve_target_id cw one empty_fs (show_nat 1) False crowded_db = Inl (OutOfBounds 1)"
    unfolding Let_def cap_of_one using crowded_hit crowded_index by simp
qed

theorem printed_index_witness:
  "resolve_target_id (calm_world (\<lambda>_. False) os_fine 10) [ENV_MAX_HISTORY \<mapsto> ''1''] empty_fs (show_nat 0) False crowded_db = Inr 2"
proof -
  let ?w = "calm_world (\<lambda>_. False) os_fine 10"
  have items: "db_fetch_metadata ?w 1 crowded_db = [(2, 9, ''text/plain'', 2, Some ''yo'', False)]"
    by (simp add: db_fetch_metadata_def fetch_metadata_def calm_world_def sql_limit_def as_i64_def crowded_order)
      (simp add: crowded_db_def meta_of_def)
  have "ts_order (w_ord ?w)" using by_ts.ts_order_axioms by (simp add: calm_world_def)
  moreover have "w_fails ?w = (\<lambda>_. False)" by (simp add: calm_world_def)
  moreover have "distinct (map r_ts (clipboard (db_store crowded_db)))" "int (length (clipboard (db_store crowded_db))) \<le> i64_max"
    by (simp_all add: crowded_db_def i64_max_def)
  ultimately have all: "\<forall>(i, m) \<in> set (select_items True (Latest 25) (db_fetch_metadata ?w
      (get_max_history [ENV_MAX_HISTORY \<mapsto> ''1''] empty_fs) crowded_db)).
      resolve_target_id ?w [ENV_MAX_HISTORY \<mapsto> ''1''] empty_fs (show_nat i) False crowded_db = Inr (fst m)"
    by (rule printed_index_selects [THEN conjunct1])
  then show ?thesis unfolding cap_of_one items by (simp add: select_items_def enumerate_items_def Let_def)
qed

end
