(* ===== verification/StorageOps.thy ===== *)
theory StorageOps
  imports Storage
begin

text \<open>
  The writes of \<^verbatim>\<open>ClipboardDb\<close> (\<^verbatim>\<open>crates/storage/src/lib.rs\<close>) that do not insert: deleting, wiping, pinning and touching keep the tables and the
  file cache consistent.
\<close>

lemma storage_ok_rows:
  assumes ok: "storage_ok sha db fs" and s': "store_ok sha s'"
    and rows: "\<And>r. r \<in> set (clipboard s') \<Longrightarrow>
      \<exists>r0 \<in> set (clipboard (db_store db)). r_hash r = r_hash r0 \<and> r_size r = r_size r0 \<and> content_of s' r = content_of (db_store db) r0"
  shows "storage_ok sha (db\<lparr> db_store := s' \<rparr>) fs"
proof -
  have "cache_complete (db\<lparr> db_store := s' \<rparr>) fs"
    using ok rows unfolding cache_complete_def storage_ok_def by simp metis
  then show ?thesis using ok s' by (simp add: storage_ok_def)
qed

lemma touch_storage_ok:
  assumes "storage_ok sha db fs"
  shows "storage_ok sha (db\<lparr> db_store := snd (update_timestamp fails now rid (db_store db)) \<rparr>) fs"
proof (rule storage_ok_rows [OF assms])
  have "store_ok sha (db_store db)" using assms by (simp add: storage_ok_def)
  then show "store_ok sha (snd (update_timestamp fails now rid (db_store db)))"
    by (simp add: update_timestamp_def touch_row_ok)
  show "\<exists>r0 \<in> set (clipboard (db_store db)). r_hash r = r_hash r0 \<and> r_size r = r_size r0 \<and>
      content_of (snd (update_timestamp fails now rid (db_store db))) r = content_of (db_store db) r0"
    if "r \<in> set (clipboard (snd (update_timestamp fails now rid (db_store db))))" for r
    using that by (cases "fails StTouch") (auto simp: update_timestamp_def touch_row_def content_of_def)
qed

lemma pin_storage_ok:
  assumes "storage_ok sha db fs" and "set_pin_by_id w rid pin db = (res, db')"
  shows "storage_ok sha db' fs"
proof -
  let ?s = "snd (set_pinned (w_fails w) rid pin (db_store db))"
  have "db' = db\<lparr> db_store := ?s \<rparr>" using assms(2) by (auto simp: set_pin_by_id_def split: prod.splits sum.splits)
  moreover have "storage_ok sha (db\<lparr> db_store := ?s \<rparr>) fs"
  proof (rule storage_ok_rows [OF assms(1)])
    show "store_ok sha ?s" using assms(1) set_pinned_ok by (simp add: storage_ok_def)
    show "\<exists>r0 \<in> set (clipboard (db_store db)). r_hash r = r_hash r0 \<and> r_size r = r_size r0 \<and> content_of ?s r = content_of (db_store db) r0"
      if "r \<in> set (clipboard ?s)" for r
      using that by (cases "w_fails w StPin") (auto simp: set_pinned_def content_of_def)
  qed
  ultimately show ?thesis by simp
qed

lemma wipe_storage_ok:
  assumes ok: "storage_ok sha db fs" and run: "db_wipe w rm mode granted db fs = (res, db', fs')"
  shows "storage_ok sha db' fs'"
proof (cases "store_wipe (w_fails w) (db_store db)")
  case (Pair r s')
  have sok: "store_ok sha s'" using store_wipe_ok ok Pair by (metis snd_conv storage_ok_def)
  show ?thesis
  proof (cases r)
    case (Inl e)
    then have "s' = db_store db" using Pair by (auto simp: store_wipe_def split: if_splits)
    with Inl Pair run ok show ?thesis by (simp add: db_wipe_def)
  next
    case (Inr u)
    then have "clipboard s' = []" using Pair by (auto simp: store_wipe_def split: if_splits)
    moreover have "cache_sound (row_key sha) (db_cache db) (snd (cache_clear rm mode granted (db_cache db) fs))"
      using ok by (auto simp: storage_ok_def cache_sound_def cache_clear_def remove_tree_def fs_files_create
          split: option.splits if_splits)
    ultimately show ?thesis using Inr Pair run sok by (auto simp: db_wipe_def storage_ok_def cache_complete_def)
  qed
qed

text \<open>The cache file of a hash that no row has any more can go.\<close>

lemma storage_ok_remove:
  assumes ok: "storage_ok sha db fs" and hex: "hex_hash k"
    and other: "\<And>p. p \<in> set (clipboard (db_store db)) \<Longrightarrow> r_hash p \<noteq> Some k"
  shows "storage_ok sha db (cache_remove os (db_cache db) k fs)"
proof -
  have keep: "cache_read (db_cache db) j (cache_remove os (db_cache db) k fs) = cache_read (db_cache db) j fs"
    if "hex_hash j" "j \<noteq> k" for j
    using remove_many_other [of "[k]" j os "db_cache db" fs] that hex by (simp add: cache_read_def)
  have "cache_complete db (cache_remove os (db_cache db) k fs)"
    unfolding cache_complete_def
  proof (intro ballI conjI impI)
    fix p assume p: "p \<in> set (clipboard (db_store db))"
    show hp: "\<forall>h. r_hash p = Some h \<longrightarrow> hex_hash h" using ok p by (auto simp: storage_ok_def cache_complete_def)
    assume "content_of (db_store db) p = None"
    then obtain j d where "r_hash p = Some j" "cache_read (db_cache db) j fs = Some d" "int (length d) = r_size p"
      using ok p by (fastforce simp: storage_ok_def cache_complete_def)
    moreover then have "j \<noteq> k" "hex_hash j" using other [OF p] hp by auto
    ultimately show "\<exists>h d. r_hash p = Some h \<and> cache_read (db_cache db) h (cache_remove os (db_cache db) k fs) = Some d \<and>
        int (length d) = r_size p"
      using keep by auto
  qed
  moreover have "cache_sound (row_key sha) (db_cache db) (cache_remove os (db_cache db) k fs)"
    using ok cache_sound_unlink by (simp add: storage_ok_def cache_remove_def)
  ultimately show ?thesis using ok by (simp add: storage_ok_def)
qed

lemma delete_storage_ok:
  assumes ok: "storage_ok (w_sha w) db fs" and find: "\<not> w_fails w StFind"
    and run: "db_delete_by_id w rid db fs = (res, db', fs')"
  shows "storage_ok (w_sha w) db' fs'"
proof (cases "delete_by_id (w_fails w) rid (db_store db)")
  case (Pair r s')
  have sok: "store_ok (w_sha w) (db_store db)" using ok by (simp add: storage_ok_def)
  have sok': "store_ok (w_sha w) s'" using delete_by_id_ok [where fails = "w_fails w" and rid = rid, OF sok find] Pair by simp
  show ?thesis
  proof (cases r)
    case (Inl e)
    then have "s' = db_store db"
      using Pair by (auto simp: delete_by_id_def Let_def split: if_splits option.splits sum.splits prod.splits)
    with Inl Pair run ok show ?thesis by (simp add: db_delete_by_id_def)
  next
    case (Inr out)
    obtain deleted h where out: "out = (deleted, h)" by (cases out)
    note shape = delete_by_id_Inr [where fails = "w_fails w", OF sok find Pair [unfolded Inr out]]
    have mid: "storage_ok (w_sha w) (db\<lparr> db_store := s' \<rparr>) fs"
      by (rule storage_ok_rows [OF ok sok']) (use shape in auto)
    show ?thesis
    proof (cases h)
      case None
      with mid Inr out Pair run show ?thesis by (simp add: db_delete_by_id_def)
    next
      case (Some k)
      then obtain q where q: "get_row rid (db_store db) = Some q" "r_hash q = Some k"
        using shape(3) by (cases "get_row rid (db_store db)") auto
      have "distinct (map r_id (clipboard (db_store db)))" using sok by (simp add: store_ok_def rows_ok_def)
      then have qm: "q \<in> set (clipboard (db_store db))" "r_id q = rid" using get_row_Some_iff q(1) by auto
      have "r_hash p \<noteq> Some k" if "p \<in> set (clipboard s')" for p
        using unique_hash [of "db_store db" p q k] that shape(1) qm q(2) sok by (auto simp: store_ok_def)
      moreover have "hex_hash k" using ok qm q(2) by (auto simp: storage_ok_def cache_complete_def)
      ultimately show ?thesis
        using storage_ok_remove [OF mid, of k "w_os w"] Some Inr out Pair run by (auto simp: db_delete_by_id_def)
    qed
  qed
qed

end
