(* ===== verification/CliProps.thy ===== *)
theory CliProps
  imports Cli StorageOps
begin

text \<open>
  What running a command may do to the stored history: every command keeps tables and cache consistent, the commands that only
  show something change nothing, and a wipe needs its flag.
\<close>

text \<open>What the commands rely on: a row order, answers of \<^verbatim>\<open>write\<close>, and content of standard input that no stored chunk or cache file collides with.\<close>

definition cli_sound :: "cli_env \<Rightarrow> clipboard_db \<Rightarrow> fsys \<Rightarrow> bool" where
  "cli_sound ce db fs \<longleftrightarrow>
     ts_order (w_ord (cl_world ce)) \<and> \<not> w_fails (cl_world ce) StFind \<and> os_write (w_os (cl_world ce)) = WDone \<and>
     (\<forall>data. cl_stdin ce = Inr data \<longrightarrow>
        collision_free (w_sha (cl_world ce)) data (chunk_db (db_store db)) \<and>
        entry_free db (to_hex (w_sha (cl_world ce) data)) data fs)"

definition keeps :: "cli_env \<Rightarrow> cli_result \<Rightarrow> bool" where
  "keeps ce r = (case r of (evs, x, db, fs) \<Rightarrow> storage_ok (w_sha (cl_world ce)) db fs)"

definition unchanged :: "clipboard_db \<Rightarrow> fsys \<Rightarrow> cli_result \<Rightarrow> bool" where
  "unchanged db fs r = (case r of (evs, x, db', fs') \<Rightarrow> db' = db \<and> fs' = fs)"

lemma plain_unchanged [simp]: "unchanged db fs (plain_result evs db fs)"
  by (simp add: unchanged_def plain_result_def)

lemma exit_unchanged [simp]: "unchanged db fs (evs, x, db, fs)"
  by (simp add: unchanged_def)

lemma unchanged_keeps: "unchanged db fs r \<Longrightarrow> storage_ok (w_sha (cl_world ce)) db fs \<Longrightarrow> keeps ce r"
  by (auto simp: unchanged_def keeps_def)

lemma plain_keeps [simp]: "keeps ce (plain_result evs db fs) = storage_ok (w_sha (cl_world ce)) db fs"
  by (simp add: keeps_def plain_result_def)

lemma with_target_keeps:
  assumes "storage_ok (w_sha (cl_world ce)) db fs" and "\<And>rid. keeps ce (act rid)"
  shows "keeps ce (with_target ce ctx rejects cmd missing db fs act)"
  using assms by (auto simp: with_target_def split: option.splits sum.splits)

lemma with_target_unchanged:
  "(\<And>rid. unchanged db fs (act rid)) \<Longrightarrow> unchanged db fs (with_target ce ctx rejects cmd missing db fs act)"
  by (auto simp: with_target_def split: option.splits sum.splits)

section \<open>The commands that only read\<close>

lemma list_unchanged: "unchanged db fs (list_run ce args db fs)"
  by (auto simp: list_run_def Let_def split: sum.splits)

lemma search_unchanged: "unchanged db fs (search_run ce args db fs)"
  by (auto simp: search_run_def Let_def split: prod.splits)

lemma show_unchanged: "unchanged db fs (show_run ce args db fs)"
  unfolding show_run_def Let_def by (rule with_target_unchanged) (auto split: option.splits)

lemma request_unchanged:
  "unchanged db fs (pause_run ce args db fs)" "unchanged db fs (resume_run ce args db fs)" "unchanged db fs (status_run ce args db fs)"
  by (auto simp: pause_run_def resume_run_def status_run_def Let_def split: prod.splits sum.splits list.splits)

lemma wipe_needs_force: "\<not> a_force (arg_parse args) \<Longrightarrow> unchanged db fs (wipe_run ce args db fs)"
  by (simp add: wipe_run_def Let_def)

section \<open>The commands that write\<close>

lemma copy_to_keeps:
  assumes "storage_ok (w_sha (cl_world ce)) db fs"
  shows "keeps ce (copy_to_run ce args db fs)"
  unfolding copy_to_run_def Let_def
  by (rule with_target_keeps [OF assms]) (simp add: touch_storage_ok [OF assms])

lemma delete_keeps:
  assumes ok: "storage_ok (w_sha (cl_world ce)) db fs" and "\<not> w_fails (cl_world ce) StFind"
  shows "keeps ce (delete_run ce args db fs)"
  unfolding delete_run_def Let_def
proof (rule with_target_keeps [OF ok])
  fix rid
  obtain res db' fs' where run: "db_delete_by_id (cl_world ce) rid db fs = (res, db', fs')" by (metis prod_cases3)
  from delete_storage_ok [OF ok assms(2) run] run
  show "keeps ce (case db_delete_by_id (cl_world ce) rid db fs of
      (Inr True, db', fs') \<Rightarrow> plain_result [info (''removed entry [ID: '' @ show_int rid @ ''].'')] db' fs'
    | (Inr False, db', fs') \<Rightarrow> plain_result [err (''record with ID '' @ show_int rid @ '' not found.'')] db' fs'
    | (Inl e, db', fs') \<Rightarrow> plain_result [ErrDb e] db' fs')"
    by (auto split: sum.splits bool.splits)
qed

lemma set_pin_keeps:
  assumes ok: "storage_ok (w_sha (cl_world ce)) db fs"
  shows "keeps ce (set_pin_state ce args pin cmd db fs)"
  unfolding set_pin_state_def Let_def
proof (rule with_target_keeps [OF ok])
  fix rid
  obtain res db' where run: "set_pin_by_id (cl_world ce) rid pin db = (res, db')" by fastforce
  from pin_storage_ok [OF ok run] run
  show "keeps ce (case set_pin_by_id (cl_world ce) rid pin db of
      (Inr True, db') \<Rightarrow>
        plain_result [info ((if pin then ''pinned'' else ''unpinned'') @ '' entry [ID: '' @ show_int rid @ ''].'')] db' fs
    | (Inr False, db') \<Rightarrow> plain_result [err (''record with ID '' @ show_int rid @ '' not found.'')] db' fs
    | (Inl e, db') \<Rightarrow> plain_result [ErrDb e] db' fs)"
    by (auto split: sum.splits bool.splits)
qed

lemma wipe_keeps:
  assumes ok: "storage_ok (w_sha (cl_world ce)) db fs"
  shows "keeps ce (wipe_run ce args db fs)"
proof -
  obtain res db' fs' where run: "db_wipe (cl_world ce) (cl_rm ce) (cl_mode ce) (cl_granted ce) db fs = (res, db', fs')"
    by (metis prod_cases3)
  from wipe_storage_ok [OF ok run] run ok show ?thesis
    by (auto simp: wipe_run_def Let_def keeps_def plain_result_def split: sum.splits)
qed

lemma store_keeps:
  assumes ok: "storage_ok (w_sha (cl_world ce)) db fs" and sound: "cli_sound ce db fs"
  shows "keeps ce (store_run ce args db fs)"
proof -
  have ins: "storage_ok (w_sha (cl_world ce)) db' fs'"
    if "cl_stdin ce = Inr data" "insert_raw (cl_world ce) env mime data db fs = (r, db', fs')" for data env mime r db' fs'
    using insert_with_hash_ok [OF _ ok _ refl _ _ that(2) [unfolded insert_raw_def]] sound that(1) by (simp add: cli_sound_def)
  show ?thesis
    using ok ins unfolding store_run_def Let_def by (auto split: sum.splits prod.splits option.splits)
qed

section \<open>Every command\<close>

lemma dispatch_cases:
  assumes "\<And>evs x. P (evs, x, db, fs)" and "P (list_run ce args db fs)" and "P (search_run ce args db fs)" and "P (show_run ce args db fs)"
    and "P (status_run ce args db fs)" and "P (pause_run ce args db fs)" and "P (resume_run ce args db fs)"
    and "2 \<le> length args \<Longrightarrow> args ! 1 = ''copy-to'' \<Longrightarrow> P (copy_to_run ce args db fs)"
    and "2 \<le> length args \<Longrightarrow> args ! 1 = ''store'' \<Longrightarrow> P (store_run ce args db fs)"
    and "2 \<le> length args \<Longrightarrow> args ! 1 = ''delete'' \<Longrightarrow> P (delete_run ce args db fs)"
    and "2 \<le> length args \<Longrightarrow> args ! 1 = ''wipe'' \<Longrightarrow> P (wipe_run ce args db fs)"
    and "2 \<le> length args \<Longrightarrow> args ! 1 = ''pin'' \<Longrightarrow> P (pin_run ce args db fs)"
    and "2 \<le> length args \<Longrightarrow> args ! 1 = ''unpin'' \<Longrightarrow> P (unpin_run ce args db fs)"
  shows "P (snd (snd (cli_dispatch ce args db fs)))"
proof (cases "length args < 2")
  case True
  with assms(1) show ?thesis by (simp add: cli_dispatch_def plain_result_def)
next
  case False
  then have len: "2 \<le> length args" by simp
  have step: "P (snd (snd (if b then y else z)))" if "b \<Longrightarrow> P (snd (snd y))" "\<not> b \<Longrightarrow> P (snd (snd z))" for b and y z :: "cli_page \<times> cli_action \<times> cli_result"
    using that by simp
  have act: "P (snd (snd (case p of (evs, v) \<Rightarrow> (NoPage, a v, (evs, None, db, fs)))))" for p :: "cli_event list \<times> 'v" and a
    using assms(1) by (cases p) simp
  show ?thesis
    unfolding cli_dispatch_def Let_def plain_result_def
    by (intro step act; (simp only: snd_conv)?; (rule assms; (rule len | assumption)?))
qed

definition may_write :: "string list \<Rightarrow> bool" where
  "may_write args \<longleftrightarrow> 2 \<le> length args \<and> args ! 1 \<in> {''copy-to'', ''store'', ''delete'', ''wipe'', ''pin'', ''unpin''} \<and>
     (args ! 1 = ''wipe'' \<longrightarrow> a_force (arg_parse args))"

lemma dispatch_effect:
  assumes ok: "storage_ok (w_sha (cl_world ce)) db fs" and sound: "cli_sound ce db fs"
  shows "keeps ce (snd (snd (cli_dispatch ce args db fs))) \<and> (\<not> unchanged db fs (snd (snd (cli_dispatch ce args db fs))) \<longrightarrow> may_write args)"
proof -
  let ?P = "\<lambda>r. keeps ce r \<and> (\<not> unchanged db fs r \<longrightarrow> may_write args)"
  have find: "\<not> w_fails (cl_world ce) StFind" using sound by (simp add: cli_sound_def)
  have same: "unchanged db fs r \<Longrightarrow> ?P r" for r using unchanged_keeps ok by blast
  show ?thesis
  proof (rule dispatch_cases)
    show "?P (wipe_run ce args db fs)" if "2 \<le> length args" "args ! 1 = ''wipe''"
      using that wipe_keeps [OF ok] wipe_needs_force [of args] by (auto simp: may_write_def)
  qed (use same list_unchanged search_unchanged show_unchanged request_unchanged exit_unchanged copy_to_keeps [OF ok]
      store_keeps [OF ok sound] delete_keeps [OF ok find] set_pin_keeps [OF ok] in \<open>simp_all add: pin_run_def unpin_run_def may_write_def\<close>)
qed

lemma command_storage_ok:
  assumes "storage_ok (w_sha (cl_world ce)) db fs" and "cli_sound ce db fs"
    and "cli_dispatch ce args db fs = (page, act, evs, x, db', fs')"
  shows "storage_ok (w_sha (cl_world ce)) db' fs'"
  using dispatch_effect [OF assms(1,2), of args] assms(3) by (simp add: keeps_def)

text \<open>C17: Whatever the arguments, running a command keeps the history and the file cache consistent. Only \<^verbatim>\<open>copy-to\<close>, \<^verbatim>\<open>store\<close>,
  \<^verbatim>\<open>delete\<close>, \<^verbatim>\<open>wipe\<close>, \<^verbatim>\<open>pin\<close> and \<^verbatim>\<open>unpin\<close> may change anything at all, and a wipe without \<^verbatim>\<open>--force\<close> changes nothing; an unknown command,
  a misplaced option or a request for help leaves everything as it is.\<close>

theorem commands_keep_storage:
  assumes "storage_ok (w_sha (cl_world ce)) db fs" and "cli_sound ce db fs"
    and "cli_dispatch ce args db fs = (page, act, evs, x, db', fs')"
  shows "storage_ok (w_sha (cl_world ce)) db' fs' \<and>
    ((db', fs') \<noteq> (db, fs) \<longrightarrow>
       2 \<le> length args \<and> args ! 1 \<in> {''copy-to'', ''store'', ''delete'', ''wipe'', ''pin'', ''unpin''} \<and>
       (args ! 1 = ''wipe'' \<longrightarrow> a_force (arg_parse args)))"
  using command_storage_ok [OF assms] dispatch_effect [OF assms(1,2), of args] assms(3)
  by (simp add: unchanged_def may_write_def)

definition quiet_env :: cli_env where
  "quiet_env = \<lparr> cl_world = calm_world (\<lambda>_. False) os_fine 5, cl_env = Map.empty, cl_like = (\<lambda>_ _. False), cl_connect = False, cl_write = False,
     cl_reply = Inr [], cl_stdin = Inr ''hello'', cl_clock = 0, cl_width = (\<lambda>_. Some 1), cl_ellipsis = 3, cl_rm = None, cl_mode = 448, cl_granted = 1 \<rparr>"

lemma quiet_sound: "cli_sound quiet_env fresh_db empty_fs" "storage_ok (w_sha (cl_world quiet_env)) fresh_db empty_fs"
proof -
  show "cli_sound quiet_env fresh_db empty_fs"
    using by_ts.ts_order_axioms
    by (simp add: cli_sound_def quiet_env_def calm_world_def os_fine_def collision_free_def entry_free_def cache_read_def empty_fs_def)
  show "storage_ok (w_sha (cl_world quiet_env)) fresh_db empty_fs"
    using store_ok_empty by (simp add: storage_ok_def fresh_db_def cache_sound_def cache_complete_def empty_store_def empty_fs_def)
qed

theorem commands_keep_storage_witness:
  "case cli_dispatch quiet_env [''y4p'', ''store''] fresh_db empty_fs of
     (page, act, evs, x, db', fs') \<Rightarrow> storage_ok (w_sha (cl_world quiet_env)) db' fs'"
proof -
  obtain page act evs x db' fs' where run: "cli_dispatch quiet_env [''y4p'', ''store''] fresh_db empty_fs = (page, act, evs, x, db', fs')"
    by (metis prod_cases6)
  from commands_keep_storage [OF quiet_sound(2,1) run] run show ?thesis by simp
qed

end
