(* ===== verification/InFlight.thy ===== *)
theory InFlight
  imports EndToEnd CliProps
begin

text \<open>
  Spool files while the rest of the program runs. A payload too large for memory waits in a file \<^verbatim>\<open><pid>-<n>.part\<close> of the
  spool directory (\<^verbatim>\<open>crates/daemon/src/spool.rs\<close>); the worker and the commands work on the same file system. This theory
  shows that none of them touches a spool file that is not its own, and that the worker copes with one that a
  \<^verbatim>\<open>wipe\<close> has taken away.
\<close>

section \<open>Names\<close>

definition is_part :: "path \<Rightarrow> bool" where
  "is_part p \<longleftrightarrow> suffix ''.part'' p"

lemma is_part_append [simp]: "is_part (q @ ''.part'')"
  by (simp add: is_part_def suffix_def)

lemma is_part_exists: "is_part p \<longleftrightarrow> (\<exists>q. p = q @ ''.part'')"
  by (simp add: is_part_def suffix_def)

lemma cache_path_not_part: "is_part p \<Longrightarrow> cache_path c h \<noteq> p"
proof
  assume "is_part p" "cache_path c h = p"
  moreover have "last (cache_path c h) = CHR ''e''"
    by (simp add: cache_path_def path_push_def CACHE_FILE_EXTENSION_def)
  ultimately show False by (auto simp: is_part_exists)
qed

lemma part_spool_apart: "is_part p \<Longrightarrow> spool_apart db p"
  by (auto simp: is_part_exists intro: part_apart)

lemma storage_ok_part:
  assumes "storage_ok sha db fs" and "\<And>p. \<not> is_part p \<Longrightarrow> fs_files fs' p = fs_files fs p"
  shows "storage_ok sha db fs'"
  by (rule storage_ok_fs_cong [OF assms(1)]) (use assms(2) cache_path_not_part in \<open>auto simp: cache_read_def\<close>)

section \<open>Storing leaves other spool files alone\<close>

lemma remove_many_part: "is_part p \<Longrightarrow> fs_files (remove_many os c hs fs) p = fs_files fs p"
  by (induction os c hs fs rule: remove_many.induct) (auto simp: cache_remove_def fs_unlink_def dest: cache_path_not_part)

lemma cache_remove_part: "is_part p \<Longrightarrow> fs_files (cache_remove os c h fs) p = fs_files fs p"
  using remove_many_part [of p os c "[h]" fs] by simp

lemma cache_store_part: "is_part p \<Longrightarrow> fs_files (snd (cache_store os c h d fs)) p = fs_files fs p"
  by (auto simp: cache_store_def fs_write_def Let_def split: write_answer.splits dest: cache_path_not_part)

lemma adopt_part: "is_part p \<Longrightarrow> p \<noteq> src \<Longrightarrow> fs_files (snd (adopt os c h src fs)) p = fs_files fs p"
  by (auto simp: adopt_def Let_def fs_write_def fs_unlink_def dest: cache_path_not_part split: option.splits write_answer.splits)

lemmas part_frames = remove_many_part cache_remove_part cache_store_part

lemma insert_with_hash_part:
  "is_part p \<Longrightarrow> insert_with_hash w mime d h n db fs = (r, db', fs') \<Longrightarrow> fs_files fs' p = fs_files fs p"
  by (auto simp: insert_with_hash_def Let_def part_frames split: sum.splits prod.splits if_splits)

lemma drop_other: "p \<noteq> sp_path sp \<Longrightarrow> fs_files (spooled_drop sp fs) p = fs_files fs p"
  by (simp add: spooled_drop_def)

lemma insert_spooled_part:
  assumes p: "is_part p" "p \<noteq> sp_path sp" and ins: "insert_spooled w mime sp n db fs = (r, db', fs')"
  shows "fs_files fs' p = fs_files fs p"
proof -
  have ad: "fs_files f p = fs_files fs p" if "adopt (w_os w) c (hex_digest sp) (sp_path sp) fs = (a, f)" for a f c
    using adopt_part [OF p, of "w_os w" c "hex_digest sp" fs] that by simp
  show ?thesis
    using ins
    by (auto simp: insert_spooled_def Let_def drop_other [OF p(2)] part_frames [OF p(1)] insert_with_hash_part [OF p(1)]
        split: if_splits sum.splits prod.splits adoption.splits dest!: ad)
qed

text \<open>A conversion writes one new spool file and removes the one it was made of.\<close>

lemma convert_part:
  assumes conv: "convert_if_wanted je mime sp st fs = ((mime', sp'), st', fs')"
    and rec: "spool_record (w_sha (je_world je)) sp d fs" and p: "is_part p" "p \<noteq> sp_path sp" "p \<noteq> sp_path sp'"
  shows "fs_files fs' p = fs_files fs p"
  using convert_spec(3) [OF conv rec] p by auto

lemma store_spooled_part:
  assumes run: "store_spooled je mime sp n st fs = (r, st', fs')" and rec: "spool_record (w_sha (je_world je)) sp d fs"
    and part: "is_part (sp_path sp)" and rm: "\<And>p. os_unlink (w_os (je_world je)) p" and p: "is_part p" "p \<noteq> sp_path sp"
  shows "fs_files fs' p = fs_files fs p"
proof -
  obtain q where q: "sp_path sp = q @ ''.part''" using part by (auto simp: is_part_exists)
  obtain m1 sp1 st1 fs1 where conv: "convert_if_wanted je mime sp st fs = ((m1, sp1), st1, fs1)" by (metis prod.exhaust)
  obtain a db fs2 where ins: "insert_spooled (je_world je) m1 sp1 n (wk_db st1) fs1 = (a, db, fs2)" by (metis prod_cases3)
  have fs': "fs' = fs2" using run conv ins by (simp add: store_spooled_def)
  show ?thesis
  proof (cases "p = sp_path sp1")
    case True
    have new: "fs_files fs p = None" using convert_spec(3) [OF conv rec] p True by auto
    obtain d1 where d1: "spool_record (w_sha (je_world je)) sp1 d1 fs1" by (rule converted_spool [OF conv rec q])
    then have "sp_owned sp1" "hex_hash (hex_digest sp1)" by (simp_all add: spool_record_def hex_digest_def)
    from insert_spooled_source_gone [OF this(1) _ this(2) rm ins] p(1) True fs' new show ?thesis
      by (simp add: part_spool_apart)
  next
    case False
    with insert_spooled_part [OF p(1) False ins] convert_part [OF conv rec p False] fs' show ?thesis by simp
  qed
qed

section \<open>A spool file that is gone\<close>

text \<open>What the record of a spool file says, whether or not the file is still there.\<close>

definition spool_says :: "(bytes \<Rightarrow> bytes) \<Rightarrow> spooled_file \<Rightarrow> bytes \<Rightarrow> bool" where
  "spool_says sha sp d \<longleftrightarrow> sp_owned sp \<and> sp_len sp = length d \<and> sp_digest sp = sha d"

lemma spool_record_says: "spool_record sha sp d fs \<longleftrightarrow> spool_says sha sp d \<and> fs_files fs (sp_path sp) = Some d"
  by (auto simp: spool_record_def spool_says_def)

lemma convert_missing:
  assumes conv: "convert_if_wanted je mime sp st fs = ((mime', sp'), st', fs')" and gone: "fs_files fs (sp_path sp) = None"
  shows "mime' = mime" "sp' = sp" "fs' = fs" "wk_db st' = wk_db st"
proof -
  let ?conv = "\<lambda>job. transcode_spooled (je_conv je) (w_sha (je_world je)) sp job MAX_PAYLOAD_BYTES"
  have fail: "?conv job fs = (Inl (ESource NotFound), fs)" for job using gone by (simp add: transcode_spooled_def file_open_def)
  obtain r g cv fs1 where route: "route_file_for_ingest (je_probe je) (je_others je) (je_before je) (je_after je) ?conv
      mime (read_head (sp_path sp) fs) (wk_guards st) (wk_conv st, fs) = (r, g, cv, fs1)" by (metis prod_cases4)
  from route_file_cases [OF route] have "r = Original \<and> fs1 = fs"
    by (cases r) (auto simp: fail)
  with conv route show "mime' = mime" "sp' = sp" "fs' = fs" "wk_db st' = wk_db st"
    by (auto simp: convert_if_wanted_def Let_def)
qed

lemma insert_missing_ok:
  assumes ord: "ts_order (w_ord w)" and ok: "storage_ok (w_sha w) db fs" and says: "spool_says (w_sha w) sp d"
    and gone: "fs_files fs (sp_path sp) = None" and free: "entry_free db (hex_digest sp) d fs" and part: "is_part (sp_path sp)"
    and ins: "insert_spooled w mime sp n db fs = (r, db', fs')"
  shows "storage_ok (w_sha w) db' fs'"
proof -
  let ?hash = "hex_digest sp"
  have hash: "?hash = to_hex (w_sha w d)" "hex_hash ?hash" and len: "sp_len sp = length d"
    using says by (simp_all add: spool_says_def hex_digest_def)
  have drop: "storage_ok (w_sha w) db (spooled_drop sp fs)" by (rule storage_ok_drop [OF ok part_spool_apart [OF part]])
  have idem: "fs_files (spooled_drop sp fs) = fs_files fs" using gone by (simp add: spooled_drop_def fun_upd_idem)
  have noread: "\<exists>e. read_spooled sp fs = Inl e" using gone by (simp add: read_spooled_def file_open_def Let_def)
  show ?thesis
  proof (cases "is_skipped mime (sp_len sp) \<or> \<not> is_detachable mime")
    case True
    with ins drop noread show ?thesis by (auto simp: insert_spooled_def Let_def split: if_splits)
  next
    case detach: False
    show ?thesis
    proof (cases "fs_files fs (cache_path (db_cache db) ?hash)")
      case None
      then have ad: "adopt (w_os w) (db_cache db) ?hash (sp_path sp) fs = (Inl NotFound, fs_unlink (os_unlink (w_os w)) (cache_path (db_cache db) ?hash) fs)"
        using gone free by (simp add: adopt_def entry_free_def path_exists_def)
      have "storage_ok (w_sha w) db (fs_unlink (os_unlink (w_os w)) (cache_path (db_cache db) ?hash) fs)"
        by (rule storage_ok_fs_cong [OF ok]) (use None in \<open>auto simp: fs_unlink_def cache_read_def\<close>)
      with storage_ok_drop [OF this part_spool_apart [OF part]] detach ad ins show ?thesis by (auto simp: insert_spooled_def Let_def)
    next
      case (Some x)
      have x: "x = d" using free Some by (simp add: entry_free_def cache_read_def)
      obtain u s' where up: "upsert (w_sha w) (w_ord w) (w_fails w) (w_now w) mime (Detached (sp_len sp)) ?hash n (db_store db) = (u, s')"
        by fastforce
      have "storage_ok (w_sha w) (db\<lparr> db_store := s' \<rparr>) (remove_many (w_os w) (db_cache db) (expired_hashes out) (spooled_drop sp fs))"
        if "u = Inr out" for out
        by (rule adopted_row_ok [OF ord ok hash(2,1) len _ _ _ up [unfolded that]])
          (use Some x idem free in \<open>simp_all add: cache_read_def entry_free_def\<close>)
      moreover have "s' = db_store db" if "u = Inl e" for e using upsert_Inl up that by blast
      ultimately show ?thesis
        using detach Some ins up drop
        by (cases u) (auto simp: insert_spooled_def adopt_def path_exists_def upsert_detached_def Let_def)
    qed
  qed
qed

section \<open>A job of the queue\<close>

text \<open>
  A spooled payload of the queue: its record describes something that was received (\<open>seen\<close>), and its file holds exactly that
  or is gone.
\<close>

definition payload_sound :: "(bytes \<Rightarrow> bytes) \<Rightarrow> bytes set \<Rightarrow> payload \<Rightarrow> fsys \<Rightarrow> bool" where
  "payload_sound sha seen p fs \<longleftrightarrow>
     (case p of
        Spooled sp \<Rightarrow> is_part (sp_path sp) \<and>
          (\<exists>d \<in> seen. spool_says sha sp d \<and> (fs_files fs (sp_path sp) = None \<or> fs_files fs (sp_path sp) = Some d))
      | _ \<Rightarrow> True)"

definition path_mset :: "payload \<Rightarrow> path multiset" where
  "path_mset p = (case p of Spooled sp \<Rightarrow> {#sp_path sp#} | _ \<Rightarrow> {#})"

text \<open>
  What the worker relies on: an order of rows, the file operations that must not fail half way, and content that no stored
  chunk or cache file collides with.
\<close>

definition work_sound :: "job_env \<Rightarrow> bytes set \<Rightarrow> clipboard_job \<Rightarrow> worker_state \<Rightarrow> fsys \<Rightarrow> bool" where
  "work_sound je seen job st fs \<longleftrightarrow>
     ts_order (w_ord (je_world je)) \<and> os_write (w_os (je_world je)) = WDone \<and> (\<forall>p. os_unlink (w_os (je_world je)) p) \<and>
     (\<forall>m d. to_store je job st fs = Some (m, d) \<longrightarrow> fits (w_sha (je_world je)) (wk_db st) fs d) \<and>
     (\<forall>sp. \<forall>d \<in> seen. job_payload job = Spooled sp \<and> spool_says (w_sha (je_world je)) sp d \<longrightarrow>
        fits (w_sha (je_world je)) (wk_db st) fs d)"

lemma store_materialised_part:
  assumes p: "\<And>sp. pl \<noteq> Spooled sp" and run: "store_materialised je (from_payload mime pl) n st fs = (r, st', fs')"
    and part: "is_part q"
  shows "fs_files fs' q = fs_files fs q"
  using run materialise_spec [OF p, of "je_stat je" mime fs] insert_with_hash_part [OF part]
  by (auto simp: store_materialised_def split: sum.splits option.splits prod.splits if_splits)

lemma store_missing:
  assumes run: "store_spooled je mime sp n st fs = (r, st', fs')" and gone: "fs_files fs (sp_path sp) = None"
    and part: "is_part (sp_path sp)" and ord: "ts_order (w_ord (je_world je))" and ok: "storage_ok (w_sha (je_world je)) (wk_db st) fs"
    and says: "spool_says (w_sha (je_world je)) sp d" and fit: "fits (w_sha (je_world je)) (wk_db st) fs d"
    and rm: "\<And>p. os_unlink (w_os (je_world je)) p"
  shows "storage_ok (w_sha (je_world je)) (wk_db st') fs'" "fs_files fs' (sp_path sp) = None"
    "is_part p \<Longrightarrow> p \<noteq> sp_path sp \<Longrightarrow> fs_files fs' p = fs_files fs p"
proof -
  obtain m1 sp1 st1 fs1 where conv: "convert_if_wanted je mime sp st fs = ((m1, sp1), st1, fs1)" by (metis prod.exhaust)
  note same = convert_missing [OF conv gone]
  obtain a db fs2 where ins: "insert_spooled (je_world je) mime sp n (wk_db st) fs = (a, db, fs2)" by (metis prod_cases3)
  have res: "fs' = fs2" "wk_db st' = db" using run conv same ins by (auto simp: store_spooled_def)
  have "sp_owned sp" "hex_hash (hex_digest sp)" "hex_digest sp = to_hex (w_sha (je_world je) d)"
    using says by (simp_all add: spool_says_def hex_digest_def)
  then show "fs_files fs' (sp_path sp) = None" "storage_ok (w_sha (je_world je)) (wk_db st') fs'"
    using insert_spooled_source_gone [OF _ part_spool_apart [OF part] _ rm ins] insert_missing_ok [OF ord ok says gone _ part ins] fit
    by (auto simp: res fits_def)
  show "is_part p \<Longrightarrow> p \<noteq> sp_path sp \<Longrightarrow> fs_files fs' p = fs_files fs p" using insert_spooled_part ins res by blast
qed

lemma store_job_sound:
  assumes ok: "storage_ok (w_sha (je_world je)) (wk_db st) fs" and job: "payload_sound (w_sha (je_world je)) seen (job_payload job) fs"
    and sound: "work_sound je seen job st fs" and run: "store_job je job n st fs = (r, st', fs')"
  shows "storage_ok (w_sha (je_world je)) (wk_db st') fs'" "\<forall>p \<in> set_mset (path_mset (job_payload job)). fs_files fs' p = None"
    "is_part p \<Longrightarrow> p \<notin> set_mset (path_mset (job_payload job)) \<Longrightarrow> fs_files fs' p = fs_files fs p"
proof -
  have ord: "ts_order (w_ord (je_world je))" and wr: "os_write (w_os (je_world je)) = WDone" and rm: "\<And>p. os_unlink (w_os (je_world je)) p"
    and fit: "\<And>m d. to_store je job st fs = Some (m, d) \<Longrightarrow> fits (w_sha (je_world je)) (wk_db st) fs d"
    using sound by (auto simp: work_sound_def)
  have "storage_ok (w_sha (je_world je)) (wk_db st') fs' \<and> (\<forall>p \<in> set_mset (path_mset (job_payload job)). fs_files fs' p = None) \<and>
    (\<forall>p. is_part p \<longrightarrow> p \<notin> set_mset (path_mset (job_payload job)) \<longrightarrow> fs_files fs' p = fs_files fs p)"
  proof (cases "\<exists>sp. job_payload job = Spooled sp")
    case False
    then have p: "\<And>sp. job_payload job \<noteq> Spooled sp" by blast
    then have wf: "job_wf (w_sha (je_world je)) job fs" by (auto simp: job_wf_def split: payload.splits)
    have "store_materialised je (from_payload (job_mime job) (job_payload job)) n st fs = (r, st', fs')"
      using run p by (auto simp: store_job_def split: payload.splits)
    then have same: "is_part q \<Longrightarrow> fs_files fs' q = fs_files fs q" for q by (rule store_materialised_part [OF p])
    have "path_mset (job_payload job) = {#}" using p by (simp add: path_mset_def split: payload.splits)
    moreover have "storage_ok (w_sha (je_world je)) (wk_db st') fs'" using store_job_ok [OF ord ok wf _ wr rm run] fit by blast
    ultimately show ?thesis using same by simp
  next
    case True
    then obtain sp where sp: "job_payload job = Spooled sp" by blast
    then obtain d where d: "is_part (sp_path sp)" "d \<in> seen" "spool_says (w_sha (je_world je)) sp d"
        "fs_files fs (sp_path sp) = None \<or> fs_files fs (sp_path sp) = Some d"
      using job by (auto simp: payload_sound_def)
    have run': "store_spooled je (job_mime job) sp n st fs = (r, st', fs')" using run sp by (simp add: store_job_def)
    have fits: "fits (w_sha (je_world je)) (wk_db st) fs d" using sound sp d(2,3) by (auto simp: work_sound_def)
    from d(4) show ?thesis
    proof
      assume "fs_files fs (sp_path sp) = None"
      from store_missing [OF run' this d(1) ord ok d(3) fits rm] sp show ?thesis by (auto simp: path_mset_def)
    next
      assume held: "fs_files fs (sp_path sp) = Some d"
      then have rec: "spool_record (w_sha (je_world je)) sp d fs" using d(3) by (simp add: spool_record_says)
      then have wf: "job_wf (w_sha (je_world je)) job fs" using sp d(1) by (auto simp: job_wf_def is_part_exists)
      have "storage_ok (w_sha (je_world je)) (wk_db st') fs' \<and> (\<forall>sp. job_payload job = Spooled sp \<longrightarrow> fs_files fs' (sp_path sp) = None)"
        using store_job_ok [OF ord ok wf _ wr rm run] fit by blast
      with store_spooled_part [OF run' rec d(1) rm] sp show ?thesis
        by (auto simp: path_mset_def)
    qed
  qed
  then show "storage_ok (w_sha (je_world je)) (wk_db st') fs'" "\<forall>p \<in> set_mset (path_mset (job_payload job)). fs_files fs' p = None"
    "is_part p \<Longrightarrow> p \<notin> set_mset (path_mset (job_payload job)) \<Longrightarrow> fs_files fs' p = fs_files fs p" by blast+
qed

section \<open>Commands\<close>

text \<open>A command at most removes spool files, and only a \<^verbatim>\<open>wipe\<close> does.\<close>

definition spools_kept :: "fsys \<Rightarrow> fsys \<Rightarrow> bool" where
  "spools_kept fs fs' \<longleftrightarrow> (\<forall>p. is_part p \<longrightarrow> fs_files fs' p = fs_files fs p \<or> fs_files fs' p = None)"

definition result_fs :: "cli_result \<Rightarrow> fsys" where
  "result_fs r = snd (snd (snd r))"

lemma result_fs_simps [simp]: "result_fs (plain_result evs db fs) = fs" "result_fs (evs, x, db, fs) = fs"
  by (simp_all add: result_fs_def plain_result_def)

lemma spools_kept_refl [simp]: "spools_kept fs fs"
  by (simp add: spools_kept_def)

lemma unchanged_spools: "unchanged db fs r \<Longrightarrow> spools_kept fs (result_fs r)"
  by (auto simp: unchanged_def result_fs_def split: prod.splits)

lemma with_target_spools:
  "(\<And>rid. spools_kept fs (result_fs (act rid))) \<Longrightarrow> spools_kept fs (result_fs (with_target ce ctx rejects cmd missing db fs act))"
  by (auto simp: with_target_def split: option.splits sum.splits)

lemma insert_raw_spools: "insert_raw w env mime d db fs = (r, db', fs') \<Longrightarrow> spools_kept fs fs'"
  by (auto simp: insert_raw_def spools_kept_def dest: insert_with_hash_part)

lemma delete_spools: "db_delete_by_id w rid db fs = (r, db', fs') \<Longrightarrow> spools_kept fs fs'"
  by (auto simp: db_delete_by_id_def spools_kept_def part_frames split: prod.splits sum.splits option.splits)

lemma wipe_spools: "db_wipe w rm mode granted db fs = (r, db', fs') \<Longrightarrow> spools_kept fs fs'"
  by (auto simp: db_wipe_def spools_kept_def cache_clear_def remove_tree_def frame_simps
      split: prod.splits sum.splits option.splits if_splits)

lemma command_spools:
  assumes "cli_dispatch ce args db fs = (page, act, evs, x, db', fs')"
  shows "spools_kept fs fs'"
proof -
  have "spools_kept fs (result_fs (snd (snd (cli_dispatch ce args db fs))))"
  proof (rule dispatch_cases)
    show "spools_kept fs (result_fs (store_run ce args db fs))"
      by (auto simp: store_run_def Let_def split: sum.splits prod.splits option.splits dest: insert_raw_spools)
    show "spools_kept fs (result_fs (delete_run ce args db fs))" unfolding delete_run_def Let_def
      by (rule with_target_spools) (auto split: sum.splits prod.splits bool.splits dest: delete_spools)
    show "spools_kept fs (result_fs (wipe_run ce args db fs))"
      by (auto simp: wipe_run_def Let_def split: sum.splits prod.splits dest: wipe_spools)
    show "spools_kept fs (result_fs (copy_to_run ce args db fs))"
      unfolding copy_to_run_def Let_def by (rule with_target_spools) simp
    have "spools_kept fs (result_fs (set_pin_state ce args pin cmd db fs))" for pin cmd unfolding set_pin_state_def Let_def
      by (rule with_target_spools) (auto split: sum.splits prod.splits bool.splits)
    then show "spools_kept fs (result_fs (pin_run ce args db fs))" "spools_kept fs (result_fs (unpin_run ce args db fs))"
      by (simp_all add: pin_run_def unpin_run_def)
  qed (auto intro!: unchanged_spools [where db = db] list_unchanged search_unchanged show_unchanged request_unchanged)
  then show ?thesis using assms by simp
qed

lemma payload_sound_kept: "payload_sound sha seen p fs \<Longrightarrow> spools_kept fs fs' \<Longrightarrow> payload_sound sha seen p fs'"
  by (fastforce simp: payload_sound_def spools_kept_def split: payload.splits)

section \<open>Draining a pipe\<close>

definition spool_name :: "nat \<Rightarrow> path \<Rightarrow> nat \<Rightarrow> path" where
  "spool_name pid dir k = fst (fresh_path pid \<lparr> fsp_dir = dir, fsp_next = k \<rparr>)"

lemma fresh_path_name: "fst (fresh_path pid sp) = spool_name pid (fsp_dir sp) (fsp_next sp)"
  by (simp add: spool_name_def fresh_path_def)

lemma show_nat_inj: "show_nat a = show_nat b \<Longrightarrow> a = b"
  using parse_digits_show_nat by (metis option.inject)

lemma spool_name_inj: "spool_name pid dir a = spool_name pid dir b \<Longrightarrow> a = b"
proof -
  have "hd (show_nat pid @ x) \<noteq> CHR ''/''" for x
    using show_nat_digits [of "hd (show_nat pid)" pid] by (auto simp: is_digit_def byte_val_def)
  then show "spool_name pid dir a = spool_name pid dir b \<Longrightarrow> a = b"
    by (auto simp: spool_name_def fresh_path_def path_push_def split: if_splits intro: show_nat_inj)
qed

lemma spool_name_part [simp]: "is_part (spool_name pid dir k)"
  by (simp add: spool_name_def fresh_path_def path_push_def SPOOL_FILE_EXTENSION_def is_part_exists)

text \<open>What draining a pipe leaves: nothing, a payload in memory, or one new spool file under the next name.\<close>

lemma drained:
  assumes run: "ingest_job pd r mime (map_option (spool os sha pid) sp) fs = (res, fs')"
  shows "case res of
      None \<Rightarrow> fs_files fs' = fs_files fs
    | Some job \<Rightarrow> job_permit job = None \<and>
        (case job_payload job of
           Memory d \<Rightarrow> fs_files fs' = fs_files fs
         | Spooled f \<Rightarrow> (\<exists>s. sp = Some s \<and> sp_path f = spool_name pid (fsp_dir s) (fsp_next s)) \<and>
             spool_says sha f (stream_bytes r) \<and> fs_files fs (sp_path f) = None \<and>
             fs_files fs' = (fs_files fs)(sp_path f \<mapsto> stream_bytes r)
         | _ \<Rightarrow> False)"
proof (cases sp)
  case None
  with run show ?thesis
    by (auto simp: ingest_job_def drain_pipe_def job_new_def split: option.splits prod.splits)
next
  case (Some s)
  have job: "job_permit job = None" if "res = Some job" for job
    using run that by (auto simp: ingest_job_def job_new_def from_payload_def split: prod.splits option.splits drained.splits)
  have name: "sp_path f = spool_name pid (fsp_dir s) (fsp_next s)" if "res = Some job" "job_payload job = Spooled f" for job f
  proof -
    have "sp_path f = fst (fresh_path pid s)" if "spool os sha pid s head src limit fs = (SpoolDone f, fs')" for head src limit
      using that by (auto simp: spool_def spool_with_def Let_def spooled_new_def split: prod.splits sum.splits if_splits option.splits)
    with run that Some show ?thesis
      by (auto simp: ingest_job_def drain_pipe_def job_new_def from_payload_def ok_drained_def fresh_path_name
          split: prod.splits sum.splits option.splits if_splits drained.splits spool_outcome.splits)
  qed
  show ?thesis
  proof (cases res)
    case None
    with fsp.ingest_nothing run Some show ?thesis by auto
  next
    case (Some job)
    with fsp.ingest_faithful [of pd r mime os sha pid s fs job fs'] run \<open>sp = Some s\<close> name job show ?thesis
      by (auto simp: spooled_as_def spool_says_def split: payload.splits if_splits)
  qed
qed

end
