(* ===== verification/System.thy ===== *)
theory System
  imports InFlight
begin

text \<open>
  The running program as one transition system: the event loop of the daemon (\<^verbatim>\<open>crates/daemon/src/lib.rs\<close>), the reader threads it starts
  (\<^verbatim>\<open>device.rs\<close>, \<^verbatim>\<open>ingest.rs\<close>), the worker (\<^verbatim>\<open>worker.rs\<close>) and any number of commands run beside it (\<^verbatim>\<open>crates/cli\<close>), in any
  order, on the same database and the same files. A step of a reader thread is draining its pipe or one poll of the queue;
  a turn of the worker, a turn of the event loop and a command are one step each. The spool file of a payload in flight lies
  below the cache directory, so a \<^verbatim>\<open>wipe\<close> may take it away.
\<close>

section \<open>State\<close>

text \<open>A reader thread drains its pipe, or offers its job for the \<open>k\<close>-th time.\<close>

datatype reader_thread = Draining string | Offering clipboard_job nat

text \<open>
  The metrics are shared; they are kept in the daemon. \<open>sy_seen\<close> is what the readers have received so far, which no operation reads.
\<close>

record system =
  sy_dm :: daemon
  sy_worker :: worker_state
  sy_queue :: queue_world
  sy_spooler :: "file_spooler option"
  sy_readers :: "reader_thread list"
  sy_serving :: bool
  sy_seen :: "bytes set"

record thread_env =
  te_reader :: reader
  te_os :: spool_os
  te_elapsed :: nat

section \<open>Steps of a reader thread\<close>

text \<open>Whether \<^verbatim>\<open>drain_pipe\<close> reaches the spooler, which then uses up a name.\<close>

definition spool_called :: "reader \<Rightarrow> string \<Rightarrow> bool" where
  "spool_called r mime \<longleftrightarrow> route_payload mime None = RouteStream \<and>
     (case take_read_rest INLINE_PAYLOAD_THRESHOLD_BYTES r of
        (Inr head, _) \<Rightarrow> INLINE_PAYLOAD_THRESHOLD_BYTES \<le> length head
      | _ \<Rightarrow> False)"

text \<open>One round of the loop of \<^verbatim>\<open>enqueue_bounded\<close>: the result when it ends, and the job with what it has reserved.\<close>

definition offer_poll ::
    "nat \<Rightarrow> nat \<Rightarrow> nat \<Rightarrow> clipboard_job \<Rightarrow> queue_world \<Rightarrow> enqueue_result option \<times> clipboard_job \<times> queue_world" where
  "offer_poll wait bytes elapsed job0 w0 =
     (let (job, w1) = reserve_for bytes job0 w0
      in case offer job w1 of
           (Sent, w) \<Rightarrow> (Some Queued, job, w)
         | (Disconnected, w) \<Rightarrow> (Some Closed, job, drop_job job w)
         | (Full, w) \<Rightarrow> if wait \<le> elapsed then (Some Shed, job, drop_job job w) else (None, job, w))"

definition count_shed :: "system \<Rightarrow> system" where
  "count_shed sy =
     (let wl = dm_wl (sy_dm sy)
      in sy\<lparr> sy_dm := (sy_dm sy)\<lparr> dm_wl := wl\<lparr> ws_stats := snd (record_shed_queue (ws_stats wl)) \<rparr> \<rparr> \<rparr>)"

text \<open>The state when the pipe is drained.\<close>

definition after_drain :: "nat \<Rightarrow> reader \<Rightarrow> string \<Rightarrow> fsys \<Rightarrow> system \<Rightarrow> system" where
  "after_drain pid r mime fs sy =
     sy\<lparr> sy_queue := (sy_queue sy)\<lparr> qw_fs := fs \<rparr>, sy_seen := insert (stream_bytes r) (sy_seen sy),
         sy_spooler := (if spool_called r mime then map_option (\<lambda>s. snd (fresh_path pid s)) (sy_spooler sy) else sy_spooler sy) \<rparr>"

definition thread_drains ::
    "(bytes \<Rightarrow> bytes) \<Rightarrow> nat \<Rightarrow> (bytes \<Rightarrow> bytes) \<Rightarrow> thread_env \<Rightarrow> string \<Rightarrow> system \<Rightarrow> reader_thread option \<times> system" where
  "thread_drains pd pid sha te mime sy =
     (case ingest_job pd (te_reader te) mime (map_option (spool (te_os te) sha pid) (sy_spooler sy)) (qw_fs (sy_queue sy)) of
        (res, fs) \<Rightarrow>
          (let sy1 = after_drain pid (te_reader te) mime fs sy
           in case res of
                None \<Rightarrow> (None, sy1)
              | Some job \<Rightarrow>
                  if budget_limit (qw_budget (sy_queue sy)) < accounted_bytes job
                  then (None, count_shed (sy1\<lparr> sy_queue := drop_job job (sy_queue sy1) \<rparr>))
                  else (Some (Offering job 0), sy1)))"

definition thread_polls :: "thread_env \<Rightarrow> clipboard_job \<Rightarrow> nat \<Rightarrow> system \<Rightarrow> reader_thread option \<times> system" where
  "thread_polls te job k sy =
     (case offer_poll INGEST_ENQUEUE_WAIT_MS (accounted_bytes job) (te_elapsed te) job (sy_queue sy) of
        (None, job', q) \<Rightarrow> (Some (Offering job' (Suc k)), sy\<lparr> sy_queue := q \<rparr>)
      | (Some Shed, job', q) \<Rightarrow> (None, count_shed (sy\<lparr> sy_queue := q \<rparr>))
      | (Some _, job', q) \<Rightarrow> (None, sy\<lparr> sy_queue := q \<rparr>))"

definition thread_step ::
    "(bytes \<Rightarrow> bytes) \<Rightarrow> nat \<Rightarrow> (bytes \<Rightarrow> bytes) \<Rightarrow> thread_env \<Rightarrow> reader_thread \<Rightarrow> system \<Rightarrow> reader_thread option \<times> system" where
  "thread_step pd pid sha te t sy =
     (case t of Draining mime \<Rightarrow> thread_drains pd pid sha te mime sy | Offering job k \<Rightarrow> thread_polls te job k sy)"

text \<open>The steps of one thread, with whatever the rest of the system has become before each; \<open>None\<close> when it has ended.\<close>

fun thread_run ::
    "(bytes \<Rightarrow> bytes) \<Rightarrow> nat \<Rightarrow> (bytes \<Rightarrow> bytes) \<Rightarrow> reader_thread \<Rightarrow> (thread_env \<times> system) list \<Rightarrow> reader_thread option" where
  "thread_run pd pid sha t [] = Some t"
| "thread_run pd pid sha t ((te, sy) # rest) =
     (case fst (thread_step pd pid sha te t sy) of
        None \<Rightarrow> None
      | Some t' \<Rightarrow> thread_run pd pid sha t' rest)"

text \<open>A thread that ends gives its place in the gate back.\<close>

definition settle :: "nat \<Rightarrow> reader_thread option \<Rightarrow> system \<Rightarrow> system" where
  "settle i t sy =
     (case t of
        Some t' \<Rightarrow> sy\<lparr> sy_readers := (sy_readers sy)[i := t'] \<rparr>
      | None \<Rightarrow>
          (let wl = dm_wl (sy_dm sy)
           in sy\<lparr> sy_readers := take i (sy_readers sy) @ drop (Suc i) (sy_readers sy),
                  sy_dm := (sy_dm sy)\<lparr> dm_wl := wl\<lparr> ws_gate := gate_release (ws_gate wl) \<rparr> \<rparr> \<rparr>))"

section \<open>Steps of the system\<close>

text \<open>The readers a turn of the event loop starts.\<close>

fun started_readers :: "(bytes \<Rightarrow> bytes) \<Rightarrow> wl_event list \<Rightarrow> wayland_state \<Rightarrow> string list" where
  "started_readers pd [] st = []"
| "started_readers pd (ev # evs) st =
     (case ev of
        SelectionEv pipe_ok thread_ok offered \<Rightarrow>
          (case snd (on_selection pd pipe_ok thread_ok (\<lambda>_. []) offered st) of Some mime \<Rightarrow> [mime] | None \<Rightarrow> [])
      | _ \<Rightarrow> []) @ started_readers pd evs (dispatch pd ev st)"

definition shared_worker :: "system \<Rightarrow> worker_state" where
  "shared_worker sy = (sy_worker sy)\<lparr> wk_metrics := dm_metrics (sy_dm sy) \<rparr>"

inductive system_step :: "(bytes \<Rightarrow> bytes) \<Rightarrow> nat \<Rightarrow> nat \<Rightarrow> (bytes \<Rightarrow> bytes) \<Rightarrow> system \<Rightarrow> system \<Rightarrow> bool" for pd pid n sha where
  sys_turn: "sy_serving sy \<Longrightarrow> \<not> dm_exiting (sy_dm sy) \<Longrightarrow> ReaderDone \<notin> set (le_events le) \<Longrightarrow> le_fs le = qw_fs (sy_queue sy) \<Longrightarrow>
    daemon_turn pd (wk_db (sy_worker sy)) le (sy_dm sy) = (go_on, reply, dm) \<Longrightarrow>
    system_step pd pid n sha sy
      (sy\<lparr> sy_dm := dm, sy_serving := go_on,
           sy_readers := sy_readers sy @ map Draining (started_readers pd (le_events le) (dm_wl (sy_dm sy))) \<rparr>)"
| sys_thread: "i < length (sy_readers sy) \<Longrightarrow>
    (\<forall>job k. sy_readers sy ! i = Offering job k \<longrightarrow> k * INGEST_ENQUEUE_POLL_MS \<le> te_elapsed te) \<Longrightarrow>
    (\<forall>s. sy_spooler sy = Some s \<longrightarrow> fsp_next s < u64_max) \<Longrightarrow>
    thread_step pd pid sha te (sy_readers sy ! i) sy = (t, sy') \<Longrightarrow> system_step pd pid n sha sy (settle i t sy')"
| sys_work: "qw_jobs (sy_queue sy) = job # rest \<Longrightarrow> w_sha (je_world je) = sha \<Longrightarrow>
    work_sound je (sy_seen sy) job (shared_worker sy) (qw_fs (sy_queue sy)) \<Longrightarrow>
    worker_turn je n (sy_queue sy, shared_worker sy) = Some (q, st) \<Longrightarrow>
    system_step pd pid n sha sy
      (sy\<lparr> sy_queue := q, sy_worker := st, sy_dm := (sy_dm sy)\<lparr> dm_metrics := wk_metrics st \<rparr> \<rparr>)"
| sys_command: "w_sha (cl_world ce) = sha \<Longrightarrow> cli_sound ce (wk_db (sy_worker sy)) (qw_fs (sy_queue sy)) \<Longrightarrow>
    cli_dispatch ce args (wk_db (sy_worker sy)) (qw_fs (sy_queue sy)) = (page, act, evs, x, db, fs) \<Longrightarrow>
    system_step pd pid n sha sy
      (sy\<lparr> sy_worker := (sy_worker sy)\<lparr> wk_db := db \<rparr>, sy_queue := (sy_queue sy)\<lparr> qw_fs := fs \<rparr> \<rparr>)"

inductive system_reach :: "(bytes \<Rightarrow> bytes) \<Rightarrow> nat \<Rightarrow> nat \<Rightarrow> (bytes \<Rightarrow> bytes) \<Rightarrow> system \<Rightarrow> system \<Rightarrow> bool" for pd pid n sha sy0 where
  sys_start: "system_reach pd pid n sha sy0 sy0"
| sys_next: "system_reach pd pid n sha sy0 sy \<Longrightarrow> system_step pd pid n sha sy sy' \<Longrightarrow> system_reach pd pid n sha sy0 sy'"

text \<open>
  The system when \<^verbatim>\<open>start_daemon\<close> enters its loop: the worker has the database, the queue is empty, and readers run for the selections that
  arrived during the first round trip.
\<close>

definition boot :: "(bytes \<Rightarrow> bytes) \<Rightarrow> config \<Rightarrow> start_env \<Rightarrow> started \<Rightarrow> daemon \<Rightarrow> clipboard_db \<Rightarrow> system" where
  "boot pd cfg se sd dm db =
     \<lparr> sy_dm = dm,
       sy_worker = \<lparr> wk_db = db, wk_guards = \<lparr> gd_breaker = BREAKER, gd_throttle = THROTTLE \<rparr>,
         wk_conv = \<lparr> cv_available = None, cv_warned = False, cv_warned_scratch = False, cv_messages = 0, cv_runs = 0 \<rparr>,
         wk_metrics = dm_metrics dm \<rparr>,
       sy_queue = \<lparr> qw_jobs = [], qw_capacity = INGEST_QUEUE_CAPACITY, qw_open = True, qw_working = [], qw_waiting = [],
         qw_budget = budget_new INGEST_QUEUE_BYTE_BUDGET, qw_fs = sd_fs sd \<rparr>,
       sy_spooler = sd_spooler sd,
       sy_readers = map Draining (started_readers pd (case se_globals se of Some evs \<Rightarrow> evs | None \<Rightarrow> []) (new_daemon cfg)),
       sy_serving = True, sy_seen = {} \<rparr>"

text \<open>A poll is one round of the producer's loop, with whatever happens between two polls.\<close>

lemma enqueue_by_polls:
  "enqueue_bounded_from events drift wait bytes job i w =
     (case offer_poll wait bytes (elapsed_at drift i) job w of
        (Some r, _, w') \<Rightarrow> (r, w')
      | (None, job', w') \<Rightarrow> enqueue_bounded_from events drift wait bytes job' (Suc i) (apply_events (events i) w'))"
  by (subst enqueue_bounded_from.simps) (auto simp: offer_poll_def Let_def split: prod.splits send_answer.splits)

section \<open>Payloads in flight\<close>

definition offered_jobs :: "reader_thread \<Rightarrow> clipboard_job list" where
  "offered_jobs t = (case t of Offering job k \<Rightarrow> [job] | Draining _ \<Rightarrow> [])"

definition offered_bytes :: "reader_thread list \<Rightarrow> nat" where
  "offered_bytes ts = (\<Sum>t \<leftarrow> ts. sum_list (map permit_bytes (offered_jobs t)))"

text \<open>The payloads that readers offer or that wait in the queue, and the spool files they own.\<close>

definition thread_payloads :: "reader_thread \<Rightarrow> payload multiset" where
  "thread_payloads t = mset (map job_payload (offered_jobs t))"

definition reader_payloads :: "reader_thread list \<Rightarrow> payload multiset" where
  "reader_payloads ts = (\<Sum>t \<in># mset ts. thread_payloads t)"

lemma reader_payloads_simps [simp]:
  "reader_payloads [] = {#}" "reader_payloads (t # ts) = thread_payloads t + reader_payloads ts"
  "reader_payloads (ts @ us) = reader_payloads ts + reader_payloads us"
  by (simp_all add: reader_payloads_def)

definition in_flight :: "system \<Rightarrow> payload multiset" where
  "in_flight sy = reader_payloads (sy_readers sy) + mset (map job_payload (qw_jobs (sy_queue sy)))"

definition spool_paths :: "payload multiset \<Rightarrow> path multiset" where
  "spool_paths M = (\<Sum>p \<in># M. path_mset p)"

lemma spool_paths_add [simp]: "spool_paths {#} = {#}" "spool_paths (add_mset p M) = path_mset p + spool_paths M"
  by (simp_all add: spool_paths_def)

definition flying_ok :: "(bytes \<Rightarrow> bytes) \<Rightarrow> bytes set \<Rightarrow> path set \<Rightarrow> path set \<Rightarrow> fsys \<Rightarrow> payload multiset \<Rightarrow> bool" where
  "flying_ok sha seen names foreign fs M \<longleftrightarrow>
     (\<forall>p \<in># M. payload_sound sha seen p fs) \<and> (\<forall>x. count (spool_paths M) x \<le> 1) \<and> set_mset (spool_paths M) \<subseteq> names \<and>
     (\<forall>x. is_part x \<and> fs_files fs x \<noteq> None \<longrightarrow> x \<in> foreign \<or> x \<in># spool_paths M)"

lemma payload_sound_cong:
  "payload_sound sha seen p fs \<Longrightarrow> seen \<subseteq> seen' \<Longrightarrow> (\<And>x. x \<in># path_mset p \<Longrightarrow> fs_files fs' x = fs_files fs x) \<Longrightarrow>
     payload_sound sha seen' p fs'"
  by (fastforce simp: payload_sound_def path_mset_def split: payload.splits)

lemma sound_path_part: "payload_sound sha seen p fs \<Longrightarrow> x \<in># path_mset p \<Longrightarrow> is_part x"
  by (auto simp: payload_sound_def path_mset_def split: payload.splits)

lemma path_in_paths: "p \<in># M \<Longrightarrow> x \<in># path_mset p \<Longrightarrow> x \<in># spool_paths M"
  by (auto simp: spool_paths_def)

lemma flying_mono:
  assumes "flying_ok sha seen names foreign fs M" and "seen \<subseteq> seen'" and "names \<subseteq> names'" and "fs_files fs' = fs_files fs"
  shows "flying_ok sha seen' names' foreign fs' M"
  using assms payload_sound_cong [OF _ assms(2), of sha _ fs fs'] unfolding flying_ok_def by auto

lemma flying_kept:
  assumes "flying_ok sha seen names foreign fs M" and "spools_kept fs fs'"
  shows "flying_ok sha seen names foreign fs' M"
  using assms payload_sound_kept [OF _ assms(2)] unfolding flying_ok_def spools_kept_def by metis

lemma flying_add_plain:
  assumes "flying_ok sha seen names foreign fs M" and "path_mset p = {#}"
  shows "flying_ok sha seen names foreign fs (add_mset p M)"
  using assms by (auto simp: flying_ok_def payload_sound_def path_mset_def split: payload.splits)

lemma flying_add_spool:
  assumes ok: "flying_ok sha seen names foreign fs M" and new: "sp_path f \<notin> names" "is_part (sp_path f)"
    and says: "spool_says sha f d" and fs': "fs_files fs' = (fs_files fs)(sp_path f \<mapsto> d)"
  shows "flying_ok sha (insert d seen) (insert (sp_path f) names) foreign fs' (add_mset (Spooled f) M)"
proof -
  have out: "sp_path f \<notin># spool_paths M" using ok new(1) by (auto simp: flying_ok_def)
  have "payload_sound sha (insert d seen) p fs'" if "p \<in># M" for p
  proof (rule payload_sound_cong)
    show "payload_sound sha seen p fs" using ok that by (simp add: flying_ok_def)
    show "fs_files fs' x = fs_files fs x" if "x \<in># path_mset p" for x
      using path_in_paths [OF \<open>p \<in># M\<close> that] out by (cases "x = sp_path f") (simp_all add: fs')
  qed blast
  moreover have "payload_sound sha (insert d seen) (Spooled f) fs'" using says new(2) fs' by (auto simp: payload_sound_def)
  moreover have "count (spool_paths (add_mset (Spooled f) M)) x \<le> 1" for x
    using ok out by (auto simp: flying_ok_def path_mset_def not_in_iff)
  ultimately show ?thesis using ok unfolding flying_ok_def by (auto simp: fs' path_mset_def)
qed

text \<open>A payload leaves: its own file is gone and every other spool file is as it was.\<close>

lemma flying_remove:
  assumes ok: "flying_ok sha seen names foreign fs (add_mset p M)"
    and gone: "\<And>x. x \<in># path_mset p \<Longrightarrow> fs_files fs' x = None"
    and same: "\<And>x. is_part x \<Longrightarrow> x \<notin># path_mset p \<Longrightarrow> fs_files fs' x = fs_files fs x"
  shows "flying_ok sha seen names foreign fs' M"
proof -
  have once: "count (path_mset p) x + count (spool_paths M) x \<le> 1" for x using ok by (simp add: flying_ok_def)
  have "payload_sound sha seen p' fs'" if "p' \<in># M" for p'
  proof (rule payload_sound_cong)
    show sound: "payload_sound sha seen p' fs" using ok that by (auto simp: flying_ok_def)
    fix x assume x: "x \<in># path_mset p'"
    then have "0 < count (spool_paths M) x" using path_in_paths [OF that] by (simp only: count_greater_zero_iff)
    with once [of x] have "x \<notin># path_mset p" unfolding not_in_iff by linarith
    then show "fs_files fs' x = fs_files fs x" using same sound_path_part [OF sound x] by simp
  qed simp
  moreover have "count (spool_paths M) x \<le> 1" for x using once [of x] by simp
  moreover have "x \<in> foreign \<or> x \<in># spool_paths M" if "is_part x" "fs_files fs' x \<noteq> None" for x
    using ok gone [of x] same [of x] that by (cases "x \<in># path_mset p") (auto simp: flying_ok_def)
  ultimately show ?thesis using ok unfolding flying_ok_def by auto
qed

lemma payload_drop_part:
  assumes "payload_sound sha seen p fs"
  shows "x \<in># path_mset p \<Longrightarrow> fs_files (payload_drop p fs') x = None"
    "x \<notin># path_mset p \<Longrightarrow> fs_files (payload_drop p fs') x = fs_files fs' x"
  using assms by (auto simp: payload_drop_def path_mset_def payload_sound_def spool_says_def spooled_drop_def split: payload.splits)

lemma flying_drop:
  assumes "flying_ok sha seen names foreign fs (add_mset p M)"
  shows "flying_ok sha seen names foreign (payload_drop p fs) M"
proof -
  have "payload_sound sha seen p fs" using assms by (simp add: flying_ok_def)
  then show ?thesis using flying_remove [OF assms] payload_drop_part by simp
qed

end
