(* ===== verification/SystemProps.thy ===== *)
theory SystemProps
  imports System
begin

text \<open>
  What holds of the running program in every state: the history and its files are consistent, the reader threads and the queued bytes
  are counted exactly and bounded, and every spool file belongs to a payload in flight.
\<close>

section \<open>The invariant\<close>

definition used_names :: "nat \<Rightarrow> system \<Rightarrow> path set" where
  "used_names pid sy = {spool_name pid (fsp_dir s) k | s k. sy_spooler sy = Some s \<and> k < fsp_next s}"

definition system_ok :: "nat \<Rightarrow> (bytes \<Rightarrow> bytes) \<Rightarrow> path set \<Rightarrow> system \<Rightarrow> bool" where
  "system_ok pid sha foreign sy \<longleftrightarrow>
     storage_ok sha (wk_db (sy_worker sy)) (qw_fs (sy_queue sy)) \<and> globals_ok (dm_wl (sy_dm sy)) \<and>
     gate_active (ws_gate (dm_wl (sy_dm sy))) = length (sy_readers sy) \<and>
     qw_working (sy_queue sy) = [] \<and> qw_waiting (sy_queue sy) = [] \<and> acct (offered_bytes (sy_readers sy)) (sy_queue sy) \<and>
     (\<forall>job k. Offering job k \<in> set (sy_readers sy) \<longrightarrow> job_permit job = None \<or> job_permit job = Some (accounted_bytes job)) \<and>
     flying_ok sha (sy_seen sy) (used_names pid sy) foreign (qw_fs (sy_queue sy)) (in_flight sy)"

subsection \<open>A turn of the event loop\<close>

lemma on_selection_started:
  assumes "on_selection pd pipe_ok thread_ok answer offered st = (st', req)"
  shows "gate_active (ws_gate st') = gate_active (ws_gate st) + length (case req of Some mime \<Rightarrow> [mime] | None \<Rightarrow> [])"
  using assms gate_bounded(1) [of "ws_gate st"] gate_bounded(2)
  by (auto simp: on_selection_def shed_unallocatable_pipe_def Let_def split: if_splits option.splits prod.splits)

lemma dispatch_gate:
  "ReaderDone \<noteq> ev \<Longrightarrow> (\<And>a b c. ev \<noteq> SelectionEv a b c) \<Longrightarrow> ws_gate (dispatch pd ev st) = ws_gate st"
  by (cases ev) (auto simp: dispatch_def on_global_def on_global_remove_def Let_def)

lemma started_gate:
  "ReaderDone \<notin> set evs \<Longrightarrow>
     gate_active (ws_gate (fold (dispatch pd) evs st)) = gate_active (ws_gate st) + length (started_readers pd evs st)"
proof (induction evs arbitrary: st)
  case (Cons ev evs)
  have "gate_active (ws_gate (dispatch pd ev st)) = gate_active (ws_gate st) +
      length (case ev of SelectionEv a b c \<Rightarrow> (case snd (on_selection pd a b (\<lambda>_. []) c st) of Some mime \<Rightarrow> [mime] | None \<Rightarrow> []) | _ \<Rightarrow> [])"
  proof (cases "\<exists>a b c. ev = SelectionEv a b c")
    case True
    then obtain a b c where ev: "ev = SelectionEv a b c" by blast
    from on_selection_started [of pd a b "\<lambda>_. []" c st] show ?thesis by (simp add: ev dispatch_def)
  next
    case False
    with Cons.prems dispatch_gate [of ev pd st] show ?thesis by (cases ev) auto
  qed
  with Cons show ?case by simp
qed simp

lemma turn_state:
  assumes "daemon_turn pd db le dm = (go_on, reply, dm')" and "globals_ok (dm_wl dm)"
  shows "globals_ok (dm_wl dm')" "ws_gate (dm_wl dm') = ws_gate (fold (dispatch pd) (le_events le) (dm_wl dm))"
proof -
  define st where "st = fold (dispatch pd) (le_events le) (dm_wl dm)"
  have "globals_ok st" using dispatches_ok [OF assms(2)] by (simp add: st_def)
  then have ok: "globals_ok (if ws_device st then st else snd (bind_data_device st))"
    "ws_gate (if ws_device st then st else snd (bind_data_device st)) = ws_gate st"
    by (auto simp: bind_data_device_def globals_ok_def)
  show "globals_ok (dm_wl dm')" "ws_gate (dm_wl dm') = ws_gate (fold (dispatch pd) (le_events le) (dm_wl dm))"
    using assms(1) ok unfolding st_def [symmetric] daemon_turn_def Let_def
    by (auto simp: command_frame split: if_splits prod.splits option.splits)
qed

lemma drain_offers_nothing:
  "offered_bytes (ts @ map Draining ms) = offered_bytes ts"
  "reader_payloads (map Draining ms) = {#}"
  by (induction ms arbitrary: ts) (simp_all add: offered_bytes_def offered_jobs_def thread_payloads_def)

lemma turn_keeps:
  assumes ok: "system_ok pid sha foreign sy" and ev: "ReaderDone \<notin> set (le_events le)"
    and turn: "daemon_turn pd db le (sy_dm sy) = (go_on, reply, dm)"
  shows "system_ok pid sha foreign
    (sy\<lparr> sy_dm := dm, sy_serving := go_on, sy_readers := sy_readers sy @ map Draining (started_readers pd (le_events le) (dm_wl (sy_dm sy))) \<rparr>)"
proof -
  have "globals_ok (dm_wl (sy_dm sy))" using ok by (simp add: system_ok_def)
  note st = turn_state [OF turn this]
  show ?thesis
    using ok st started_gate [OF ev, of pd "dm_wl (sy_dm sy)"]
    by (auto simp: system_ok_def drain_offers_nothing in_flight_def used_names_def)
qed

subsection \<open>A step of a reader thread\<close>

lemma reserve_acct:
  assumes "reserve_for n job w = (job', w')" and "acct (own + permit_bytes job) w" and "job_permit job = None \<or> job_permit job = Some n"
  shows "acct (own + permit_bytes job') w'" "job_permit job' = None \<or> job_permit job' = Some n" "job_payload job' = job_payload job"
    "qw_jobs w' = qw_jobs w" "qw_fs w' = qw_fs w" "qw_working w' = qw_working w" "qw_waiting w' = qw_waiting w"
  using assms budget.acq_used [of n "qw_budget w"]
  by (auto simp: reserve_for_def acct_def queue_held_def permit_bytes_def split: option.splits)

text \<open>What one poll leaves: the job is queued, still offered, or dropped with its file.\<close>

lemma poll_cases:
  assumes run: "offer_poll wait n elapsed job w = (res, job', w')" and acct: "acct (own + permit_bytes job) w"
    and permit: "job_permit job = None \<or> job_permit job = Some n"
  shows "job_payload job' = job_payload job" "job_permit job' = None \<or> job_permit job' = Some n"
    "qw_working w' = qw_working w" "qw_waiting w' = qw_waiting w"
    "case res of
       Some Queued \<Rightarrow> acct own w' \<and> qw_jobs w' = qw_jobs w @ [job'] \<and> qw_fs w' = qw_fs w
     | None \<Rightarrow> acct (own + permit_bytes job') w' \<and> qw_jobs w' = qw_jobs w \<and> qw_fs w' = qw_fs w
     | Some _ \<Rightarrow> acct own w' \<and> qw_jobs w' = qw_jobs w \<and> qw_fs w' = payload_drop (job_payload job) (qw_fs w)"
proof -
  obtain job1 w1 where res: "reserve_for n job w = (job1, w1)" by fastforce
  note r = reserve_acct [OF res acct permit]
  obtain a w2 where off: "offer job1 w1 = (a, w2)" by fastforce
  have w2: "if a = Sent then w2 = w1\<lparr> qw_jobs := qw_jobs w1 @ [job1] \<rparr> \<and> length (qw_jobs w1) < qw_capacity w1 else w2 = w1"
    using off by (auto simp: offer_def try_send_def split: if_splits)
  have sent: "acct own w2" if "a = Sent" using r(1) w2 that by (simp add: acct_def queue_held_def)
  have drop: "acct own (drop_job job1 w1)" by (rule acct_drop [OF r(1)])
  have fs: "qw_fs (drop_job job1 w1) = payload_drop (job_payload job) (qw_fs w)" using r by (simp add: drop_job_def)
  have job': "job' = job1" using run res off by (auto simp: offer_poll_def split: send_answer.splits if_splits)
  show "job_payload job' = job_payload job" "job_permit job' = None \<or> job_permit job' = Some n" using r job' by simp_all
  show "qw_working w' = qw_working w" "qw_waiting w' = qw_waiting w"
    using run res off w2 r by (auto simp: offer_poll_def split: send_answer.splits if_splits)
  show "case res of
       Some Queued \<Rightarrow> acct own w' \<and> qw_jobs w' = qw_jobs w @ [job'] \<and> qw_fs w' = qw_fs w
     | None \<Rightarrow> acct (own + permit_bytes job') w' \<and> qw_jobs w' = qw_jobs w \<and> qw_fs w' = qw_fs w
     | Some _ \<Rightarrow> acct own w' \<and> qw_jobs w' = qw_jobs w \<and> qw_fs w' = payload_drop (job_payload job) (qw_fs w)"
    using run res off w2 r sent drop fs job' by (cases a) (auto simp: offer_poll_def split: if_splits)
qed

lemma offered_simps [simp]:
  "offered_bytes (t # ts) = sum_list (map permit_bytes (offered_jobs t)) + offered_bytes ts" "offered_bytes [] = 0"
  "offered_bytes (pre @ post) = offered_bytes pre + offered_bytes post"
  by (simp_all add: offered_bytes_def)

lemma settle_split:
  assumes "sy_readers sy = pre @ t # post"
  shows "sy_readers (settle (length pre) t' sy) = (case t' of Some u \<Rightarrow> pre @ u # post | None \<Rightarrow> pre @ post)"
    "sy_queue (settle (length pre) t' sy) = sy_queue sy" "sy_worker (settle (length pre) t' sy) = sy_worker sy"
    "sy_spooler (settle (length pre) t' sy) = sy_spooler sy" "sy_seen (settle (length pre) t' sy) = sy_seen sy"
    "used_names pid (settle (length pre) t' sy) = used_names pid sy"
    "dm_wl (sy_dm (settle (length pre) t' sy)) =
       (case t' of Some _ \<Rightarrow> dm_wl (sy_dm sy) | None \<Rightarrow> (dm_wl (sy_dm sy))\<lparr> ws_gate := gate_release (ws_gate (dm_wl (sy_dm sy))) \<rparr>)"
  using assms by (simp_all add: settle_def Let_def used_names_def split: option.splits)

text \<open>The part of the invariant a thread cannot disturb, once the thread itself is taken out.\<close>

lemma gate_after:
  assumes "globals_ok wl" and "gate_active (ws_gate wl) = Suc n"
  shows "globals_ok (wl\<lparr> ws_gate := gate_release (ws_gate wl) \<rparr>)" "gate_active (gate_release (ws_gate wl)) = n"
  using assms gate_bounded(2) [of "ws_gate wl"] by (auto simp: globals_ok_def)

lemma count_shed_frame [simp]:
  "sy_queue (count_shed sy) = sy_queue sy" "sy_worker (count_shed sy) = sy_worker sy" "sy_spooler (count_shed sy) = sy_spooler sy"
  "sy_seen (count_shed sy) = sy_seen sy" "sy_readers (count_shed sy) = sy_readers sy"
  "ws_gate (dm_wl (sy_dm (count_shed sy))) = ws_gate (dm_wl (sy_dm sy))"
  "globals_ok (dm_wl (sy_dm (count_shed sy))) = globals_ok (dm_wl (sy_dm sy))" "used_names pid (count_shed sy) = used_names pid sy"
  by (simp_all add: count_shed_def Let_def globals_ok_def used_names_def)

definition left_jobs :: "reader_thread option \<Rightarrow> clipboard_job list" where
  "left_jobs t = (case t of Some u \<Rightarrow> offered_jobs u | None \<Rightarrow> [])"

lemma settled_ok:
  assumes ok: "system_ok pid sha foreign sy" and readers: "sy_readers sy = pre @ t # post"
    and frame: "sy_readers sy' = sy_readers sy" "sy_worker sy' = sy_worker sy"
      "ws_gate (dm_wl (sy_dm sy')) = ws_gate (dm_wl (sy_dm sy))" "globals_ok (dm_wl (sy_dm sy'))"
      "qw_working (sy_queue sy') = []" "qw_waiting (sy_queue sy') = []"
    and storage: "storage_ok sha (wk_db (sy_worker sy)) (qw_fs (sy_queue sy'))"
    and acct: "acct (offered_bytes (pre @ post) + sum_list (map permit_bytes (left_jobs t'))) (sy_queue sy')"
    and permit: "\<And>job. job \<in> set (left_jobs t') \<Longrightarrow> job_permit job = None \<or> job_permit job = Some (accounted_bytes job)"
    and flying: "flying_ok sha (sy_seen sy') (used_names pid sy') foreign (qw_fs (sy_queue sy'))
      (mset (map job_payload (left_jobs t')) + reader_payloads (pre @ post) + mset (map job_payload (qw_jobs (sy_queue sy'))))"
  shows "system_ok pid sha foreign (settle (length pre) t' sy')"
proof -
  note split = settle_split [of sy' pre t post, unfolded frame, OF readers]
  have gate: "gate_active (ws_gate (dm_wl (sy_dm sy'))) = Suc (length (pre @ post))"
    using ok frame(3) readers by (simp add: system_ok_def)
  have others: "job_permit job = None \<or> job_permit job = Some (accounted_bytes job)" if "Offering job k \<in> set (pre @ post)" for job k
    using ok that readers by (auto simp: system_ok_def)
  show ?thesis
  proof (cases t')
    case None
    with gate_after [OF frame(4) gate] acct flying storage frame(5,6) others show ?thesis
      by (simp add: system_ok_def split left_jobs_def in_flight_def frame(3))
  next
    case (Some u)
    have mine: "job_permit job = None \<or> job_permit job = Some (accounted_bytes job)" if "u = Offering job k" for job k
      using permit [of job] that Some by (simp add: left_jobs_def offered_jobs_def)
    with Some acct flying storage frame(4-6) others gate show ?thesis
      by (auto simp: system_ok_def split left_jobs_def in_flight_def thread_payloads_def ac_simps)
  qed
qed

lemma storage_after_drop:
  assumes "storage_ok sha db fs" and "payload_sound sha' seen p fs0"
  shows "storage_ok sha db (payload_drop p fs)"
proof (rule storage_ok_part [OF assms(1)])
  show "fs_files (payload_drop p fs) x = fs_files fs x" if "\<not> is_part x" for x
    using payload_drop_part(2) [OF assms(2), of x fs] sound_path_part [OF assms(2), of x] that by blast
qed

lemma poll_keeps:
  assumes ok: "system_ok pid sha foreign sy" and readers: "sy_readers sy = pre @ Offering job k # post"
    and run: "thread_polls te job k sy = (t', sy')"
  shows "system_ok pid sha foreign (settle (length pre) t' sy')"
proof -
  let ?q = "sy_queue sy" and ?fs = "qw_fs (sy_queue sy)"
  obtain res job' q' where poll: "offer_poll INGEST_ENQUEUE_WAIT_MS (accounted_bytes job) (te_elapsed te) job ?q = (res, job', q')"
    by (metis prod_cases3)
  have acct: "acct (offered_bytes (pre @ post) + permit_bytes job) ?q"
    using ok readers by (simp add: system_ok_def offered_jobs_def ac_simps)
  have permit: "job_permit job = None \<or> job_permit job = Some (accounted_bytes job)" using ok readers by (simp add: system_ok_def)
  note p = poll_cases [OF poll acct permit]
  have bytes: "accounted_bytes job' = accounted_bytes job" using p(1) by (simp add: accounted_bytes_def)
  let ?rest = "reader_payloads (pre @ post) + mset (map job_payload (qw_jobs ?q))"
  have fly: "flying_ok sha (sy_seen sy) (used_names pid sy) foreign ?fs (add_mset (job_payload job) ?rest)"
    using ok readers by (simp add: system_ok_def in_flight_def thread_payloads_def offered_jobs_def)
  have store: "storage_ok sha (wk_db (sy_worker sy)) ?fs" using ok by (simp add: system_ok_def)
  have "payload_sound sha (sy_seen sy) (job_payload job) ?fs" using fly by (simp add: flying_ok_def)
  note drop = storage_after_drop [OF store this] flying_drop [OF fly]
  have frame: "globals_ok (dm_wl (sy_dm sy))" "qw_working q' = []" "qw_waiting q' = []" using ok p(3,4) by (simp_all add: system_ok_def)
  have "sy' = sy\<lparr> sy_queue := q' \<rparr> \<or> sy' = count_shed (sy\<lparr> sy_queue := q' \<rparr>)"
    "left_jobs t' = (if res = None then [job'] else [])"
    using run poll by (auto simp: thread_polls_def left_jobs_def offered_jobs_def split: option.splits enqueue_result.splits)
  then show ?thesis
    using p(5) fly store drop frame bytes p(1,2)
    by (intro settled_ok [OF ok readers]) (auto simp: used_names_def split: option.splits enqueue_result.splits)
qed

text \<open>Draining: the file system gains at most the spool file of the new job.\<close>

lemma spooled_called:
  assumes "ingest_job pd r mime spooler fs = (Some job, fs')" and "job_payload job = Spooled f"
  shows "spool_called r mime"
proof -
  have "\<exists>g head. drain_pipe r mime MAX_PAYLOAD_BYTES spooler fs = (Some (DrSpooled g head), fs')"
    using assms by (auto simp: ingest_job_def job_new_def split: prod.splits option.splits drained.splits)
  then show ?thesis
    by (auto simp: drain_pipe_def spool_called_def ok_drained_def split: option.splits prod.splits sum.splits if_splits spool_outcome.splits)
qed

lemma names_grow:
  assumes "\<forall>s. spooler = Some s \<longrightarrow> fsp_next s < u64_max" and "sy_spooler sy = spooler"
    and "sy_spooler sy' = (if called then map_option (\<lambda>s. snd (fresh_path pid s)) spooler else spooler)"
  shows "used_names pid sy \<subseteq> used_names pid sy'"
    "called \<Longrightarrow> spooler = Some s \<Longrightarrow> used_names pid sy' = insert (spool_name pid (fsp_dir s) (fsp_next s)) (used_names pid sy)"
    "spooler = Some s \<Longrightarrow> spool_name pid (fsp_dir s) (fsp_next s) \<notin> used_names pid sy"
proof -
  have next_name: "fsp_dir (snd (fresh_path pid s)) = fsp_dir s \<and> fsp_next (snd (fresh_path pid s)) = Suc (fsp_next s)"
    if "spooler = Some s" for s
    using assms(1) that by (simp add: fresh_path_def wrap64_def u64_max_def)
  show "used_names pid sy \<subseteq> used_names pid sy'"
    using assms(2,3) next_name by (fastforce simp: used_names_def)
  show "called \<Longrightarrow> spooler = Some s \<Longrightarrow> used_names pid sy' = insert (spool_name pid (fsp_dir s) (fsp_next s)) (used_names pid sy)"
    using assms(2,3) next_name by (auto simp: used_names_def less_Suc_eq)
  show "spooler = Some s \<Longrightarrow> spool_name pid (fsp_dir s) (fsp_next s) \<notin> used_names pid sy"
    using assms(2) by (auto simp: used_names_def dest: spool_name_inj)
qed

lemma drain_flying:
  assumes fly: "flying_ok sha (sy_seen sy) (used_names pid sy) foreign (qw_fs (sy_queue sy)) M"
    and room: "\<forall>s. sy_spooler sy = Some s \<longrightarrow> fsp_next s < u64_max"
    and run: "ingest_job pd r mime (map_option (spool os sha pid) (sy_spooler sy)) (qw_fs (sy_queue sy)) = (res, fs)"
  defines "sy1 \<equiv> after_drain pid r mime fs sy"
  shows "res = None \<Longrightarrow> flying_ok sha (sy_seen sy1) (used_names pid sy1) foreign fs M"
    "res = Some j \<Longrightarrow> flying_ok sha (sy_seen sy1) (used_names pid sy1) foreign fs (add_mset (job_payload j) M)"
proof -
  note d = drained [OF run]
  have sp: "sy_spooler sy1 = (if spool_called r mime then map_option (\<lambda>s. snd (fresh_path pid s)) (sy_spooler sy) else sy_spooler sy)"
    by (simp add: sy1_def after_drain_def)
  note names = names_grow [OF room refl sp]
  have same: "flying_ok sha (sy_seen sy1) (used_names pid sy1) foreign fs M" if "fs_files fs = fs_files (qw_fs (sy_queue sy))"
    by (rule flying_mono [OF fly _ names(1) that]) (auto simp: sy1_def after_drain_def)
  then show "res = None \<Longrightarrow> flying_ok sha (sy_seen sy1) (used_names pid sy1) foreign fs M" using d by simp
  assume j: "res = Some j"
  show "flying_ok sha (sy_seen sy1) (used_names pid sy1) foreign fs (add_mset (job_payload j) M)"
  proof (cases "job_payload j")
    case (Spooled f)
    with d j obtain s where s: "sy_spooler sy = Some s" "sp_path f = spool_name pid (fsp_dir s) (fsp_next s)" "spool_says sha f (stream_bytes r)"
        "fs_files fs = (fs_files (qw_fs (sy_queue sy)))(sp_path f \<mapsto> stream_bytes r)" by auto
    have u: "used_names pid sy1 = insert (sp_path f) (used_names pid sy)"
      using names(2) [OF spooled_called [OF run [unfolded j] Spooled] s(1)] s(2) by simp
    have "sp_path f \<notin> used_names pid sy" using names(3) [OF s(1)] s(2) by simp
    from flying_add_spool [OF fly this _ s(3,4)] s(2) u Spooled show ?thesis by (simp add: sy1_def after_drain_def)
  qed (use d j same flying_add_plain in \<open>auto simp: path_mset_def\<close>)
qed

lemma drain_keeps:
  assumes ok: "system_ok pid sha foreign sy" and readers: "sy_readers sy = pre @ Draining mime # post"
    and room: "\<forall>s. sy_spooler sy = Some s \<longrightarrow> fsp_next s < u64_max"
    and run: "thread_drains pd pid sha te mime sy = (t', sy')"
  shows "system_ok pid sha foreign (settle (length pre) t' sy')"
proof -
  let ?fs = "qw_fs (sy_queue sy)" and ?db = "wk_db (sy_worker sy)"
  let ?rest = "reader_payloads (pre @ post) + mset (map job_payload (qw_jobs (sy_queue sy)))"
  obtain res fs where job: "ingest_job pd (te_reader te) mime (map_option (spool (te_os te) sha pid) (sy_spooler sy)) ?fs = (res, fs)"
    by fastforce
  define sy1 where "sy1 = after_drain pid (te_reader te) mime fs sy"
  have fly0: "flying_ok sha (sy_seen sy) (used_names pid sy) foreign ?fs ?rest"
    using ok readers by (simp add: system_ok_def in_flight_def thread_payloads_def offered_jobs_def)
  note fly = drain_flying [OF fly0 room job, folded sy1_def]
  have acct: "acct (offered_bytes (pre @ post)) (sy_queue sy1)"
    using ok readers by (simp add: system_ok_def offered_jobs_def acct_def queue_held_def sy1_def after_drain_def)
  have store0: "storage_ok sha ?db ?fs" using ok by (simp add: system_ok_def)
  have store: "storage_ok sha ?db fs"
    by (rule storage_ok_part [OF store0]) (use drained [OF job] in \<open>auto split: option.splits payload.splits\<close>)
  have frame: "sy_readers sy1 = sy_readers sy" "sy_worker sy1 = sy_worker sy" "sy_dm sy1 = sy_dm sy" "qw_fs (sy_queue sy1) = fs"
    "qw_jobs (sy_queue sy1) = qw_jobs (sy_queue sy)" "qw_working (sy_queue sy1) = []" "qw_waiting (sy_queue sy1) = []"
    "globals_ok (dm_wl (sy_dm sy))"
    using ok by (simp_all add: system_ok_def sy1_def after_drain_def)
  show ?thesis
  proof (cases res)
    case None
    then have "t' = None" "sy' = sy1" using run job by (simp_all add: thread_drains_def sy1_def Let_def)
    then show ?thesis using fly(1) [OF None] acct store frame by (intro settled_ok [OF ok readers]) (simp_all add: left_jobs_def)
  next
    case (Some j)
    have permit: "job_permit j = None" using drained [OF job] Some by simp
    note fly = fly(2) [OF Some]
    show ?thesis
    proof (cases "budget_limit (qw_budget (sy_queue sy)) < accounted_bytes j")
      case True
      then have run': "t' = None" "sy' = count_shed (sy1\<lparr> sy_queue := drop_job j (sy_queue sy1) \<rparr>)"
        using run job Some by (simp_all add: thread_drains_def sy1_def Let_def)
      have "payload_sound sha (sy_seen sy1) (job_payload j) fs" using fly by (simp add: flying_ok_def)
      note dropped = storage_after_drop [OF store this] flying_drop [OF fly]
      have "acct (offered_bytes (pre @ post)) (drop_job j (sy_queue sy1))" using acct_drop acct permit by (simp add: permit_bytes_def)
      with dropped frame show ?thesis unfolding run'
        by (intro settled_ok [OF ok readers]) (simp_all add: left_jobs_def drop_job_def used_names_def)
    next
      case False
      then have "t' = Some (Offering j 0)" "sy' = sy1"
        using run job Some by (simp_all add: thread_drains_def sy1_def Let_def)
      then show ?thesis using fly acct permit store frame
        by (intro settled_ok [OF ok readers]) (simp_all add: left_jobs_def offered_jobs_def permit_bytes_def)
    qed
  qed
qed

subsection \<open>A turn of the worker\<close>

lemma work_keeps:
  assumes ok: "system_ok pid sha foreign sy" and jobs: "qw_jobs (sy_queue sy) = job # rest" and sha: "w_sha (je_world je) = sha"
    and sound: "work_sound je (sy_seen sy) job (shared_worker sy) (qw_fs (sy_queue sy))"
    and turn: "worker_turn je n (sy_queue sy, shared_worker sy) = Some (q, st)"
  shows "system_ok pid sha foreign (sy\<lparr> sy_queue := q, sy_worker := st, sy_dm := (sy_dm sy)\<lparr> dm_metrics := wk_metrics st \<rparr> \<rparr>)"
proof -
  let ?fs = "qw_fs (sy_queue sy)"
  obtain r st1 fs1 where run: "store_job je job n (shared_worker sy) ?fs = (r, st1, fs1)" by (metis prod_cases3)
  have db: "wk_db (shared_worker sy) = wk_db (sy_worker sy)" by (simp add: shared_worker_def)
  have ok0: "storage_ok (w_sha (je_world je)) (wk_db (shared_worker sy)) ?fs" using ok db sha by (simp add: system_ok_def)
  let ?M = "reader_payloads (sy_readers sy) + mset (map job_payload rest)"
  have fly: "flying_ok sha (sy_seen sy) (used_names pid sy) foreign ?fs (add_mset (job_payload job) ?M)"
    using ok jobs by (simp add: system_ok_def in_flight_def)
  then have "payload_sound (w_sha (je_world je)) (sy_seen sy) (job_payload job) ?fs" using sha by (simp add: flying_ok_def)
  note stored = store_job_sound [OF ok0 this sound run]
  have q: "q = (sy_queue sy)\<lparr> qw_jobs := rest, qw_fs := fs1, qw_budget := budget_release (permit_bytes job) (qw_budget (sy_queue sy)) \<rparr>"
    and st: "wk_db st = wk_db st1"
    using turn jobs run by (auto simp: worker_turn_def split: sum.splits option.splits)
  have "flying_ok sha (sy_seen sy) (used_names pid sy) foreign fs1 ?M"
    using flying_remove [OF fly] stored(2,3) by blast
  moreover have "acct (offered_bytes (sy_readers sy)) q"
  proof -
    have "acct (offered_bytes (sy_readers sy) + permit_bytes job) ((sy_queue sy)\<lparr> qw_jobs := rest \<rparr>)"
      using ok jobs by (simp add: system_ok_def acct_def queue_held_def)
    from acct_drop [OF this] show ?thesis by (simp add: q acct_def drop_job_def queue_held_def)
  qed
  ultimately show ?thesis
    using ok stored(1) sha by (simp add: system_ok_def q st in_flight_def used_names_def)
qed

subsection \<open>A command\<close>

lemma command_keeps:
  assumes ok: "system_ok pid sha foreign sy" and sha: "w_sha (cl_world ce) = sha"
    and sound: "cli_sound ce (wk_db (sy_worker sy)) (qw_fs (sy_queue sy))"
    and run: "cli_dispatch ce args (wk_db (sy_worker sy)) (qw_fs (sy_queue sy)) = (page, act, evs, x, db, fs)"
  shows "system_ok pid sha foreign (sy\<lparr> sy_worker := (sy_worker sy)\<lparr> wk_db := db \<rparr>, sy_queue := (sy_queue sy)\<lparr> qw_fs := fs \<rparr> \<rparr>)"
proof -
  have "storage_ok sha db fs" using command_storage_ok [OF _ sound run] ok sha by (simp add: system_ok_def)
  with ok flying_kept [OF _ command_spools [OF run]] show ?thesis
    by (simp add: system_ok_def in_flight_def used_names_def acct_def queue_held_def)
qed

section \<open>Every step\<close>

lemma step_keeps:
  assumes "system_step pd pid n sha sy sy'" and "system_ok pid sha foreign sy"
  shows "system_ok pid sha foreign sy'"
  using assms
proof cases
  case (sys_thread i te t sy1)
  let ?pre = "take i (sy_readers sy)" and ?post = "drop (Suc i) (sy_readers sy)"
  have split: "sy_readers sy = ?pre @ sy_readers sy ! i # ?post" and len: "length ?pre = i"
    using sys_thread(2) id_take_nth_drop by (auto simp: min_def)
  show ?thesis
  proof (cases "sy_readers sy ! i")
    case (Draining mime)
    with drain_keeps [OF assms(2) split [unfolded Draining] sys_thread(4)] sys_thread(1,5) len show ?thesis
      by (simp add: thread_step_def)
  next
    case (Offering job k)
    with poll_keeps [OF assms(2) split [unfolded Offering]] sys_thread(1,5) len show ?thesis by (simp add: thread_step_def)
  qed
qed (use assms(2) turn_keeps work_keeps command_keeps in auto)

text \<open>The limits the program starts with are never changed.\<close>

definition limits_of :: "system \<Rightarrow> nat \<times> nat \<times> nat" where
  "limits_of sy = (gate_limit (ws_gate (dm_wl (sy_dm sy))), budget_limit (qw_budget (sy_queue sy)), qw_capacity (sy_queue sy))"

lemma dispatch_gate_limit: "gate_limit (ws_gate (dispatch pd ev st)) = gate_limit (ws_gate st)"
proof (cases ev)
  case (SelectionEv a b c)
  then show ?thesis
    by (auto simp: dispatch_def on_selection_def shed_unallocatable_pipe_def gate_try_acquire_def gate_release_def Let_def
        split: option.splits prod.splits)
qed (auto simp: dispatch_def on_global_def on_global_remove_def gate_release_def Let_def)

lemma dispatches_gate_limit: "gate_limit (ws_gate (fold (dispatch pd) evs st)) = gate_limit (ws_gate st)"
  by (induction evs arbitrary: st) (simp_all add: dispatch_gate_limit)

lemma queue_limits:
  "budget_limit (qw_budget (drop_job job w)) = budget_limit (qw_budget w)"
  "offer_poll wait n elapsed job w = (res, job', w') \<Longrightarrow>
     budget_limit (qw_budget w') = budget_limit (qw_budget w) \<and> qw_capacity w' = qw_capacity w"
  by (auto simp: drop_job_def budget_release_def offer_poll_def reserve_for_def try_reserve_def offer_def try_send_def Let_def
      split: option.splits prod.splits send_answer.splits if_splits)

lemma limits_settle [simp]: "limits_of (settle i t sy) = limits_of sy" "limits_of (count_shed sy) = limits_of sy"
  by (simp_all add: limits_of_def settle_def count_shed_def gate_release_def Let_def split: option.splits)

lemma thread_limits: "thread_step pd pid sha te t sy = (t', sy') \<Longrightarrow> limits_of sy' = limits_of sy"
proof (cases t)
  case (Draining mime)
  then show "thread_step pd pid sha te t sy = (t', sy') \<Longrightarrow> ?thesis"
    by (auto simp: thread_step_def thread_drains_def after_drain_def Let_def queue_limits(1) split: prod.splits option.splits if_splits)
      (simp_all add: limits_of_def queue_limits(1))
next
  case (Offering job k)
  obtain res job' q where poll: "offer_poll INGEST_ENQUEUE_WAIT_MS (accounted_bytes job) (te_elapsed te) job (sy_queue sy) = (res, job', q)"
    by (metis prod_cases3)
  have "limits_of (sy\<lparr> sy_queue := q \<rparr>) = limits_of sy" using queue_limits(2) [OF poll] by (simp add: limits_of_def)
  with poll Offering show "thread_step pd pid sha te t sy = (t', sy') \<Longrightarrow> ?thesis"
    by (auto simp: thread_step_def thread_polls_def split: option.splits enqueue_result.splits)
qed

lemma step_limits:
  assumes "system_step pd pid n sha sy sy'" and "globals_ok (dm_wl (sy_dm sy))"
  shows "limits_of sy' = limits_of sy"
  using assms(1)
proof cases
  case (sys_turn le go_on reply dm)
  with turn_state(2) [OF sys_turn(6) assms(2)] show ?thesis by (simp add: limits_of_def dispatches_gate_limit)
next
  case (sys_work job rest je q st)
  then show ?thesis by (auto simp: worker_turn_def limits_of_def budget_release_def split: prod.splits)
qed (auto simp: thread_limits, simp add: limits_of_def)

lemma reach_keeps:
  assumes "system_reach pd pid n sha sy0 sy" and "system_ok pid sha foreign sy0"
  shows "system_ok pid sha foreign sy \<and> limits_of sy = limits_of sy0"
  using assms
proof induction
  case (sys_next sy sy')
  then have ok: "system_ok pid sha foreign sy" "limits_of sy = limits_of sy0" by simp_all
  then have "globals_ok (dm_wl (sy_dm sy))" by (simp add: system_ok_def)
  with step_keeps [OF sys_next.hyps(2) ok(1)] step_limits [OF sys_next.hyps(2)] ok(2) show ?case by simp
qed simp

section \<open>The start\<close>

lemma split_on_last:
  assumes "1 < length (split_on c s)"
  shows "\<exists>q. s = q @ c # last (split_on c s)"
proof -
  let ?ps = "split_on c s"
  have "butlast ?ps \<noteq> []" using assms by (cases ?ps rule: rev_cases) auto
  with join_with_append [of "butlast ?ps" "[last ?ps]" "[c]"] have "join_with [c] ?ps = join_with [c] (butlast ?ps) @ c # last ?ps" by simp
  then show ?thesis using join_split_on [of c s] by auto
qed

lemma last_segment_suffix: "\<exists>q. s = q @ last (split_on c s)"
proof (cases "1 < length (split_on c s)")
  case True
  then show ?thesis using split_on_last [of c s] by (metis append.assoc append_Cons append_Nil)
next
  case False
  moreover have "length (split_on c s) \<noteq> 0" by simp
  ultimately have "length (split_on c s) = 1" by linarith
  then obtain x where x: "split_on c s = [x]" by (auto simp: length_Suc_conv)
  then have "x = s" using join_split_on [of c s] by simp
  with x show ?thesis by (intro exI [of _ "[]"]) simp
qed

lemma extension_suffix:
  assumes "file_extension p = Some e"
  shows "\<exists>q. p = q @ ''.'' @ e"
proof -
  let ?name = "last (path_segments p)"
  have two: "1 < length (split_on CHR ''.'' ?name)" and e: "e = last (split_on CHR ''.'' ?name)"
    using assms by (auto simp: file_extension_def Let_def Suc_lessI split: if_splits)
  obtain q where "?name = q @ CHR ''.'' # e" using split_on_last [OF two] e by blast
  moreover obtain q' where "p = q' @ ?name" using last_segment_suffix [of p] by (auto simp: path_segments_def)
  ultimately show ?thesis by (metis append.assoc append_Cons append_Nil)
qed

lemma orphan_part: "is_orphan alive me p \<Longrightarrow> is_part p"
  using extension_suffix [of p SPOOL_FILE_EXTENSION]
  by (auto simp: is_orphan_def is_part_exists SPOOL_FILE_EXTENSION_def to_str_def bind_eq_Some_conv split: if_splits)

lemma started_facts:
  assumes "sd_daemon (start_daemon pd cfg socket spool_dir se fs) = Some dm"
  obtains evs where "se_globals se = Some evs" "globals_ok (dm_wl dm)" "ws_gate (dm_wl dm) = ws_gate (fold (dispatch pd) evs (new_daemon cfg))"
    "spooler_open (se_alive se) (se_pid se) (se_granted se) (se_spool_entries se) spool_dir (write_file socket [] (remove_file socket fs)) =
       (sd_spooler (start_daemon pd cfg socket spool_dir se fs), sd_fs (start_daemon pd cfg socket spool_dir se fs))"
proof -
  obtain sp fs' where sp: "spooler_open (se_alive se) (se_pid se) (se_granted se) (se_spool_entries se) spool_dir
      (write_file socket [] (remove_file socket fs)) = (sp, fs')" by fastforce
  obtain evs st where evs: "se_globals se = Some evs" "bind_data_device (fold (dispatch pd) evs (new_daemon cfg)) = (True, st)" "dm_wl dm = st"
      "sd_spooler (start_daemon pd cfg socket spool_dir se fs) = sp" "sd_fs (start_daemon pd cfg socket spool_dir se fs) = fs'"
    using assms sp by (auto simp: start_daemon_def serve_setup_def Let_def split: if_splits prod.splits option.splits bool.splits)
  have "globals_ok (new_daemon cfg)" by (simp add: globals_ok_def new_daemon_def)
  from bind_ok [OF dispatches_ok [OF this, of pd evs]] evs have "globals_ok (dm_wl dm)" by simp
  moreover have "ws_gate (dm_wl dm) = ws_gate (fold (dispatch pd) evs (new_daemon cfg))"
  proof -
    have "ws_gate (snd (bind_data_device st)) = ws_gate st" for st by (simp add: bind_data_device_def)
    then show ?thesis using evs(2,3) by (metis snd_conv)
  qed
  ultimately show ?thesis using that evs(1,4,5) sp by simp
qed

lemma spooler_open_effect:
  assumes "spooler_open alive me granted entries dir fs = (sp, fs')"
  shows "\<not> is_part p \<Longrightarrow> fs_files fs' p = fs_files fs p" "sp = Some s \<Longrightarrow> fsp_next s = 0"
  using assms create_dir_all_files [of 448 granted dir fs] orphan_part
  by (auto simp: spooler_open_def sweep_files split: prod.splits bool.splits)

lemma boot_ok:
  fixes pd cfg socket spool_dir se fs db
  defines "sd \<equiv> start_daemon pd cfg socket spool_dir se fs"
  assumes start: "sd_daemon sd = Some dm" and store: "storage_ok sha db fs" and sock: "spool_apart db socket"
    and quiet: "\<forall>evs. se_globals se = Some evs \<longrightarrow> ReaderDone \<notin> set evs"
  shows "system_ok pid sha {p. is_part p \<and> fs_files (sd_fs sd) p \<noteq> None} (boot pd cfg se sd dm db)"
    "limits_of (boot pd cfg se sd dm db) = (INGEST_MAX_CONCURRENT_READERS, INGEST_QUEUE_BYTE_BUDGET, INGEST_QUEUE_CAPACITY)"
proof -
  obtain evs where evs: "se_globals se = Some evs" "globals_ok (dm_wl dm)" "ws_gate (dm_wl dm) = ws_gate (fold (dispatch pd) evs (new_daemon cfg))"
    and open_sp: "spooler_open (se_alive se) (se_pid se) (se_granted se) (se_spool_entries se) spool_dir
      (write_file socket [] (remove_file socket fs)) = (sd_spooler sd, sd_fs sd)"
    using started_facts [OF start [unfolded sd_def]] unfolding sd_def by blast
  note sp = spooler_open_effect [OF open_sp]
  have "storage_ok sha db (sd_fs sd)"
  proof (rule storage_ok_fs_cong [OF store])
    fix h assume "hex_hash h"
    then have "cache_path (db_cache db) h \<noteq> socket" using sock by (simp add: spool_apart_def)
    moreover have "\<not> is_part (cache_path (db_cache db) h)" using cache_path_not_part by blast
    ultimately show "cache_read (db_cache db) h (sd_fs sd) = cache_read (db_cache db) h fs" using sp(1) by (simp add: cache_read_def)
  qed
  moreover have "gate_active (ws_gate (dm_wl dm)) = length (started_readers pd evs (new_daemon cfg))"
    using started_gate [of evs pd "new_daemon cfg"] evs quiet by (simp add: new_daemon_def)
  ultimately show "system_ok pid sha {p. is_part p \<and> fs_files (sd_fs sd) p \<noteq> None} (boot pd cfg se sd dm db)"
    using evs(1,2) sp(2) drain_offers_nothing(1) [of "[]"] drain_offers_nothing(2)
    by (auto simp: system_ok_def boot_def acct_def queue_held_def in_flight_def flying_ok_def used_names_def)
  show "limits_of (boot pd cfg se sd dm db) = (INGEST_MAX_CONCURRENT_READERS, INGEST_QUEUE_BYTE_BUDGET, INGEST_QUEUE_CAPACITY)"
    by (simp add: limits_of_def boot_def evs(3) dispatches_gate_limit) (simp add: new_daemon_def)
qed

section \<open>The running program\<close>


section \<open>Readers end\<close>

lemma poll_result:
  "fst (thread_step pd pid sha te (Offering job k) sy) = None \<or>
     (\<exists>job'. fst (thread_step pd pid sha te (Offering job k) sy) = Some (Offering job' (Suc k)) \<and> te_elapsed te < INGEST_ENQUEUE_WAIT_MS)"
  by (auto simp: thread_step_def thread_polls_def offer_poll_def Let_def split: prod.splits option.splits enqueue_result.splits send_answer.splits if_splits)

lemma polls_end:
  assumes "\<forall>i < length envs. (k + i) * INGEST_ENQUEUE_POLL_MS \<le> te_elapsed (fst (envs ! i))" and "k \<le> 400" and "400 < k + length envs"
  shows "thread_run pd pid sha (Offering job k) envs = None"
  using assms
proof (induction envs arbitrary: job k)
  case (Cons e envs)
  obtain te sy where e: "e = (te, sy)" by fastforce
  have now: "k * INGEST_ENQUEUE_POLL_MS \<le> te_elapsed te" using Cons.prems(1) e by force
  have later: "\<forall>i < length envs. (Suc k + i) * INGEST_ENQUEUE_POLL_MS \<le> te_elapsed (fst (envs ! i))"
    using Cons.prems(1) by (metis Suc_less_eq add_Suc_shift length_Cons nth_Cons_Suc)
  show ?case
  proof (cases "fst (thread_step pd pid sha te (Offering job k) sy)")
    case (Some t)
    with poll_result [of pd pid sha te job k sy] obtain job' where t: "t = Offering job' (Suc k)" "te_elapsed te < INGEST_ENQUEUE_WAIT_MS" by auto
    then have "k < 400" using now by (simp add: INGEST_ENQUEUE_WAIT_MS_def INGEST_ENQUEUE_POLL_MS_def)
    then show ?thesis using Cons.IH [OF later, of job'] Cons.prems(3) Some t(1) e by simp
  qed (simp add: e)
qed simp


subsection \<open>A run\<close>

definition greeting_env :: start_env where
  "greeting_env = \<lparr> se_old = False, se_bind = True, se_compositor = True, se_read_db = True,
     se_globals = Some [Global 1 INTERFACE_MANAGER 1, Global 2 INTERFACE_SEAT 9], se_clock = 0, se_alive = (\<lambda>_. False), se_pid = 7,
     se_granted = 9, se_spool_entries = [] \<rparr>"

definition greeting_wl :: wayland_state where
  "greeting_wl = (new_daemon default_config)\<lparr> ws_manager := True, ws_manager_id := Some 1, ws_seat := True, ws_seat_id := Some 2, ws_device := True \<rparr>"

definition greeting_daemon :: daemon where
  "greeting_daemon = \<lparr> dm_wl = greeting_wl, dm_metrics = metrics_new 0, dm_exiting = False, dm_selection = None \<rparr>"

definition greeting_started :: started where
  "greeting_started = start_daemon (\<lambda>d. d) default_config ''/s'' ''/c/spool'' greeting_env empty_fs"

lemma greeting_started: "sd_daemon greeting_started = Some greeting_daemon"
  "sd_spooler greeting_started = Some \<lparr> fsp_dir = ''/c/spool'', fsp_next = 0 \<rparr>"
proof -
  have dirs: "fst (create_dir_all 448 9 ''/c/spool'' f)" for f
    by (simp add: create_dir_all_def missing_dirs_def)
  show "sd_daemon greeting_started = Some greeting_daemon" "sd_spooler greeting_started = Some \<lparr> fsp_dir = ''/c/spool'', fsp_next = 0 \<rparr>"
    using dirs [of "write_file ''/s'' [] (remove_file ''/s'' empty_fs)"]
    by (auto simp: greeting_started_def start_daemon_def serve_setup_def greeting_env_def greeting_daemon_def greeting_wl_def spooler_open_def
        sweep_stale_def Let_def dispatch_def on_global_def bind_data_device_def new_daemon_def INTERFACE_MANAGER_def INTERFACE_SEAT_def
        split: prod.splits bool.splits)
qed

definition greeting_le :: loop_env where
  "greeting_le = idle_env\<lparr> le_events := [SelectionEv True True (Some [''text/plain''])], le_fs := sd_fs greeting_started \<rparr>"

definition greeting_te :: thread_env where
  "greeting_te = \<lparr> te_reader = hello_reader, te_os = calm_spool, te_elapsed = 0 \<rparr>"

lemma greeting_ingest:
  "ingest_job (\<lambda>d. d) hello_reader ''text/plain'' sp fs = (Some (job_new ''text/plain'' ''hello''), fs)"
  "\<not> spool_called hello_reader ''text/plain''"
proof -
  have label: "is_text_like_mime ''text/plain''" "\<not> mime_base_eq ''text/plain'' MIME_URI_LIST" "detect_image_mime ''hello'' = None"
    by code_simp+
  show "ingest_job (\<lambda>d. d) hello_reader ''text/plain'' sp fs = (Some (job_new ''text/plain'' ''hello''), fs)"
    using label by (simp add: hello_reader_def ingest_job_def drain_pipe_def route_payload_def read_pipe_payload_def read_bounded_def
        normalise_payload_def sat_add_def u64_max_def MAX_PAYLOAD_BYTES_def)
  show "\<not> spool_called hello_reader ''text/plain''" using label by (simp add: spool_called_def route_payload_def)
qed

lemma greeting_selection:
  "on_selection (\<lambda>d. d) True True (\<lambda>_. []) (Some [''text/plain'']) greeting_wl =
     (greeting_wl\<lparr> ws_selection_received := True, ws_gate := \<lparr> gate_active = 1, gate_limit = INGEST_MAX_CONCURRENT_READERS \<rparr> \<rparr>, Some ''text/plain'')"
proof -
  have "\<not> is_sensitive [''text/plain'']" "select_mime [''text/plain''] None (should_drop_rtf default_config) = Some ''text/plain''" by code_simp+
  then show ?thesis
    by (simp add: on_selection_def greeting_wl_def new_daemon_def gate_try_acquire_def INGEST_MAX_CONCURRENT_READERS_def)
qed

lemma greeting_reach:
  "\<exists>sy. system_reach (\<lambda>d. d) 7 3 (\<lambda>d. d) (boot (\<lambda>d. d) default_config greeting_env greeting_started greeting_daemon fresh_db) sy \<and>
     sy_readers sy = [] \<and> qw_jobs (sy_queue sy) = [(job_new ''text/plain'' ''hello'')\<lparr> job_permit := Some 5 \<rparr>]"
proof -
  let ?sy0 = "boot (\<lambda>d. d) default_config greeting_env greeting_started greeting_daemon fresh_db"
  let ?step = "system_step (\<lambda>d. d) 7 3 (\<lambda>d. d)"
  obtain go_on reply dm where turn: "daemon_turn (\<lambda>d. d) (wk_db (sy_worker ?sy0)) greeting_le (sy_dm ?sy0) = (go_on, reply, dm)"
    by (metis prod_cases3)
  define sy1 where "sy1 = ?sy0\<lparr> sy_dm := dm, sy_serving := go_on, sy_readers := [Draining ''text/plain''] \<rparr>"
  have "?step ?sy0 sy1"
    using sys_turn [of ?sy0 greeting_le "\<lambda>d. d" go_on reply dm 7 3 "\<lambda>d. d"] turn greeting_selection
    by (simp add: sy1_def boot_def greeting_le_def idle_env_def greeting_env_def greeting_daemon_def dispatch_def on_global_def new_daemon_def
        INTERFACE_MANAGER_def INTERFACE_SEAT_def)
  moreover have q: "sy_queue sy1 = sy_queue ?sy0" "sy_readers sy1 = [Draining ''text/plain'']" "sy_spooler sy1 = sy_spooler ?sy0" by (simp_all add: sy1_def)
  let ?job = "job_new ''text/plain'' ''hello''"
  define sy2 where "sy2 = settle 0 (Some (Offering ?job 0)) (after_drain 7 hello_reader ''text/plain'' (qw_fs (sy_queue sy1)) sy1)"
  have room: "\<forall>s. sy_spooler ?sy0 = Some s \<longrightarrow> fsp_next s < u64_max" by (simp add: boot_def greeting_started u64_max_def)
  have bytes: "accounted_bytes ?job = 5" by (simp add: accounted_bytes_def job_new_def payload_len_hint_def u64_max_def)
  have "thread_step (\<lambda>d. d) 7 (\<lambda>d. d) greeting_te (sy_readers sy1 ! 0) sy1 =
      (Some (Offering ?job 0), after_drain 7 hello_reader ''text/plain'' (qw_fs (sy_queue sy1)) sy1)"
    using q bytes by (simp add: thread_step_def thread_drains_def greeting_te_def greeting_ingest boot_def INGEST_QUEUE_BYTE_BUDGET_def Let_def)
  then have "?step sy1 sy2"
    using sys_thread [of 0 sy1 greeting_te "\<lambda>d. d" 7 "\<lambda>d. d"] q room by (simp add: sy2_def)
  moreover have q2: "sy_readers sy2 = [Offering ?job 0]" "sy_spooler sy2 = sy_spooler ?sy0" "sy_queue sy2 = sy_queue ?sy0"
    using q greeting_ingest(2) by (simp_all add: sy2_def settle_def after_drain_def)
  define q3 where "q3 = (sy_queue ?sy0)\<lparr> qw_jobs := [?job\<lparr> job_permit := Some 5 \<rparr>], qw_budget := \<lparr> budget_used = 5, budget_limit = INGEST_QUEUE_BYTE_BUDGET \<rparr> \<rparr>"
  have "thread_step (\<lambda>d. d) 7 (\<lambda>d. d) greeting_te (sy_readers sy2 ! 0) sy2 = (None, sy2\<lparr> sy_queue := q3 \<rparr>)"
    using q2 bytes
    by (simp add: thread_step_def thread_polls_def offer_poll_def reserve_for_def offer_def try_send_def try_reserve_def checked_add_def q3_def
        boot_def job_new_def INGEST_QUEUE_BYTE_BUDGET_def INGEST_QUEUE_CAPACITY_def u64_max_def)
  then have "?step sy2 (settle 0 None (sy2\<lparr> sy_queue := q3 \<rparr>))"
    using sys_thread [of 0 sy2 greeting_te "\<lambda>d. d" 7 "\<lambda>d. d"] q2 room by simp
  ultimately have "system_reach (\<lambda>d. d) 7 3 (\<lambda>d. d) ?sy0 (settle 0 None (sy2\<lparr> sy_queue := q3 \<rparr>))"
    by (meson sys_next sys_start)
  then show ?thesis using q2 by (intro exI conjI) (assumption, simp_all add: settle_def q3_def Let_def)
qed



end
