(* ===== verification/RowTypes.thy ===== *)
theory RowTypes
  imports DbProps
begin

text \<open>
  What the columns of the \<^verbatim>\<open>clipboard\<close> table hold (\<^verbatim>\<open>crates/storage/src/db.rs\<close>). SQLite checks no column types, and reading a \<^verbatim>\<open>TEXT\<close> value
  that is not UTF-8 into a \<^verbatim>\<open>String\<close> is an error; so what every reader of a row relies on is a property of the writers.
\<close>

section \<open>Replacing line feeds keeps the characters\<close>

definition nl_space :: "byte \<Rightarrow> byte" where
  "nl_space c = (if c = CHR 0x0A then CHR '' '' else c)"

lemma newline_map: "newline_to_space s = map nl_space s"
  by (simp add: newline_to_space_def nl_space_def)

lemma nl_space_class:
  "utf8_width (nl_space c) = utf8_width c" "is_cont (nl_space c) = is_cont c" "second_ok a (nl_space c) = second_ok a c"
  "second_ok (nl_space a) b = second_ok a b"
  by (simp_all add: nl_space_def utf8_width_def is_cont_def second_ok_def byte_val_def Let_def)

lemma utf8_next_nl: "utf8_next (map nl_space s) = utf8_next s"
  by (cases s) (auto simp: nl_space_class split: list.splits)

lemma utf8_chunks_nl: "utf8_chunks (newline_to_space s) = map (\<lambda>(ok, p). (ok, newline_to_space p)) (utf8_chunks s)"
proof (induction s rule: utf8_chunks.induct)
  case (2 a s)
  let ?n = "step_len (utf8_next (a # s))"
  have next_nl: "utf8_next (nl_space a # map nl_space s) = utf8_next (a # s)" using utf8_next_nl [of "a # s"] by (simp only: list.map(2))
  have "take ?n (nl_space a # map nl_space s) = map nl_space (take ?n (a # s))"
    "drop ?n (nl_space a # map nl_space s) = map nl_space (drop ?n (a # s))"
    by (simp_all only: list.map(2) [symmetric] take_map drop_map)
  with 2 [OF refl] next_nl show ?case
    by (simp only: newline_map list.map(2) utf8_chunks.simps(2) Let_def prod.case)
qed (simp add: newline_map)

lemma newline_to_space_str:
  "valid_utf8 (newline_to_space s) = valid_utf8 s" "length (str_chars (newline_to_space s)) = length (str_chars s)" "CHR 0x0A \<notin> set (newline_to_space s)"
  by (auto simp: valid_utf8_def str_chars_def utf8_chunks_nl list_all_iff) (auto simp: newline_to_space_def)

section \<open>Well-typed rows\<close>

definition preview_typed :: "string \<Rightarrow> string option \<Rightarrow> bool" where
  "preview_typed mime preview \<longleftrightarrow>
     (\<forall>p. preview = Some p \<longrightarrow>
        is_text_like_mime mime \<and> valid_utf8 p \<and> CHR 0x0A \<notin> set p \<and> length (str_chars p) \<le> PREVIEW_CHARS)"

definition content_typed :: "clip_row \<Rightarrow> bool" where
  "content_typed r \<longleftrightarrow>
     (case r_content r of
        CText d \<Rightarrow> \<not> r_chunked r \<and> r_size r = int (length d) \<and> is_text_like_mime (r_mime r) \<and> valid_utf8 d
      | CBlob d \<Rightarrow> \<not> r_chunked r \<and> r_size r = int (length d) \<and> \<not> is_cache_class (r_mime r) \<and> \<not> (is_text_like_mime (r_mime r) \<and> valid_utf8 d)
      | CNull \<Rightarrow> r_chunked r \<longrightarrow> is_chunkable (r_mime r) (nat (r_size r)))"

definition row_typed :: "clip_row \<Rightarrow> bool" where
  "row_typed r \<longleftrightarrow> 0 < r_id r \<and> r_id r \<le> i64_max \<and> 0 < r_size r \<and> r_hash r \<noteq> None \<and>
     preview_typed (r_mime r) (r_preview r) \<and> content_typed r"

definition store_typed :: "sqlite_store \<Rightarrow> bool" where
  "store_typed s \<longleftrightarrow> 0 \<le> last_seq s \<and> last_seq s \<le> i64_max \<and> (\<forall>r \<in> set (clipboard s). row_typed r)"

lemma row_preview_typed: "preview_typed mime (row_preview mime data)"
proof -
  let ?t = "from_utf8_lossy (if is_html_mime mime then strip_html_tags data else data)"
  have "valid_utf8 (concat (take PREVIEW_CHARS (str_chars ?t)))" "str_chars (concat (take PREVIEW_CHARS (str_chars ?t))) = take PREVIEW_CHARS (str_chars ?t)"
    by (rule valid_take_chars, simp)+
  then show ?thesis by (auto simp: preview_typed_def row_preview_def Let_def newline_to_space_str)
qed

lemma row_typed_update [simp]:
  "row_typed (r\<lparr> r_ts := ts \<rparr>) = row_typed r" "row_typed (r\<lparr> r_pinned := pin \<rparr>) = row_typed r"
  by (cases "r_content r"; simp add: row_typed_def content_typed_def)+

lemma fresh_bytes_typed:
  assumes "row_parts mime data (is_cache_class mime) = (preview, content)" and "0 < rid" "rid \<le> i64_max" and "data \<noteq> []"
  shows "row_typed (fresh_row rid ts mime (int (length data)) preview content hash)"
  using assms row_preview_typed [of mime data]
  by (auto simp: row_typed_def content_typed_def fresh_row_def row_parts_def)

lemma fresh_detached_typed:
  "0 < rid \<Longrightarrow> rid \<le> i64_max \<Longrightarrow> 0 < len \<Longrightarrow> row_typed (fresh_row rid ts mime (int len) None NoContent hash)"
  by (simp add: row_typed_def content_typed_def fresh_row_def preview_typed_def)

lemma place_typed:
  assumes typed: "store_typed s" and placed: "place_record sha fails ts mime body hash s = Inr (rid, s')" and len: "0 < body_len body"
  shows "store_typed s'"
proof (cases "if fails StFind then None else find_hash hash s")
  case (Some k)
  with placed typed show ?thesis by (auto simp: place_record_def touch_row_def store_typed_def split: if_splits)
next
  case None
  obtain preview content where parts: "(case body of Detached _ \<Rightarrow> (None, NoContent) | Bytes data \<Rightarrow> row_parts mime data (is_cache_class mime)) = (preview, content)"
    by fastforce
  obtain s1 where ins: "insert_row fails ts mime (body_len body) preview content hash s = Inr (rid, s1)"
    and rows: "clipboard s' = clipboard s1" "last_seq s' = last_seq s1"
    using placed None parts by (cases content) (auto simp: place_record_def try_bind_Inr_iff with_chunks_def)
  have rid: "rid = last_seq s + 1" "rid \<le> i64_max" and s1: "clipboard s1 = clipboard s @ [fresh_row rid ts mime (body_len body) preview content hash]" "last_seq s1 = rid"
    using ins by (auto simp: insert_row_def Let_def split: if_splits)
  have "row_typed (fresh_row rid ts mime (body_len body) preview content hash)"
  proof (cases body)
    case (Bytes data)
    with fresh_bytes_typed [of mime data preview content rid ts hash] parts rid len typed show ?thesis
      by (simp add: body_len_def store_typed_def)
  next
    case (Detached n)
    with fresh_detached_typed [of rid n] parts rid len typed show ?thesis by (auto simp: body_len_def store_typed_def)
  qed
  with typed rows s1 rid show ?thesis by (auto simp: store_typed_def)
qed

lemma rotate_typed:
  assumes "rotate_rows ord fails n s = Inr (hs, s')" and "store_typed s"
  shows "store_typed s'"
  using assms by (auto simp: rotate_rows_def with_chunks_def delete_rows_def store_typed_def try_bind_Inr_iff Let_def split: if_splits)

lemma upsert_typed:
  assumes "store_typed s" and "0 < body_len body"
  shows "store_typed (snd (upsert sha ord fails now mime body hash n s))"
proof (cases "upsert sha ord fails now mime body hash n s")
  case (Pair res s')
  show ?thesis
  proof (cases res)
    case (Inl e)
    with Pair upsert_Inl assms(1) show ?thesis by (metis snd_conv)
  next
    case (Inr out)
    then obtain rid s1 hs where "place_record sha fails now mime body hash s = Inr (rid, s1)" "rotate_rows ord fails n s1 = Inr (hs, s')"
      using Pair by (auto simp: upsert_def try_bind_Inr_iff split: sum.splits prod.splits if_splits)
    then show ?thesis using place_typed [OF assms(1) _ assms(2)] rotate_typed Pair by simp
  qed
qed

lemma db_step_typed: "db_step sha ord s s' \<Longrightarrow> store_typed s \<Longrightarrow> store_typed s'"
proof (induction rule: db_step.induct)
  case (step_record data s fails now mime hash n)
  then show ?case using upsert_typed [of s "Bytes data"] by (auto simp: upsert_record_def is_skipped_def body_len_def)
next
  case (step_detached s fails now mime len hash n)
  then show ?case using upsert_typed [of s "Detached len"] by (auto simp: upsert_detached_def is_skipped_def body_len_def)
next
  case (step_delete fails s rid)
  then show ?case
    by (auto simp: delete_by_id_def with_chunks_def delete_rows_def store_typed_def try_bind_def Let_def split: sum.splits prod.splits option.splits)
qed (auto simp: update_timestamp_def touch_row_def store_wipe_def set_pinned_def store_typed_def)



end
