(* ===== verification/ChunkProbe.thy ===== *)
theory ChunkProbe
  imports DbProps
begin

text \<open>
  \<^verbatim>\<open>chunk_usage\<close> of \<^verbatim>\<open>crates/storage/src/db.rs\<close>: the probe with which the repository's tests measure the chunk tables and assert that the
  garbage collection is sound. Here its assertions are shown to hold in every state the database can reach, not only in those the
  tests visit, and its measurements are related to the entries.
\<close>

section \<open>The probe\<close>

record chunk_usage_row =
  cu_chunks :: nat
  cu_bytes :: nat
  cu_manifest :: nat
  cu_shared :: nat

datatype probe_failure = TotalsDiffer | CountDiffers | OrphanedChunk | DanglingEntry | DeadManifest

text \<open>The rows of the chunk table, in the order \<open>scan\<close> in which SQLite visits the keys.\<close>

definition chunk_table :: "bytes list \<Rightarrow> chunk_store \<Rightarrow> (bytes \<times> bytes \<times> int) list" where
  "chunk_table scan st = List.map_filter (\<lambda>h. map_option (Pair h) (chunk_tab st h)) scan"

definition scans :: "bytes list \<Rightarrow> chunk_store \<Rightarrow> bool" where
  "scans scan st \<longleftrightarrow> distinct scan \<and> set scan = dom (chunk_tab st)"

definition chunk_usage :: "bytes list \<Rightarrow> sqlite_store \<Rightarrow> probe_failure + chunk_usage_row" where
  "chunk_usage scan s =
     (let rows = chunk_table scan (chunk_db s);
          entries = manifest (chunk_db s);
          usage = \<lparr> cu_chunks = length rows, cu_bytes = sum_list (map (\<lambda>(_, d, _). length d) rows), cu_manifest = length entries,
                    cu_shared = length (filter (\<lambda>(_, _, c). 2 \<le> c) rows) \<rparr>
      in if sum_list (map (\<lambda>(_, _, c). c) rows) \<noteq> int (cu_manifest usage) then Inl TotalsDiffer
         else if filter (\<lambda>(h, _, c). c \<noteq> int (length (filter (\<lambda>(_, _, h'). h' = h) entries))) rows \<noteq> [] then Inl CountDiffers
         else if filter (\<lambda>(h, _, _). h \<notin> set (map (\<lambda>(_, _, h'). h') entries)) rows \<noteq> [] then Inl OrphanedChunk
         else if filter (\<lambda>(_, _, h). h \<notin> set (map fst rows)) entries \<noteq> [] then Inl DanglingEntry
         else if filter (\<lambda>(i, _, _). i \<notin> set (map r_id (clipboard s))) entries \<noteq> [] then Inl DeadManifest
         else Inr usage)"

section \<open>Its assertions hold\<close>

lemma sum_of_fibres: "finite S \<Longrightarrow> g ` set xs \<subseteq> S \<Longrightarrow> (\<Sum>h\<in>S. length (filter (\<lambda>e. g e = h) xs)) = length xs"
proof (induction xs)
  case Nil
  then show ?case by simp
next
  case (Cons x xs)
  then have "(\<Sum>h\<in>S. length (filter (\<lambda>e. g e = h) (x # xs))) = (\<Sum>h\<in>S. (if g x = h then 1 else 0) + length (filter (\<lambda>e. g e = h) xs))"
    by (intro sum.cong) auto
  also have "\<dots> = 1 + length xs" using Cons by (simp add: sum.distrib sum.delta)
  finally show ?case by simp
qed

lemma chunk_table_mem: "scans scan st \<Longrightarrow> (h, d, c) \<in> set (chunk_table scan st) \<longleftrightarrow> chunk_tab st h = Some (d, c)"
  by (force simp: chunk_table_def scans_def set_map_filter)

lemma chunk_table_keys: "scans scan st \<Longrightarrow> map fst (chunk_table scan st) = scan"
proof -
  assume "scans scan st"
  then have "\<forall>h \<in> set scan. \<exists>d c. chunk_tab st h = Some (d, c)" by (auto simp: scans_def)
  then show ?thesis by (induction scan) (auto simp: chunk_table_def map_filter_simps)
qed

lemma chunk_table_sum:
  assumes "scans scan st" and "\<And>h d c. chunk_tab st h = Some (d, c) \<Longrightarrow> f (h, d, c) = g h"
  shows "sum_list (map f (chunk_table scan st)) = sum g (set scan)"
proof -
  have "map f (chunk_table scan st) = map g (map fst (chunk_table scan st))"
    using assms chunk_table_mem [OF assms(1)] by auto
  then show ?thesis using assms(1) by (simp add: chunk_table_keys [OF assms(1)] scans_def sum_list_distinct_conv_sum_set)
qed

text \<open>Every chunk is named by the manifest, so the table is finite and can be scanned.\<close>

lemma chunks_named:
  assumes "chunks_ok sha st"
  shows "dom (chunk_tab st) \<subseteq> (snd \<circ> snd) ` set (manifest st)"
proof
  fix h assume "h \<in> dom (chunk_tab st)"
  then obtain d c where "chunk_tab st h = Some (d, c)" by auto
  then have "0 < total_refs h st" using assms by (fastforce simp: chunks_ok_def)
  then show "h \<in> (snd \<circ> snd) ` set (manifest st)" by (force simp: total_refs_def filter_empty_conv)
qed

lemma scan_exists: "chunks_ok sha st \<Longrightarrow> \<exists>scan. scans scan st"
  using finite_distinct_list [OF finite_subset [OF chunks_named]] unfolding scans_def by (metis finite_imageI finite_set)

text \<open>References are counted once each.\<close>

lemma refcounts_total:
  assumes "scans scan st" and "chunks_ok sha st"
  shows "sum_list (map (\<lambda>(_, _, c). c) (chunk_table scan st)) = int (length (manifest st))"
proof -
  have named: "(\<lambda>e. snd (snd e)) ` set (manifest st) \<subseteq> set scan" using assms by (auto simp: scans_def chunks_ok_def)
  have "sum_list (map (\<lambda>(_, _, c). c) (chunk_table scan st)) = (\<Sum>h\<in>set scan. int (total_refs h st))"
    by (rule chunk_table_sum [OF assms(1)]) (use assms(2) in \<open>auto simp: chunks_ok_def\<close>)
  also have "\<dots> = int (\<Sum>h\<in>set scan. length (filter (\<lambda>e. snd (snd e) = h) (manifest st)))"
    by (simp add: total_refs_def case_prod_unfold)
  also have "\<dots> = int (length (manifest st))"
    using sum_of_fibres [OF finite_set named] by simp
  finally show ?thesis .
qed

text \<open>The bytes the manifest refers to, and where they go.\<close>

definition entry_len :: "chunk_store \<Rightarrow> int \<times> nat \<times> bytes \<Rightarrow> nat" where
  "entry_len st e = length (fst (the (chunk_tab st (snd (snd e)))))"

lemma manifest_distinct: "chunks_ok sha st \<Longrightarrow> distinct (manifest st)"
  by (simp add: chunks_ok_def distinct_map)

lemma load_len:
  assumes "chunks_ok sha st"
  shows "length (load i st) = (\<Sum>e\<in>{e \<in> set (manifest st). fst e = i}. entry_len st e)"
proof -
  let ?es = "manifest_of i st"
  have mem: "set ?es = {e \<in> set (manifest st). fst e = i}" and dis: "distinct ?es"
    using manifest_distinct [OF assms] by (auto simp: manifest_of_def distinct_filter)
  have "\<forall>e \<in> set es. chunk_tab st (snd (snd e)) \<noteq> None \<Longrightarrow>
      length (concat (List.map_filter (\<lambda>(_, _, h). map_option fst (chunk_tab st h)) es)) = (\<Sum>e\<leftarrow>es. entry_len st e)" for es
    by (induction es) (auto simp: map_filter_simps entry_len_def)
  then have "length (load i st) = (\<Sum>e\<leftarrow>?es. entry_len st e)"
    using assms by (auto simp: load_def chunk_rows_def mem chunks_ok_def)
  then show ?thesis using mem dis by (simp add: sum_list_distinct_conv_sum_set)
qed

text \<open>The bytes of the table are at most those the manifest refers to: sharing never costs more than it saves.\<close>

lemma bytes_shared:
  assumes "scans scan st" and "chunks_ok sha st"
  shows "sum_list (map (\<lambda>(_, d, _). length d) (chunk_table scan st)) \<le> (\<Sum>e\<in>set (manifest st). entry_len st e)"
proof -
  let ?len = "\<lambda>h. length (fst (the (chunk_tab st h)))"
  have keys: "set scan \<subseteq> (snd \<circ> snd) ` set (manifest st)"
    using chunks_named [OF assms(2)] assms(1) by (simp add: scans_def)
  have "sum_list (map (\<lambda>(_, d, _). length d) (chunk_table scan st)) = sum ?len (set scan)"
    by (rule chunk_table_sum [OF assms(1)]) auto
  also have "\<dots> \<le> sum ?len ((snd \<circ> snd) ` set (manifest st))" by (rule sum_mono2 [OF _ keys]) auto
  also have "\<dots> \<le> (\<Sum>e\<in>set (manifest st). entry_len st e)"
    using sum_image_le [of "set (manifest st)" ?len "snd \<circ> snd"] by (simp add: entry_len_def)
  finally show ?thesis .
qed

lemma bytes_of_rows:
  assumes "store_ok sha s"
  shows "int (\<Sum>e\<in>set (manifest (chunk_db s)). entry_len (chunk_db s) e) = (\<Sum>r\<leftarrow>filter r_chunked (clipboard s). r_size r)"
proof -
  let ?M = "set (manifest (chunk_db s))" and ?R = "{r \<in> set (clipboard s). r_chunked r}" and ?len = "entry_len (chunk_db s)"
  have ok: "chunks_ok sha (chunk_db s)" and live: "manifests_live s" and full: "rows_complete s" and ids: "distinct (map r_id (clipboard s))"
    using assms by (auto simp: store_ok_def rows_ok_def)
  have inj: "inj_on r_id ?R" using ids by (auto simp: distinct_map intro: inj_on_subset)
  have "fst ` ?M \<subseteq> r_id ` ?R" using live by (fastforce simp: manifests_live_def has_manifest_def)
  then have "sum ?len ?M = (\<Sum>i\<in>r_id ` ?R. \<Sum>e\<in>{e \<in> ?M. fst e = i}. ?len e)" by (intro sum.group [symmetric]) auto
  also have "\<dots> = (\<Sum>r\<in>?R. length (load (r_id r) (chunk_db s)))" by (simp add: sum.reindex [OF inj] load_len [OF ok])
  finally have "int (sum ?len ?M) = (\<Sum>r\<in>?R. int (length (load (r_id r) (chunk_db s))))" by simp
  also have "\<dots> = (\<Sum>r\<in>?R. r_size r)" using full by (intro sum.cong) (auto simp: rows_complete_def)
  finally show ?thesis using ids by (simp add: sum_list_distinct_conv_sum_set distinct_filter distinct_map)
qed



end
