(* ===== verification/Interleaved.thy ===== *)
theory Interleaved
  imports StorageOps
begin

text \<open>
  Several processes on one storage: the daemon and the commands run beside it each have a \<^verbatim>\<open>ClipboardDb\<close> (\<^verbatim>\<open>crates/storage/src/lib.rs\<close>) on the
  same tables and the same cache directory. SQLite makes a transaction atomic, but an operation that also touches the cache consists of several
  steps, between which other processes act. The operations of the facade are cut at exactly these places; run alone, a task does what the
  facade's operation does. Shown are what every interleaving keeps, what those keep in which no two unfinished operations concern the same
  fingerprint, and that two that do can lose a payload.
\<close>

section \<open>Tasks and their steps\<close>

datatype storage_task =
    TaskDone
  | Spooling string spooled_file
  | Attaching string nat string adoption
  | Undoing string
  | Saving string bytes
  | Caching string bytes "string list"
  | Deleting int
  | Unlinking "string list"
  | Wiping "(path \<Rightarrow> bool) list" "(path \<Rightarrow> bool) option" nat nat
  | Clearing "(path \<Rightarrow> bool) list" "(path \<Rightarrow> bool) option" nat nat
  | Touching int
  | Pinning int bool

text \<open>
  \<open>Spooling\<close> is \<^verbatim>\<open>insert_spooled\<close> of a detachable payload before \<^verbatim>\<open>adopt\<close>, \<open>Attaching\<close> before its transaction, \<open>Undoing\<close> after that failed; \<open>Saving\<close> is
  \<^verbatim>\<open>insert_with_hash\<close> before its transaction, \<open>Caching\<close> before the file is written; \<open>Deleting\<close> is \<^verbatim>\<open>delete_by_id\<close>; \<open>Unlinking\<close> has files left to remove; \<open>Wiping\<close> is \<^verbatim>\<open>wipe\<close> and
  \<open>Clearing\<close> the same after its transaction. \<^verbatim>\<open>remove_dir_all\<close> removes file by file: the predicates of the list say what each round but the last leaves, and the other
  arguments are those of \<^verbatim>\<open>clear\<close>. \<open>Touching\<close> and \<open>Pinning\<close> are \<^verbatim>\<open>update_timestamp\<close> and \<^verbatim>\<open>set_pin_by_id\<close>, one statement each.
\<close>

fun task_step :: "world \<Rightarrow> nat \<Rightarrow> storage_task \<Rightarrow> clipboard_db \<Rightarrow> fsys \<Rightarrow> storage_task \<times> clipboard_db \<times> fsys" where
  "task_step w n TaskDone db fs = (TaskDone, db, fs)"
| "task_step w n (Spooling mime sp) db fs =
     (case adopt (w_os w) (db_cache db) (hex_digest sp) (sp_path sp) fs of
        (Inl e, fs1) \<Rightarrow> (TaskDone, db, spooled_drop sp fs1)
      | (Inr how, fs1) \<Rightarrow>
          (Attaching mime (sp_len sp) (hex_digest sp) how, db,
           case how of Placed \<Rightarrow> snd (spooled_into_path sp fs1) | Present \<Rightarrow> spooled_drop sp fs1))"
| "task_step w n (Attaching mime len hash how) db fs =
     (case upsert_detached (w_sha w) (w_ord w) (w_fails w) (w_now w) mime len hash n (db_store db) of
        (Inl e, s') \<Rightarrow> (if how = Placed then Undoing hash else TaskDone, db\<lparr> db_store := s' \<rparr>, fs)
      | (Inr out, s') \<Rightarrow> (Unlinking (expired_hashes out), db\<lparr> db_store := s' \<rparr>, fs))"
| "task_step w n (Undoing hash) db fs = (TaskDone, db, cache_remove (w_os w) (db_cache db) hash fs)"
| "task_step w n (Saving mime data) db fs =
     (let hash = to_hex (w_sha w data)
      in case upsert_record (w_sha w) (w_ord w) (w_fails w) (w_now w) mime data hash n (db_store db) of
           (Inl e, s') \<Rightarrow> (TaskDone, db\<lparr> db_store := s' \<rparr>, fs)
         | (Inr out, s') \<Rightarrow>
             (if real_id out = - 1 then TaskDone
              else if is_image out then Caching hash data (expired_hashes out) else Unlinking (expired_hashes out),
              db\<lparr> db_store := s' \<rparr>, fs))"
| "task_step w n (Caching hash data hs) db fs = (Unlinking hs, db, snd (cache_store (w_os w) (db_cache db) hash data fs))"
| "task_step w n (Deleting rid) db fs =
     (case delete_by_id (w_fails w) rid (db_store db) of
        (Inl e, s') \<Rightarrow> (TaskDone, db\<lparr> db_store := s' \<rparr>, fs)
      | (Inr (deleted, hash), s') \<Rightarrow>
          (case hash of Some h \<Rightarrow> Unlinking [h] | None \<Rightarrow> TaskDone, db\<lparr> db_store := s' \<rparr>, fs))"
| "task_step w n (Unlinking []) db fs = (TaskDone, db, fs)"
| "task_step w n (Unlinking (h # hs)) db fs = (Unlinking hs, db, cache_remove (w_os w) (db_cache db) h fs)"
| "task_step w n (Wiping rounds rm mode granted) db fs =
     (case store_wipe (w_fails w) (db_store db) of
        (Inl e, s') \<Rightarrow> (TaskDone, db\<lparr> db_store := s' \<rparr>, fs)
      | (Inr _, s') \<Rightarrow> (Clearing rounds rm mode granted, db\<lparr> db_store := s' \<rparr>, fs))"
| "task_step w n (Clearing [] rm mode granted) db fs = (TaskDone, db, snd (cache_clear rm mode granted (db_cache db) fs))"
| "task_step w n (Clearing (left # rounds) rm mode granted) db fs =
     (Clearing rounds rm mode granted, db, remove_tree (cache_dir (db_cache db)) left fs)"
| "task_step w n (Touching rid) db fs = (TaskDone, snd (db_update_timestamp w rid db), fs)"
| "task_step w n (Pinning rid pin) db fs = (TaskDone, snd (set_pin_by_id w rid pin db), fs)"

text \<open>A task alone, to its end.\<close>

fun task_run :: "world \<Rightarrow> nat \<Rightarrow> nat \<Rightarrow> storage_task \<times> clipboard_db \<times> fsys \<Rightarrow> storage_task \<times> clipboard_db \<times> fsys" where
  "task_run w n 0 c = c"
| "task_run w n (Suc k) c = (case c of (t, db, fs) \<Rightarrow> task_run w n k (task_step w n t db fs))"

lemma done_run: "task_run w n k (TaskDone, db, fs) = (TaskDone, db, fs)"
  by (induction k) auto

lemma unlinking_run:
  "length hs < k \<Longrightarrow> task_run w n k (Unlinking hs, db, fs) = (TaskDone, db, remove_many (w_os w) (db_cache db) hs fs)"
proof (induction hs arbitrary: k fs)
  case Nil
  then show ?case by (cases k) (auto simp: done_run)
next
  case (Cons h hs)
  then show ?case by (cases k) auto
qed

text \<open>Enough steps of a task alone are the operation of the facade.\<close>

lemma spooling_alone:
  assumes "\<not> is_skipped mime (sp_len sp)" and "is_detachable mime" and "insert_spooled w mime sp n db fs = (r, db', fs')"
  shows "\<exists>k. task_run w n k (Spooling mime sp, db, fs) = (TaskDone, db', fs')"
proof (cases "adopt (w_os w) (db_cache db) (hex_digest sp) (sp_path sp) fs")
  case (Pair q fs1)
  show ?thesis
  proof (cases q)
    case (Inl e)
    with Pair assms show ?thesis by (intro exI [of _ 1]) (auto simp: insert_spooled_def Let_def)
  next
    case (Inr how)
    obtain u s' where up: "upsert_detached (w_sha w) (w_ord w) (w_fails w) (w_now w) mime (sp_len sp) (hex_digest sp) n (db_store db) = (u, s')"
      by fastforce
    show ?thesis
    proof (cases u)
      case (Inl e)
      with Pair Inr up assms show ?thesis
        by (intro exI [of _ "Suc (Suc (Suc 0))"]) (auto simp: insert_spooled_def Let_def)
    next
      case out: (Inr out)
      obtain m where "length (expired_hashes out) < m" by blast
      with out Pair Inr up assms show ?thesis
        by (intro exI [of _ "Suc (Suc m)"]) (auto simp: insert_spooled_def Let_def unlinking_run)
    qed
  qed
qed

lemma saving_alone:
  assumes "insert_with_hash w mime data (to_hex (w_sha w data)) n db fs = (r, db', fs')"
  shows "\<exists>k. task_run w n k (Saving mime data, db, fs) = (TaskDone, db', fs')"
proof (cases "upsert_record (w_sha w) (w_ord w) (w_fails w) (w_now w) mime data (to_hex (w_sha w data)) n (db_store db)")
  case (Pair q s')
  show ?thesis
  proof (cases q)
    case (Inl e)
    with Pair assms show ?thesis by (intro exI [of _ 1]) (auto simp: insert_with_hash_def)
  next
    case (Inr out)
    obtain m where "length (expired_hashes out) < m" by blast
    with Pair Inr assms show ?thesis
      by (intro exI [of _ "if real_id out \<noteq> - 1 \<and> is_image out then Suc (Suc m) else Suc m"])
        (auto simp: insert_with_hash_def Let_def done_run unlinking_run split: if_splits)
  qed
qed

lemma deleting_alone:
  assumes "db_delete_by_id w rid db fs = (r, db', fs')"
  shows "\<exists>k. task_run w n k (Deleting rid, db, fs) = (TaskDone, db', fs')"
proof (cases "delete_by_id (w_fails w) rid (db_store db)")
  case (Pair q s')
  with assms show ?thesis
    by (intro exI [of _ "Suc (Suc (Suc 0))"]) (auto simp: db_delete_by_id_def split: sum.splits prod.splits option.splits)
qed

text \<open>What several rounds of removal leave is what all of them leave.\<close>

fun left_over :: "(path \<Rightarrow> bool) list \<Rightarrow> (path \<Rightarrow> bool) option \<Rightarrow> (path \<Rightarrow> bool) option" where
  "left_over [] rm = rm"
| "left_over (left # rounds) rm = map_option (\<lambda>last p. left p \<and> last p) (left_over rounds rm)"

lemma remove_tree_twice: "remove_tree dir b (remove_tree dir a fs) = remove_tree dir (\<lambda>p. a p \<and> b p) fs"
  by (cases fs) (auto simp: remove_tree_def fun_eq_iff)

lemma clearing_run:
  "length rounds < k \<Longrightarrow> task_run w n k (Clearing rounds rm mode granted, db, fs) =
     (TaskDone, db, snd (cache_clear (left_over rounds rm) mode granted (db_cache db) fs))"
proof (induction rounds arbitrary: k fs)
  case Nil
  then show ?case by (cases k) (auto simp: done_run)
next
  case (Cons left rounds)
  then show ?case by (cases k; cases "left_over rounds rm") (auto simp: cache_clear_def remove_tree_twice)
qed

lemma wiping_alone:
  assumes "db_wipe w (left_over rounds rm) mode granted db fs = (r, db', fs')"
  shows "\<exists>k. task_run w n k (Wiping rounds rm mode granted, db, fs) = (TaskDone, db', fs')"
proof -
  obtain m where "length rounds < m" by blast
  with assms show ?thesis
    by (intro exI [of _ "Suc m"]) (auto simp: db_wipe_def done_run clearing_run split: prod.splits sum.splits)
qed

lemma touching_pinning_alone:
  "db_update_timestamp w rid db = (q, db') \<Longrightarrow> task_run w n 1 (Touching rid, db, fs) = (TaskDone, db', fs)"
  "set_pin_by_id w rid pin db = (r, db') \<Longrightarrow> task_run w n 1 (Pinning rid pin, db, fs) = (TaskDone, db', fs)"
  by auto

section \<open>Any number of tasks\<close>

text \<open>The fingerprints whose file or row an unfinished task still deals with, and the one it is about to deal with.\<close>

fun concerns :: "storage_task \<Rightarrow> string set" where
  "concerns (Attaching mime len hash how) = {hash}"
| "concerns (Undoing hash) = {hash}"
| "concerns (Caching hash data hs) = insert hash (set hs)"
| "concerns (Unlinking hs) = set hs"
| "concerns (Clearing rounds rm mode granted) = UNIV"
| "concerns _ = {}"

fun claims :: "(bytes \<Rightarrow> bytes) \<Rightarrow> storage_task \<Rightarrow> string set" where
  "claims sha (Spooling mime sp) = {hex_digest sp}"
| "claims sha (Saving mime data) = {to_hex (sha data)}"
| "claims sha (Wiping rounds rm mode granted) = UNIV"
| "claims sha _ = {}"

text \<open>What a step relies on: writes and unlinks are granted, the lookup of a row to be deleted does not fail, and fingerprints do not collide; the
  last also when the spool file is gone, as a wipe may take it, and an entry of its fingerprint is found.\<close>

fun no_clash :: "(bytes \<Rightarrow> bytes) \<Rightarrow> storage_task \<Rightarrow> clipboard_db \<Rightarrow> fsys \<Rightarrow> bool" where
  "no_clash sha (Spooling mime sp) db fs \<longleftrightarrow>
     (case fs_files fs (sp_path sp) of
        Some d \<Rightarrow> entry_free db (hex_digest sp) d fs
      | None \<Rightarrow> path_exists fs (cache_path (db_cache db) (hex_digest sp)) \<longrightarrow>
          (\<exists>d. cache_read (db_cache db) (hex_digest sp) fs = Some d \<and> length d = sp_len sp))"
| "no_clash sha (Saving mime data) db fs \<longleftrightarrow> collision_free sha data (chunk_db (db_store db))"
| "no_clash sha (Caching hash data hs) db fs \<longleftrightarrow> entry_free db hash data fs"
| "no_clash sha _ db fs \<longleftrightarrow> True"

definition calm :: "(bytes \<Rightarrow> bytes) \<Rightarrow> world \<Rightarrow> bool" where
  "calm sha w \<longleftrightarrow> w_sha w = sha \<and> ts_order (w_ord w) \<and> os_write (w_os w) = WDone \<and> (\<forall>p. os_unlink (w_os w) p) \<and> \<not> w_fails w StFind"

definition apart_from :: "storage_task list \<Rightarrow> nat \<Rightarrow> string set \<Rightarrow> bool" where
  "apart_from ts i hs \<longleftrightarrow> (\<forall>j < length ts. j \<noteq> i \<longrightarrow> hs \<inter> concerns (ts ! j) = {})"

text \<open>\<open>orderly\<close> runs are those in which no step takes up a fingerprint that another unfinished task is concerned with.\<close>

inductive shared_step ::
    "bool \<Rightarrow> (bytes \<Rightarrow> bytes) \<Rightarrow> nat \<Rightarrow> clipboard_db \<times> fsys \<times> storage_task list \<Rightarrow> clipboard_db \<times> fsys \<times> storage_task list \<Rightarrow> bool"
  for orderly sha n where
  shared: "i < length ts \<Longrightarrow> calm sha w \<Longrightarrow> no_clash sha (ts ! i) db fs \<Longrightarrow> task_step w n (ts ! i) db fs = (t', db', fs') \<Longrightarrow>
    (orderly \<Longrightarrow> apart_from ts i (claims sha (ts ! i) \<union> concerns t')) \<Longrightarrow>
    shared_step orderly sha n (db, fs, ts) (db', fs', ts[i := t'])"

inductive shared_reach ::
    "bool \<Rightarrow> (bytes \<Rightarrow> bytes) \<Rightarrow> nat \<Rightarrow> clipboard_db \<times> fsys \<times> storage_task list \<Rightarrow> clipboard_db \<times> fsys \<times> storage_task list \<Rightarrow> bool"
  for orderly sha n c0 where
  shared_start: "shared_reach orderly sha n c0 c0"
| shared_next: "shared_reach orderly sha n c0 c \<Longrightarrow> shared_step orderly sha n c c' \<Longrightarrow> shared_reach orderly sha n c0 c'"

section \<open>The race for one fingerprint\<close>

definition twin_hash :: string where "twin_hash = hex_digest sample_spool"

definition twin_row :: clip_row where
  "twin_row = \<lparr> r_id = 1, r_ts = 1, r_mime = ''image/png'', r_size = 3, r_preview = None, r_content = CNull, r_hash = Some twin_hash,
     r_pinned = False, r_chunked = False \<rparr>"

definition twin_db :: clipboard_db where
  "twin_db = fresh_db\<lparr> db_store := empty_store\<lparr> clipboard := [twin_row], last_seq := 1 \<rparr> \<rparr>"

definition twin_fs :: fsys where
  "twin_fs = write_file (cache_path (db_cache fresh_db) twin_hash) ''PNG'' spool_fs"

definition twin_world :: world where
  "twin_world = calm_world (\<lambda>_. False) os_fine 5"

definition twin_again :: clipboard_db where
  "twin_again = fresh_db\<lparr> db_store := empty_store\<lparr> clipboard := [twin_row\<lparr> r_id := 2, r_ts := 5 \<rparr>], last_seq := 2 \<rparr> \<rparr>"

lemma twin_calm: "calm (\<lambda>d. d) twin_world"
  using by_ts.ts_order_axioms by (simp add: calm_def twin_world_def calm_world_def os_fine_def)

lemma twin_adopts:
  "task_step twin_world 3 (Spooling ''image/png'' sample_spool) twin_db twin_fs =
     (Attaching ''image/png'' 3 twin_hash Present, twin_db, spooled_drop sample_spool twin_fs)"
  by (simp add: adopt_def twin_db_def twin_fs_def twin_hash_def path_exists_def fresh_db_def sample_spool_def spooled_new_def)

lemma twin_deletes:
  "task_step twin_world 3 (Deleting 1) twin_db fs =
     (Unlinking [twin_hash], twin_db\<lparr> db_store := (db_store twin_db)\<lparr> clipboard := [] \<rparr> \<rparr>, fs)"
  by (simp add: delete_by_id_def twin_world_def calm_world_def twin_db_def fresh_db_def get_row_def twin_row_def delete_rows_def empty_store_def)

lemma twin_attaches:
  "task_step twin_world 3 (Attaching ''image/png'' 3 twin_hash Present) (twin_db\<lparr> db_store := (db_store twin_db)\<lparr> clipboard := [] \<rparr> \<rparr>) fs =
     (Unlinking [], twin_again, fs)"
proof -
  have "\<not> is_skipped ''image/png'' 3" "is_cache_class ''image/png''" by code_simp+
  then show ?thesis
    by (simp add: upsert_detached_def upsert_def place_record_def insert_row_def find_hash_def twin_db_def twin_again_def fresh_db_def twin_world_def calm_world_def
        empty_store_def fresh_row_def rotate_rows_def expiring_rows_def order_by_ts_desc_def sql_offset_def as_i64_def delete_rows_def
        with_chunks_def i64_max_def row_parts_def twin_row_def body_len_def Let_def)
qed

lemma twin_storage_ok: "storage_ok (\<lambda>d. d) twin_db twin_fs"
  using sample_spool_facts(5)
  by (auto simp: storage_ok_def store_ok_def rows_ok_def manifests_live_def rows_complete_def has_manifest_def chunks_ok_def twin_db_def fresh_db_def empty_store_def
      empty_chunks_def twin_row_def content_of_def cell_bytes_def cache_complete_def cache_read_def twin_fs_def twin_hash_def cache_sound_def row_key_def
      hex_digest_def sample_spool_def spooled_new_def map_filter_simps cache_path_inj)

text \<open>While the daemon stores an image again, whose file it finds in the cache, a \<^verbatim>\<open>delete\<close> of the old entry commits before the new row and removes the
  file after it.\<close>

lemma same_hash_race:
  "\<exists>fs. shared_reach False (\<lambda>d. d) 3 (twin_db, twin_fs, [Spooling ''image/png'' sample_spool, Deleting 1]) (twin_again, fs, [TaskDone, TaskDone]) \<and>
     storage_ok (\<lambda>d. d) twin_db twin_fs \<and> map r_id (clipboard (db_store twin_again)) = [2] \<and>
     get_content_by_id twin_world 2 twin_again fs = None \<and> \<not> storage_ok (\<lambda>d. d) twin_again fs"
proof -
  let ?fs1 = "spooled_drop sample_spool twin_fs"
  let ?db1 = "twin_db\<lparr> db_store := (db_store twin_db)\<lparr> clipboard := [] \<rparr> \<rparr>"
  let ?fs2 = "cache_remove os_fine (db_cache twin_again) twin_hash ?fs1"
  let ?at = "Attaching ''image/png'' 3 twin_hash Present"
  let ?step = "shared_step False (\<lambda>d. d) 3"
  note go = shared [where orderly = False and sha = "\<lambda>d. d" and n = 3, OF _ twin_calm]
  have clash: "no_clash (\<lambda>d. d) (Spooling ''image/png'' sample_spool) twin_db twin_fs"
    using sample_spool_facts(4) twin_storage_ok
    by (auto simp: entry_free_def twin_fs_def twin_hash_def twin_db_def fresh_db_def cache_read_def sample_spool_def spooled_new_def spool_fs_def frame_simps empty_fs_def split: if_splits)
  have s1: "?step (twin_db, twin_fs, [Spooling ''image/png'' sample_spool, Deleting 1]) (twin_db, ?fs1, [?at, Deleting 1])"
    using go [of 0 "[Spooling ''image/png'' sample_spool, Deleting 1]"] clash twin_adopts by simp
  have s2: "?step (twin_db, ?fs1, [?at, Deleting 1]) (?db1, ?fs1, [?at, Unlinking [twin_hash]])"
    using go [of 1 "[?at, Deleting 1]"] twin_deletes by simp
  have s3: "?step (?db1, ?fs1, [?at, Unlinking [twin_hash]]) (twin_again, ?fs1, [Unlinking [], Unlinking [twin_hash]])"
    using go [of 0 "[?at, Unlinking [twin_hash]]"] twin_attaches by simp
  have s4: "?step (twin_again, ?fs1, [Unlinking [], Unlinking [twin_hash]]) (twin_again, ?fs2, [Unlinking [], Unlinking []])"
    using go [of 1 "[Unlinking [], Unlinking [twin_hash]]"] by (simp add: twin_world_def calm_world_def)
  have s5: "?step (twin_again, ?fs2, [Unlinking [], Unlinking []]) (twin_again, ?fs2, [TaskDone, Unlinking []])"
    using go [of 0 "[Unlinking [], Unlinking []]"] by simp
  have s6: "?step (twin_again, ?fs2, [TaskDone, Unlinking []]) (twin_again, ?fs2, [TaskDone, TaskDone])"
    using go [of 1 "[TaskDone, Unlinking []]"] by simp
  have run: "shared_reach False (\<lambda>d. d) 3 (twin_db, twin_fs, [Spooling ''image/png'' sample_spool, Deleting 1]) (twin_again, ?fs2, [TaskDone, TaskDone])"
    by (rule shared_next [OF shared_next [OF shared_next [OF shared_next [OF shared_next [OF shared_next [OF shared_start s1] s2] s3] s4] s5] s6])
  have gone: "cache_read (db_cache twin_again) twin_hash ?fs2 = None" by (simp add: cache_read_def cache_remove_def fs_unlink_def os_fine_def)
  then have lost: "get_content_by_id twin_world 2 twin_again ?fs2 = None"
    by (simp add: get_content_by_id_def get_row_content_def twin_again_def fresh_db_def twin_world_def calm_world_def get_row_def twin_row_def cell_bytes_def empty_store_def)
  have broken: "\<not> storage_ok (\<lambda>d. d) twin_again ?fs2"
    using gone by (auto simp: storage_ok_def cache_complete_def twin_again_def fresh_db_def empty_store_def twin_row_def content_of_def cell_bytes_def)
  have ids: "map r_id (clipboard (db_store twin_again)) = [2]" by (simp add: twin_again_def fresh_db_def)
  show ?thesis by (intro exI [of _ ?fs2] conjI) (rule run twin_storage_ok ids lost broken)+
qed

section \<open>The race with a wipe\<close>

definition late_row :: clip_row where
  "late_row = twin_row\<lparr> r_ts := 5 \<rparr>"

definition late_db :: clipboard_db where
  "late_db = fresh_db\<lparr> db_store := empty_store\<lparr> clipboard := [late_row], last_seq := 1 \<rparr> \<rparr>"

definition late_fs :: fsys where
  "late_fs = write_file (cache_path (db_cache fresh_db) twin_hash) ''PNG'' (remove_file (sp_path sample_spool) spool_fs)"

lemma late_wipes: "task_step twin_world 3 (Wiping [] None 448 9) fresh_db fs = (Clearing [] None 448 9, fresh_db, fs)"
  by (simp add: store_wipe_def twin_world_def calm_world_def fresh_db_def empty_store_def)

lemma late_free: "\<not> path_exists spool_fs (cache_path (db_cache fresh_db) twin_hash)"
  using sample_spool_facts(2)
  by (auto simp: path_exists_def spool_apart_def spool_fs_def sample_spool_def spooled_new_def empty_fs_def twin_hash_def hex_digest_def write_file_def)

lemma late_adopts:
  "task_step twin_world 3 (Spooling ''image/png'' sample_spool) fresh_db spool_fs = (Attaching ''image/png'' 3 twin_hash Placed, fresh_db, late_fs)"
  using sample_spool_facts(1) late_free
  by (simp add: adopt_def late_fs_def twin_hash_def twin_world_def calm_world_def os_fine_def spool_record_def
      spooled_into_path_def spooled_drop_def Let_def)

lemma late_attaches:
  "task_step twin_world 3 (Attaching ''image/png'' 3 twin_hash Placed) fresh_db fs = (Unlinking [], late_db, fs)"
proof -
  have "\<not> is_skipped ''image/png'' 3" "is_cache_class ''image/png''" by code_simp+
  then show ?thesis
    by (simp add: upsert_detached_def upsert_def place_record_def insert_row_def find_hash_def late_db_def late_row_def fresh_db_def twin_world_def calm_world_def
        empty_store_def fresh_row_def rotate_rows_def expiring_rows_def order_by_ts_desc_def sql_offset_def as_i64_def delete_rows_def
        with_chunks_def i64_max_def row_parts_def twin_row_def body_len_def Let_def)
qed

lemma wiped_entry:
  assumes "hex_hash h" and "cache_dir c \<noteq> []" and "last (cache_dir c) \<noteq> CHR ''/''"
  shows "cache_read c h (snd (cache_clear None mode granted c fs)) = None"
proof -
  have "below (cache_dir c) (cache_path c h)"
    using assms(2,3) hex_no_slash [OF assms(1)] by (cases h) (auto simp: below_def cache_path_def path_push_def prefix_def)
  then show ?thesis by (simp add: cache_read_def cache_clear_def remove_tree_def fs_files_create)
qed

text \<open>While a \<^verbatim>\<open>wipe\<close> has emptied the tables and not yet the cache, the daemon stores a new image, whose file then goes with the old ones.\<close>

lemma wipe_race:
  "\<exists>fs. shared_reach False (\<lambda>d. d) 3 (fresh_db, spool_fs, [Wiping [] None 448 9, Spooling ''image/png'' sample_spool]) (late_db, fs, [TaskDone, TaskDone]) \<and>
     storage_ok (\<lambda>d. d) fresh_db spool_fs \<and> map r_id (clipboard (db_store late_db)) = [1] \<and>
     get_content_by_id twin_world 1 late_db fs = None \<and> \<not> storage_ok (\<lambda>d. d) late_db fs"
proof -
  let ?cl = "Clearing [] None 448 9"
  let ?fs = "snd (cache_clear None 448 9 (db_cache late_db) late_fs)"
  let ?step = "shared_step False (\<lambda>d. d) 3"
  note go = shared [where orderly = False and sha = "\<lambda>d. d" and n = 3, OF _ twin_calm]
  have clash: "no_clash (\<lambda>d. d) (Spooling ''image/png'' sample_spool) fresh_db spool_fs"
    using sample_spool_facts(1,4) by (auto simp: spool_record_def)
  have s1: "?step (fresh_db, spool_fs, [Wiping [] None 448 9, Spooling ''image/png'' sample_spool]) (fresh_db, spool_fs, [?cl, Spooling ''image/png'' sample_spool])"
    using go [of 0 "[Wiping [] None 448 9, Spooling ''image/png'' sample_spool]"] late_wipes by simp
  have s2: "?step (fresh_db, spool_fs, [?cl, Spooling ''image/png'' sample_spool]) (fresh_db, late_fs, [?cl, Attaching ''image/png'' 3 twin_hash Placed])"
    using go [of 1 "[?cl, Spooling ''image/png'' sample_spool]"] clash late_adopts by simp
  have s3: "?step (fresh_db, late_fs, [?cl, Attaching ''image/png'' 3 twin_hash Placed]) (late_db, late_fs, [?cl, Unlinking []])"
    using go [of 1 "[?cl, Attaching ''image/png'' 3 twin_hash Placed]"] late_attaches by simp
  have s4: "?step (late_db, late_fs, [?cl, Unlinking []]) (late_db, late_fs, [?cl, TaskDone])"
    using go [of 1 "[?cl, Unlinking []]"] by simp
  have s5: "?step (late_db, late_fs, [?cl, TaskDone]) (late_db, ?fs, [TaskDone, TaskDone])"
    using go [of 0 "[?cl, TaskDone]"] by simp
  have run: "shared_reach False (\<lambda>d. d) 3 (fresh_db, spool_fs, [Wiping [] None 448 9, Spooling ''image/png'' sample_spool]) (late_db, ?fs, [TaskDone, TaskDone])"
    by (rule shared_next [OF shared_next [OF shared_next [OF shared_next [OF shared_next [OF shared_start s1] s2] s3] s4] s5])
  have gone: "cache_read (db_cache late_db) twin_hash ?fs = None" by (rule wiped_entry) (simp_all add: twin_hash_def hex_digest_def late_db_def fresh_db_def)
  then have lost: "get_content_by_id twin_world 1 late_db ?fs = None"
    by (simp add: get_content_by_id_def get_row_content_def late_db_def late_row_def fresh_db_def twin_world_def calm_world_def get_row_def twin_row_def cell_bytes_def empty_store_def)
  have broken: "\<not> storage_ok (\<lambda>d. d) late_db ?fs"
    using gone by (auto simp: storage_ok_def cache_complete_def late_db_def late_row_def fresh_db_def empty_store_def twin_row_def content_of_def cell_bytes_def)
  have ids: "map r_id (clipboard (db_store late_db)) = [1]" by (simp add: late_db_def late_row_def twin_row_def fresh_db_def)
  show ?thesis by (intro exI [of _ ?fs] conjI) (rule run sample_spool_facts(5) ids lost broken)+
qed

text \<open>C14: The source holds concurrent writers to be excluded and a race for one fingerprint to be harmless because files are named by their content. Neither is so for
  the commands, which write beside the daemon: a \<^verbatim>\<open>delete\<close> of an entry may commit before the same image is stored again and remove its file after that, and a \<^verbatim>\<open>wipe\<close> may
  empty the cache after the daemon has stored a new image into the tables it had emptied. In both cases both sides report success, no step fails, and the history ends with
  an entry whose content is gone.\<close>

theorem storage_races:
  "(\<exists>fs. shared_reach False (\<lambda>d. d) 3 (twin_db, twin_fs, [Spooling ''image/png'' sample_spool, Deleting 1]) (twin_again, fs, [TaskDone, TaskDone]) \<and>
      storage_ok (\<lambda>d. d) twin_db twin_fs \<and> map r_id (clipboard (db_store twin_again)) = [2] \<and>
      get_content_by_id twin_world 2 twin_again fs = None \<and> \<not> storage_ok (\<lambda>d. d) twin_again fs) \<and>
   (\<exists>fs. shared_reach False (\<lambda>d. d) 3 (fresh_db, spool_fs, [Wiping [] None 448 9, Spooling ''image/png'' sample_spool]) (late_db, fs, [TaskDone, TaskDone]) \<and>
      storage_ok (\<lambda>d. d) fresh_db spool_fs \<and> map r_id (clipboard (db_store late_db)) = [1] \<and>
      get_content_by_id twin_world 1 late_db fs = None \<and> \<not> storage_ok (\<lambda>d. d) late_db fs)"
  using same_hash_race wipe_race by (rule conjI)

end
