(* ===== verification/Orderly.thy ===== *)
theory Orderly
  imports Interleaved
begin

text \<open>
  What interleaved tasks keep: the tables are consistent and no file of the cache holds wrong bytes, whatever the order; and when no two unfinished
  tasks concern the same fingerprint, every entry also has its file once the tasks are done.
\<close>

section \<open>Invariants of unfinished tasks\<close>

definition needs_file :: "sqlite_store \<Rightarrow> string \<Rightarrow> bool" where
  "needs_file s h \<longleftrightarrow> (\<exists>r \<in> set (clipboard s). r_hash r = Some h \<and> content_of s r = None)"

definition hexed :: "sqlite_store \<Rightarrow> bool" where
  "hexed s \<longleftrightarrow> (\<forall>r \<in> set (clipboard s). \<forall>h. r_hash r = Some h \<longrightarrow> hex_hash h)"

text \<open>Every row without bytes has its file, or a task will write it: \<open>P\<close> are the fingerprints and sizes of those.\<close>

definition kept :: "clipboard_db \<Rightarrow> fsys \<Rightarrow> (string \<times> int) set \<Rightarrow> bool" where
  "kept db fs P \<longleftrightarrow> (\<forall>r \<in> set (clipboard (db_store db)). content_of (db_store db) r = None \<longrightarrow>
     (\<exists>h. r_hash r = Some h \<and> ((\<exists>d. cache_read (db_cache db) h fs = Some d \<and> int (length d) = r_size r) \<or> (h, r_size r) \<in> P)))"

fun promised :: "storage_task \<Rightarrow> (string \<times> int) set" where
  "promised (Caching hash data hs) = {(hash, int (length data))}"
| "promised _ = {}"

fun spool_of :: "storage_task \<Rightarrow> path option" where
  "spool_of (Spooling mime sp) = Some (sp_path sp)"
| "spool_of _ = None"

fun task_ok :: "(bytes \<Rightarrow> bytes) \<Rightarrow> clipboard_db \<Rightarrow> fsys \<Rightarrow> storage_task \<Rightarrow> bool" where
  "task_ok sha db fs (Spooling mime sp) \<longleftrightarrow>
     (\<forall>d. fs_files fs (sp_path sp) = Some d \<longrightarrow> spool_record sha sp d fs) \<and> spool_apart db (sp_path sp)"
| "task_ok sha db fs (Attaching mime len hash how) \<longleftrightarrow> hex_hash hash"
| "task_ok sha db fs (Undoing hash) \<longleftrightarrow> hex_hash hash"
| "task_ok sha db fs (Caching hash data hs) \<longleftrightarrow> hash = row_key sha data \<and> list_all hex_hash hs"
| "task_ok sha db fs (Unlinking hs) \<longleftrightarrow> list_all hex_hash hs"
| "task_ok sha db fs _ \<longleftrightarrow> True"

fun task_fits :: "clipboard_db \<Rightarrow> fsys \<Rightarrow> storage_task \<Rightarrow> bool" where
  "task_fits db fs (Attaching mime len hash how) \<longleftrightarrow>
     (\<exists>d. cache_read (db_cache db) hash fs = Some d \<and> length d = len) \<and> (how = Placed \<longrightarrow> \<not> needs_file (db_store db) hash)"
| "task_fits db fs (Undoing hash) \<longleftrightarrow> \<not> needs_file (db_store db) hash"
| "task_fits db fs (Caching hash data hs) \<longleftrightarrow> (\<forall>h \<in> set hs. \<not> needs_file (db_store db) h)"
| "task_fits db fs (Unlinking hs) \<longleftrightarrow> (\<forall>h \<in> set hs. \<not> needs_file (db_store db) h)"
| "task_fits db fs (Clearing rounds rm mode granted) \<longleftrightarrow> (\<forall>h. \<not> needs_file (db_store db) h)"
| "task_fits db fs _ \<longleftrightarrow> True"

definition base_ok :: "(bytes \<Rightarrow> bytes) \<Rightarrow> clipboard_db \<Rightarrow> fsys \<Rightarrow> bool" where
  "base_ok sha db fs \<longleftrightarrow> store_ok sha (db_store db) \<and> cache_sound (row_key sha) (db_cache db) fs \<and> hexed (db_store db)"

lemma storage_ok_kept: "storage_ok sha db fs \<longleftrightarrow> base_ok sha db fs \<and> kept db fs {}"
  by (fastforce simp: storage_ok_def base_ok_def kept_def hexed_def cache_complete_def)

lemma kept_mono:
  assumes "kept db fs P" and "\<And>h d. needs_file (db_store db) h \<Longrightarrow> cache_read (db_cache db) h fs = Some d \<Longrightarrow> cache_read (db_cache db) h fs' = Some d"
    and "\<And>h z. (h, z) \<in> P \<Longrightarrow> (h, z) \<in> P' \<or> (\<exists>d. cache_read (db_cache db) h fs' = Some d \<and> int (length d) = z)"
  shows "kept db fs' P'"
  using assms unfolding kept_def needs_file_def by (meson option.inject)

section \<open>Steps on the tables\<close>

lemma upsert_effect:
  assumes ord: "ts_order ord" and ok: "store_ok sha s" and hexed: "hexed s" and hash: "hex_hash hash" and nc: "no_collision sha body s"
    and up: "upsert sha ord fails now mime body hash n s = (Inr out, s')"
  shows "store_ok sha s'" "hexed s'" "list_all hex_hash (expired_hashes out)"
    and "needs_file s' h \<Longrightarrow> h = hash \<or> needs_file s h"
    and "h \<in> set (expired_hashes out) \<Longrightarrow> \<not> needs_file s' h"
    and "kept \<lparr> db_store = s, db_cache = c \<rparr> fs P \<Longrightarrow> P \<subseteq> P' \<Longrightarrow>
      (expected_content mime body = None \<Longrightarrow>
        (\<exists>d. cache_read c hash fs = Some d \<and> int (length d) = body_len body) \<or> (hash, body_len body) \<in> P') \<Longrightarrow>
      kept \<lparr> db_store = s', db_cache = c \<rparr> fs P'"
proof -
  note rows = ts_order.upsert_rows [OF ord ok nc up]
  show "store_ok sha s'" using ts_order.upsert_ok [OF ord ok nc] up by (metis snd_conv)
  show "hexed s'" using rows hexed hash unfolding hexed_def by (metis option.inject)
  show "list_all hex_hash (expired_hashes out)"
    using ts_order.expired_from_rows [OF ord ok nc up] hexed hash by (auto simp: hexed_def list_all_iff)
  show "needs_file s' h \<Longrightarrow> h = hash \<or> needs_file s h" using rows unfolding needs_file_def by (metis option.inject)
  show "h \<in> set (expired_hashes out) \<Longrightarrow> \<not> needs_file s' h"
    using ts_order.expired_not_kept [OF ord ok nc up] by (auto simp: needs_file_def)
  show "kept \<lparr> db_store = s', db_cache = c \<rparr> fs P'"
    if old: "kept \<lparr> db_store = s, db_cache = c \<rparr> fs P" "P \<subseteq> P'"
      and new: "expected_content mime body = None \<Longrightarrow>
        (\<exists>d. cache_read c hash fs = Some d \<and> int (length d) = body_len body) \<or> (hash, body_len body) \<in> P'"
    unfolding kept_def
  proof (intro ballI impI)
    fix r assume r: "r \<in> set (clipboard (db_store \<lparr> db_store = s', db_cache = c \<rparr>))" and none: "content_of (db_store \<lparr> db_store = s', db_cache = c \<rparr>) r = None"
    then have "r \<in> set (clipboard s')" "content_of s' r = None" by simp_all
    from rows [OF this(1)] this(2) old new
    show "\<exists>h. r_hash r = Some h \<and> ((\<exists>d. cache_read (db_cache \<lparr> db_store = s', db_cache = c \<rparr>) h fs = Some d \<and> int (length d) = r_size r) \<or> (h, r_size r) \<in> P')"
      unfolding kept_def by (elim disjE bexE conjE) (fastforce, auto)
  qed
qed

text \<open>A write that leaves hash, size and content of every row as they were.\<close>

lemma rows_effect:
  assumes "\<And>r. r \<in> set (clipboard s') \<Longrightarrow>
      \<exists>r0 \<in> set (clipboard s). r_hash r = r_hash r0 \<and> r_size r = r_size r0 \<and> content_of s' r = content_of s r0"
  shows "hexed s \<Longrightarrow> hexed s'" "needs_file s' h \<Longrightarrow> needs_file s h"
    and "kept \<lparr> db_store = s, db_cache = c \<rparr> fs P \<Longrightarrow> kept \<lparr> db_store = s', db_cache = c \<rparr> fs P"
  using assms unfolding hexed_def needs_file_def kept_def by (metis, metis, simp, metis)

lemma touched_rows:
  "r \<in> set (clipboard (snd (update_timestamp fails now rid s))) \<Longrightarrow>
     \<exists>r0 \<in> set (clipboard s). r_hash r = r_hash r0 \<and> r_size r = r_size r0 \<and> content_of (snd (update_timestamp fails now rid s)) r = content_of s r0"
  by (cases "fails StTouch") (auto simp: update_timestamp_def touch_row_def content_of_def)

lemma pinned_rows:
  "r \<in> set (clipboard (snd (set_pinned fails rid pin s))) \<Longrightarrow>
     \<exists>r0 \<in> set (clipboard s). r_hash r = r_hash r0 \<and> r_size r = r_size r0 \<and> content_of (snd (set_pinned fails rid pin s)) r = content_of s r0"
  by (cases "fails StPin") (auto simp: set_pinned_def content_of_def)

lemma wipe_effect:
  assumes "store_wipe fails s = (q, s')"
  shows "q = Inl e \<Longrightarrow> s' = s" "q = Inr u \<Longrightarrow> clipboard s' = []"
  using assms by (auto simp: store_wipe_def split: if_splits)

lemma delete_effect:
  assumes ok: "store_ok sha s" and hexed: "hexed s" and find: "\<not> fails StFind"
    and del: "delete_by_id fails rid s = (Inr (deleted, k), s')"
  shows "store_ok sha s'" "hexed s'" "k = Some h \<Longrightarrow> hex_hash h" "k = Some h \<Longrightarrow> \<not> needs_file s' h"
    and "needs_file s' h \<Longrightarrow> needs_file s h"
    and "kept \<lparr> db_store = s, db_cache = c \<rparr> fs P \<Longrightarrow> kept \<lparr> db_store = s', db_cache = c \<rparr> fs P"
proof -
  note shape = delete_by_id_Inr [OF ok find del]
  show "store_ok sha s'" using delete_by_id_ok [where fails = fails and rid = rid, OF ok find] del by simp
  show "hexed s'" using hexed shape(1) by (auto simp: hexed_def)
  show "needs_file s' h \<Longrightarrow> needs_file s h" using shape(1,2) by (auto simp: needs_file_def)
  show "kept \<lparr> db_store = s, db_cache = c \<rparr> fs P \<Longrightarrow> kept \<lparr> db_store = s', db_cache = c \<rparr> fs P" using shape(1,2) by (auto simp: kept_def)
  assume h: "k = Some h"
  then obtain q where q: "get_row rid s = Some q" "r_hash q = Some h" using shape(3) by (cases "get_row rid s") auto
  have rok: "rows_ok s" using ok by (simp add: store_ok_def)
  then have qm: "q \<in> set (clipboard s)" "r_id q = rid" using get_row_Some_iff q(1) by (auto simp: rows_ok_def)
  show "hex_hash h" using hexed qm q(2) by (auto simp: hexed_def)
  show "\<not> needs_file s' h" using unique_hash [OF rok _ qm(1) _ q(2)] shape(1) qm(2) by (auto simp: needs_file_def)
qed

section \<open>Steps on the files\<close>

lemma remove_effect:
  assumes "hex_hash h"
  shows "hex_hash k \<Longrightarrow> k \<noteq> h \<Longrightarrow> cache_read c k (cache_remove os c h fs) = cache_read c k fs"
    and "p \<noteq> cache_path c h \<Longrightarrow> fs_files (cache_remove os c h fs) p = fs_files fs p"
    and "cache_sound key c fs \<Longrightarrow> cache_sound key c (cache_remove os c h fs)"
  using assms cache_path_inj [of k h c] cache_sound_unlink by (auto simp: cache_read_def cache_remove_def fs_unlink_def)

lemma kept_remove:
  assumes "kept db fs P" and "hexed (db_store db)" and "hex_hash h" and "\<not> needs_file (db_store db) h"
  shows "kept db (cache_remove os (db_cache db) h fs) P"
proof (rule kept_mono [OF assms(1)])
  fix k d assume k: "needs_file (db_store db) k" "cache_read (db_cache db) k fs = Some d"
  then have "hex_hash k" using assms(2) by (auto simp: needs_file_def hexed_def)
  moreover have "k \<noteq> h" using k assms(4) by blast
  ultimately show "cache_read (db_cache db) k (cache_remove os (db_cache db) h fs) = Some d" using k remove_effect(1) [OF assms(3)] by simp
qed auto

lemma store_effect:
  assumes "os_write os = WDone" and "entry_free db hash data fs" and "hex_hash hash"
  shows "hex_hash k \<Longrightarrow> k \<noteq> hash \<Longrightarrow> cache_read (db_cache db) k (snd (cache_store os (db_cache db) hash data fs)) = cache_read (db_cache db) k fs"
    and "p \<noteq> cache_path (db_cache db) hash \<Longrightarrow> fs_files (snd (cache_store os (db_cache db) hash data fs)) p = fs_files fs p"
  using assms cache_path_inj [of k hash "db_cache db"] by (auto simp: cache_store_def cache_read_def fs_write_def Let_def)

text \<open>Adoption and the end of the spool file, as one step.\<close>

lemma adopt_effect:
  assumes w: "\<And>p. os_unlink os p" and rec: "spool_record sha sp d fs" and apart: "spool_apart db (sp_path sp)"
    and free: "entry_free db (hex_digest sp) d fs"
    and ad: "adopt os (db_cache db) (hex_digest sp) (sp_path sp) fs = (q, fs1)"
    and fs2: "fs2 = (if q = Inr Placed then snd (spooled_into_path sp fs1) else spooled_drop sp fs1)"
  shows "hex_hash h \<Longrightarrow> h \<noteq> hex_digest sp \<Longrightarrow> cache_read (db_cache db) h fs2 = cache_read (db_cache db) h fs"
    and "q = Inr how \<Longrightarrow> cache_read (db_cache db) (hex_digest sp) fs2 = Some d"
    and "q = Inr Placed \<Longrightarrow> cache_read (db_cache db) (hex_digest sp) fs = None"
    and "q = Inl e \<Longrightarrow> cache_read (db_cache db) (hex_digest sp) fs2 = cache_read (db_cache db) (hex_digest sp) fs"
    and "p \<noteq> sp_path sp \<Longrightarrow> p \<noteq> cache_path (db_cache db) (hex_digest sp) \<Longrightarrow> fs_files fs2 p = fs_files fs p"
    and "cache_sound (row_key sha) (db_cache db) fs \<Longrightarrow> cache_sound (row_key sha) (db_cache db) fs2"
proof -
  have hash: "hex_digest sp = row_key sha d" and src: "fs_files fs (sp_path sp) = Some d"
    using rec by (simp_all add: spool_record_def hex_digest_def row_key_def)
  then have hh: "hex_hash (hex_digest sp)" by (simp add: row_key_def)
  have drop: "cache_read (db_cache db) k fs2 = cache_read (db_cache db) k fs1" if "hex_hash k" for k
    using spooled_drop_read [OF apart that] fs2 by simp
  show "hex_hash h \<Longrightarrow> h \<noteq> hex_digest sp \<Longrightarrow> cache_read (db_cache db) h fs2 = cache_read (db_cache db) h fs"
    using adopt_reads(2) [OF _ free apart src hh] adopt_fails [OF _ apart src hh w] ad drop by (cases q) auto
  show "q = Inr how \<Longrightarrow> cache_read (db_cache db) (hex_digest sp) fs2 = Some d" using adopt_reads(1) [OF _ free apart src hh] ad drop hh by auto
  show "q = Inr Placed \<Longrightarrow> cache_read (db_cache db) (hex_digest sp) fs = None" using adopt_reads(3) [OF _ free apart src hh] ad by auto
  show "q = Inl e \<Longrightarrow> cache_read (db_cache db) (hex_digest sp) fs2 = cache_read (db_cache db) (hex_digest sp) fs"
    using adopt_fails [OF _ apart src hh w] ad drop hh by auto
  show "p \<noteq> sp_path sp \<Longrightarrow> p \<noteq> cache_path (db_cache db) (hex_digest sp) \<Longrightarrow> fs_files fs2 p = fs_files fs p"
    using ad by (auto simp: fs2 adopt_def Let_def spooled_drop_def fs_unlink_def fs_write_def src
        split: if_splits write_answer.splits prod.splits sum.splits)
  assume "cache_sound (row_key sha) (db_cache db) fs"
  then have "cache_sound (row_key sha) (db_cache db) fs1" using adopt_sound [where key = "row_key sha", OF _ hh src hash [symmetric] w] ad by (metis snd_conv)
  then show "cache_sound (row_key sha) (db_cache db) fs2"
    using drop by (auto simp: cache_sound_def cache_read_def)
qed

section \<open>One step of one task\<close>

text \<open>What a step leaves of the tables and the files, and that it touches only the fingerprints the task claims or is concerned with.\<close>

definition footprint :: "(bytes \<Rightarrow> bytes) \<Rightarrow> storage_task \<Rightarrow> string set" where
  "footprint sha t = claims sha t \<union> concerns t"

definition step_effect ::
    "(bytes \<Rightarrow> bytes) \<Rightarrow> storage_task \<Rightarrow> clipboard_db \<Rightarrow> fsys \<Rightarrow> storage_task \<Rightarrow> clipboard_db \<Rightarrow> fsys \<Rightarrow> bool" where
  "step_effect sha t db fs t' db' fs' \<longleftrightarrow>
     db_cache db' = db_cache db \<and> base_ok sha db' fs' \<and> task_ok sha db' fs' t' \<and> spool_of t' = None \<and>
     (\<forall>h. hex_hash h \<and> h \<notin> footprint sha t \<longrightarrow> cache_read (db_cache db) h fs' = cache_read (db_cache db) h fs) \<and>
     (\<forall>h. h \<notin> footprint sha t \<and> needs_file (db_store db') h \<longrightarrow> needs_file (db_store db) h) \<and>
     (\<forall>p. spool_of t \<noteq> Some p \<and> spool_apart db p \<longrightarrow> fs_files fs' p = fs_files fs p \<or> fs_files fs' p = None)"

text \<open>\<open>Q\<close> is what the other tasks have promised to write, for fingerprints the task has nothing to do with.\<close>

definition stays :: "storage_task \<Rightarrow> clipboard_db \<Rightarrow> fsys \<Rightarrow> (string \<times> int) set \<Rightarrow> bool" where
  "stays t db fs Q \<longleftrightarrow> task_fits db fs t \<and> kept db fs (promised t \<union> Q)"

lemma db_parts [simp]: "\<lparr> db_store = db_store db, db_cache = db_cache db \<rparr> = (db :: clipboard_db)"
  by (cases db) simp

lemma db_update: "db\<lparr> db_store := s \<rparr> = \<lparr> db_store = s, db_cache = db_cache (db :: clipboard_db) \<rparr>"
  by (cases db) simp

text \<open>When a wipe took the spool file, nothing is adopted; at most an entry of the same fingerprint is found.\<close>

lemma adopt_missing:
  assumes "fs_files fs source = None" and "adopt os c hash source fs = (q, fs1)"
  shows "fs_files fs1 = fs_files fs" "q = Inr Present \<and> path_exists fs (cache_path c hash) \<or> q = Inl NotFound"
  using assms by (auto simp: adopt_def Let_def fs_unlink_def path_exists_def fun_eq_iff split: if_splits)

lemma spooling_result:
  assumes "task_step w n (Spooling mime sp) db fs = (t', db', fs')"
    and "adopt (w_os w) (db_cache db) (hex_digest sp) (sp_path sp) fs = (q, fs1)"
  shows "db' = db" "fs' = (if q = Inr Placed then snd (spooled_into_path sp fs1) else spooled_drop sp fs1)"
    "t' = (case q of Inl _ \<Rightarrow> TaskDone | Inr how \<Rightarrow> Attaching mime (sp_len sp) (hex_digest sp) how)"
  using assms by (auto split: sum.splits adoption.splits)

lemma spooling_missing:
  assumes "fs_files fs (sp_path sp) = None" and "task_step w n (Spooling mime sp) db fs = (t', db', fs')"
  shows "db' = db" "fs_files fs' = fs_files fs"
    "t' = TaskDone \<or> t' = Attaching mime (sp_len sp) (hex_digest sp) Present \<and> path_exists fs (cache_path (db_cache db) (hex_digest sp))"
proof -
  obtain q fs1 where ad: "adopt (w_os w) (db_cache db) (hex_digest sp) (sp_path sp) fs = (q, fs1)" by fastforce
  note res = spooling_result [OF assms(2) ad] and miss = adopt_missing [OF assms(1) ad]
  show "db' = db" by (rule res(1))
  show "fs_files fs' = fs_files fs" using miss assms(1) unfolding res(2) by (auto simp: spooled_drop_def fun_eq_iff)
  show "t' = TaskDone \<or> t' = Attaching mime (sp_len sp) (hex_digest sp) Present \<and> path_exists fs (cache_path (db_cache db) (hex_digest sp))"
    using miss(2) unfolding res(3) by auto
qed

lemma same_files_effect:
  assumes "base_ok sha db fs" and "fs_files fs' = fs_files fs" and "task_ok sha db fs' t'" and "spool_of t' = None"
  shows "step_effect sha t db fs t' db fs'"
  using assms by (auto simp: step_effect_def base_ok_def cache_sound_def cache_read_def)

lemma spooling_effect:
  assumes "calm sha w" and "no_clash sha (Spooling mime sp) db fs" and "base_ok sha db fs" and "task_ok sha db fs (Spooling mime sp)"
    and "task_step w n (Spooling mime sp) db fs = (t', db', fs')"
  shows "step_effect sha (Spooling mime sp) db fs t' db' fs'"
proof (cases "fs_files fs (sp_path sp)")
  case None
  note miss = spooling_missing [OF None assms(5)]
  have "hex_hash (hex_digest sp)" by (simp add: hex_digest_def)
  then have "task_ok sha db fs' t'" "spool_of t' = None" using miss(3) by auto
  then show ?thesis using same_files_effect [OF assms(3) miss(2)] miss(1) by simp
next
  case (Some d)
  then have rec: "spool_record sha sp d fs" and apart: "spool_apart db (sp_path sp)" using assms(4) by auto
  then have free: "entry_free db (hex_digest sp) d fs" and hh: "hex_hash (hex_digest sp)"
    using assms(2) by (auto simp: spool_record_def hex_digest_def)
  have w: "\<And>p. os_unlink (w_os w) p" using assms(1) by (simp add: calm_def)
  obtain q fs1 where ad: "adopt (w_os w) (db_cache db) (hex_digest sp) (sp_path sp) fs = (q, fs1)" by fastforce
  note res = spooling_result [OF assms(5) ad]
  note eff = adopt_effect [OF w rec apart free ad res(2)]
  show ?thesis unfolding step_effect_def res(1,3) footprint_def
    using eff(1,5,6) assms(3) hh by (auto simp: base_ok_def spool_apart_def split: sum.splits)
qed

lemma attaching_effect:
  assumes "calm sha w" and "base_ok sha db fs" and "task_ok sha db fs (Attaching mime len hash how)"
    and "task_step w n (Attaching mime len hash how) db fs = (t', db', fs')"
  shows "step_effect sha (Attaching mime len hash how) db fs t' db' fs'"
proof -
  obtain q s' where up: "upsert_detached sha (w_ord w) (w_fails w) (w_now w) mime len hash n (db_store db) = (q, s')" by fastforce
  have ord: "ts_order (w_ord w)" and sha: "w_sha w = sha" using assms(1) by (simp_all add: calm_def)
  have base: "store_ok sha (db_store db)" "hexed (db_store db)" "hex_hash hash" using assms(2,3) by (simp_all add: base_ok_def)
  have nc: "no_collision sha (Detached len) (db_store db)" by (simp add: no_collision_def)
  have res: "db' = db\<lparr> db_store := s' \<rparr>" "fs' = fs"
    "t' = (case q of Inl _ \<Rightarrow> if how = Placed then Undoing hash else TaskDone | Inr out \<Rightarrow> Unlinking (expired_hashes out))"
    using assms(4) up sha by (auto split: sum.splits)
  consider "s' = db_store db" "\<And>out. q = Inr out \<Longrightarrow> expired_hashes out = []"
    | out where "q = Inr out" "upsert sha (w_ord w) (w_fails w) (w_now w) mime (Detached len) hash n (db_store db) = (Inr out, s')"
    using up upsert_Inl by (cases q) (auto simp: upsert_detached_def skipped_outcome_def split: if_splits)
  then show ?thesis
  proof cases
    case 1
    then show ?thesis using assms(2) base(3) res(3) by (auto simp: step_effect_def res(1,2) split: sum.splits)
  next
    case (2 out)
    note eff = upsert_effect [OF ord base nc 2(2)]
    show ?thesis using assms(2) eff(1-4) 2(1) res(3) by (auto simp: step_effect_def res(1,2) base_ok_def footprint_def)
  qed
qed

lemma saving_effect:
  assumes "calm sha w" and "no_clash sha (Saving mime data) db fs" and "base_ok sha db fs"
    and "task_step w n (Saving mime data) db fs = (t', db', fs')"
  shows "step_effect sha (Saving mime data) db fs t' db' fs'"
proof -
  let ?hash = "to_hex (sha data)"
  obtain q s' where up: "upsert_record sha (w_ord w) (w_fails w) (w_now w) mime data ?hash n (db_store db) = (q, s')" by fastforce
  have ord: "ts_order (w_ord w)" and sha: "w_sha w = sha" using assms(1) by (simp_all add: calm_def)
  have base: "store_ok sha (db_store db)" "hexed (db_store db)" "hex_hash ?hash" using assms(3) by (simp_all add: base_ok_def)
  have nc: "no_collision sha (Bytes data) (db_store db)" using assms(2) by (simp add: no_collision_def)
  have res: "db' = db\<lparr> db_store := s' \<rparr>" "fs' = fs"
    "t' = (case q of Inl _ \<Rightarrow> TaskDone | Inr out \<Rightarrow> if real_id out = - 1 then TaskDone
           else if is_image out then Caching ?hash data (expired_hashes out) else Unlinking (expired_hashes out))"
    using assms(4) up sha by (auto simp: Let_def split: sum.splits)
  consider "s' = db_store db" "t' = TaskDone"
    | out where "q = Inr out" "upsert sha (w_ord w) (w_fails w) (w_now w) mime (Bytes data) ?hash n (db_store db) = (Inr out, s')"
    using up upsert_Inl res(3) by (cases q) (auto simp: upsert_record_def skipped_outcome_def split: if_splits)
  then show ?thesis
  proof cases
    case 1
    then show ?thesis using assms(3) by (auto simp: step_effect_def res(1,2))
  next
    case (2 out)
    note eff = upsert_effect [OF ord base nc 2(2)]
    show ?thesis using assms(3) eff(1-4) 2(1) res(3) by (auto simp: step_effect_def res(1,2) base_ok_def footprint_def row_key_def)
  qed
qed

lemma caching_effect:
  assumes "calm sha w" and "no_clash sha (Caching hash data hs) db fs" and "base_ok sha db fs" and "task_ok sha db fs (Caching hash data hs)"
    and "task_step w n (Caching hash data hs) db fs = (t', db', fs')"
  shows "step_effect sha (Caching hash data hs) db fs t' db' fs'"
proof -
  have w: "os_write (w_os w) = WDone" using assms(1) by (simp add: calm_def)
  have hash: "hash = row_key sha data" "hex_hash hash" using assms(4) by (simp_all add: row_key_def)
  have free: "entry_free db hash data fs" using assms(2) by simp
  note eff = store_effect [OF w free hash(2)] cache_store_read(3) [OF hash(2) free w, of "row_key sha"]
  show ?thesis using eff assms(3,4,5) hash by (auto simp: step_effect_def base_ok_def footprint_def spool_apart_def)
qed

lemma deleting_effect:
  assumes "calm sha w" and "base_ok sha db fs" and "task_step w n (Deleting rid) db fs = (t', db', fs')"
  shows "step_effect sha (Deleting rid) db fs t' db' fs'"
proof -
  obtain q s' where del: "delete_by_id (w_fails w) rid (db_store db) = (q, s')" by fastforce
  have find: "\<not> w_fails w StFind" using assms(1) by (simp add: calm_def)
  have base: "store_ok sha (db_store db)" "hexed (db_store db)" using assms(2) by (simp_all add: base_ok_def)
  show ?thesis
  proof (cases q)
    case (Inl e)
    then have "s' = db_store db"
      using del by (auto simp: delete_by_id_def Let_def split: if_splits option.splits sum.splits prod.splits)
    with Inl del assms(2,3) show ?thesis by (auto simp: step_effect_def)
  next
    case (Inr out)
    obtain deleted k where out: "out = (deleted, k)" by (cases out)
    note eff = delete_effect [OF base find del [unfolded Inr out]]
    show ?thesis using eff(1-5) assms(2,3) del Inr out by (auto simp: step_effect_def base_ok_def split: option.splits)
  qed
qed

lemma removing_effect:
  assumes "base_ok sha db fs" and "hex_hash h" and "h \<in> concerns t" and "task_ok sha db fs' t'" and "spool_of t' = None"
    and "fs' = cache_remove os (db_cache db) h fs"
  shows "step_effect sha t db fs t' db fs'"
  using assms remove_effect [OF assms(2), where os = os and c = "db_cache db" and fs = fs]
  by (auto simp: step_effect_def base_ok_def footprint_def spool_apart_def)

lemma clearing_effect:
  assumes "base_ok sha db fs" and "\<And>p d. fs_files fs' p = Some d \<Longrightarrow> fs_files fs p = Some d" and "task_ok sha db fs' t'" and "spool_of t' = None"
  shows "step_effect sha (Clearing rounds rm mode granted) db fs t' db fs'"
proof -
  have "fs_files fs' p = fs_files fs p \<or> fs_files fs' p = None" for p using assms(2) [of p] by (cases "fs_files fs' p") auto
  moreover have "cache_sound (row_key sha) (db_cache db) fs'" using assms(1,2) by (auto simp: base_ok_def cache_sound_def)
  ultimately show ?thesis using assms(1,3,4) by (auto simp: step_effect_def base_ok_def footprint_def)
qed

lemma remove_tree_shrinks: "fs_files (remove_tree dir left fs) p = Some d \<Longrightarrow> fs_files fs p = Some d"
  by (simp add: remove_tree_def split: if_splits)

lemma cache_clear_shrinks: "fs_files (snd (cache_clear rm mode granted c fs)) p = Some d \<Longrightarrow> fs_files fs p = Some d"
  by (auto simp: cache_clear_def fs_files_create dest: remove_tree_shrinks split: option.splits)

text \<open>The steps that change only rows, and of them neither hash nor content.\<close>

lemma row_effect:
  assumes "base_ok sha db fs" and "store_ok sha s'"
    and rows: "\<And>r. r \<in> set (clipboard s') \<Longrightarrow>
      \<exists>r0 \<in> set (clipboard (db_store db)). r_hash r = r_hash r0 \<and> r_size r = r_size r0 \<and> content_of s' r = content_of (db_store db) r0"
  shows "step_effect sha t db fs TaskDone (db\<lparr> db_store := s' \<rparr>) fs"
    and "kept db fs Q \<Longrightarrow> stays TaskDone (db\<lparr> db_store := s' \<rparr>) fs Q"
proof -
  note eff = rows_effect [of s' "db_store db", OF rows]
  show "step_effect sha t db fs TaskDone (db\<lparr> db_store := s' \<rparr>) fs"
    using assms(1,2) eff(1,2) by (auto simp: step_effect_def base_ok_def)
  show "stays TaskDone (db\<lparr> db_store := s' \<rparr>) fs Q" if "kept db fs Q"
    using eff(3) [where c = "db_cache db" and fs = fs and P = Q] that by (simp add: stays_def db_update)
qed

lemma touched_ok: "base_ok sha db fs \<Longrightarrow> store_ok sha (snd (update_timestamp fails now rid (db_store db)))"
  by (simp add: base_ok_def update_timestamp_def touch_row_ok)

lemma pinned_ok: "base_ok sha db fs \<Longrightarrow> store_ok sha (snd (set_pinned fails rid pin (db_store db)))"
  by (simp add: base_ok_def set_pinned_ok)

lemma pinned_db: "snd (set_pin_by_id w rid pin db) = db\<lparr> db_store := snd (set_pinned (w_fails w) rid pin (db_store db)) \<rparr>"
  by (simp add: set_pin_by_id_def split: prod.splits sum.splits)

lemma wiping_effect:
  assumes "base_ok sha db fs" and "task_step w n (Wiping rounds rm mode granted) db fs = (t', db', fs')"
  shows "step_effect sha (Wiping rounds rm mode granted) db fs t' db' fs'"
    and "kept db fs Q \<Longrightarrow> stays t' db' fs' Q"
proof -
  obtain q s' where wi: "store_wipe (w_fails w) (db_store db) = (q, s')" by fastforce
  have ok: "store_ok sha s'" using store_wipe_ok [of sha "db_store db" "w_fails w"] assms(1) wi by (simp add: base_ok_def)
  note eff = wipe_effect [OF wi]
  have res: "db' = db\<lparr> db_store := s' \<rparr>" "fs' = fs" "t' = (case q of Inl _ \<Rightarrow> TaskDone | Inr _ \<Rightarrow> Clearing rounds rm mode granted)"
    using assms(2) wi by (auto split: sum.splits)
  show "step_effect sha (Wiping rounds rm mode granted) db fs t' db' fs'"
    using assms(1) ok eff unfolding res by (cases q) (auto simp: step_effect_def base_ok_def footprint_def hexed_def)
  show "stays t' db' fs' Q" if "kept db fs Q"
    using that eff unfolding res by (cases q) (auto simp: stays_def kept_def needs_file_def)
qed

lemma task_effect:
  assumes "calm sha w" and "no_clash sha t db fs" and "base_ok sha db fs" and "task_ok sha db fs t" and "task_step w n t db fs = (t', db', fs')"
  shows "step_effect sha t db fs t' db' fs'"
proof (cases t)
  case TaskDone
  with assms show ?thesis by (auto simp: step_effect_def)
next
  case (Spooling mime sp)
  with assms spooling_effect show ?thesis by blast
next
  case (Attaching mime len hash how)
  with assms attaching_effect show ?thesis by blast
next
  case (Saving mime data)
  with assms saving_effect show ?thesis by blast
next
  case (Caching hash data hs)
  with assms caching_effect show ?thesis by blast
next
  case (Deleting rid)
  with assms deleting_effect show ?thesis by blast
next
  case (Undoing h)
  with assms removing_effect [of sha db fs h t fs' t' "w_os w"] show ?thesis by auto
next
  case (Wiping rounds rm mode granted)
  with assms wiping_effect show ?thesis by blast
next
  case (Touching rid)
  with assms row_effect(1) [OF assms(3) _ touched_rows] show ?thesis by (auto simp: touched_ok)
next
  case (Pinning rid pin)
  with assms row_effect(1) [OF assms(3) _ pinned_rows] show ?thesis by (auto simp: pinned_db pinned_ok)
next
  case cl: (Clearing rounds rm mode granted)
  show ?thesis
  proof (cases rounds)
    case Nil
    with cl assms clearing_effect [OF assms(3) cache_clear_shrinks] show ?thesis by auto
  next
    case (Cons left rounds')
    with cl assms clearing_effect [OF assms(3) remove_tree_shrinks] show ?thesis by auto
  qed
next
  case un: (Unlinking hs)
  show ?thesis
  proof (cases hs)
    case Nil
    with un assms show ?thesis by (auto simp: step_effect_def)
  next
    case (Cons h hs')
    with un assms removing_effect [of sha db fs h t fs' t' "w_os w"] show ?thesis by auto
  qed
qed

section \<open>One step of one task in an orderly run\<close>

lemma needed_hex: "base_ok sha db fs \<Longrightarrow> needs_file (db_store db) h \<Longrightarrow> hex_hash h"
  by (auto simp: base_ok_def hexed_def needs_file_def)

lemma nothing_needed: "\<forall>h. \<not> needs_file (db_store db) h \<Longrightarrow> kept db fs P \<Longrightarrow> kept db fs' P'"
  by (fastforce simp: kept_def needs_file_def)

lemma spooling_stays:
  assumes "calm sha w" and "no_clash sha (Spooling mime sp) db fs" and "base_ok sha db fs" and "task_ok sha db fs (Spooling mime sp)"
    and "task_step w n (Spooling mime sp) db fs = (t', db', fs')"
    and "kept db fs Q" and "\<And>z. (hex_digest sp, z) \<notin> Q"
  shows "stays t' db' fs' Q"
proof (cases "fs_files fs (sp_path sp)")
  case None
  note miss = spooling_missing [OF None assms(5)]
  then have "cache_read (db_cache db) h fs' = cache_read (db_cache db) h fs" for h by (simp add: cache_read_def)
  then show ?thesis using miss(1,3) assms(2,6) None by (auto simp: stays_def kept_def)
next
  case (Some d)
  then have rec: "spool_record sha sp d fs" and apart: "spool_apart db (sp_path sp)" using assms(4) by auto
  then have free: "entry_free db (hex_digest sp) d fs" and len: "sp_len sp = length d" using assms(2) by (auto simp: spool_record_def)
  have w: "\<And>p. os_unlink (w_os w) p" using assms(1) by (simp add: calm_def)
  obtain q fs1 where ad: "adopt (w_os w) (db_cache db) (hex_digest sp) (sp_path sp) fs = (q, fs1)" by fastforce
  note res = spooling_result [OF assms(5) ad]
  note eff = adopt_effect [OF w rec apart free ad res(2)]
  have "kept db fs' Q"
  proof (rule kept_mono [OF assms(6)])
    fix h x assume h: "needs_file (db_store db) h" "cache_read (db_cache db) h fs = Some x"
    show "cache_read (db_cache db) h fs' = Some x"
    proof (cases "h = hex_digest sp")
      case True
      then show ?thesis using h free eff(2,4) by (cases q) (auto simp: entry_free_def)
    next
      case False
      then show ?thesis using eff(1) h needed_hex [OF assms(3)] by auto
    qed
  qed auto
  moreover have "\<not> needs_file (db_store db) (hex_digest sp)" if "q = Inr Placed"
    using eff(3) [OF that] assms(6,7) by (fastforce simp: kept_def needs_file_def)
  ultimately show ?thesis using eff(2) len res(1,3) by (auto simp: stays_def split: sum.splits)
qed

lemma attaching_stays:
  assumes "calm sha w" and "base_ok sha db fs" and "task_ok sha db fs (Attaching mime len hash how)"
    and "task_step w n (Attaching mime len hash how) db fs = (t', db', fs')" and "stays (Attaching mime len hash how) db fs Q"
  shows "stays t' db' fs' Q"
proof -
  obtain q s' where up: "upsert_detached sha (w_ord w) (w_fails w) (w_now w) mime len hash n (db_store db) = (q, s')" by fastforce
  have ord: "ts_order (w_ord w)" and sha: "w_sha w = sha" using assms(1) by (simp_all add: calm_def)
  have base: "store_ok sha (db_store db)" "hexed (db_store db)" "hex_hash hash" using assms(2,3) by (simp_all add: base_ok_def)
  have nc: "no_collision sha (Detached len) (db_store db)" by (simp add: no_collision_def)
  obtain d where d: "cache_read (db_cache db) hash fs = Some d" "length d = len" using assms(5) by (auto simp: stays_def)
  consider "s' = db_store db" "t' = Undoing hash \<and> how = Placed \<or> t' = TaskDone \<or> t' = Unlinking []"
    | out where "t' = Unlinking (expired_hashes out)" "upsert sha (w_ord w) (w_fails w) (w_now w) mime (Detached len) hash n (db_store db) = (Inr out, s')"
    using up upsert_Inl assms(4) sha by (cases q) (auto simp: upsert_detached_def skipped_outcome_def split: if_splits)
  moreover have res: "db' = db\<lparr> db_store := s' \<rparr>" "fs' = fs" using assms(4) up sha by (auto split: sum.splits)
  ultimately show ?thesis
  proof cases
    case 1
    then show ?thesis using assms(5) res by (auto simp: stays_def)
  next
    case (2 out)
    note eff = upsert_effect [OF ord base nc 2(2)]
    have "kept (db\<lparr> db_store := s' \<rparr>) fs Q" unfolding db_update
      by (rule eff(6)) (use assms(5) d in \<open>auto simp: stays_def body_len_def\<close>)
    then show ?thesis using eff(5) 2(1) res by (simp add: stays_def)
  qed
qed

lemma saving_stays:
  assumes "calm sha w" and "no_clash sha (Saving mime data) db fs" and "base_ok sha db fs"
    and "task_step w n (Saving mime data) db fs = (t', db', fs')" and "kept db fs Q"
  shows "stays t' db' fs' Q"
proof -
  let ?hash = "to_hex (sha data)"
  obtain q s' where up: "upsert_record sha (w_ord w) (w_fails w) (w_now w) mime data ?hash n (db_store db) = (q, s')" by fastforce
  have ord: "ts_order (w_ord w)" and sha: "w_sha w = sha" using assms(1) by (simp_all add: calm_def)
  have base: "store_ok sha (db_store db)" "hexed (db_store db)" "hex_hash ?hash" using assms(3) by (simp_all add: base_ok_def)
  have nc: "no_collision sha (Bytes data) (db_store db)" using assms(2) by (simp add: no_collision_def)
  have res: "db' = db\<lparr> db_store := s' \<rparr>" "fs' = fs" using assms(4) up sha by (auto simp: Let_def split: sum.splits)
  show ?thesis
  proof (cases "t' = TaskDone \<and> s' = db_store db")
    case True
    then show ?thesis using assms(5) res by (simp add: stays_def)
  next
    case False
    then obtain out where out: "upsert sha (w_ord w) (w_fails w) (w_now w) mime (Bytes data) ?hash n (db_store db) = (Inr out, s')" "q = Inr out"
      using up upsert_Inl assms(4) sha by (cases q) (auto simp: upsert_record_def skipped_outcome_def split: if_splits)
    note eff = upsert_effect [OF ord base nc out(1)]
    have img: "is_image out = is_cache_class mime" by (rule upsert_Inr [OF out(1)])
    have "real_id out \<noteq> - 1" using upsert_id_pos [OF base(1) nc out(1)] by simp
    then have t': "t' = (if is_image out then Caching ?hash data (expired_hashes out) else Unlinking (expired_hashes out))"
      using assms(4) up out(2) sha by (simp add: Let_def)
    have "kept (db\<lparr> db_store := s' \<rparr>) fs (promised t' \<union> Q)" unfolding db_update
      by (rule eff(6) [of _ _ Q]) (use assms(5) img t' in \<open>auto simp: body_len_def expected_content_def stored_inline_def\<close>)
    then show ?thesis using eff(5) t' res by (simp add: stays_def)
  qed
qed

lemma caching_stays:
  assumes "calm sha w" and "no_clash sha (Caching hash data hs) db fs" and "base_ok sha db fs" and "task_ok sha db fs (Caching hash data hs)"
    and "task_step w n (Caching hash data hs) db fs = (t', db', fs')" and "stays (Caching hash data hs) db fs Q"
    and "\<And>z. (hash, z) \<notin> Q"
  shows "stays t' db' fs' Q"
proof -
  have w: "os_write (w_os w) = WDone" using assms(1) by (simp add: calm_def)
  have hash: "hex_hash hash" using assms(4) by (simp add: row_key_def)
  have free: "entry_free db hash data fs" using assms(2) by simp
  note eff = cache_store_read [OF hash free w]
  have "kept db (snd (cache_store (w_os w) (db_cache db) hash data fs)) Q"
  proof (rule kept_mono)
    show "kept db fs ({(hash, int (length data))} \<union> Q)" using assms(6) by (simp add: stays_def)
  qed (use eff(1,2) needed_hex [OF assms(3)] in auto)
  then show ?thesis using assms(5,6) by (auto simp: stays_def)
qed

lemma deleting_stays:
  assumes "calm sha w" and "base_ok sha db fs" and "task_step w n (Deleting rid) db fs = (t', db', fs')" and "kept db fs Q"
  shows "stays t' db' fs' Q"
proof -
  obtain q s' where del: "delete_by_id (w_fails w) rid (db_store db) = (q, s')" by fastforce
  have find: "\<not> w_fails w StFind" using assms(1) by (simp add: calm_def)
  have base: "store_ok sha (db_store db)" "hexed (db_store db)" using assms(2) by (simp_all add: base_ok_def)
  show ?thesis
  proof (cases q)
    case (Inl e)
    then have "s' = db_store db"
      using del by (auto simp: delete_by_id_def Let_def split: if_splits option.splits sum.splits prod.splits)
    with Inl del assms(3,4) show ?thesis by (auto simp: stays_def)
  next
    case (Inr out)
    obtain deleted k where out: "out = (deleted, k)" by (cases out)
    note eff = delete_effect [OF base find del [unfolded Inr out]]
    have "kept (db\<lparr> db_store := s' \<rparr>) fs Q" unfolding db_update by (rule eff(6)) (simp add: assms(4))
    then show ?thesis using eff(4) assms(3) del Inr out by (auto simp: stays_def split: option.splits)
  qed
qed

lemma task_stays:
  assumes "calm sha w" and "no_clash sha t db fs" and "base_ok sha db fs" and "task_ok sha db fs t" and "task_step w n t db fs = (t', db', fs')"
    and "stays t db fs Q" and apart: "\<And>h z. h \<in> footprint sha t \<Longrightarrow> (h, z) \<notin> Q"
  shows "stays t' db' fs' Q"
proof (cases t)
  case TaskDone
  with assms show ?thesis by (auto simp: stays_def)
next
  case (Spooling mime sp)
  then have "kept db fs Q" "\<And>z. (hex_digest sp, z) \<notin> Q" using assms(6) apart by (auto simp: stays_def footprint_def)
  with Spooling assms(1-5) spooling_stays show ?thesis by blast
next
  case (Attaching mime len hash how)
  with assms attaching_stays show ?thesis by blast
next
  case (Saving mime data)
  then have "kept db fs Q" using assms(6) by (simp add: stays_def)
  with Saving assms(1-5) saving_stays show ?thesis by blast
next
  case (Caching hash data hs)
  then have "\<And>z. (hash, z) \<notin> Q" using apart by (auto simp: footprint_def)
  with Caching assms(1-6) caching_stays show ?thesis by blast
next
  case (Deleting rid)
  then have "kept db fs Q" using assms(6) by (simp add: stays_def)
  with Deleting assms(1-5) deleting_stays show ?thesis by blast
next
  case (Undoing h)
  with assms kept_remove [of db fs Q h "w_os w"] show ?thesis by (auto simp: stays_def base_ok_def)
next
  case (Wiping rounds rm mode granted)
  then have "kept db fs Q" using assms(6) by (simp add: stays_def)
  with Wiping assms(3,5) wiping_effect(2) show ?thesis by blast
next
  case (Touching rid)
  then have "kept db fs Q" using assms(6) by (simp add: stays_def)
  with Touching assms(5) row_effect(2) [OF assms(3) touched_ok [OF assms(3)] touched_rows] show ?thesis by auto
next
  case (Pinning rid pin)
  then have "kept db fs Q" using assms(6) by (simp add: stays_def)
  with Pinning assms(5) row_effect(2) [OF assms(3) pinned_ok [OF assms(3)] pinned_rows] show ?thesis by (auto simp: pinned_db)
next
  case cl: (Clearing rounds rm mode granted)
  then have "db' = db" "t' = TaskDone \<or> (\<exists>rounds'. t' = Clearing rounds' rm mode granted)" using assms(5) by (cases rounds; auto)+
  then show ?thesis using cl assms(6) by (auto simp: stays_def dest: nothing_needed)
next
  case un: (Unlinking hs)
  show ?thesis
  proof (cases hs)
    case Nil
    with un assms show ?thesis by (auto simp: stays_def)
  next
    case (Cons h hs')
    with un assms kept_remove [of db fs Q h "w_os w"] show ?thesis by (auto simp: stays_def base_ok_def)
  qed
qed

section \<open>All tasks\<close>

lemma other_ok:
  assumes "step_effect sha t db fs t' db' fs'" and "task_ok sha db fs u" and "spool_of u \<noteq> None \<Longrightarrow> spool_of u \<noteq> spool_of t"
  shows "task_ok sha db' fs' u"
proof (cases u)
  case (Spooling mime sp)
  with assms have apart: "spool_apart db (sp_path sp)" "spool_of t \<noteq> Some (sp_path sp)" by auto
  with assms(1) have "fs_files fs' (sp_path sp) = fs_files fs (sp_path sp) \<or> fs_files fs' (sp_path sp) = None"
    and "spool_apart db' (sp_path sp)" by (auto simp: step_effect_def spool_apart_def)
  then show ?thesis using Spooling assms(2) by (auto simp: spool_record_def)
qed (use assms(2) in auto)

lemma other_fits:
  assumes "step_effect sha t db fs t' db' fs'" and "task_ok sha db fs u" and "task_fits db fs u" and "footprint sha t \<inter> concerns u = {}"
  shows "task_fits db' fs' u"
  using assms by (cases u) (auto simp: step_effect_def)

lemma promised_concern: "(h, z) \<in> promised u \<Longrightarrow> h \<in> concerns u"
  by (cases u) auto

definition spools_apart :: "storage_task list \<Rightarrow> bool" where
  "spools_apart ts \<longleftrightarrow> (\<forall>i < length ts. \<forall>j < length ts. i \<noteq> j \<longrightarrow> spool_of (ts ! i) \<noteq> None \<longrightarrow> spool_of (ts ! i) \<noteq> spool_of (ts ! j))"

definition promises :: "storage_task list \<Rightarrow> nat \<Rightarrow> (string \<times> int) set" where
  "promises ts i = (\<Union>j \<in> {j. j < length ts \<and> j \<noteq> i}. promised (ts ! j))"

definition run_ok :: "bool \<Rightarrow> (bytes \<Rightarrow> bytes) \<Rightarrow> clipboard_db \<times> fsys \<times> storage_task list \<Rightarrow> bool" where
  "run_ok orderly sha c \<longleftrightarrow> (case c of (db, fs, ts) \<Rightarrow>
     base_ok sha db fs \<and> (\<forall>i < length ts. task_ok sha db fs (ts ! i)) \<and> spools_apart ts \<and>
     (orderly \<longrightarrow> kept db fs (\<Union>t \<in> set ts. promised t) \<and> (\<forall>i < length ts. task_fits db fs (ts ! i) \<and> apart_from ts i (concerns (ts ! i)))))"

lemma promises_split:
  assumes "i < length ts"
  shows "(\<Union>t \<in> set ts. promised t) = promised (ts ! i) \<union> promises ts i"
    and "(\<Union>t \<in> set (ts[i := t']). promised t) = promised t' \<union> promises ts i"
proof -
  have idx: "(\<Union>t \<in> set us. promised t) = (\<Union>j < length us. promised (us ! j))" for us by (auto simp: set_conv_nth)
  show "(\<Union>t \<in> set ts. promised t) = promised (ts ! i) \<union> promises ts i" using assms by (auto simp: idx promises_def)
  show "(\<Union>t \<in> set (ts[i := t']). promised t) = promised t' \<union> promises ts i"
    using assms by (auto simp: idx promises_def nth_list_update split: if_splits)
qed

lemma shared_step_ok:
  assumes "shared_step orderly sha n c c'" and "run_ok orderly sha c"
  shows "run_ok orderly sha c'"
  using assms
proof (induction rule: shared_step.induct)
  case (shared i ts w db fs t' db' fs')
  then have base: "base_ok sha db fs" and tasks: "\<And>j. j < length ts \<Longrightarrow> task_ok sha db fs (ts ! j)" and spools: "spools_apart ts"
    by (auto simp: run_ok_def)
  have eff: "step_effect sha (ts ! i) db fs t' db' fs'"
    by (rule task_effect [OF shared(2,3) base tasks [OF shared(1)] shared(4)])
  have ok: "task_ok sha db' fs' (ts[i := t'] ! j)" if "j < length ts" for j
    using eff other_ok [OF eff tasks [OF that]] that spools shared(1) by (cases "j = i") (auto simp: step_effect_def spools_apart_def)
  have sp: "spools_apart (ts[i := t'])"
    using spools eff shared(1) by (auto simp: spools_apart_def step_effect_def nth_list_update split: if_splits)
  have orderly_part: "kept db' fs' (\<Union>t \<in> set (ts[i := t']). promised t) \<and>
      (\<forall>j < length ts. task_fits db' fs' (ts[i := t'] ! j) \<and> apart_from (ts[i := t']) j (concerns (ts[i := t'] ! j)))" if orderly
  proof -
    have k: "kept db fs (promised (ts ! i) \<union> promises ts i)" and fits: "\<And>j. j < length ts \<Longrightarrow> task_fits db fs (ts ! j)"
      and dis: "\<And>j. j < length ts \<Longrightarrow> apart_from ts j (concerns (ts ! j))" and guard: "apart_from ts i (claims sha (ts ! i) \<union> concerns t')"
      using shared that promises_split(1) [OF shared(1)] by (auto simp: run_ok_def)
    have foot: "footprint sha (ts ! i) \<inter> concerns (ts ! j) = {}" if "j < length ts" "j \<noteq> i" for j
      using guard dis [OF shared(1)] that by (auto simp: footprint_def apart_from_def)
    have "stays t' db' fs' (promises ts i)"
      by (rule task_stays [OF shared(2,3) base tasks [OF shared(1)] shared(4)])
        (use k fits [OF shared(1)] foot promised_concern in \<open>fastforce simp: stays_def promises_def\<close>)+
    moreover have "task_fits db' fs' (ts ! j)" if "j < length ts" "j \<noteq> i" for j
      by (rule other_fits [OF eff tasks fits foot]) (use that in auto)
    moreover have "apart_from (ts[i := t']) j (concerns (ts[i := t'] ! j))" if "j < length ts" for j
      using dis [OF that] guard that shared(1) by (auto simp: apart_from_def nth_list_update)
    ultimately show ?thesis using promises_split(2) [OF shared(1)] shared(1) by (auto simp: stays_def nth_list_update)
  qed
  show ?case using eff ok sp orderly_part by (auto simp: run_ok_def step_effect_def)
qed

lemma shared_reach_ok: "shared_reach orderly sha n c0 c \<Longrightarrow> run_ok orderly sha c0 \<Longrightarrow> run_ok orderly sha c"
  by (induction rule: shared_reach.induct) (auto intro: shared_step_ok)

fun fresh_task :: "storage_task \<Rightarrow> bool" where
  "fresh_task TaskDone \<longleftrightarrow> True"
| "fresh_task (Spooling mime sp) \<longleftrightarrow> True"
| "fresh_task (Saving mime data) \<longleftrightarrow> True"
| "fresh_task (Deleting rid) \<longleftrightarrow> True"
| "fresh_task (Wiping rounds rm mode granted) \<longleftrightarrow> True"
| "fresh_task (Touching rid) \<longleftrightarrow> True"
| "fresh_task (Pinning rid pin) \<longleftrightarrow> True"
| "fresh_task _ \<longleftrightarrow> False"

lemma fresh_facts: "fresh_task t \<Longrightarrow> concerns t = {} \<and> promised t = {} \<and> task_fits db fs t"
  by (cases t) auto

lemma fresh_ok:
  assumes "fresh_task t" and "\<And>mime sp. t = Spooling mime sp \<Longrightarrow> (\<exists>d. spool_record sha sp d fs) \<and> spool_apart db (sp_path sp)"
  shows "task_ok sha db fs t"
  using assms by (cases t) (auto simp: spool_record_def)

text \<open>C13: Any number of insertions, deletions, wipes, touches and pin changes by several processes on the same tables and cache, interleaved between their transactions and file
  operations in any order: the tables stay consistent and no file of the cache ever holds other bytes than its name says, so nothing wrong is served. When no step
  takes up a fingerprint that another unfinished operation is concerned with, history and cache also agree completely once all operations are done.\<close>

theorem interleaved_storage:
  assumes "storage_ok sha db0 fs0" and "\<forall>t \<in> set ts0. fresh_task t" and "spools_apart ts0"
    and "\<forall>mime sp. Spooling mime sp \<in> set ts0 \<longrightarrow> (\<exists>d. spool_record sha sp d fs0) \<and> spool_apart db0 (sp_path sp)"
    and "shared_reach orderly sha n (db0, fs0, ts0) (db, fs, ts)"
  shows "store_ok sha (db_store db) \<and> (\<forall>h d. hex_hash h \<and> cache_read (db_cache db) h fs = Some d \<longrightarrow> row_key sha d = h) \<and>
    (orderly \<and> (\<forall>t \<in> set ts. t = TaskDone) \<longrightarrow> storage_ok sha db fs)"
proof -
  have tasks: "task_ok sha db0 fs0 (ts0 ! i)" if "i < length ts0" for i
    by (rule fresh_ok) (use assms(2,4) nth_mem [OF that] in auto)
  have "run_ok orderly sha (db0, fs0, ts0)"
    using assms(1,2,3) tasks fresh_facts by (auto simp: run_ok_def storage_ok_kept apart_from_def)
  from shared_reach_ok [OF assms(5) this] have run: "run_ok orderly sha (db, fs, ts)" .
  moreover have "(\<Union>t \<in> set ts. promised t) = {}" if "\<forall>t \<in> set ts. t = TaskDone" using that by auto
  ultimately show ?thesis by (auto simp: run_ok_def base_ok_def cache_sound_def cache_read_def storage_ok_kept)
qed

theorem interleaved_witness:
  "\<exists>db fs. shared_reach True (\<lambda>d. d) 3 (twin_db, twin_fs, [Deleting 1, Deleting 1]) (db, fs, [TaskDone, TaskDone]) \<and> storage_ok (\<lambda>d. d) db fs"
proof -
  let ?db = "twin_db\<lparr> db_store := (db_store twin_db)\<lparr> clipboard := [] \<rparr> \<rparr>"
  let ?fs = "cache_remove (w_os twin_world) (db_cache ?db) twin_hash twin_fs"
  let ?step = "shared_step True (\<lambda>d. d) 3"
  note go = shared [where orderly = True and sha = "\<lambda>d. d" and n = 3, OF _ twin_calm]
  have again: "task_step twin_world 3 (Deleting 1) ?db twin_fs = (TaskDone, ?db, twin_fs)"
    by (simp add: delete_by_id_def twin_world_def calm_world_def twin_db_def fresh_db_def get_row_def delete_rows_def empty_store_def)
  have s1: "?step (twin_db, twin_fs, [Deleting 1, Deleting 1]) (?db, twin_fs, [Unlinking [twin_hash], Deleting 1])"
    using go [of 0 "[Deleting 1, Deleting 1]"] twin_deletes by (simp add: apart_from_def less_Suc_eq)
  have s2: "?step (?db, twin_fs, [Unlinking [twin_hash], Deleting 1]) (?db, twin_fs, [Unlinking [twin_hash], TaskDone])"
    using go [of 1 "[Unlinking [twin_hash], Deleting 1]"] again by (simp add: apart_from_def)
  have s3: "?step (?db, twin_fs, [Unlinking [twin_hash], TaskDone]) (?db, ?fs, [Unlinking [], TaskDone])"
    using go [of 0 "[Unlinking [twin_hash], TaskDone]" ?db twin_fs] by (simp add: apart_from_def)
  have s4: "?step (?db, ?fs, [Unlinking [], TaskDone]) (?db, ?fs, [TaskDone, TaskDone])"
    using go [of 0 "[Unlinking [], TaskDone]"] by (simp add: apart_from_def)
  have run: "shared_reach True (\<lambda>d. d) 3 (twin_db, twin_fs, [Deleting 1, Deleting 1]) (?db, ?fs, [TaskDone, TaskDone])"
    by (rule shared_next [OF shared_next [OF shared_next [OF shared_next [OF shared_start s1] s2] s3] s4])
  have "spools_apart [Deleting 1, Deleting 1]" by (auto simp: spools_apart_def less_Suc_eq)
  from interleaved_storage [OF twin_storage_ok _ this _ run] run show ?thesis by auto
qed

end
