(* ===== verification/Opening.thy ===== *)
theory Opening
  imports Schema StorageOps
begin

text \<open>
  \<^verbatim>\<open>ClipboardDb::open\<close> and \<^verbatim>\<open>open_read_only\<close> of \<^verbatim>\<open>crates/storage/src/lib.rs\<close>: where the database and the cache are, the mode of the database file and
  the migrations. The second half asks whether a \<^verbatim>\<open>wipe\<close>, which removes the whole cache directory, can reach the database file.
\<close>

section \<open>Operations\<close>

text \<open>
  What the outside answers: the directories \<^verbatim>\<open>mkdir\<close> grants for the two paths, whether SQLite opens the file, the \<^verbatim>\<open>st_mode\<close> of the file (\<open>None\<close> when
  it cannot be examined), whether \<^verbatim>\<open>chmod\<close> is granted, \<^verbatim>\<open>LIKE\<close> and the failing statements of the migrations.
\<close>

record open_env =
  oe_env :: env
  oe_granted_db :: nat
  oe_granted_cache :: nat
  oe_connects :: bool
  oe_mode :: "nat option"
  oe_chmod :: bool
  oe_like :: "string \<Rightarrow> string \<Rightarrow> bool"
  oe_fails :: "schema_stmt \<Rightarrow> bool"

datatype open_error = ConnectionFailed | ReadOnlyConnectionFailed | MigrationFailed

record opened =
  op_path :: path
  op_cache :: file_cache
  op_schema :: schema_db

text \<open>\<^verbatim>\<open>perms.mode()\<close> is the whole \<^verbatim>\<open>st_mode\<close>, the file type included.\<close>

definition DB_FILE_MODE :: nat where "DB_FILE_MODE = 384"

definition S_IFREG :: nat where "S_IFREG = 32768"

definition secure_mode :: "bool \<Rightarrow> nat option \<Rightarrow> nat option" where
  "secure_mode granted st_mode =
     (case st_mode of
        None \<Rightarrow> None
      | Some m \<Rightarrow> if m \<noteq> DB_FILE_MODE then (if granted then Some (S_IFREG + DB_FILE_MODE) else Some m) else Some m)"

text \<open>The result, and the mode of the database file, its schema and the files afterwards.\<close>

definition db_open :: "open_env \<Rightarrow> schema_db \<Rightarrow> fsys \<Rightarrow> (open_error + opened) \<times> nat option \<times> schema_db \<times> fsys" where
  "db_open oe sdb fs =
     (case get_db_path (oe_env oe) (oe_granted_db oe) fs of
        (db_path, fs1) \<Rightarrow>
          (case get_cache_dir (oe_env oe) (oe_granted_cache oe) fs1 of
             (cache, fs2) \<Rightarrow>
               if \<not> oe_connects oe then (Inl ConnectionFailed, oe_mode oe, sdb, fs2)
               else
                 (case initialize (oe_like oe) (oe_fails oe) sdb of
                    (False, sdb') \<Rightarrow> (Inl MigrationFailed, secure_mode (oe_chmod oe) (oe_mode oe), sdb', fs2)
                  | (True, sdb') \<Rightarrow>
                      (Inr \<lparr> op_path = db_path, op_cache = \<lparr> cache_dir = cache \<rparr>, op_schema = sdb' \<rparr>,
                       secure_mode (oe_chmod oe) (oe_mode oe), sdb', fs2))))"

definition db_open_read_only :: "open_env \<Rightarrow> schema_db \<Rightarrow> fsys \<Rightarrow> (open_error + opened) \<times> nat option \<times> schema_db \<times> fsys" where
  "db_open_read_only oe sdb fs =
     (case get_db_path (oe_env oe) (oe_granted_db oe) fs of
        (db_path, fs1) \<Rightarrow>
          (case get_cache_dir (oe_env oe) (oe_granted_cache oe) fs1 of
             (cache, fs2) \<Rightarrow>
               if \<not> oe_connects oe then (Inl ReadOnlyConnectionFailed, oe_mode oe, sdb, fs2)
               else (Inr \<lparr> op_path = db_path, op_cache = \<lparr> cache_dir = cache \<rparr>, op_schema = sdb \<rparr>, oe_mode oe, sdb, fs2)))"

lemma open_files: "snd (snd (snd (db_open oe sdb fs))) = fs' \<Longrightarrow> fs_files fs' = fs_files fs"
  by (auto simp: db_open_def get_db_path_def get_cache_dir_def ensure_private_dir_def Let_def frame_simps
      split: prod.splits bool.splits if_splits)

lemma open_paths:
  assumes "db_open oe sdb fs = (Inr op, md, sdb', fs')"
  shows "op_path op = fst (get_db_path (oe_env oe) 0 fs)" "cache_dir (op_cache op) = fst (get_cache_dir (oe_env oe) 0 fs)"
  using assms by (auto simp: db_open_def get_db_path_def get_cache_dir_def Let_def split: prod.splits bool.splits if_splits)

lemma open_mode:
  assumes "db_open oe sdb fs = (Inr op, md, sdb', fs')" and "oe_chmod oe" and "oe_mode oe = Some m"
  shows "md = Some (S_IFREG + DB_FILE_MODE) \<or> md = Some DB_FILE_MODE"
  using assms by (auto simp: db_open_def secure_mode_def split: prod.splits bool.splits if_splits)

section \<open>A wipe and the database file\<close>

text \<open>The two base directories of \<^verbatim>\<open>core/src/lib.rs\<close>.\<close>

definition data_base :: "env \<Rightarrow> path" where
  "data_base env =
     (case env ''XDG_DATA_HOME'' of
        Some x \<Rightarrow> x
      | None \<Rightarrow> (case env ''HOME'' of Some h \<Rightarrow> path_push (path_push h ''.local'') ''share'' | None \<Rightarrow> ''.''))"

definition cache_base :: "env \<Rightarrow> path" where
  "cache_base env =
     (case env ''XDG_CACHE_HOME'' of
        Some x \<Rightarrow> x
      | None \<Rightarrow> (case env ''HOME'' of Some h \<Rightarrow> path_push h ''.cache'' | None \<Rightarrow> ''.''))"

lemma path_of_db: "fst (get_db_path env g fs) = path_push (path_push (data_base env) DB_DIR_NAME) DB_FILE_NAME"
  by (simp add: get_db_path_def data_base_def Let_def)

lemma path_of_cache: "fst (get_cache_dir env g fs) = path_push (cache_base env) DB_DIR_NAME"
  by (simp add: get_cache_dir_def cache_base_def Let_def)

lemma push_name: "path_push base DB_DIR_NAME = (if base = [] \<or> last base = CHR ''/'' then base else base @ ''/'') @ ''y4p''"
  by (simp add: path_push_def DB_DIR_NAME_def)

lemma push_file: "path_push (path_push base DB_DIR_NAME) DB_FILE_NAME = path_push base DB_DIR_NAME @ ''/y4p.sqlite''"
  by (simp add: push_name) (simp add: path_push_def DB_FILE_NAME_def)

lemma wiped_below: "below (cache_dir c) p \<Longrightarrow> fs_files (snd (cache_clear None mode granted c fs)) p = None"
  by (simp add: cache_clear_def remove_tree_def frame_simps)

lemma wipe_elsewhere: "\<not> below (cache_dir c) p \<Longrightarrow> fs_files (snd (cache_clear rm mode granted c fs)) p = fs_files fs p"
  by (auto simp: cache_clear_def remove_tree_def frame_simps split: option.splits)

lemma home_apart: "\<not> below (path_push (path_push h ''.cache'') DB_DIR_NAME) (path_push (path_push (path_push (path_push h ''.local'') ''share'') DB_DIR_NAME) DB_FILE_NAME)"
proof -
  define b where "b = (if h = [] \<or> last h = CHR ''/'' then h else h @ ''/'')"
  have "path_push (path_push h ''.cache'') DB_DIR_NAME = b @ ''.cache/y4p''"
    by (simp add: b_def path_push_def DB_DIR_NAME_def)
  moreover have "path_push (path_push (path_push (path_push h ''.local'') ''share'') DB_DIR_NAME) DB_FILE_NAME = b @ ''.local/share/y4p/y4p.sqlite''"
    by (simp add: b_def path_push_def DB_DIR_NAME_def DB_FILE_NAME_def)
  ultimately show ?thesis by (simp add: below_def prefix_def)
qed

text \<open>C18: A \<^verbatim>\<open>wipe\<close> removes the cache directory with everything below it. With the default directories under \<^verbatim>\<open>HOME\<close> the database file is elsewhere and is left
  alone, whatever of the removal fails. When the data and the cache base are the same directory, as they are when both variables are set alike, both are set but
  empty, or none of them nor \<^verbatim>\<open>HOME\<close> is set, the database file lies in the cache directory and the wipe deletes it under the open connection.\<close>

theorem wipe_and_database_file:
  assumes "db_open oe sdb fs0 = (Inr op, md, sdb', fs1)"
  shows "(oe_env oe ''XDG_DATA_HOME'' = None \<and> oe_env oe ''XDG_CACHE_HOME'' = None \<and> oe_env oe ''HOME'' \<noteq> None \<longrightarrow>
      fs_files (snd (cache_clear rm mode granted (op_cache op) fs)) (op_path op) = fs_files fs (op_path op)) \<and>
    (data_base (oe_env oe) = cache_base (oe_env oe) \<longrightarrow>
      fs_files (snd (cache_clear None mode granted (op_cache op) fs)) (op_path op) = None)"
proof (intro conjI impI)
  note paths = open_paths [OF assms, unfolded path_of_db path_of_cache]
  show "fs_files (snd (cache_clear rm mode granted (op_cache op) fs)) (op_path op) = fs_files fs (op_path op)"
    if env: "oe_env oe ''XDG_DATA_HOME'' = None \<and> oe_env oe ''XDG_CACHE_HOME'' = None \<and> oe_env oe ''HOME'' \<noteq> None"
  proof (rule wipe_elsewhere)
    obtain h where "oe_env oe ''HOME'' = Some h" using env by blast
    with env paths home_apart [of h] show "\<not> below (cache_dir (op_cache op)) (op_path op)" by (simp add: data_base_def cache_base_def)
  qed
  show "fs_files (snd (cache_clear None mode granted (op_cache op) fs)) (op_path op) = None"
    if "data_base (oe_env oe) = cache_base (oe_env oe)"
    by (rule wiped_below) (simp add: paths push_file that below_def prefix_def)
qed

definition bare_env :: open_env where
  "bare_env = \<lparr> oe_env = (\<lambda>_. None), oe_granted_db = 9, oe_granted_cache = 9, oe_connects = True, oe_mode = Some 33188, oe_chmod = True,
     oe_like = (\<lambda>_ _. False), oe_fails = (\<lambda>_. False) \<rparr>"

definition current_schema :: schema_db where
  "current_schema = \<lparr> sc_version = 4, sc_rows = Some [], sc_has_pinned = True, sc_has_chunked = True, sc_chunk_tables = True,
     sc_idx_pinned = False, sc_idx_pinned_ts = True \<rparr>"

theorem wipe_and_database_file_witness:
  "\<exists>op md sdb fs. db_open bare_env current_schema (write_file ''./y4p/y4p.sqlite'' ''SQLite'' empty_fs) = (Inr op, md, sdb, fs) \<and>
     fs_files fs (op_path op) = Some ''SQLite'' \<and> fs_files (snd (cache_clear None 448 9 (op_cache op) fs)) (op_path op) = None"
proof -
  let ?fs = "write_file ''./y4p/y4p.sqlite'' ''SQLite'' empty_fs"
  obtain r md sdb fs where run: "db_open bare_env current_schema ?fs = (r, md, sdb, fs)" by (metis prod_cases4)
  have "initialize (\<lambda>_ _. False) (\<lambda>_. False) current_schema = (True, current_schema)"
    by (simp add: initialize_def current_schema_def run_if_def SCHEMA_VERSION_def)
  with run obtain op where op: "r = Inr op" by (auto simp: db_open_def bare_env_def split: prod.splits)
  have "op_path op = ''./y4p/y4p.sqlite''"
    using open_paths(1) [OF run [unfolded op]] by (simp add: path_of_db path_push_def DB_DIR_NAME_def DB_FILE_NAME_def data_base_def bare_env_def)
  moreover have "fs_files fs = fs_files ?fs" using open_files [of bare_env current_schema ?fs] run by simp
  moreover have "data_base (oe_env bare_env) = cache_base (oe_env bare_env)" by (simp add: data_base_def cache_base_def bare_env_def)
  ultimately show ?thesis using wipe_and_database_file [OF run [unfolded op], of None 448 9 fs] run op by auto
qed

end
