(* ===== verification/Diagnostics.thy ===== *)
theory Diagnostics
  imports Cli
begin

text \<open>
  What the program says: the message functions of \<^verbatim>\<open>crates/core/src/constants.rs\<close>, the rationed overload reports of
  \<^verbatim>\<open>crates/wayland/src/ingest.rs\<close>, the reports of \<^verbatim>\<open>crates/image/src/route.rs\<close>, the texts of the error types, the seat
  handler and the help pages. A printing function gives the lines it prints. The overload reports are shown to be
  few, and the help page is compared with the command dispatcher.
\<close>

section \<open>Message functions\<close>

definition log_image_breaker_open :: "nat \<Rightarrow> nat \<Rightarrow> string" where
  "log_image_breaker_open failures cooldown_secs =
     LOG_WARN @ ''image conversion failed '' @ show_nat failures @ '' times in a row; suspended for '' @ show_nat cooldown_secs @
     ''s (images are saved unmodified)''"

definition log_image_breaker_closed :: string where
  "log_image_breaker_closed = LOG_INFO @ ''image conversion recovered; resumed''"

definition log_image_scratch_unavailable :: "string \<Rightarrow> string" where
  "log_image_scratch_unavailable reason =
     LOG_WARN @ ''no private scratch directory for the image converter ('' @ reason @ ''); images are saved unmodified, metadata included''"

definition log_image_throttled :: "nat \<Rightarrow> string" where
  "log_image_throttled wait_ms = LOG_WARN @ ''image converter saturated for '' @ show_nat wait_ms @ ''ms; image saved unmodified''"

definition log_ingest_shed :: "string \<Rightarrow> nat \<Rightarrow> string" where
  "log_ingest_shed reason total_shed =
     LOG_WARN @ ''ingestion overloaded ('' @ reason @ ''); clipboard payload dropped (total shed: '' @ show_nat total_shed @ '')''"

definition log_seat_detected :: "string \<Rightarrow> string \<Rightarrow> string" where
  "log_seat_detected name caps = LOG_INFO @ ''wayland seat detected: '' @ name @ '' (capabilities: '' @ caps @ '')''"

definition log_protocol_bound :: "string \<Rightarrow> string" where
  "log_protocol_bound interface = LOG_INFO @ ''bound to wayland interface: '' @ interface"

section \<open>Texts of errors\<close>

text \<open>\<open>show_io\<close> is the text of an I/O error, which comes from the library.\<close>

definition payload_error_text :: "(io_error \<Rightarrow> string) \<Rightarrow> payload_error \<Rightarrow> string" where
  "payload_error_text show_io pe =
     (case pe of
        PEmpty \<Rightarrow> ''payload is empty''
      | TooLarge limit \<Rightarrow> ''payload exceeds the '' @ show_nat limit @ ''-byte limit''
      | PIo e \<Rightarrow> ''payload read failed: '' @ show_io e)"

definition payload_error_source :: "payload_error \<Rightarrow> io_error option" where
  "payload_error_source pe = (case pe of PIo e \<Rightarrow> Some e | PEmpty \<Rightarrow> None | TooLarge _ \<Rightarrow> None)"

definition payload_error_from :: "io_error \<Rightarrow> payload_error" where
  "payload_error_from e = PIo e"

definition pipeline_error_text :: "(io_error \<Rightarrow> string) \<Rightarrow> (int \<Rightarrow> string) \<Rightarrow> pipeline_error \<Rightarrow> string" where
  "pipeline_error_text show_io show_code pe =
     (case pe of
        ESpawn e \<Rightarrow> ''failed to start external process: '' @ show_io e
      | ESource e \<Rightarrow> ''failed to read pipeline input: '' @ show_io e
      | ESink e \<Rightarrow> ''failed to write pipeline output: '' @ show_io e
      | EChild e \<Rightarrow> ''pipe I/O with external process failed: '' @ show_io e
      | EFailed (Some code) stderr \<Rightarrow> ''external process exited with status '' @ show_code code @ '': '' @ stderr
      | EFailed None stderr \<Rightarrow> ''external process was terminated by a signal: '' @ stderr
      | ETimeout limit \<Rightarrow> ''external process exceeded its '' @ show_nat limit @ ''s time limit and was killed''
      | EIsolation e \<Rightarrow> ''failed to prepare an isolated environment for the external process: '' @ show_io e)"

lemma source_of_io: "payload_error_source pe = Some e \<longleftrightarrow> pe = payload_error_from e"
  by (auto simp: payload_error_source_def payload_error_from_def split: payload_error.splits)

section \<open>Reports\<close>

definition report_shed :: "string \<Rightarrow> nat \<Rightarrow> string list" where
  "report_shed reason total_shed = (if should_report total_shed then [log_ingest_shed reason total_shed] else [])"

definition report_failure :: "bool \<Rightarrow> string list" where
  "report_failure tripped =
     (if tripped then [log_image_breaker_open IMAGE_BREAKER_THRESHOLD IMAGE_BREAKER_COOLDOWN_SECS] else [])"

text \<open>The lines of an attempt whose permit was resolved with the given answer.\<close>

definition report_resolution :: "bool \<times> bool \<Rightarrow> string list" where
  "report_resolution res =
     (case res of (tripped, recovered) \<Rightarrow>
        if recovered then [log_image_breaker_closed] else if tripped then report_failure True else [])"

text \<open>\<open>ns\<close> is the duration in nanoseconds.\<close>

definition duration_ms :: "nat \<Rightarrow> nat" where
  "duration_ms ns = (let ms = ns div 1000000 in if ms \<le> u64_max then ms else u64_max)"

text \<open>A circuit that stays closed says nothing, and nothing is said twice for one attempt.\<close>

lemma resolution_quiet:
  "length (report_resolution (fst (resolve_at p po now b))) \<le> 1"
  "report_resolution (fst (resolve_at p po now b)) = [] \<longleftrightarrow>
     breaker_state_of (snd (resolve_at p po now b)) = breaker_state_of b"
  by (auto simp: report_resolution_def report_failure_def resolve_at_def breaker_resolve_def breaker_state_of_def
      split: inner.splits bool.splits permit_outcome.splits outcome.splits)

section \<open>The seat handler\<close>

text \<open>The capabilities of a seat (pointer, keyboard, touch), \<open>None\<close> when the client library does not know a bit of them.\<close>

datatype seat_event = SeatCapabilities "(bool \<times> bool \<times> bool) option" | SeatName string | SeatOther

definition cap_list :: "bool \<times> bool \<times> bool \<Rightarrow> string list" where
  "cap_list caps =
     (case caps of (pointer, keyboard, touch) \<Rightarrow>
        (if pointer then [''pointer''] else []) @ (if keyboard then [''keyboard''] else []) @ (if touch then [''touch''] else []))"

definition on_seat :: "bool \<Rightarrow> seat_event \<Rightarrow> string list" where
  "on_seat verbose ev =
     (case ev of
        SeatCapabilities caps \<Rightarrow>
          if verbose then
            (case caps of
               Some real_caps \<Rightarrow> [''Seat capabilities changed: ['' @ join_with '', '' (cap_list real_caps) @ '']'']
             | None \<Rightarrow> [''Failed to parse seat capabilities.''])
          else []
      | SeatName name \<Rightarrow> if verbose then [log_seat_detected name ''identified''] else []
      | SeatOther \<Rightarrow> [])"

section \<open>Help pages\<close>

text \<open>\<open>version\<close> is \<^verbatim>\<open>CARGO_PKG_VERSION\<close>, which the build puts in.\<close>

definition print_version :: "string \<Rightarrow> string list" where
  "print_version version = [''y4p v'' @ version, ''Unified Wayland Clipboard Infrastructure.'']"

text \<open>The lines of \<^verbatim>\<open>print_help\<close> after those of \<^verbatim>\<open>print_version\<close>.\<close>

definition help_body :: "string list" where
  "help_body =
     [[CHR 0x0A] @ ''USAGE:'',
      ''    y4p <COMMAND> [ARGS] [OPTIONS]'',
      [CHR 0x0A] @ ''CORE COMMANDS:'',
      ''    daemon             - Initialize background monitor and IPC socket listener.'',
      ''                         Flags: --verbose (-v).'',
      ''    status             - Query the running daemon and print its status.'',
      ''                         No flags or arguments.'',
      ''    pause              - Suspend clipboard monitoring (private mode).'',
      ''                         No flags or arguments.'',
      ''    resume             - Resume clipboard monitoring.'',
      ''                         No flags or arguments.'',
      ''    list [range]       - Display history metadata. Supports range (e.g., 0-50).'',
      ''                         Flags: --raw (-R), --full (-A), --id (-i).'',
      ''    search <keywords...> - Keyword scan metadata using SQLite indexing.'',
      ''                         Multiple keywords AND-match (space-separated or repeated args).'',
      ''                         Flags: --raw (-R), --id (-i).'',
      ''    copy-to <target>   - Restore record to clipboard via IPC synchronization.'',
      ''                         Accepts index or stable ID (via --id flag).'',
      ''                         Flags: --id (-i), --verbose (-v).'',
      [CHR 0x0A] @ ''DATA OPERATIONS:'',
      ''    show <target>      - Inspect record content and metadata.'',
      ''                         Flags: --raw (-R), --id (-i).'',
      ''    store [mime]       - Ingest stdin to storage and sync with active daemon.'',
      ''                         Flags: --verbose (-v).'',
      ''    paste-from [mime]  - Access system clipboard directly. Bypasses database.'',
      [CHR 0x0A] @ ''MANAGEMENT:'',
      ''    delete <target>    - Physically remove a specific record from persistent storage.'',
      ''                         Flags: --id (-i).'',
      ''    wipe               - Purge all history and execute SQLite VACUUM.'',
      ''                         Flags: --force (-f) [REQUIRED].'',
      ''    pin <target>       - Protect a record from automatic history rotation.'',
      ''                         Flags: --id (-i).'',
      ''    unpin <target>     - Clear a record'' @ [CHR 0x27] @ ''s pinned protection.'',
      ''                         Flags: --id (-i).'',
      [CHR 0x0A] @ ''GLOBAL OPTIONS:'',
      ''    -h, --help         - Show this help information.'',
      ''    -V, --version      - Show version information.'',
      ''    -v, --verbose      - Enable detailed system and transfer logging.'',
      [CHR 0x0A] @ ''PRACTICAL EXAMPLES:'',
      ''    # 1. High-speed selection with fzf using Stable IDs'',
      ''    #    (the index is padded inside the brackets, so extract it explicitly):'',
      ''    $ y4p list 0-100 --raw --id | fzf | sed -E '' @ [CHR 0x27] @ ''s/^'' @ [CHR 0x5C] @ ''[ *([0-9]+)'' @ [CHR 0x5C] @ ''].*/'' @ [CHR 0x5C] @ ''1/'' @ [CHR 0x27] @ '' | xargs -r y4p copy-to --id'',
      [CHR 0x0A] @ ''    # 2. Extracting binary content from history:'',
      ''    $ y4p show 12 --id --raw > recovered_asset.png'',
      [CHR 0x0A] @ ''    # 3. Manual ingestion with custom MIME:'',
      ''    $ cat data.json | y4p store application/json'',
      [CHR 0x0A] @ ''    # 4. Pin an important entry, then release it later:'',
      ''    $ y4p pin 3 && y4p unpin --id 118'',
      [CHR 0x0A] @ ''TECHNICAL NOTES:'',
      ''    - Storage: Secured at ~/.local/share/y4p/ (mode 600).'',
      ''    - IPC: Communication via $XDG_RUNTIME_DIR/y4p/y4p.sock'',
      ''           (falls back to /tmp/y4p.<uid>.sock if $XDG_RUNTIME_DIR is unset).'',
      ''    - Engine: SQLite WAL mode with SHA3-256-based deduplication.'',
      []]"

definition print_help :: "string \<Rightarrow> string list" where
  "print_help version = print_version version @ help_body"

text \<open>What a page request of the dispatcher prints.\<close>

definition page_lines :: "string \<Rightarrow> cli_page \<Rightarrow> string list" where
  "page_lines version page =
     (case page of NoPage \<Rightarrow> [] | HelpPage \<Rightarrow> print_help version | VersionPage \<Rightarrow> print_version version)"

text \<open>The command a line of the page is about: four blanks, a word in small letters, and a dash before the description.\<close>

definition doc_command :: "string \<Rightarrow> string option" where
  "doc_command line =
     (if take 4 line = ''    '' \<and> drop 4 line \<noteq> [] \<and> line ! 4 \<in> set ''abcdefghijklmnopqrstuvwxyz'' \<and> sublist '' - '' line
      then Some (takeWhile (\<lambda>c. c \<noteq> CHR '' '') (drop 4 line)) else None)"

definition documented :: "string list \<Rightarrow> string list" where
  "documented lines = List.map_filter doc_command lines"

lemma documented_help:
  "documented (print_help version) =
     [''daemon'', ''status'', ''pause'', ''resume'', ''list'', ''search'', ''copy-to'', ''show'', ''store'', ''paste-from'',
      ''delete'', ''wipe'', ''pin'', ''unpin'']"
proof -
  have "documented help_body =
      [''daemon'', ''status'', ''pause'', ''resume'', ''list'', ''search'', ''copy-to'', ''show'', ''store'', ''paste-from'',
       ''delete'', ''wipe'', ''pin'', ''unpin'']"
    by code_simp
  then show ?thesis
    by (simp add: documented_def print_help_def print_version_def map_filter_simps map_filter_append doc_command_def)
qed

text \<open>A word that the page does not describe is not a command, but for \<^verbatim>\<open>help\<close> and \<^verbatim>\<open>version\<close>, which it describes as options.\<close>

lemma undocumented_unknown:
  assumes "\<not> is_option prog" and "\<not> is_option cmd" and "cmd \<notin> set (documented (print_help version)) \<union> {''help'', ''version''}"
  shows "cli_dispatch ce (prog # cmd # rest) db fs =
     (if has_flag rest ''--help'' ''-h'' then (HelpPage, ActNone, plain_result [] db fs)
      else if has_flag rest ''--version'' ''-V'' then (VersionPage, ActNone, plain_result [] db fs)
      else (NoPage, ActNone, [err (''unknown command: '' @ quoted cmd), OutLine (''consult '' @ quoted ''y4p help'' @ '' for valid operations.'')],
        Some 1, db, fs))"
proof -
  have "has_flag (prog # cmd # rest) l s = has_flag rest l s" if "is_option l" "is_option s" for l s
    using assms(1,2) that by (auto simp: has_flag_def)
  moreover have "is_option ''--help''" "is_option ''-h''" "is_option ''--version''" "is_option ''-V''" by (simp_all add: is_option_def)
  ultimately show ?thesis using assms unfolding documented_help by (simp add: cli_dispatch_def Let_def)
qed

section \<open>Few overload reports\<close>

text \<open>One selection after another is refused, each counted and reported.\<close>

fun shed_log :: "string list \<Rightarrow> ingest_stats \<Rightarrow> string list \<times> ingest_stats" where
  "shed_log [] st = ([], st)"
| "shed_log (reason # reasons) st =
     (case record_shed_reader st of (total_shed, st1) \<Rightarrow>
        case shed_log reasons st1 of (lines, st2) \<Rightarrow> (report_shed reason total_shed @ lines, st2))"

lemma shed_log_snoc:
  "shed_log (rs @ [r]) st =
     (case shed_log rs st of (lines, st1) \<Rightarrow> case record_shed_reader st1 of (total_shed, st2) \<Rightarrow> (lines @ report_shed r total_shed, st2))"
  by (induction rs arbitrary: st) (auto split: prod.splits)

lemma shed_log_counts:
  "shed_readers st = 0 \<Longrightarrow> length rs < 2 ^ 64 \<Longrightarrow> shed_readers (snd (shed_log rs st)) = length rs"
  by (induction rs rule: rev_induct) (auto simp: shed_log_snoc record_shed_reader_def wrap64_def Let_def split: prod.splits)

lemma shed_log_first: "shed_readers st = 0 \<Longrightarrow> \<exists>more. fst (shed_log (r # rs) st) = log_ingest_shed r 1 # more"
  by (auto simp: record_shed_reader_def report_shed_def should_report_def is_power_of_two.simps wrap64_def Let_def split: prod.splits)

text \<open>The number of lines is the number of binary digits of the number of refusals.\<close>

lemma shed_log_sparse:
  assumes "shed_readers st = 0" and "length rs < 2 ^ 64"
  shows "length rs < 2 ^ length (fst (shed_log rs st)) \<and> (rs \<noteq> [] \<longrightarrow> 2 ^ length (fst (shed_log rs st)) \<le> 2 * length rs)"
  using assms(2)
proof (induction rs rule: rev_induct)
  case Nil
  then show ?case by simp
next
  case (snoc r rs)
  define L where "L = length (fst (shed_log rs st))"
  define n where "n = length rs"
  have ih: "n < 2 ^ L" "rs \<noteq> [] \<longrightarrow> 2 ^ L \<le> 2 * n" using snoc by (auto simp: L_def n_def)
  have total_shed: "fst (record_shed_reader (snd (shed_log rs st))) = Suc n"
    using shed_log_counts [OF assms(1), of rs] snoc.prems by (simp add: record_shed_reader_def Let_def wrap64_def n_def)
  have len: "length (fst (shed_log (rs @ [r]) st)) = (if should_report (Suc n) then Suc L else L)"
    using total_shed by (auto simp: shed_log_snoc L_def report_shed_def split: prod.splits)
  have bounds: "Suc n \<le> 2 ^ L" "2 ^ L < 2 * Suc n" using ih by (auto simp: n_def L_def)
  show ?case
  proof (cases "should_report (Suc n)")
    case True
    then obtain k where k: "Suc n = 2 ^ k" by (auto simp: should_report_powers)
    have "(2::nat) ^ L < 2 ^ Suc k" "(2::nat) ^ k \<le> 2 ^ L" using bounds by (simp_all add: k [symmetric])
    then have "L = k" using power_less_imp_less_exp [of "2::nat" L "Suc k"] power_le_imp_le_exp [of "2::nat" k L] by simp
    with True len k show ?thesis by (simp add: n_def)
  next
    case False
    then have "Suc n \<noteq> 2 ^ L" by (auto simp: should_report_powers)
    with False len bounds show ?thesis by (simp add: n_def)
  qed
qed

end
