(* ===== verification/Plumbing.thy ===== *)
theory Plumbing
  imports Transcode Watchdog Pipe Route
begin

unbundle bit_operations_syntax

text \<open>
  The calls around the loops of the other theories: making a pipe (\<^verbatim>\<open>wayland/src/handlers/data_control/mod.rs\<close>) and asking for its
  capacity (\<^verbatim>\<open>core/src/pipe.rs\<close>), the plain entry points of the filter pipeline and its waiting and reaping of the child (\<^verbatim>\<open>image/src/pipeline.rs\<close>), the
  probe and the entry points of \<^verbatim>\<open>image/src/magick.rs\<close>, the hint to the allocator (\<^verbatim>\<open>core/src/memory.rs\<close>), and
  the guard that unlinks an unfinished spool file (\<^verbatim>\<open>daemon/src/spool.rs\<close>).
\<close>

section \<open>Pipes\<close>

definition O_NONBLOCK :: "32 word" where "O_NONBLOCK = 2048"

text \<open>One round of the loop over both ends: \<^verbatim>\<open>F_GETFL\<close> and \<^verbatim>\<open>F_SETFL\<close> may be refused, and the refusal of the latter is ignored.\<close>

definition clear_nonblock :: "bool \<times> bool \<Rightarrow> 32 word \<Rightarrow> 32 word" where
  "clear_nonblock granted flags = (case granted of (getfl, setfl) \<Rightarrow> if getfl \<and> setfl then flags AND NOT O_NONBLOCK else flags)"

record pipe_ends =
  pe_read :: "32 word"
  pe_write :: "32 word"
  pe_capacity :: "nat option"

text \<open>\<open>created\<close> is the answer of \<^verbatim>\<open>pipe(2)\<close>: the flags of the two new ends.\<close>

definition make_pipe ::
    "(32 word \<times> 32 word) option \<Rightarrow> bool \<times> bool \<Rightarrow> bool \<times> bool \<Rightarrow> (nat \<Rightarrow> nat \<Rightarrow> set_answer) \<Rightarrow> (nat \<Rightarrow> nat option) \<Rightarrow> pipe_ends option" where
  "make_pipe created read_ok write_ok set_ans cap_ans =
     (case created of
        None \<Rightarrow> None
      | Some (r, w) \<Rightarrow>
          Some \<lparr> pe_read = clear_nonblock read_ok r, pe_write = clear_nonblock write_ok w,
                 pe_capacity = map_option fst (grow set_ans cap_ans) \<rparr>)"

text \<open>\<^verbatim>\<open>F_GETPIPE_SZ\<close> answers with a negative number for what is not a pipe.\<close>

definition pipe_capacity :: "int \<Rightarrow> nat option" where
  "pipe_capacity answer = (if 0 \<le> answer then Some (nat answer) else None)"

definition grow_to :: "(nat \<Rightarrow> nat \<Rightarrow> set_answer) \<Rightarrow> (nat \<Rightarrow> int) \<Rightarrow> nat \<Rightarrow> nat option" where
  "grow_to set_ans sizes target = map_option fst (grow_raw set_ans (\<lambda>i. pipe_capacity (sizes i)) target)"

lemma cleared_bits: "bit (clear_nonblock (True, True) flags) i \<longleftrightarrow> bit flags i \<and> i \<noteq> 11"
proof -
  have pow: "O_NONBLOCK = 2 ^ 11" by (simp add: O_NONBLOCK_def)
  have "bit O_NONBLOCK i \<longleftrightarrow> i = 11" if "i < 32" using that unfolding pow bit_exp_iff by (auto simp: possible_bit_word)
  then show ?thesis by (auto simp: clear_nonblock_def bit_simps dest: bit_imp_le_length)
qed

text \<open>Both ends block, and nothing but the blocking mode was changed.\<close>

lemma make_pipe_blocks:
  assumes "make_pipe (Some (r, w)) (True, True) (True, True) set_ans cap_ans = Some p"
  shows "\<not> bit (pe_read p) 11 \<and> \<not> bit (pe_write p) 11 \<and> (\<forall>i. i \<noteq> 11 \<longrightarrow> bit (pe_read p) i = bit r i \<and> bit (pe_write p) i = bit w i)"
  using assms by (auto simp: make_pipe_def cleared_bits)

section \<open>Waiting for the child\<close>

datatype wait_answer = WaitDone | WaitInterrupted | WaitFailed

text \<open>The number of \<^verbatim>\<open>waitid\<close> calls made, \<open>None\<close> while the loop is still waiting when the answers end.\<close>

fun wait_exit_without_reaping :: "wait_answer list \<Rightarrow> nat option" where
  "wait_exit_without_reaping [] = None"
| "wait_exit_without_reaping (rc # answers) =
     (if rc = WaitDone \<or> rc \<noteq> WaitInterrupted then Some 1 else map_option Suc (wait_exit_without_reaping answers))"

lemma wait_exit_counts: "wait_exit_without_reaping answers \<noteq> Some 0"
  by (cases answers) auto

lemma wait_exit_returns:
  "wait_exit_without_reaping answers = Some (Suc k) \<longleftrightarrow>
     k < length answers \<and> answers ! k \<noteq> WaitInterrupted \<and> (\<forall>j<k. answers ! j = WaitInterrupted)"
proof (induction answers arbitrary: k)
  case Nil
  then show ?case by simp
next
  case (Cons rc answers)
  show ?case
  proof (cases k)
    case 0
    then show ?thesis by (cases "wait_exit_without_reaping answers") (use wait_exit_counts [of answers] in auto)
  next
    case (Suc j)
    then show ?thesis using Cons [of j] by (auto simp: less_Suc_eq_0_disj nth_Cons')
  qed
qed

text \<open>\<^verbatim>\<open>reap\<close>: signal the group, signal the child, wait for it.\<close>

definition reap :: "supervision \<Rightarrow> supervision" where
  "reap sv = (kill_process_group sv)\<lparr> sv_killed := True, sv_exited := True, sv_reaped := True \<rparr>"

lemma reap_not_stray: "\<not> sv_reaped sv \<Longrightarrow> sv_stray (reap sv) = sv_stray sv \<and> sv_reaped (reap sv) \<and> sv_killed (reap sv)"
  by (simp add: reap_def kill_process_group_def)

section \<open>Entry points of the filter pipeline\<close>

definition run_filter ::
    "host \<Rightarrow> exec \<Rightarrow> string \<Rightarrow> string list \<Rightarrow> reader \<Rightarrow> wr_answer list \<Rightarrow> io_error option \<Rightarrow> bytes \<Rightarrow> (pipeline_error + transfer_counts) \<times> bytes" where
  "run_filter h exec program args input answers flush output =
     run_filter_to_writer h exec program args None input answers flush output None"

definition run_filter_timeout ::
    "host \<Rightarrow> exec \<Rightarrow> string \<Rightarrow> string list \<Rightarrow> reader \<Rightarrow> wr_answer list \<Rightarrow> io_error option \<Rightarrow> bytes \<Rightarrow> nat \<Rightarrow>
     (pipeline_error + transfer_counts) \<times> bytes" where
  "run_filter_timeout h exec program args input answers flush output timeout =
     run_filter_to_writer h exec program args None input answers flush output (Some timeout)"

text \<open>A budget that is not overrun changes nothing, as long as the watchdog thread can be started.\<close>

lemma timeout_unused:
  assumes "h_thread h WWatchdog = None" and "\<And>cmd stdin c. exec cmd stdin = Inr c \<Longrightarrow> \<not> ch_overruns c"
  shows "run_filter_timeout h exec program args input answers flush output timeout = run_filter h exec program args input answers flush output"
  using assms
  by (auto simp: run_filter_timeout_def run_filter_def run_filter_to_writer_def run_filter_inner_def verdict_def worker_refused_def Let_def
      split: sum.splits prod.splits option.splits)

section \<open>The converter program\<close>

definition probe_with :: "host \<Rightarrow> exec \<Rightarrow> string \<Rightarrow> string list \<Rightarrow> bool" where
  "probe_with h exec program args =
     (case exec \<lparr> cmd_program = program, cmd_args = args,
                  cmd_env = env_apply (child_env_of (h_inherited h) None) (h_inherited h) \<rparr> [] of
        Inl _ \<Rightarrow> False
      | Inr c \<Rightarrow> (case ch_status c of Inl _ \<Rightarrow> False | Inr st \<Rightarrow> status_success st))"

definition probe :: "host \<Rightarrow> exec \<Rightarrow> string \<Rightarrow> bool" where
  "probe h exec program = probe_with h exec program [''-version'']"

definition magick_run ::
    "host \<Rightarrow> exec \<Rightarrow> (path \<Rightarrow> bool) \<Rightarrow> (io_error + path) \<times> nodes \<Rightarrow> string list \<Rightarrow> reader \<Rightarrow> wr_answer list \<Rightarrow> io_error option \<Rightarrow> bytes \<Rightarrow>
     ((pipeline_error + transfer_counts) \<times> bytes) \<times> nodes" where
  "magick_run h exec keeps scr args input answers flush output =
     with_scratch (\<lambda>scratch. run_isolated h exec MAGICK_PROGRAM scratch args input answers flush output None) keeps scr"

definition magick_run_with_timeout ::
    "host \<Rightarrow> exec \<Rightarrow> (path \<Rightarrow> bool) \<Rightarrow> (io_error + path) \<times> nodes \<Rightarrow> string list \<Rightarrow> reader \<Rightarrow> wr_answer list \<Rightarrow> io_error option \<Rightarrow> bytes \<Rightarrow> nat \<Rightarrow>
     ((pipeline_error + transfer_counts) \<times> bytes) \<times> nodes" where
  "magick_run_with_timeout h exec keeps scr args input answers flush output timeout =
     with_scratch (\<lambda>scratch. run_isolated h exec MAGICK_PROGRAM scratch args input answers flush output (Some timeout)) keeps scr"

text \<open>The probe sees nothing of the daemon's environment but its \<^verbatim>\<open>PATH\<close>, so settings of the converter cannot change its answer.\<close>

lemma probe_environment:
  assumes "h_inherited h ''PATH'' = h_inherited h' ''PATH''"
  shows "probe h exec program = probe h' exec program"
  using assms by (simp add: probe_def probe_with_def env_exact_probe)

text \<open>The tool is probed once; later changes are not noticed.\<close>

lemma availability_cached:
  "magick_is_available p2 (snd (magick_is_available p1 st)) = (fst (magick_is_available p1 st), snd (magick_is_available p1 st))"
  by (simp add: magick_is_available_def split: option.splits)

text \<open>Without a private directory nothing is started; otherwise the directory and all that is in it is gone afterwards.\<close>

lemma magick_run_scratch:
  "fst scr = Inl e \<Longrightarrow> magick_run h exec keeps scr args input answers flush output = ((Inl (EIsolation e), output), snd scr)"
  "fst scr = Inr dir \<Longrightarrow> snd (magick_run h exec (\<lambda>_. False) scr args input answers flush output) dir = None"
  by (auto simp: magick_run_def with_scratch_def run_isolated_def scratch_drop_def)

section \<open>The allocator\<close>

text \<open>\<open>answer\<close> is what \<^verbatim>\<open>malloc_trim\<close> returns where the C library has it; a wipe asks for it and ignores the result.\<close>

definition release_unused_heap :: "bool \<Rightarrow> int \<Rightarrow> bool" where
  "release_unused_heap glibc answer = (if glibc then answer \<noteq> 0 else False)"

section \<open>The unlinking guard\<close>

record unlink =
  ul_path :: "path option"

definition unlink_drop :: "unlink \<Rightarrow> fsys \<Rightarrow> fsys" where
  "unlink_drop g fs = (case ul_path g of Some p \<Rightarrow> remove_file p fs | None \<Rightarrow> fs)"

text \<open>\<^verbatim>\<open>disarm\<close> takes the path out and drops the empty guard.\<close>

definition unlink_disarm :: "unlink \<Rightarrow> fsys \<Rightarrow> path option \<times> fsys" where
  "unlink_disarm g fs = (ul_path g, unlink_drop (g\<lparr> ul_path := None \<rparr>) fs)"

lemma unlink_guard:
  "fs_files (unlink_drop \<lparr> ul_path = Some p \<rparr> fs) p = None"
  "unlink_disarm \<lparr> ul_path = Some p \<rparr> fs = (Some p, fs)"
  by (simp_all add: unlink_drop_def unlink_disarm_def remove_file_def)

end
