(* ===== verification/Descriptors.thy ===== *)
theory Descriptors
  imports Pipeline
begin

text \<open>
  The descriptors behind a stream payload (\<^verbatim>\<open>crates/core/src/payload.rs\<close>). A \<^verbatim>\<open>StreamDescriptor\<close> owns a number in the process's descriptor table;
  the table refers to open file descriptions, and \<^verbatim>\<open>dup(2)\<close> makes a second number for the same one. The position in the stream belongs to the description, so clones
  share it. Modelled are the table, the operations on it, the values of the program that own an entry each, and the reader that hands out the descriptor of a payload.
\<close>

section \<open>The kernel's tables\<close>

text \<open>\<open>kf_table\<close> pairs a descriptor with its description, \<open>kf_open\<close> gives what a description still delivers.\<close>

record kernel_fds =
  kf_table :: "(nat \<times> nat) list"
  kf_open :: "nat \<rightharpoonup> reader"

definition bad_fd :: io_error where "bad_fd = OtherError ''bad file descriptor''"

definition fd_open :: "nat \<Rightarrow> nat \<Rightarrow> reader \<Rightarrow> kernel_fds \<Rightarrow> kernel_fds" where [std_defs]:
  "fd_open fd d r k = k\<lparr> kf_table := (fd, d) # kf_table k, kf_open := (kf_open k)(d \<mapsto> r) \<rparr>"

definition fd_read :: "nat \<Rightarrow> nat \<Rightarrow> kernel_fds \<Rightarrow> rd_result \<times> kernel_fds" where [std_defs]:
  "fd_read cap fd k =
     (case map_of (kf_table k) fd of
        None \<Rightarrow> (GotErr bad_fd, k)
      | Some d \<Rightarrow>
          (case kf_open k d of
             None \<Rightarrow> (GotErr bad_fd, k)
           | Some r \<Rightarrow> (case read_some cap r of (got, r') \<Rightarrow> (got, k\<lparr> kf_open := (kf_open k)(d \<mapsto> r') \<rparr>))))"

text \<open>\<open>answer\<close> is the kernel's: the new number, or why there is none.\<close>

definition fd_dup :: "io_error + nat \<Rightarrow> nat \<Rightarrow> kernel_fds \<Rightarrow> (io_error + nat) \<times> kernel_fds" where [std_defs]:
  "fd_dup answer fd k =
     (case (map_of (kf_table k) fd, answer) of
        (None, _) \<Rightarrow> (Inl bad_fd, k)
      | (Some d, Inl e) \<Rightarrow> (Inl e, k)
      | (Some d, Inr new) \<Rightarrow> (Inr new, k\<lparr> kf_table := (new, d) # kf_table k \<rparr>))"

text \<open>Closing the last descriptor of a description ends that.\<close>

definition fd_close :: "nat \<Rightarrow> kernel_fds \<Rightarrow> kernel_fds" where [std_defs]:
  "fd_close fd k =
     (let rest = filter (\<lambda>(f, d). f \<noteq> fd) (kf_table k)
      in case map_of (kf_table k) fd of
           None \<Rightarrow> k
         | Some d \<Rightarrow>
             k\<lparr> kf_table := rest, kf_open := (if d \<in> set (map snd rest) then kf_open k else (kf_open k)(d := None)) \<rparr>)"

section \<open>Stream descriptors\<close>

record stream_handle =
  sh_fd :: nat
  sh_len_hint :: "nat option"

definition stream_new :: "nat \<Rightarrow> nat option \<Rightarrow> stream_handle" where
  "stream_new fd hint = \<lparr> sh_fd = fd, sh_len_hint = hint \<rparr>"

definition stream_try_clone :: "io_error + nat \<Rightarrow> stream_handle \<Rightarrow> kernel_fds \<Rightarrow> (io_error + stream_handle) \<times> kernel_fds" where
  "stream_try_clone answer s k =
     (case fd_dup answer (sh_fd s) k of (r, k') \<Rightarrow> (try_bind r (\<lambda>new. Inr (stream_new new (sh_len_hint s))), k'))"

text \<open>The descriptor goes over to the caller; nothing is closed.\<close>

definition stream_into_owned_fd :: "stream_handle \<Rightarrow> nat" where
  "stream_into_owned_fd s = sh_fd s"

definition stream_into_file :: "stream_handle \<Rightarrow> nat" where
  "stream_into_file s = sh_fd s"

definition stream_as_fd :: "stream_handle \<Rightarrow> nat" where
  "stream_as_fd s = sh_fd s"

definition stream_as_raw_fd :: "stream_handle \<Rightarrow> nat" where
  "stream_as_raw_fd s = sh_fd s"

definition stream_read :: "nat \<Rightarrow> stream_handle \<Rightarrow> kernel_fds \<Rightarrow> rd_result \<times> kernel_fds" where
  "stream_read cap s k = fd_read cap (sh_fd s) k"

text \<open>The \<^verbatim>\<open>Drop\<close> of the \<^verbatim>\<open>File\<close> inside.\<close>

definition stream_drop :: "stream_handle \<Rightarrow> kernel_fds \<Rightarrow> kernel_fds" where
  "stream_drop s k = fd_close (sh_fd s) k"

section \<open>The reader of a payload\<close>

datatype open_reader =
    OpenMemory bytes
  | OpenStream stream_handle
  | OpenFile nat "nat option"

definition reader_fd :: "open_reader \<Rightarrow> nat option" where
  "reader_fd r = (case r of OpenMemory _ \<Rightarrow> None | OpenStream s \<Rightarrow> Some (stream_as_fd s) | OpenFile fd _ \<Rightarrow> Some fd)"

definition reader_raw_fd :: "open_reader \<Rightarrow> nat option" where
  "reader_raw_fd r = map_option (\<lambda>fd. fd) (reader_fd r)"

text \<open>\<open>OpenMemory\<close> keeps what the cursor has not read yet.\<close>

definition reader_read :: "nat \<Rightarrow> open_reader \<Rightarrow> kernel_fds \<Rightarrow> rd_result \<times> open_reader \<times> kernel_fds" where
  "reader_read cap r k =
     (case r of
        OpenMemory d \<Rightarrow> (GotBytes (take cap d), OpenMemory (drop cap d), k)
      | OpenStream s \<Rightarrow> (case stream_read cap s k of (got, k') \<Rightarrow> (got, r, k'))
      | OpenFile fd _ \<Rightarrow> (case fd_read cap fd k of (got, k') \<Rightarrow> (got, r, k')))"

section \<open>The values that own descriptors\<close>

text \<open>
  What a process does with its stream descriptors: it is given new ones (the read end of a pipe), clones, reads and drops them, in any order. \<open>hw_orig\<close> and
  \<open>hw_log\<close> are history: what each description delivered in all when it was opened, and the reads so far.
\<close>

record handles =
  hw_kernel :: kernel_fds
  hw_live :: "stream_handle list"
  hw_orig :: "nat \<rightharpoonup> reader"
  hw_log :: "(nat \<times> rd_result) list"

definition no_handles :: handles where
  "no_handles = \<lparr> hw_kernel = \<lparr> kf_table = [], kf_open = Map.empty \<rparr>, hw_live = [], hw_orig = Map.empty, hw_log = [] \<rparr>"

text \<open>Every answer but the last of a stream has bytes.\<close>

definition flowing :: "reader \<Rightarrow> bool" where
  "flowing r \<longleftrightarrow> list_all (\<lambda>ev. ev \<noteq> RdData []) r"

inductive handle_step :: "handles \<Rightarrow> handles \<Rightarrow> bool" where
  handle_given: "fd \<notin> fst ` set (kf_table (hw_kernel w)) \<Longrightarrow> d \<notin> dom (hw_orig w) \<Longrightarrow> flowing r \<Longrightarrow>
    handle_step w (w\<lparr> hw_kernel := fd_open fd d r (hw_kernel w), hw_live := stream_new fd hint # hw_live w, hw_orig := (hw_orig w)(d \<mapsto> r) \<rparr>)"
| handle_cloned: "s \<in> set (hw_live w) \<Longrightarrow> new \<notin> fst ` set (kf_table (hw_kernel w)) \<Longrightarrow>
    stream_try_clone (Inr new) s (hw_kernel w) = (Inr s', k') \<Longrightarrow> handle_step w (w\<lparr> hw_kernel := k', hw_live := s' # hw_live w \<rparr>)"
| handle_refused: "s \<in> set (hw_live w) \<Longrightarrow> stream_try_clone (Inl e) s (hw_kernel w) = (Inl e', k') \<Longrightarrow> handle_step w (w\<lparr> hw_kernel := k' \<rparr>)"
| handle_read: "s \<in> set (hw_live w) \<Longrightarrow> map_of (kf_table (hw_kernel w)) (sh_fd s) = Some d \<Longrightarrow> stream_read cap s (hw_kernel w) = (got, k') \<Longrightarrow>
    handle_step w (w\<lparr> hw_kernel := k', hw_log := hw_log w @ [(d, got)] \<rparr>)"
| handle_dropped: "s \<in> set (hw_live w) \<Longrightarrow> handle_step w (w\<lparr> hw_kernel := stream_drop s (hw_kernel w), hw_live := remove1 s (hw_live w) \<rparr>)"

inductive handle_reach :: "handles \<Rightarrow> bool" where
  handle_start: "handle_reach no_handles"
| handle_next: "handle_reach w \<Longrightarrow> handle_step w w' \<Longrightarrow> handle_reach w'"

fun got_bytes :: "rd_result \<Rightarrow> bytes" where
  "got_bytes (GotBytes d) = d"
| "got_bytes _ = []"

text \<open>The bytes all descriptors of a description got together, in the order of the reads, and whether one of the reads failed.\<close>

definition delivered :: "nat \<Rightarrow> (nat \<times> rd_result) list \<Rightarrow> bytes" where
  "delivered d reads = concat (map (\<lambda>(q, got). if q = d then got_bytes got else []) reads)"

definition broken :: "nat \<Rightarrow> (nat \<times> rd_result) list \<Rightarrow> bool" where
  "broken d reads \<longleftrightarrow> (\<exists>e. (d, GotErr e) \<in> set reads)"

section \<open>Every descriptor has one owner\<close>

definition owned_once :: "kernel_fds \<Rightarrow> stream_handle list \<Rightarrow> bool" where
  "owned_once k live \<longleftrightarrow> distinct (map fst (kf_table k)) \<and> distinct (map sh_fd live) \<and> set (map fst (kf_table k)) = set (map sh_fd live) \<and>
     set (map snd (kf_table k)) = dom (kf_open k)"

lemma owned_entry:
  assumes "owned_once k live" and "s \<in> set live"
  obtains d r where "map_of (kf_table k) (sh_fd s) = Some d" and "kf_open k d = Some r"
proof -
  have "sh_fd s \<in> set (map fst (kf_table k))" using assms by (auto simp: owned_once_def)
  then obtain d where d: "map_of (kf_table k) (sh_fd s) = Some d" using map_of_eq_None_iff [of "kf_table k" "sh_fd s"] by auto
  then have "d \<in> dom (kf_open k)" using assms(1) map_of_SomeD [OF d] by (force simp: owned_once_def)
  then show ?thesis using that d by blast
qed

lemma owned_open: "owned_once k live \<Longrightarrow> fd \<notin> fst ` set (kf_table k) \<Longrightarrow> owned_once (fd_open fd d r k) (stream_new fd hint # live)"
  by (auto simp: owned_once_def fd_open_def stream_new_def)

lemma owned_clone:
  assumes "owned_once k live" and "s \<in> set live" and "new \<notin> fst ` set (kf_table k)" and "stream_try_clone (Inr new) s k = (Inr s', k')"
  shows "owned_once k' (s' # live)" "kf_open k' = kf_open k"
proof -
  obtain d r where d: "map_of (kf_table k) (sh_fd s) = Some d" "kf_open k d = Some r" using owned_entry [OF assms(1,2)] by blast
  then have k': "k' = k\<lparr> kf_table := (new, d) # kf_table k \<rparr>" "s' = stream_new new (sh_len_hint s)"
    using assms(4) by (auto simp: stream_try_clone_def fd_dup_def)
  then show "owned_once k' (s' # live)" using assms(1,3) d by (auto simp: owned_once_def stream_new_def)
  show "kf_open k' = kf_open k" by (simp add: k')
qed

lemma owned_drop:
  assumes "owned_once k live" and "s \<in> set live"
  shows "owned_once (stream_drop s k) (remove1 s live)" "kf_open (stream_drop s k) d = Some r \<Longrightarrow> kf_open k d = Some r"
proof -
  let ?rest = "filter (\<lambda>(f, d). f \<noteq> sh_fd s) (kf_table k)"
  obtain q where q: "map_of (kf_table k) (sh_fd s) = Some q" using owned_entry [OF assms] by blast
  have k': "stream_drop s k = k\<lparr> kf_table := ?rest, kf_open := (if q \<in> set (map snd ?rest) then kf_open k else (kf_open k)(q := None)) \<rparr>"
    using q by (simp add: stream_drop_def fd_close_def Let_def)
  have part: "set (kf_table k) = insert (sh_fd s, q) (set ?rest)"
    using map_of_SomeD [OF q] assms(1) by (auto simp: owned_once_def dest: eq_key_imp_eq_value)
  have "set (map fst ?rest) = set (map sh_fd (remove1 s live))"
  proof -
    have "set (map fst ?rest) = set (map sh_fd live) - {sh_fd s}" using assms(1) by (auto simp: owned_once_def) force+
    also have "\<dots> = set (map sh_fd (remove1 s live))"
      using assms by (auto simp: owned_once_def distinct_map inj_on_def)
    finally show ?thesis .
  qed
  moreover have "set (map snd ?rest) = dom (kf_open (stream_drop s k))"
    using assms(1) arg_cong [OF part, of "image snd"] by (auto simp: owned_once_def k')
  ultimately show "owned_once (stream_drop s k) (remove1 s live)"
    using assms(1) by (auto simp: owned_once_def k' distinct_map_filter distinct_map intro: inj_on_subset)
  show "kf_open (stream_drop s k) d = Some r \<Longrightarrow> kf_open k d = Some r" by (auto simp: k' split: if_splits)
qed

section \<open>Clones share one stream\<close>

lemma read_some_flows:
  assumes "flowing r" and "read_some cap r = (got, r')"
  shows "flowing r'" "(\<And>e. got \<noteq> GotErr e) \<Longrightarrow> stream_bytes r = got_bytes got @ stream_bytes r'"
  using assms by (cases "(cap, r)" rule: read_some.cases; auto simp: flowing_def split: if_splits)+

text \<open>What the reads of a description got so far, and what is still to come.\<close>

definition accounted :: "handles \<Rightarrow> nat \<Rightarrow> reader \<Rightarrow> bool" where
  "accounted w d r \<longleftrightarrow>
     (\<not> broken d (hw_log w) \<longrightarrow> prefix (delivered d (hw_log w)) (stream_bytes r)) \<and>
     (\<forall>r'. kf_open (hw_kernel w) d = Some r' \<longrightarrow> flowing r' \<and> (\<not> broken d (hw_log w) \<longrightarrow> delivered d (hw_log w) @ stream_bytes r' = stream_bytes r))"

definition handles_ok :: "handles \<Rightarrow> bool" where
  "handles_ok w \<longleftrightarrow> owned_once (hw_kernel w) (hw_live w) \<and> dom (kf_open (hw_kernel w)) \<subseteq> dom (hw_orig w) \<and>
     fst ` set (hw_log w) \<subseteq> dom (hw_orig w) \<and> (\<forall>d r. hw_orig w d = Some r \<longrightarrow> accounted w d r)"

lemma untouched_log: "d \<notin> fst ` set reads \<Longrightarrow> delivered d reads = [] \<and> \<not> broken d reads"
  by (force simp: delivered_def broken_def)

lemma log_grows:
  "delivered d (reads @ [(q, got)]) = delivered d reads @ (if q = d then got_bytes got else [])"
  "broken d (reads @ [(q, got)]) \<longleftrightarrow> broken d reads \<or> q = d \<and> (\<exists>e. got = GotErr e)"
  by (auto simp: delivered_def broken_def)

lemma accounted_mono:
  assumes "accounted w d r" and "hw_log w' = hw_log w" and "\<And>r'. kf_open (hw_kernel w') d = Some r' \<Longrightarrow> kf_open (hw_kernel w) d = Some r'"
  shows "accounted w' d r"
  using assms by (auto simp: accounted_def)

lemma read_ok:
  assumes ok: "handles_ok w" and s: "s \<in> set (hw_live w)" and d: "map_of (kf_table (hw_kernel w)) (sh_fd s) = Some d"
    and read: "stream_read cap s (hw_kernel w) = (got, k')"
  shows "handles_ok (w\<lparr> hw_kernel := k', hw_log := hw_log w @ [(d, got)] \<rparr>)"
proof -
  have own: "owned_once (hw_kernel w) (hw_live w)" using ok by (simp add: handles_ok_def)
  obtain r where r: "kf_open (hw_kernel w) d = Some r" using owned_entry [OF own s] d by auto
  obtain r' where r': "read_some cap r = (got, r')" and k': "k' = (hw_kernel w)\<lparr> kf_open := (kf_open (hw_kernel w))(d \<mapsto> r') \<rparr>"
    using read d r by (auto simp: stream_read_def fd_read_def split: prod.splits)
  let ?w = "w\<lparr> hw_kernel := k', hw_log := hw_log w @ [(d, got)] \<rparr>"
  have "accounted ?w q r0" if q: "hw_orig w q = Some r0" for q r0
  proof (cases "q = d")
    case True
    have acc: "accounted w d r0" using ok q True by (simp add: handles_ok_def)
    then have flow: "flowing r" using r by (simp add: accounted_def)
    note step = read_some_flows [OF flow r']
    have "stream_bytes r0 = delivered d (hw_log ?w) @ stream_bytes r'" if "\<not> broken d (hw_log ?w)"
      using acc r that step(2) by (auto simp: accounted_def log_grows)
    then show ?thesis using True step(1) by (auto simp: accounted_def k')
  next
    case False
    then show ?thesis using ok q by (auto simp: handles_ok_def accounted_def k' log_grows)
  qed
  moreover have "owned_once k' (hw_live w)" using own r by (auto simp: owned_once_def k')
  moreover have "d \<in> dom (hw_orig w)" using ok r by (auto simp: handles_ok_def)
  ultimately show ?thesis using ok r by (auto simp: handles_ok_def k')
qed

lemma handle_step_ok: "handle_step w w' \<Longrightarrow> handles_ok w \<Longrightarrow> handles_ok w'"
proof (induction rule: handle_step.induct)
  case (handle_given fd w d r hint)
  then have "d \<notin> fst ` set (hw_log w)" by (auto simp: handles_ok_def)
  with handle_given have "accounted (w\<lparr> hw_kernel := fd_open fd d r (hw_kernel w), hw_live := stream_new fd hint # hw_live w, hw_orig := (hw_orig w)(d \<mapsto> r) \<rparr>) q r0"
    if "((hw_orig w)(d \<mapsto> r)) q = Some r0" for q r0
    using that untouched_log [of d "hw_log w"] by (cases "q = d") (auto simp: handles_ok_def accounted_def fd_open_def)
  then show ?case using handle_given owned_open by (auto simp: handles_ok_def fd_open_def)
next
  case (handle_cloned s w new s' k')
  then have "owned_once (hw_kernel w) (hw_live w)" by (simp add: handles_ok_def)
  note own = owned_clone [OF this handle_cloned(1-3)]
  show ?case using handle_cloned(4) own by (auto simp: handles_ok_def accounted_def)
next
  case (handle_refused s w e e' k')
  then have "k' = hw_kernel w" by (auto simp: stream_try_clone_def fd_dup_def split: option.splits)
  then show ?case using handle_refused by simp
next
  case (handle_read s w d cap got k')
  then show ?case by (blast intro: read_ok)
next
  case (handle_dropped s w)
  then have "owned_once (hw_kernel w) (hw_live w)" by (simp add: handles_ok_def)
  note own = owned_drop [OF this handle_dropped(1)]
  have "accounted (w\<lparr> hw_kernel := stream_drop s (hw_kernel w), hw_live := remove1 s (hw_live w) \<rparr>) d r" if "hw_orig w d = Some r" for d r
    by (rule accounted_mono [of w]) (use that handle_dropped(2) own(2) in \<open>auto simp: handles_ok_def\<close>)
  then show ?case using handle_dropped(2) own by (fastforce simp: handles_ok_def)
qed

lemma handle_reach_ok: "handle_reach w \<Longrightarrow> handles_ok w"
proof (induction rule: handle_reach.induct)
  case handle_start
  show ?case by (simp add: handles_ok_def owned_once_def no_handles_def)
qed (rule handle_step_ok)

text \<open>As long as both are open, a clone reads exactly what the original would.\<close>

lemma clone_same_stream:
  assumes "owned_once k live" and "s \<in> set live" and "new \<notin> fst ` set (kf_table k)" and "stream_try_clone (Inr new) s k = (Inr s', k')"
    and "kf_table k1 = kf_table k'"
  shows "stream_read cap s' k1 = stream_read cap s k1"
proof -
  obtain d r where d: "map_of (kf_table k) (sh_fd s) = Some d" "kf_open k d = Some r" using owned_entry [OF assms(1,2)] by blast
  then have "sh_fd s \<noteq> new" using assms(3) map_of_SomeD by force
  then show ?thesis using assms(4,5) d by (auto simp: stream_try_clone_def fd_dup_def stream_read_def fd_read_def stream_new_def)
qed


text \<open>Two clones of a four-byte stream, read in turn.\<close>

definition pair_world :: handles where
  "pair_world = \<lparr> hw_kernel = \<lparr> kf_table = [(4, 7), (3, 7)], kf_open = [7 \<mapsto> []] \<rparr>,
     hw_live = [stream_new 4 None, stream_new 3 None], hw_orig = [7 \<mapsto> [RdData ''abcd'']],
     hw_log = [(7, GotBytes ''ab''), (7, GotBytes ''cd'')] \<rparr>"

lemma pair_world_reached: "handle_reach pair_world"
proof -
  let ?a = "stream_new 3 None"
  let ?b = "stream_new 4 None"
  let ?w1 = "no_handles\<lparr> hw_kernel := fd_open 3 7 [RdData ''abcd''] (hw_kernel no_handles), hw_live := [?a], hw_orig := [7 \<mapsto> [RdData ''abcd'']] \<rparr>"
  let ?k2 = "(hw_kernel ?w1)\<lparr> kf_table := [(4, 7), (3, 7)] \<rparr>"
  let ?w2 = "?w1\<lparr> hw_kernel := ?k2, hw_live := [?b, ?a] \<rparr>"
  let ?k3 = "?k2\<lparr> kf_open := [7 \<mapsto> [RdData ''cd'']] \<rparr>"
  let ?w3 = "?w2\<lparr> hw_kernel := ?k3, hw_log := [(7, GotBytes ''ab'')] \<rparr>"
  have "handle_step no_handles ?w1" using handle_given [of 3 no_handles 7 "[RdData ''abcd'']" None] by (simp add: no_handles_def flowing_def)
  moreover have "handle_step ?w1 ?w2"
    using handle_cloned [of ?a ?w1 4 ?b ?k2] by (simp add: stream_try_clone_def fd_dup_def fd_open_def stream_new_def no_handles_def)
  moreover have "handle_step ?w2 ?w3"
    using handle_read [of ?a ?w2 7 2 "GotBytes ''ab''" ?k3] by (simp add: stream_read_def fd_read_def fd_open_def stream_new_def no_handles_def)
  moreover have "handle_step ?w3 pair_world"
    using handle_read [of ?b ?w3 7 8 "GotBytes ''cd''" "?k3\<lparr> kf_open := [7 \<mapsto> []] \<rparr>"]
    by (simp add: stream_read_def fd_read_def fd_open_def stream_new_def no_handles_def pair_world_def)
  ultimately show ?thesis using handle_start handle_next by blast
qed


end
