(* ===== verification/TestsCore.thy ===== *)
theory TestsCore
  imports Selection
begin

text \<open>
  The unit tests of \<^verbatim>\<open>core/src/utils.rs\<close>, \<^verbatim>\<open>core/src/config.rs\<close> and \<^verbatim>\<open>wayland/src/handlers/data_control/mod.rs\<close>, translated assertion by assertion
  and evaluated on the model: what the authors of the code expect of it holds of the definitions. Percent-decoding is a parameter of the model, so the
  tests of it have no counterpart, nor has the one that reads a missing configuration file.
\<close>

section \<open>MIME labels\<close>

definition test_is_text_like_mime_identifies_text_markup_and_data_formats :: bool where
  "test_is_text_like_mime_identifies_text_markup_and_data_formats \<longleftrightarrow>
     list_all is_text_like_mime
       [''text/plain'', ''text/plain; charset=utf-8'', ''TEXT/PLAIN'', ''text/html'', ''text/markdown'', ''text/uri-list'', ''application/json'',
        ''application/ld+json'', ''application/xml'', ''application/xhtml+xml'', ''application/atom+xml'', ''UTF8_STRING'', ''utf8_string'', ''STRING'',
        ''TEXT'', ''compound_text'', ''application/x-uri-list'']"

definition test_is_text_like_mime_rejects_binary_media_and_non_text_types :: bool where
  "test_is_text_like_mime_rejects_binary_media_and_non_text_types \<longleftrightarrow>
     list_all (\<lambda>m. \<not> is_text_like_mime m)
       [''image/png'', ''image/jpeg'', ''image/svg+xml'', ''audio/mpeg'', ''video/mp4'', ''application/octet-stream'', ''application/pdf'', ''application/zip'']"

definition test_mime_base_eq_ignores_case_and_param_whitespace :: bool where
  "test_mime_base_eq_ignores_case_and_param_whitespace \<longleftrightarrow>
     mime_base_eq ''TEXT/PLAIN'' ''text/plain'' \<and> mime_base_eq ''text/plain; charset=utf-8'' ''text/plain'' \<and>
     mime_base_eq ''text/plain;charset=UTF-8'' ''text/plain;charset=utf-8'' \<and> \<not> mime_base_eq ''text/html'' ''text/plain''"

definition test_mime_base_strips_trailing_parameters :: bool where
  "test_mime_base_strips_trailing_parameters \<longleftrightarrow> mime_base ''Text/Plain ; charset=UTF-8 ; foo=bar'' = ''Text/Plain''"

definition test_mime_base_trims_surrounding_whitespace :: bool where
  "test_mime_base_trims_surrounding_whitespace \<longleftrightarrow> mime_base ''  text/plain  ;charset=utf-8'' = ''text/plain''"

definition test_mime_base_no_parameters_returns_whole_string_trimmed :: bool where
  "test_mime_base_no_parameters_returns_whole_string_trimmed \<longleftrightarrow> mime_base ''text/html'' = ''text/html''"

definition test_mime_base_preserves_case :: bool where
  "test_mime_base_preserves_case \<longleftrightarrow> mime_base ''TEXT/PLAIN'' = ''TEXT/PLAIN''"

definition test_starts_with_ignore_ascii_case_matches_same_case :: bool where
  "test_starts_with_ignore_ascii_case_matches_same_case \<longleftrightarrow> starts_with_ignore_ascii_case ''image/png'' ''image/''"

definition test_starts_with_ignore_ascii_case_matches_different_case :: bool where
  "test_starts_with_ignore_ascii_case_matches_different_case \<longleftrightarrow>
     starts_with_ignore_ascii_case ''IMAGE/PNG'' ''image/'' \<and> starts_with_ignore_ascii_case ''Text/Html'' ''TEXT/''"

definition test_starts_with_ignore_ascii_case_rejects_non_prefix :: bool where
  "test_starts_with_ignore_ascii_case_rejects_non_prefix \<longleftrightarrow> \<not> starts_with_ignore_ascii_case ''text/plain'' ''image/''"

definition test_starts_with_ignore_ascii_case_shorter_than_prefix_never_panics :: bool where
  "test_starts_with_ignore_ascii_case_shorter_than_prefix_never_panics \<longleftrightarrow>
     \<not> starts_with_ignore_ascii_case ''im'' ''image/'' \<and> \<not> starts_with_ignore_ascii_case [] ''image/''"

definition test_is_html_mime_accepts_html_and_xhtml :: bool where
  "test_is_html_mime_accepts_html_and_xhtml \<longleftrightarrow>
     list_all is_html_mime
       [''text/html'', ''text/html; charset=utf-8'', ''TEXT/HTML;charset=UTF-8'', ''application/xhtml+xml'', ''APPLICATION/XHTML+XML; charset=utf-8'']"

definition test_is_html_mime_rejects_non_html :: bool where
  "test_is_html_mime_rejects_non_html \<longleftrightarrow>
     list_all (\<lambda>m. \<not> is_html_mime m) [''text/plain'', ''text/rtf'', ''image/png'', ''application/json'', ''application/xml'']"

definition test_is_rtf_mime_accepts_rtf_variants :: bool where
  "test_is_rtf_mime_accepts_rtf_variants \<longleftrightarrow>
     list_all is_rtf_mime [''text/rtf'', ''Text/RTF'', ''TEXT/RTF; charset=utf-8'', ''application/rtf'', ''APPLICATION/RTF'']"

definition test_is_rtf_mime_rejects_non_rtf :: bool where
  "test_is_rtf_mime_rejects_non_rtf \<longleftrightarrow> list_all (\<lambda>m. \<not> is_rtf_mime m) [''text/plain'', ''text/html'', ''image/png'']"

lemma mime_tests_pass:
  test_is_text_like_mime_identifies_text_markup_and_data_formats
  test_is_text_like_mime_rejects_binary_media_and_non_text_types
  test_mime_base_eq_ignores_case_and_param_whitespace
  test_mime_base_strips_trailing_parameters
  test_mime_base_trims_surrounding_whitespace
  test_mime_base_no_parameters_returns_whole_string_trimmed
  test_mime_base_preserves_case
  test_starts_with_ignore_ascii_case_matches_same_case
  test_starts_with_ignore_ascii_case_matches_different_case
  test_starts_with_ignore_ascii_case_rejects_non_prefix
  test_starts_with_ignore_ascii_case_shorter_than_prefix_never_panics
  test_is_html_mime_accepts_html_and_xhtml
  test_is_html_mime_rejects_non_html
  test_is_rtf_mime_accepts_rtf_variants
  test_is_rtf_mime_rejects_non_rtf
  by code_simp+

section \<open>Markup and URI lists\<close>

definition quote :: string where "quote = [CHR 0x22]"
definition newline :: string where "newline = [CHR 0x0A]"

definition test_strip_html_tags_basic :: bool where
  "test_strip_html_tags_basic \<longleftrightarrow> strip_html_tags ''<b>Hello</b> <i>World</i>'' = ''Hello World''"

text \<open>The characters beyond ASCII are three and four bytes each.\<close>

definition test_strip_html_tags_utf8_multibyte :: bool where
  "test_strip_html_tags_utf8_multibyte \<longleftrightarrow>
     (let hello = [CHR 0xE3, CHR 0x81, CHR 0x93, CHR 0xE3, CHR 0x82, CHR 0x93, CHR 0xE3, CHR 0x81, CHR 0xAB, CHR 0xE3, CHR 0x81, CHR 0xA1,
                   CHR 0xE3, CHR 0x81, CHR 0xAF, CHR 0xE3, CHR 0x80, CHR 0x81];
          world = [CHR 0xE4, CHR 0xB8, CHR 0x96, CHR 0xE7, CHR 0x95, CHR 0x8C];
          rest = [CHR 0xEF, CHR 0xBC, CHR 0x81, CHR 0xF0, CHR 0x9F, CHR 0xA6, CHR 0x80]
      in strip_html_tags (''<p>'' @ hello @ ''<strong>'' @ world @ ''</strong>'' @ rest @ ''</p>'') = hello @ world @ rest)"

definition test_strip_html_tags_attributes :: bool where
  "test_strip_html_tags_attributes \<longleftrightarrow>
     strip_html_tags (''<div class='' @ quote @ ''main'' @ quote @ '' style='' @ quote @ ''color: red;'' @ quote @ ''>Content</div>'') = ''Content''"

definition test_strip_html_tags_angle_bracket_in_attribute :: bool where
  "test_strip_html_tags_angle_bracket_in_attribute \<longleftrightarrow>
     strip_html_tags (''<span title='' @ quote @ ''a < b'' @ quote @ ''>text</span>'') = ''text''"

definition test_strip_html_tags_unclosed_tag :: bool where
  "test_strip_html_tags_unclosed_tag \<longleftrightarrow> strip_html_tags ''Hello <strong world'' = ''Hello ''"

definition test_strip_html_tags_lone_closing_bracket_passes_through :: bool where
  "test_strip_html_tags_lone_closing_bracket_passes_through \<longleftrightarrow> strip_html_tags ''5 > 3 & 2 < 4'' = ''5 > 3 & 2 ''"

definition test_strip_html_tags_empty_and_consecutive_tags :: bool where
  "test_strip_html_tags_empty_and_consecutive_tags \<longleftrightarrow> strip_html_tags ''<><p></p><br/>'' = []"

definition test_strip_html_tags_plain_text_untouched :: bool where
  "test_strip_html_tags_plain_text_untouched \<longleftrightarrow>
     (let input = ''Plain text without any tags.'' in strip_html_tags input = input)"

definition test_strip_html_tags_empty_input :: bool where
  "test_strip_html_tags_empty_input \<longleftrightarrow> strip_html_tags [] = []"

text \<open>None of these inputs has a percent sign, so any decoder that leaves other bytes alone will do.\<close>

definition test_normalize_uri_list_standard :: bool where
  "test_normalize_uri_list_standard \<longleftrightarrow>
     normalize_uri_list id (''file:///path/to/a.txt'' @ newline @ ''file:///path/to/b.png'') = ''/path/to/a.txt'' @ newline @ ''/path/to/b.png''"

definition test_normalize_uri_list_crlf :: bool where
  "test_normalize_uri_list_crlf \<longleftrightarrow>
     normalize_uri_list id (''file:///a.txt'' @ [CHR 0x0D] @ newline @ ''file:///b.txt'' @ [CHR 0x0D] @ newline) = ''/a.txt'' @ newline @ ''/b.txt''"

definition test_normalize_uri_list_non_empty_authority :: bool where
  "test_normalize_uri_list_non_empty_authority \<longleftrightarrow>
     normalize_uri_list id (''file://localhost/etc/hosts'' @ newline @ ''file://myhost/var/log'') = ''/etc/hosts'' @ newline @ ''/var/log''"

definition test_normalize_uri_list_single_slash_and_relative :: bool where
  "test_normalize_uri_list_single_slash_and_relative \<longleftrightarrow>
     normalize_uri_list id (''file:/var/log/syslog'' @ newline @ ''file:local.txt'') = ''/var/log/syslog'' @ newline @ ''local.txt''"

definition test_normalize_uri_list_comments_and_blank_lines_ignored :: bool where
  "test_normalize_uri_list_comments_and_blank_lines_ignored \<longleftrightarrow>
     normalize_uri_list id (''# Comment'' @ newline @ newline @ ''file:///path/a'' @ newline @ ''# Another'' @ newline @ ''file:///path/b'') =
       ''/path/a'' @ newline @ ''/path/b''"

lemma markup_tests_pass:
  test_strip_html_tags_basic
  test_strip_html_tags_utf8_multibyte
  test_strip_html_tags_attributes
  test_strip_html_tags_angle_bracket_in_attribute
  test_strip_html_tags_unclosed_tag
  test_strip_html_tags_lone_closing_bracket_passes_through
  test_strip_html_tags_empty_and_consecutive_tags
  test_strip_html_tags_plain_text_untouched
  test_strip_html_tags_empty_input
  test_normalize_uri_list_standard
  test_normalize_uri_list_crlf
  test_normalize_uri_list_non_empty_authority
  test_normalize_uri_list_single_slash_and_relative
  test_normalize_uri_list_comments_and_blank_lines_ignored
  by code_simp+

section \<open>Image signatures\<close>

definition test_detect_image_mime_png :: bool where
  "test_detect_image_mime_png \<longleftrightarrow>
     detect_image_mime [CHR 0x89, CHR 0x50, CHR 0x4E, CHR 0x47, CHR 0x0D, CHR 0x0A] = Some ''image/png''"

definition test_detect_image_mime_jpeg :: bool where
  "test_detect_image_mime_jpeg \<longleftrightarrow> detect_image_mime [CHR 0xFF, CHR 0xD8, CHR 0xFF, CHR 0xE0] = Some ''image/jpeg''"

definition test_detect_image_mime_gif :: bool where
  "test_detect_image_mime_gif \<longleftrightarrow> detect_image_mime ''GIF89a....'' = Some ''image/gif''"

definition test_detect_image_mime_webp :: bool where
  "test_detect_image_mime_webp \<longleftrightarrow>
     detect_image_mime (''RIFF'' @ replicate 4 CHR 0x00 @ ''WEBP'') = Some ''image/webp''"

definition test_detect_image_mime_avif :: bool where
  "test_detect_image_mime_avif \<longleftrightarrow>
     detect_image_mime ([CHR 0x00, CHR 0x00, CHR 0x00, CHR 0x20] @ ''ftyp'' @ ''avif'') = Some ''image/avif''"

definition test_detect_image_mime_avif_sequence_brand :: bool where
  "test_detect_image_mime_avif_sequence_brand \<longleftrightarrow>
     detect_image_mime ([CHR 0x00, CHR 0x00, CHR 0x00, CHR 0x20] @ ''ftyp'' @ ''avis'') = Some ''image/avif''"

definition test_detect_image_mime_svg_xml_declaration :: bool where
  "test_detect_image_mime_svg_xml_declaration \<longleftrightarrow>
     detect_image_mime (''<?xml version='' @ [CHR 0x22] @ ''1.0'' @ [CHR 0x22] @ ''?><svg></svg>'') = Some ''image/svg+xml''"

definition test_detect_image_mime_svg_bare :: bool where
  "test_detect_image_mime_svg_bare \<longleftrightarrow>
     detect_image_mime (''<svg xmlns='' @ [CHR 0x22] @ ''http://www.w3.org/2000/svg'' @ [CHR 0x22] @ ''></svg>'') =
       Some ''image/svg+xml''"

definition test_detect_image_mime_unrecognized_returns_none :: bool where
  "test_detect_image_mime_unrecognized_returns_none \<longleftrightarrow>
     detect_image_mime ''not an image at all'' = None \<and> detect_image_mime [] = None"

text \<open>The 24-byte header the WebP tests fill in: the four letters of the first chunk and its flags byte.\<close>

definition webp_header :: "string \<Rightarrow> char \<Rightarrow> bytes" where
  "webp_header kind flags =
     ''RIFF'' @ replicate 4 CHR 0x00 @ ''WEBP'' @ kind @ replicate 4 CHR 0x00 @ [flags] @ replicate 3 CHR 0x00"

definition test_is_animated_webp_detects_vp8x_with_animation_flag :: bool where
  "test_is_animated_webp_detects_vp8x_with_animation_flag \<longleftrightarrow>
     is_animated_webp (webp_header ''VP8X'' CHR 0x02) \<and> is_animated_webp (webp_header ''VP8X'' CHR 0x22)"

definition test_is_animated_webp_rejects_static_webp_and_other_formats :: bool where
  "test_is_animated_webp_rejects_static_webp_and_other_formats \<longleftrightarrow>
     \<not> is_animated_webp (webp_header ''VP8 '' CHR 0x00) \<and> \<not> is_animated_webp (webp_header ''VP8L'' CHR 0x00) \<and>
     \<not> is_animated_webp (webp_header ''VP8X'' CHR 0x10) \<and> \<not> is_animated_webp (take 20 (webp_header ''VP8X'' CHR 0x10)) \<and>
     \<not> is_animated_webp ''RIFFWEBP'' \<and> \<not> is_animated_webp [] \<and>
     \<not> is_animated_webp (''RIFF'' @ replicate 4 CHR 0x00 @ ''WAVE'' @ replicate 12 CHR 0x00)"

lemma signature_tests_pass:
  test_detect_image_mime_png
  test_detect_image_mime_jpeg
  test_detect_image_mime_gif
  test_detect_image_mime_webp
  test_detect_image_mime_avif
  test_detect_image_mime_avif_sequence_brand
  test_detect_image_mime_svg_xml_declaration
  test_detect_image_mime_svg_bare
  test_detect_image_mime_unrecognized_returns_none
  test_is_animated_webp_detects_vp8x_with_animation_flag
  test_is_animated_webp_rejects_static_webp_and_other_formats
  by code_simp+

section \<open>Configuration\<close>

definition test_build_config_path_prefers_xdg_config_home :: bool where
  "test_build_config_path_prefers_xdg_config_home \<longleftrightarrow>
     build_config_path (Some ''/custom/config'') (Some ''/home/alice'') = ''/custom/config/y4p/y4p.toml''"

definition test_build_config_path_falls_back_to_home_dot_config :: bool where
  "test_build_config_path_falls_back_to_home_dot_config \<longleftrightarrow>
     build_config_path None (Some ''/home/alice'') = ''/home/alice/.config/y4p/y4p.toml''"

definition test_build_config_path_falls_back_to_current_dir_when_neither_set :: bool where
  "test_build_config_path_falls_back_to_current_dir_when_neither_set \<longleftrightarrow> build_config_path None None = ''./y4p/y4p.toml''"

definition test_default_matches_the_agreed_balanced_defaults :: bool where
  "test_default_matches_the_agreed_balanced_defaults \<longleftrightarrow>
     cfg_max_history (cfg_general default_config) = DEFAULT_MAX_HISTORY \<and> cfg_drop_rtf (cfg_mime default_config)"

definition indented :: "string \<Rightarrow> string" where
  "indented line = newline @ replicate 12 CHR '' '' @ line"

definition test_parse_full_schema_matches_the_worked_example :: bool where
  "test_parse_full_schema_matches_the_worked_example \<longleftrightarrow>
     (let c = config_parse (indented ''[general]'' @ indented ''max_history = 1000'' @ newline @
                indented ''[mime]'' @ indented ''drop_rtf = true'' @ newline @ replicate 8 CHR '' '')
      in cfg_max_history (cfg_general c) = 1000 \<and> cfg_drop_rtf (cfg_mime c))"

definition test_parse_empty_content_yields_defaults :: bool where
  "test_parse_empty_content_yields_defaults \<longleftrightarrow> config_parse [] = default_config"

definition parsed_max_history :: "string \<Rightarrow> nat" where
  "parsed_max_history toml = cfg_max_history (cfg_general (config_parse toml))"

definition test_parse_trailing_inline_comment_is_stripped :: bool where
  "test_parse_trailing_inline_comment_is_stripped \<longleftrightarrow>
     parsed_max_history (''[general]'' @ newline @ ''max_history = 500 # keep a smaller history on this box'') = 500"

definition test_parse_hash_inside_quoted_string_is_preserved :: bool where
  "test_parse_hash_inside_quoted_string_is_preserved \<longleftrightarrow>
     strip_comment (''foo = '' @ quote @ ''weird#value'' @ quote @ '' # trailing'') =
       ''foo = '' @ quote @ ''weird#value'' @ quote @ '' ''"

definition test_parse_unknown_section_and_key_are_ignored_without_panicking :: bool where
  "test_parse_unknown_section_and_key_are_ignored_without_panicking \<longleftrightarrow>
     parsed_max_history (indented ''[nonsense]'' @ indented ''whatever = true'' @ newline @ indented ''[general]'' @
       indented ''unknown_key = 5'' @ indented ''max_history = 42'' @ newline @ replicate 8 CHR '' '') = 42"

definition test_parse_malformed_lines_are_skipped_without_panicking :: bool where
  "test_parse_malformed_lines_are_skipped_without_panicking \<longleftrightarrow>
     parsed_max_history (''this is not a key value pair at all'' @ newline @ ''[general]'' @ newline @ ''max_history = 10'') = 10"

definition test_parse_type_mismatch_keeps_the_default :: bool where
  "test_parse_type_mismatch_keeps_the_default \<longleftrightarrow>
     cfg_drop_rtf (cfg_mime (config_parse (''[mime]'' @ newline @ ''drop_rtf = maybe'')))"

definition test_parse_out_of_range_max_history_keeps_the_default :: bool where
  "test_parse_out_of_range_max_history_keeps_the_default \<longleftrightarrow>
     parsed_max_history (''[general]'' @ newline @ ''max_history = 0'') = DEFAULT_MAX_HISTORY"

definition test_parse_negative_max_history_keeps_the_default :: bool where
  "test_parse_negative_max_history_keeps_the_default \<longleftrightarrow>
     parsed_max_history (''[general]'' @ newline @ ''max_history = -5'') = DEFAULT_MAX_HISTORY"

definition test_parse_whitespace_around_section_and_keys_is_tolerated :: bool where
  "test_parse_whitespace_around_section_and_keys_is_tolerated \<longleftrightarrow>
     parsed_max_history (''  [ general ]  '' @ newline @ ''  max_history   =   77  '') = 77"

definition test_should_drop_rtf_mirrors_the_mime_config_field :: bool where
  "test_should_drop_rtf_mirrors_the_mime_config_field \<longleftrightarrow>
     should_drop_rtf default_config \<and> \<not> should_drop_rtf (default_config\<lparr> cfg_mime := \<lparr> cfg_drop_rtf = False \<rparr> \<rparr>)"

lemma config_tests_pass:
  test_build_config_path_prefers_xdg_config_home
  test_build_config_path_falls_back_to_home_dot_config
  test_build_config_path_falls_back_to_current_dir_when_neither_set
  test_default_matches_the_agreed_balanced_defaults
  test_parse_full_schema_matches_the_worked_example
  test_parse_empty_content_yields_defaults
  test_parse_trailing_inline_comment_is_stripped
  test_parse_hash_inside_quoted_string_is_preserved
  test_parse_unknown_section_and_key_are_ignored_without_panicking
  test_parse_malformed_lines_are_skipped_without_panicking
  test_parse_type_mismatch_keeps_the_default
  test_parse_out_of_range_max_history_keeps_the_default
  test_parse_negative_max_history_keeps_the_default
  test_parse_whitespace_around_section_and_keys_is_tolerated
  test_should_drop_rtf_mirrors_the_mime_config_field
  by code_simp+

section \<open>Selections\<close>

definition test_is_sensitive_detects_all_configured_hints :: bool where
  "test_is_sensitive_detects_all_configured_hints \<longleftrightarrow>
     is_sensitive [''x-kde-passwordManagerHint''] \<and> is_sensitive [''X-KDE-PASSWORDMANAGERHINT''] \<and>
     is_sensitive [''application/x-keepassxc-selection''] \<and> is_sensitive [''application/x-vnd.1password''] \<and>
     is_sensitive [''application/x-bitwarden''] \<and> is_sensitive [''x-gnome-cliptrace''] \<and>
     is_sensitive [''org.nspasteboard.ConcealedType''] \<and> is_sensitive [''custom/secret-payload''] \<and>
     is_sensitive [''text/plain'', ''application/x-keepassxc-selection'']"

definition test_is_sensitive_clean_mimes_pass :: bool where
  "test_is_sensitive_clean_mimes_pass \<longleftrightarrow>
     \<not> is_sensitive [''text/plain''] \<and> \<not> is_sensitive [''text/plain;charset=utf-8''] \<and>
     \<not> is_sensitive [''text/html''] \<and> \<not> is_sensitive [''image/png''] \<and> \<not> is_sensitive [''text/uri-list'']"

definition test_is_sensitive_empty_list_returns_false :: bool where
  "test_is_sensitive_empty_list_returns_false \<longleftrightarrow>
     \<not> is_sensitive []"

definition test_mime_is_compatible_exact_match :: bool where
  "test_mime_is_compatible_exact_match \<longleftrightarrow>
     mime_is_compatible ''text/plain'' ''text/plain'' \<and> mime_is_compatible ''image/png'' ''image/png''"

definition test_mime_is_compatible_exact_match_is_case_and_param_insensitive :: bool where
  "test_mime_is_compatible_exact_match_is_case_and_param_insensitive \<longleftrightarrow>
     mime_is_compatible ''TEXT/Plain'' ''text/plain; charset=utf-8''"

definition test_mime_is_compatible_distinct_image_formats_never_cross_match :: bool where
  "test_mime_is_compatible_distinct_image_formats_never_cross_match \<longleftrightarrow>
     \<not> mime_is_compatible ''image/png'' ''image/jpeg'' \<and> \<not> mime_is_compatible ''image/webp'' ''image/png'' \<and>
     \<not> mime_is_compatible ''image/gif'' ''image/svg+xml''"

definition test_mime_is_compatible_text_category_cross_matches :: bool where
  "test_mime_is_compatible_text_category_cross_matches \<longleftrightarrow>
     mime_is_compatible ''text/plain'' ''text/html'' \<and> mime_is_compatible ''text/markdown'' ''text/plain''"

definition test_mime_is_compatible_text_aliases_match_plain_text_family :: bool where
  "test_mime_is_compatible_text_aliases_match_plain_text_family \<longleftrightarrow>
     mime_is_compatible ''UTF8_STRING'' ''text/plain'' \<and> mime_is_compatible ''text/plain'' ''STRING'' \<and>
     mime_is_compatible ''TEXT'' ''compound_text''"

definition test_mime_is_compatible_text_alias_matches_xhtml_target :: bool where
  "test_mime_is_compatible_text_alias_matches_xhtml_target \<longleftrightarrow>
     mime_is_compatible ''text/plain'' ''application/xhtml+xml''"

definition test_mime_is_compatible_unrelated_non_text_types_do_not_match :: bool where
  "test_mime_is_compatible_unrelated_non_text_types_do_not_match \<longleftrightarrow>
     \<not> mime_is_compatible ''application/json'' ''application/pdf'' \<and>
     \<not> mime_is_compatible ''image/png'' ''text/plain''"

definition test_mime_is_compatible_html_and_xhtml_match_in_both_directions :: bool where
  "test_mime_is_compatible_html_and_xhtml_match_in_both_directions \<longleftrightarrow>
     mime_is_compatible ''text/html'' ''application/xhtml+xml'' \<and> mime_is_compatible ''application/xhtml+xml'' ''text/html''"

definition test_mime_is_compatible_html_and_xhtml_match_with_parameters_in_both_directions :: bool where
  "test_mime_is_compatible_html_and_xhtml_match_with_parameters_in_both_directions \<longleftrightarrow>
     mime_is_compatible ''text/html; charset=utf-8'' ''application/xhtml+xml'' \<and>
     mime_is_compatible ''application/xhtml+xml'' ''TEXT/HTML; charset=utf-8''"

definition test_mime_is_compatible_text_plain_alias_and_xhtml_match_in_both_directions :: bool where
  "test_mime_is_compatible_text_plain_alias_and_xhtml_match_in_both_directions \<longleftrightarrow>
     mime_is_compatible ''text/plain'' ''application/xhtml+xml'' \<and>
     mime_is_compatible ''application/xhtml+xml'' ''text/plain''"

definition test_mime_is_compatible_utf8_string_alias_and_xhtml_match_in_both_directions :: bool where
  "test_mime_is_compatible_utf8_string_alias_and_xhtml_match_in_both_directions \<longleftrightarrow>
     mime_is_compatible ''UTF8_STRING'' ''application/xhtml+xml'' \<and>
     mime_is_compatible ''application/xhtml+xml'' ''UTF8_STRING''"

definition test_mime_is_compatible_alias_and_text_category_match_in_both_directions :: bool where
  "test_mime_is_compatible_alias_and_text_category_match_in_both_directions \<longleftrightarrow>
     mime_is_compatible ''STRING'' ''text/markdown'' \<and> mime_is_compatible ''text/markdown'' ''STRING''"

definition test_mime_is_compatible_two_aliases_match_each_other :: bool where
  "test_mime_is_compatible_two_aliases_match_each_other \<longleftrightarrow>
     mime_is_compatible ''utf8_string'' ''compound_text'' \<and> mime_is_compatible ''compound_text'' ''utf8_string''"

lemma selection_tests_pass:
  test_is_sensitive_detects_all_configured_hints
  test_is_sensitive_clean_mimes_pass
  test_is_sensitive_empty_list_returns_false
  test_mime_is_compatible_exact_match
  test_mime_is_compatible_exact_match_is_case_and_param_insensitive
  test_mime_is_compatible_distinct_image_formats_never_cross_match
  test_mime_is_compatible_text_category_cross_matches
  test_mime_is_compatible_text_aliases_match_plain_text_family
  test_mime_is_compatible_text_alias_matches_xhtml_target
  test_mime_is_compatible_unrelated_non_text_types_do_not_match
  test_mime_is_compatible_html_and_xhtml_match_in_both_directions
  test_mime_is_compatible_html_and_xhtml_match_with_parameters_in_both_directions
  test_mime_is_compatible_text_plain_alias_and_xhtml_match_in_both_directions
  test_mime_is_compatible_utf8_string_alias_and_xhtml_match_in_both_directions
  test_mime_is_compatible_alias_and_text_category_match_in_both_directions
  test_mime_is_compatible_two_aliases_match_each_other
  by code_simp+

end
