(* ===== verification/TestsPayload.thy ===== *)
theory TestsPayload
  imports Ingest
begin

text \<open>
  The unit tests of \<^verbatim>\<open>core/src/payload.rs\<close> and \<^verbatim>\<open>wayland/src/ingest.rs\<close>, translated assertion by assertion and evaluated on the model. A temporary file is
  a file of a file system that holds nothing else. Tests of allocations, of raw descriptor numbers and of many threads have no counterpart here; those of a pipe's two
  ends are lemmas of the descriptor table.
\<close>

section \<open>Bounded reads\<close>

definition LIMIT :: nat where "LIMIT = 1024"

definition loaded_stream :: "bytes \<Rightarrow> nat option \<Rightarrow> stream_descriptor" where
  "loaded_stream bs hint = \<lparr> sd_reader = [RdData bs], sd_len_hint = hint \<rparr>"

definition test_read_bounded_within_and_exactly_at_the_limit_returns_everything :: bool where
  "test_read_bounded_within_and_exactly_at_the_limit_returns_everything \<longleftrightarrow>
     read_bounded [RdData ''hello''] 10 = Inr ''hello'' \<and> read_bounded [RdData ''abcde''] 5 = Inr ''abcde''"

definition test_read_bounded_one_byte_over_is_discarded_not_truncated :: bool where
  "test_read_bounded_one_byte_over_is_discarded_not_truncated \<longleftrightarrow> read_bounded [RdData ''abcdef''] 5 = Inl (TooLarge 5)"

text \<open>An endless stream, cut where the reader must have stopped looking.\<close>

definition test_read_bounded_stops_reading_at_the_cap_on_an_endless_stream :: bool where
  "test_read_bounded_stops_reading_at_the_cap_on_an_endless_stream \<longleftrightarrow>
     read_bounded (replicate 65 (RdData ''A'') @ [RdErr (OtherError ''read past the cap'')]) 64 = Inl (TooLarge 64)"

definition test_read_bounded_empty_input_is_empty_not_an_empty_vec :: bool where
  "test_read_bounded_empty_input_is_empty_not_an_empty_vec \<longleftrightarrow> read_bounded [RdData []] 10 = Inl PEmpty \<and> read_bounded [] 10 = Inl PEmpty"

definition test_read_bounded_surfaces_a_read_error :: bool where
  "test_read_bounded_surfaces_a_read_error \<longleftrightarrow> read_bounded [RdErr (OtherError ''boom'')] 10 = Inl (PIo (OtherError ''boom''))"

definition test_memory_read_bounded_applies_the_same_rules_as_a_stream :: bool where
  "test_memory_read_bounded_applies_the_same_rules_as_a_stream \<longleftrightarrow>
     fst (payload_read_bounded True (Memory []) LIMIT empty_fs) = Inl PEmpty \<and>
     fst (payload_read_bounded True (Memory (replicate 11 CHR 0x00)) 10 empty_fs) = Inl (TooLarge 10) \<and>
     fst (payload_read_bounded True (Memory (replicate 10 CHR 0x01)) 10 empty_fs) = Inr (replicate 10 CHR 0x01)"

definition test_stream_read_bounded_enforces_the_limit_even_when_the_hint_lies :: bool where
  "test_stream_read_bounded_enforces_the_limit_even_when_the_hint_lies \<longleftrightarrow>
     fst (payload_read_bounded True (Stream (loaded_stream (replicate 50 CHR 0x09) (Some 3))) 10 empty_fs) = Inl (TooLarge 10) \<and>
     fst (payload_read_bounded True (Stream (loaded_stream (replicate 5 CHR 0x09) (Some 1000000))) 10 empty_fs) = Inr (replicate 5 CHR 0x09)"

definition temp_file :: "bytes \<Rightarrow> fsys" where
  "temp_file bs = write_file ''/tmp/y4p-payload-test'' bs empty_fs"

definition temp_payload :: payload where "temp_payload = PFile ''/tmp/y4p-payload-test''"

definition test_file_read_bounded_refuses_an_oversized_file_and_reads_a_fitting_one :: bool where
  "test_file_read_bounded_refuses_an_oversized_file_and_reads_a_fitting_one \<longleftrightarrow>
     (let fs = temp_file (replicate 64 CHR 0x05)
      in fst (payload_read_bounded True temp_payload 63 fs) = Inl (TooLarge 63) \<and>
         fst (payload_read_bounded True temp_payload 64 fs) = Inr (replicate 64 CHR 0x05))"

lemma read_bounded_tests_pass:
  test_read_bounded_within_and_exactly_at_the_limit_returns_everything
  test_read_bounded_one_byte_over_is_discarded_not_truncated
  test_read_bounded_stops_reading_at_the_cap_on_an_endless_stream
  test_read_bounded_empty_input_is_empty_not_an_empty_vec
  test_read_bounded_surfaces_a_read_error
  test_memory_read_bounded_applies_the_same_rules_as_a_stream
  test_file_read_bounded_refuses_an_oversized_file_and_reads_a_fitting_one
  by code_simp+

definition test_a_huge_limit_cannot_overflow_the_probe_byte :: bool where
  "test_a_huge_limit_cannot_overflow_the_probe_byte \<longleftrightarrow> read_bounded [RdData ''x''] u64_max = Inr ''x''"

lemma lying_hint_test_passes: test_stream_read_bounded_enforces_the_limit_even_when_the_hint_lies
  by (simp add: test_stream_read_bounded_enforces_the_limit_even_when_the_hint_lies_def payload_read_bounded_def loaded_stream_def
      read_bounded_def sat_add_def u64_max_def)

lemma huge_limit_test_passes: test_a_huge_limit_cannot_overflow_the_probe_byte
  by (simp add: test_a_huge_limit_cannot_overflow_the_probe_byte_def read_bounded_def sat_add_def u64_max_def)

section \<open>Payloads and readers\<close>

definition test_payload_len_hints_need_no_io :: bool where
  "test_payload_len_hints_need_no_io \<longleftrightarrow>
     payload_len_hint (Memory (replicate 9 CHR 0x00)) = Some 9 \<and> payload_len_hint (Stream (loaded_stream [] (Some 42))) = Some 42 \<and>
     payload_len_hint (Stream (loaded_stream [] None)) = None \<and> payload_len_hint (PFile ''/definitely/not/there'') = None"

definition test_as_bytes_is_some_only_for_memory :: bool where
  "test_as_bytes_is_some_only_for_memory \<longleftrightarrow>
     payload_as_bytes (Memory ''hi'') = Some ''hi'' \<and> payload_as_bytes (Stream (loaded_stream ''hi'' None)) = None \<and>
     payload_as_bytes (PFile ''x'') = None"

definition reads_all :: "payload \<Rightarrow> fsys \<Rightarrow> bytes \<Rightarrow> bool" where
  "reads_all p fs bs =
     (case into_reader True p fs of
        (Inr r, _) \<Rightarrow> stream_bytes (reader_events r) = bs \<and> stream_error (reader_events r) = None
      | (Inl _, _) \<Rightarrow> False)"

definition test_every_reader_variant_yields_the_same_bytes :: bool where
  "test_every_reader_variant_yields_the_same_bytes \<longleftrightarrow>
     list_all (\<lambda>p. reads_all p (temp_file ''same bytes'') ''same bytes'')
       [Memory ''same bytes'', Stream (loaded_stream ''same bytes'' None), temp_payload]"

definition test_opening_a_missing_file_is_an_error_not_a_panic :: bool where
  "test_opening_a_missing_file_is_an_error_not_a_panic \<longleftrightarrow>
     (case fst (into_reader True (PFile ''/definitely/not/there'') empty_fs) of Inl _ \<Rightarrow> True | Inr _ \<Rightarrow> False) \<and>
     fst (payload_read_bounded True (PFile ''/definitely/not/there'') LIMIT empty_fs) = Inl (PIo NotFound)"

definition test_try_clone_of_a_memory_payload_is_independent :: bool where
  "test_try_clone_of_a_memory_payload_is_independent \<longleftrightarrow>
     (case payload_try_clone None (Memory ''abc'') of
        Inr copy \<Rightarrow> payload_as_bytes copy = payload_as_bytes (Memory ''abc'') \<and> payload_as_bytes copy = Some ''abc''
      | Inl _ \<Rightarrow> False)"

definition test_without_a_hint_text_like_mimes_go_inline_and_the_rest_stream :: bool where
  "test_without_a_hint_text_like_mimes_go_inline_and_the_rest_stream \<longleftrightarrow>
     list_all (\<lambda>m. route_payload m None = Inline)
       [''text/plain'', ''TEXT/HTML; charset=utf-8'', ''application/json'', ''text/uri-list'', ''UTF8_STRING''] \<and>
     list_all (\<lambda>m. route_payload m None = RouteStream)
       [''image/png'', ''image/svg+xml'', ''application/octet-stream'', ''video/mp4'', []]"

section \<open>Spool files\<close>

definition spool_path :: path where "spool_path = ''/tmp/y4p-spool''"

definition spooled :: "bytes \<Rightarrow> spooled_file" where
  "spooled bs = spooled_new spool_path (length bs) (replicate 32 CHR 0xAB)"

definition spool_disk :: "bytes \<Rightarrow> fsys" where "spool_disk bs = write_file spool_path bs empty_fs"

definition test_dropping_a_spooled_file_unlinks_it :: bool where
  "test_dropping_a_spooled_file_unlinks_it \<longleftrightarrow>
     path_exists (spool_disk ''spooled'') (sp_path (spooled ''spooled'')) \<and>
     \<not> path_exists (spooled_drop (spooled ''spooled'') (spool_disk ''spooled'')) spool_path"

definition test_into_path_hands_the_file_over_and_disarms_the_unlink :: bool where
  "test_into_path_hands_the_file_over_and_disarms_the_unlink \<longleftrightarrow>
     (case spooled_into_path (spooled ''adopt me'') (spool_disk ''adopt me'') of (p, fs) \<Rightarrow> path_exists fs p)"

definition test_a_spooled_payload_reports_its_length_and_has_no_bytes_in_memory :: bool where
  "test_a_spooled_payload_reports_its_length_and_has_no_bytes_in_memory \<longleftrightarrow>
     (let p = Spooled (spooled ''12345'')
      in payload_len_hint p = Some 5 \<and> payload_as_bytes p = None \<and> payload_try_clone None p = Inl Unsupported)"

definition test_a_spooled_payload_is_materialised_within_the_bound_and_its_file_is_gone_after :: bool where
  "test_a_spooled_payload_is_materialised_within_the_bound_and_its_file_is_gone_after \<longleftrightarrow>
     (case payload_read_bounded True (Spooled (spooled ''from the spool'')) LIMIT (spool_disk ''from the spool'') of
        (r, fs) \<Rightarrow> r = Inr ''from the spool'' \<and> \<not> path_exists fs spool_path)"

definition test_a_spooled_payload_over_the_limit_is_refused_from_its_recorded_length :: bool where
  "test_a_spooled_payload_over_the_limit_is_refused_from_its_recorded_length \<longleftrightarrow>
     (let bs = replicate 64 CHR 0x07
      in fst (payload_read_bounded True (Spooled (spooled bs)) 63 (spool_disk bs)) = Inl (TooLarge 63))"

definition test_a_reader_over_a_spooled_payload_outlives_the_unlink :: bool where
  "test_a_reader_over_a_spooled_payload_outlives_the_unlink \<longleftrightarrow>
     (case into_reader True (Spooled (spooled ''still readable'')) (spool_disk ''still readable'') of
        (Inr r, fs) \<Rightarrow> \<not> path_exists fs spool_path \<and> reader_len_hint r = Some 14 \<and> stream_bytes (reader_events r) = ''still readable''
      | (Inl _, _) \<Rightarrow> False)"

definition test_the_hex_digest_is_lowercase_and_full_width :: bool where
  "test_the_hex_digest_is_lowercase_and_full_width \<longleftrightarrow>
     (let digest = [CHR 0x0F, CHR 0xA0] @ replicate 29 CHR 0x00 @ [CHR 0xFF];
          hex = hex_digest (spooled_new ''/nonexistent/y4p'' 1 digest)
      in length hex = 64 \<and> take 4 hex = ''0fa0'' \<and> drop 62 hex = ''ff'' \<and> to_hex [] = [] \<and>
         to_hex [CHR 0x00, CHR 0x7F, CHR 0x80] = ''007f80'')"

lemma payload_tests_pass:
  test_payload_len_hints_need_no_io
  test_as_bytes_is_some_only_for_memory
  test_every_reader_variant_yields_the_same_bytes
  test_opening_a_missing_file_is_an_error_not_a_panic
  test_try_clone_of_a_memory_payload_is_independent
  test_without_a_hint_text_like_mimes_go_inline_and_the_rest_stream
  test_dropping_a_spooled_file_unlinks_it
  test_into_path_hands_the_file_over_and_disarms_the_unlink
  test_a_spooled_payload_reports_its_length_and_has_no_bytes_in_memory
  test_a_spooled_payload_is_materialised_within_the_bound_and_its_file_is_gone_after
  test_a_spooled_payload_over_the_limit_is_refused_from_its_recorded_length
  test_a_reader_over_a_spooled_payload_outlives_the_unlink
  test_the_hex_digest_is_lowercase_and_full_width
  by code_simp+

definition test_a_length_hint_decides_at_the_threshold :: bool where
  "test_a_length_hint_decides_at_the_threshold \<longleftrightarrow>
     (let t = INLINE_PAYLOAD_THRESHOLD_BYTES
      in route_payload ''image/png'' (Some 0) = Inline \<and> route_payload ''image/png'' (Some t) = Inline \<and>
         route_payload ''image/png'' (Some (t + 1)) = RouteStream)"

definition test_a_length_hint_overrides_the_mime_in_both_directions :: bool where
  "test_a_length_hint_overrides_the_mime_in_both_directions \<longleftrightarrow>
     route_payload ''text/plain'' (Some (INLINE_PAYLOAD_THRESHOLD_BYTES + 1)) = RouteStream \<and>
     route_payload ''image/png'' (Some 16) = Inline"

definition test_the_threshold_is_one_page :: bool where
  "test_the_threshold_is_one_page \<longleftrightarrow> INLINE_PAYLOAD_THRESHOLD_BYTES = 4096"

lemma threshold_tests_pass:
  test_a_length_hint_decides_at_the_threshold
  test_a_length_hint_overrides_the_mime_in_both_directions
  test_the_threshold_is_one_page
  by (simp_all add: test_a_length_hint_decides_at_the_threshold_def test_a_length_hint_overrides_the_mime_in_both_directions_def
      test_the_threshold_is_one_page_def route_payload_def const_defs)

section \<open>Gates and budgets\<close>

definition gates :: "nat \<Rightarrow> nat \<Rightarrow> reader_gate option" where
  "gates n limit = ((\<lambda>g. Option.bind g gate_try_acquire) ^^ n) (Some (gate_new limit))"

definition test_gate_admits_exactly_its_limit_then_refuses :: bool where
  "test_gate_admits_exactly_its_limit_then_refuses \<longleftrightarrow>
     (case gates 3 3 of
        None \<Rightarrow> False
      | Some g \<Rightarrow> gate_active g = 3 \<and> gate_try_acquire g = None \<and> gate_active ((gate_release ^^ 3) g) = 0)"

definition test_dropping_a_permit_frees_a_slot_for_the_next_reader :: bool where
  "test_dropping_a_permit_frees_a_slot_for_the_next_reader \<longleftrightarrow>
     (case gates 1 1 of None \<Rightarrow> False | Some g \<Rightarrow> gate_try_acquire g = None \<and> gate_try_acquire (gate_release g) \<noteq> None)"

definition test_a_zero_limit_gate_admits_nobody :: bool where
  "test_a_zero_limit_gate_admits_nobody \<longleftrightarrow> gate_try_acquire (gate_new 0) = None \<and> gate_active (gate_new 0) = 0"

definition reserved :: "nat list \<Rightarrow> nat \<Rightarrow> byte_budget option" where
  "reserved ns limit = fold (\<lambda>n b. Option.bind b (try_reserve n)) ns (Some (budget_new limit))"

definition test_the_budget_admits_up_to_its_limit_then_refuses_and_a_refusal_leaks_nothing :: bool where
  "test_the_budget_admits_up_to_its_limit_then_refuses_and_a_refusal_leaks_nothing \<longleftrightarrow>
     (case reserved [60, 40] 100 of
        None \<Rightarrow> False
      | Some b \<Rightarrow> budget_used b = 100 \<and> try_reserve 1 b = None \<and> budget_used (budget_release 60 b) = 40 \<and>
          try_reserve 60 (budget_release 60 b) \<noteq> None)"

definition test_a_permit_returns_exactly_its_bytes_on_every_exit_path :: bool where
  "test_a_permit_returns_exactly_its_bytes_on_every_exit_path \<longleftrightarrow>
     (case reserved [300] 1000 of None \<Rightarrow> False | Some b \<Rightarrow> budget_used b = 300 \<and> budget_used (budget_release 300 b) = 0)"

definition test_a_zero_byte_reservation_is_always_admitted :: bool where
  "test_a_zero_byte_reservation_is_always_admitted \<longleftrightarrow> reserved [0] 0 \<noteq> None \<and> reserved [1] 0 = None"

definition test_shed_counters_are_independent_and_return_running_totals :: bool where
  "test_shed_counters_are_independent_and_return_running_totals \<longleftrightarrow>
     (let (a, s) = record_shed_reader \<lparr> shed_readers = 0, shed_queue = 0 \<rparr>; (b, s) = record_shed_reader s; (c, s) = record_shed_queue s
      in (a, b) = (1, 2) \<and> c = 1 \<and> (shed_readers s, shed_queue s) = (2, 1))"

definition test_the_shed_warning_fires_on_powers_of_two_only :: bool where
  "test_the_shed_warning_fires_on_powers_of_two_only \<longleftrightarrow> filter should_report [0 ..< 21] = [1, 2, 4, 8, 16]"

lemma admission_tests_pass:
  test_gate_admits_exactly_its_limit_then_refuses
  test_dropping_a_permit_frees_a_slot_for_the_next_reader
  test_a_zero_limit_gate_admits_nobody
  test_the_budget_admits_up_to_its_limit_then_refuses_and_a_refusal_leaks_nothing
  test_a_permit_returns_exactly_its_bytes_on_every_exit_path
  test_a_zero_byte_reservation_is_always_admitted
  test_shed_counters_are_independent_and_return_running_totals
  test_the_shed_warning_fires_on_powers_of_two_only
  by code_simp+

definition test_a_reservation_near_usize_max_cannot_wrap_past_the_limit :: bool where
  "test_a_reservation_near_usize_max_cannot_wrap_past_the_limit \<longleftrightarrow>
     (case reserved [u64_max - 1] u64_max of
        None \<Rightarrow> False
      | Some b \<Rightarrow> try_reserve u64_max b = None \<and> try_reserve 2 b = None \<and> try_reserve 1 b \<noteq> None \<and>
          budget_used (budget_release (u64_max - 1) b) = 0)"

lemma near_max_test_passes: test_a_reservation_near_usize_max_cannot_wrap_past_the_limit
  by (simp add: test_a_reservation_near_usize_max_cannot_wrap_past_the_limit_def reserved_def try_reserve_def checked_add_def
      budget_release_def fetch_sub_def u64_max_def)

section \<open>The queue\<close>

text \<open>
  A queue of the given capacity and byte budget whose worker only takes what the events say. A job is one tagged byte, or a run of them. That a producer
  waited before it shed shows in that a worker which makes room during its last sleep still gets the job; that it did not wait, in that such a worker does not.
\<close>

definition queue_of :: "nat \<Rightarrow> nat \<Rightarrow> queue_world" where
  "queue_of capacity limit =
     \<lparr> qw_jobs = [], qw_capacity = capacity, qw_open = True, qw_working = [], qw_waiting = [], qw_budget = budget_new limit, qw_fs = empty_fs \<rparr>"

definition tagged :: "nat \<Rightarrow> clipboard_job" where "tagged tag = job_new ''text/plain'' [char_of tag]"

definition big_job :: "nat \<Rightarrow> nat \<Rightarrow> clipboard_job" where
  "big_job tag len = job_new ''application/octet-stream'' (replicate len (char_of tag))"

definition tags :: "queue_world \<Rightarrow> nat list" where
  "tags w = map (\<lambda>job. case job_payload job of Memory (c # _) \<Rightarrow> of_char c | _ \<Rightarrow> 256) (qw_jobs w)"

definition idle :: "nat \<Rightarrow> qevent list" where "idle i = []"

definition during :: "nat \<Rightarrow> qevent list \<Rightarrow> nat \<Rightarrow> qevent list" where
  "during k evs i = (if i = k then evs else [])"

definition on_time :: "nat \<Rightarrow> nat" where "on_time i = 0"

text \<open>An offer that is not shed within some patience has the same outcome with more of it.\<close>

lemma enqueue_from_patient:
  "fst (enqueue_from events drift wait job i w) \<noteq> Shed \<Longrightarrow> wait \<le> wait' \<Longrightarrow>
     enqueue_from events drift wait' job i w = enqueue_from events drift wait job i w"
proof (induction events drift wait job i w rule: enqueue_from.induct)
  case (1 events drift wait job i w)
  show ?case
  proof (cases "fst (try_send job w) = Full \<and> \<not> wait \<le> elapsed_at drift i")
    case False
    with 1(2,3) show ?thesis
      by (auto simp: enqueue_from.simps [of events drift _ job i w] split: prod.splits send_answer.splits if_splits)
  next
    case True
    obtain w1 where send: "try_send job w = (Full, w1)" using True by (metis prod.collapse)
    with True 1(2) have "fst (enqueue_from events drift wait job (Suc i) (apply_events (events i) w1)) \<noteq> Shed"
      by (simp add: enqueue_from.simps [of events drift wait job i w])
    from 1(1) [OF send [symmetric] refl _ this 1(3)] True send 1(2,3) show ?thesis
      by (auto simp: enqueue_from.simps [of events drift _ job i w])
  qed
qed

lemma enqueue_patient:
  "fst (enqueue events drift wait job w) \<noteq> Shed \<Longrightarrow> wait \<le> wait' \<Longrightarrow>
     enqueue events drift wait' job w = enqueue events drift wait job w"
  unfolding enqueue_def by (rule enqueue_from_patient)

lemma enqueue_bounded_from_patient:
  "fst (enqueue_bounded_from events drift wait bytes job i w) \<noteq> Shed \<Longrightarrow> wait \<le> wait' \<Longrightarrow>
     enqueue_bounded_from events drift wait' bytes job i w = enqueue_bounded_from events drift wait bytes job i w"
proof (induction events drift wait bytes job i w rule: enqueue_bounded_from.induct)
  case (1 events drift wait bytes job0 i w0)
  obtain job w1 where reserve: "reserve_for bytes job0 w0 = (job, w1)" by fastforce
  obtain a w where offer: "offer job w1 = (a, w)" by fastforce
  show ?case
  proof (cases "a = Full \<and> \<not> wait \<le> elapsed_at drift i")
    case False
    with 1(2,3) reserve offer show ?thesis
      by (cases a) (auto simp: enqueue_bounded_from.simps [of events drift _ bytes job0 i w0])
  next
    case True
    with 1(2) reserve offer
    have "fst (enqueue_bounded_from events drift wait bytes job (Suc i) (apply_events (events i) w)) \<noteq> Shed"
      by (simp add: enqueue_bounded_from.simps [of events drift wait bytes job0 i w0])
    from 1(1) [OF reserve [symmetric] refl _ _ _ this 1(3)] True reserve offer 1(2,3) show ?thesis
      by (auto simp: enqueue_bounded_from.simps [of events drift _ bytes job0 i w0])
  qed
qed

lemma enqueue_bounded_patient:
  "fst (enqueue_bounded events drift wait job w) \<noteq> Shed \<Longrightarrow> wait \<le> wait' \<Longrightarrow>
     enqueue_bounded events drift wait' job w = enqueue_bounded events drift wait job w"
  using enqueue_bounded_from_patient [of events drift wait "accounted_bytes job" job 0 w wait']
  by (simp add: enqueue_bounded_def Let_def split: if_splits)

definition put :: "clipboard_job \<Rightarrow> queue_world \<Rightarrow> queue_world" where
  "put job w = snd (enqueue idle on_time 0 job w)"

definition put_bounded :: "clipboard_job \<Rightarrow> queue_world \<Rightarrow> queue_world" where
  "put_bounded job w = snd (enqueue_bounded idle on_time 0 job w)"

definition test_a_job_with_room_is_queued_immediately :: bool where
  "test_a_job_with_room_is_queued_immediately \<longleftrightarrow>
     (case enqueue idle on_time 0 (tagged 1) (queue_of 2 0) of (r, w) \<Rightarrow> r = Queued \<and> tags w = [1])"

definition four_queued :: queue_world where "four_queued = fold (\<lambda>tag. put (tagged tag)) [0, 1, 2, 3] (queue_of 4 0)"

definition test_a_saturated_queue_sheds_after_the_patience_budget_and_never_grows :: bool where
  "test_a_saturated_queue_sheds_after_the_patience_budget_and_never_grows \<longleftrightarrow>
     (case enqueue idle on_time 40 (tagged 99) four_queued of (r, w) \<Rightarrow> r = Shed \<and> tags w = [0, 1, 2, 3]) \<and>
     (let last_sleep = (40 - 1) div INGEST_ENQUEUE_POLL_MS
      in fst (enqueue (during last_sleep [WorkerTakes]) on_time 40 (tagged 99) four_queued) = Queued)"

definition test_a_zero_patience_shed_is_immediate :: bool where
  "test_a_zero_patience_shed_is_immediate \<longleftrightarrow>
     fst (enqueue (during 0 [WorkerTakes]) on_time 0 (tagged 2) (put (tagged 1) (queue_of 1 0))) = Shed"

definition test_backpressure_delivers_when_the_consumer_catches_up_within_the_budget :: bool where
  "test_backpressure_delivers_when_the_consumer_catches_up_within_the_budget \<longleftrightarrow>
     (case enqueue (during 12 [WorkerTakes]) on_time 10000 (tagged 2) (put (tagged 1) (queue_of 1 0)) of
        (r, w) \<Rightarrow> r = Queued \<and> map job_payload (qw_working w) = [Memory [CHR 0x01]] \<and> tags w = [2])"

definition gone :: "queue_world \<Rightarrow> queue_world" where "gone w = apply_event WorkerGone w"

definition test_a_gone_worker_reports_closed_instead_of_waiting :: bool where
  "test_a_gone_worker_reports_closed_instead_of_waiting \<longleftrightarrow> fst (enqueue idle on_time 10000 (tagged 1) (gone (queue_of 1 0))) = Closed"

definition test_a_closed_queue_is_reported_even_when_it_was_full :: bool where
  "test_a_closed_queue_is_reported_even_when_it_was_full \<longleftrightarrow>
     fst (enqueue idle on_time 10000 (tagged 2) (gone (put (tagged 1) (queue_of 1 0)))) = Closed"

definition test_plain_enqueue_stays_unaccounted :: bool where
  "test_plain_enqueue_stays_unaccounted \<longleftrightarrow>
     (case enqueue idle on_time 0 (big_job 1 10) (queue_of 1 0) of (r, w) \<Rightarrow> r = Queued \<and> map job_permit (qw_jobs w) = [None])"

lemma queue_tests_pass:
  test_a_job_with_room_is_queued_immediately
  test_a_saturated_queue_sheds_after_the_patience_budget_and_never_grows
  test_a_zero_patience_shed_is_immediate
  test_plain_enqueue_stays_unaccounted
  by code_simp+

text \<open>The three with a patience of ten seconds: a tenth of a second is enough.\<close>

lemma within_a_tenth:
  "fst (enqueue (during 12 [WorkerTakes]) on_time 100 (tagged 2) (put (tagged 1) (queue_of 1 0))) \<noteq> Shed"
  "fst (enqueue idle on_time 100 (tagged 1) (gone (queue_of 1 0))) \<noteq> Shed"
  "fst (enqueue idle on_time 100 (tagged 2) (gone (put (tagged 1) (queue_of 1 0)))) \<noteq> Shed"
  by code_simp+

lemma patient_queue_tests_pass:
  test_backpressure_delivers_when_the_consumer_catches_up_within_the_budget
  test_a_gone_worker_reports_closed_instead_of_waiting
  test_a_closed_queue_is_reported_even_when_it_was_full
  unfolding test_backpressure_delivers_when_the_consumer_catches_up_within_the_budget_def
    test_a_gone_worker_reports_closed_instead_of_waiting_def test_a_closed_queue_is_reported_even_when_it_was_full_def
    within_a_tenth [THEN enqueue_patient, of 10000, simplified]
  by code_simp+

definition used :: "queue_world \<Rightarrow> nat" where "used w = budget_used (qw_budget w)"

definition test_a_job_with_room_in_both_bounds_is_queued_and_carries_its_reservation :: bool where
  "test_a_job_with_room_in_both_bounds_is_queued_and_carries_its_reservation \<longleftrightarrow>
     (case enqueue_bounded idle on_time 0 (big_job 1 40) (queue_of 2 100) of
        (r, w) \<Rightarrow> r = Queued \<and> used w = 40 \<and> map job_permit (qw_jobs w) = [Some 40] \<and>
          used (apply_events [WorkerTakes, WorkerDrops] w) = 0)"

definition test_a_payload_larger_than_the_whole_budget_is_shed_at_once_without_waiting :: bool where
  "test_a_payload_larger_than_the_whole_budget_is_shed_at_once_without_waiting \<longleftrightarrow>
     (case enqueue_bounded idle on_time 10000 (big_job 1 101) (queue_of 2 100) of (r, w) \<Rightarrow> r = Shed \<and> qw_jobs w = [] \<and> used w = 0)"

definition test_a_payload_exactly_the_size_of_the_budget_is_admitted :: bool where
  "test_a_payload_exactly_the_size_of_the_budget_is_admitted \<longleftrightarrow>
     (case enqueue_bounded idle on_time 0 (big_job 1 100) (queue_of 1 100) of (r, w) \<Rightarrow> r = Queued \<and> used w = 100)"

definition test_a_full_byte_budget_sheds_after_the_patience_budget_even_with_queue_slots_free :: bool where
  "test_a_full_byte_budget_sheds_after_the_patience_budget_even_with_queue_slots_free \<longleftrightarrow>
     (let w0 = put_bounded (big_job 1 80) (queue_of 8 100); last_sleep = (40 - 1) div INGEST_ENQUEUE_POLL_MS
      in (case enqueue_bounded idle on_time 40 (big_job 2 30) w0 of (r, w) \<Rightarrow> r = Shed \<and> used w = 80 \<and> tags w = [1]) \<and>
         fst (enqueue_bounded (during last_sleep [WorkerTakes, WorkerDrops]) on_time 40 (big_job 2 30) w0) = Queued)"

definition test_a_full_queue_sheds_and_returns_the_bytes_it_had_reserved :: bool where
  "test_a_full_queue_sheds_and_returns_the_bytes_it_had_reserved \<longleftrightarrow>
     (case enqueue_bounded idle on_time 30 (big_job 2 500) (put_bounded (big_job 1 10) (queue_of 1 1000)) of
        (r, w) \<Rightarrow> r = Shed \<and> used w = 10 \<and> tags w = [1] \<and> used (apply_events [WorkerTakes, WorkerDrops] w) = 0)"

definition test_backpressure_on_bytes_delivers_when_the_consumer_frees_room_within_the_budget :: bool where
  "test_backpressure_on_bytes_delivers_when_the_consumer_frees_room_within_the_budget \<longleftrightarrow>
     (case enqueue_bounded (during 12 [WorkerTakes, WorkerDrops]) on_time 10000 (big_job 2 80) (put_bounded (big_job 1 80) (queue_of 8 100)) of
        (r, w) \<Rightarrow> r = Queued \<and> tags w = [2])"

definition test_a_gone_worker_is_reported_closed_and_leaves_no_reservation :: bool where
  "test_a_gone_worker_is_reported_closed_and_leaves_no_reservation \<longleftrightarrow>
     (case enqueue_bounded idle on_time 10000 (big_job 1 10) (gone (queue_of 1 100)) of (r, w) \<Rightarrow> r = Closed \<and> used w = 0)"

definition test_dropping_the_receiver_with_queued_jobs_returns_their_bytes :: bool where
  "test_dropping_the_receiver_with_queued_jobs_returns_their_bytes \<longleftrightarrow>
     (let w = fold (\<lambda>tag. put_bounded (big_job tag 20)) [0, 1, 2] (queue_of 4 100) in used w = 60 \<and> used (gone w) = 0)"

lemma bounded_queue_tests_pass:
  test_a_job_with_room_in_both_bounds_is_queued_and_carries_its_reservation
  test_a_payload_exactly_the_size_of_the_budget_is_admitted
  test_a_full_byte_budget_sheds_after_the_patience_budget_even_with_queue_slots_free
  test_a_full_queue_sheds_and_returns_the_bytes_it_had_reserved
  test_dropping_the_receiver_with_queued_jobs_returns_their_bytes
  by code_simp+

lemma within_a_tenth_bounded:
  "fst (enqueue_bounded (during 12 [WorkerTakes, WorkerDrops]) on_time 100 (big_job 2 80) (put_bounded (big_job 1 80) (queue_of 8 100))) \<noteq> Shed"
  "fst (enqueue_bounded idle on_time 100 (big_job 1 10) (gone (queue_of 1 100))) \<noteq> Shed"
  by code_simp+

lemma patient_bounded_queue_tests_pass:
  test_backpressure_on_bytes_delivers_when_the_consumer_frees_room_within_the_budget
  test_a_gone_worker_is_reported_closed_and_leaves_no_reservation
  unfolding test_backpressure_on_bytes_delivers_when_the_consumer_frees_room_within_the_budget_def
    test_a_gone_worker_is_reported_closed_and_leaves_no_reservation_def
    within_a_tenth_bounded [THEN enqueue_bounded_patient, of 10000, simplified]
  by code_simp+

lemma oversized_test_passes: test_a_payload_larger_than_the_whole_budget_is_shed_at_once_without_waiting
  by (simp add: test_a_payload_larger_than_the_whole_budget_is_shed_at_once_without_waiting_def enqueue_bounded_def accounted_bytes_def
      big_job_def job_new_def payload_len_hint_def queue_of_def u64_max_def drop_job_def permit_bytes_def budget_release_def fetch_sub_def
      payload_drop_def used_def)

end
