(* ===== verification/TestsSelection.thy ===== *)
theory TestsSelection
  imports TestsCore TestsPayload
begin

text \<open>
  The unit tests of \<^verbatim>\<open>wayland/src/handlers/data_control/device.rs\<close> whose payloads are small, translated assertion by assertion and evaluated on the
  model. What its tests of spooled payloads say at their sizes is proved in general with the spooler's contract.
\<close>

section \<open>Choosing a type\<close>

definition test_select_mime_requested_match_is_returned_verbatim :: bool where
  "test_select_mime_requested_match_is_returned_verbatim \<longleftrightarrow>
     select_mime [''text/plain'', ''text/html''] (Some ''text/html'') True = Some ''text/html''"

definition test_select_mime_absent_requested_mime_returns_none :: bool where
  "test_select_mime_absent_requested_mime_returns_none \<longleftrightarrow>
     select_mime [''text/plain'', ''text/html''] (Some ''application/pdf'') True = None"

definition test_select_mime_requested_match_is_case_and_param_insensitive :: bool where
  "test_select_mime_requested_match_is_case_and_param_insensitive \<longleftrightarrow>
     select_mime [''TEXT/Plain; charset=UTF-8''] (Some ''text/plain'') True = Some ''TEXT/Plain; charset=UTF-8''"

definition test_select_mime_requested_rtf_is_honoured_even_when_drop_rtf_enabled :: bool where
  "test_select_mime_requested_rtf_is_honoured_even_when_drop_rtf_enabled \<longleftrightarrow>
     select_mime [''text/rtf''] (Some ''text/rtf'') True = Some ''text/rtf''"

definition test_select_mime_daemon_fallback_prefers_priority_order :: bool where
  "test_select_mime_daemon_fallback_prefers_priority_order \<longleftrightarrow>
     select_mime [''text/html'', ''image/png'', ''text/plain''] None True = Some ''image/png''"

definition test_select_mime_daemon_fallback_matches_lower_ranked_priority_entry :: bool where
  "test_select_mime_daemon_fallback_matches_lower_ranked_priority_entry \<longleftrightarrow>
     select_mime [''text/html''] None True = Some ''text/html''"

definition test_select_mime_daemon_fallback_catch_all_for_unlisted_mime :: bool where
  "test_select_mime_daemon_fallback_catch_all_for_unlisted_mime \<longleftrightarrow>
     select_mime [''application/octet-stream''] None True = Some ''application/octet-stream''"

definition test_select_mime_drop_rtf_excludes_rtf_from_daemon_fallback :: bool where
  "test_select_mime_drop_rtf_excludes_rtf_from_daemon_fallback \<longleftrightarrow> select_mime [''text/rtf''] None True = None"

definition test_select_mime_rtf_allowed_in_daemon_fallback_when_drop_rtf_disabled :: bool where
  "test_select_mime_rtf_allowed_in_daemon_fallback_when_drop_rtf_disabled \<longleftrightarrow>
     select_mime [''text/rtf''] None False = Some ''text/rtf''"

definition test_select_mime_drop_rtf_skips_rtf_in_favour_of_other_text :: bool where
  "test_select_mime_drop_rtf_skips_rtf_in_favour_of_other_text \<longleftrightarrow>
     select_mime [''text/rtf'', ''text/markdown''] None True = Some ''text/markdown''"

definition test_select_mime_empty_offer_list_returns_none :: bool where
  "test_select_mime_empty_offer_list_returns_none \<longleftrightarrow>
     select_mime [] None True = None \<and> select_mime [] (Some ''text/plain'') True = None"

lemma select_mime_tests_pass:
  test_select_mime_requested_match_is_returned_verbatim
  test_select_mime_absent_requested_mime_returns_none
  test_select_mime_requested_match_is_case_and_param_insensitive
  test_select_mime_requested_rtf_is_honoured_even_when_drop_rtf_enabled
  test_select_mime_daemon_fallback_prefers_priority_order
  test_select_mime_daemon_fallback_matches_lower_ranked_priority_entry
  test_select_mime_daemon_fallback_catch_all_for_unlisted_mime
  test_select_mime_drop_rtf_excludes_rtf_from_daemon_fallback
  test_select_mime_rtf_allowed_in_daemon_fallback_when_drop_rtf_disabled
  test_select_mime_drop_rtf_skips_rtf_in_favour_of_other_text
  test_select_mime_empty_offer_list_returns_none
  by code_simp+

section \<open>Reading and normalising\<close>

definition test_read_pipe_payload_within_limit_returns_payload :: bool where
  "test_read_pipe_payload_within_limit_returns_payload \<longleftrightarrow>
     read_pipe_payload [RdData ''hello''] ''text/plain'' 10 = Some ''hello''"

definition test_read_pipe_payload_exactly_at_limit_returns_payload :: bool where
  "test_read_pipe_payload_exactly_at_limit_returns_payload \<longleftrightarrow>
     read_pipe_payload [RdData ''abcde''] ''text/plain'' 5 = Some ''abcde''"

definition test_read_pipe_payload_exceeding_limit_by_one_byte_is_discarded :: bool where
  "test_read_pipe_payload_exceeding_limit_by_one_byte_is_discarded \<longleftrightarrow>
     read_pipe_payload [RdData ''abcdef''] ''text/plain'' 5 = None"

definition test_read_pipe_payload_massively_oversized_stream_is_discarded_not_truncated :: bool where
  "test_read_pipe_payload_massively_oversized_stream_is_discarded_not_truncated \<longleftrightarrow>
     read_pipe_payload [RdData (replicate 1000 CHR ''x'')] ''text/plain'' 5 = None"

definition test_read_pipe_payload_empty_input_returns_none :: bool where
  "test_read_pipe_payload_empty_input_returns_none \<longleftrightarrow> read_pipe_payload [RdData []] ''text/plain'' 10 = None"

definition test_normalise_payload_plain_text_passes_through_unchanged :: bool where
  "test_normalise_payload_plain_text_passes_through_unchanged \<longleftrightarrow>
     normalise_payload id ''text/plain'' ''hello world'' = Some (''text/plain'', ''hello world'')"

definition test_normalise_payload_uri_list_is_normalised :: bool where
  "test_normalise_payload_uri_list_is_normalised \<longleftrightarrow>
     normalise_payload id MIME_URI_LIST (''file:///path/to/a.txt'' @ newline @ ''file:///path/to/b.png'') =
       Some (MIME_URI_LIST, ''/path/to/a.txt'' @ newline @ ''/path/to/b.png'')"

definition test_normalise_payload_uri_list_mime_with_parameters_is_still_recognised :: bool where
  "test_normalise_payload_uri_list_mime_with_parameters_is_still_recognised \<longleftrightarrow>
     normalise_payload id ''TEXT/URI-LIST; charset=UTF-8'' ''file:///a.txt'' = Some (''TEXT/URI-LIST; charset=UTF-8'', ''/a.txt'')"

definition test_normalise_payload_uri_list_with_no_valid_paths_returns_none :: bool where
  "test_normalise_payload_uri_list_with_no_valid_paths_returns_none \<longleftrightarrow>
     normalise_payload id MIME_URI_LIST (''# just a comment'' @ newline @ newline) = None"

definition test_normalise_payload_reidentifies_image_by_magic_bytes :: bool where
  "test_normalise_payload_reidentifies_image_by_magic_bytes \<longleftrightarrow>
     (let png = [CHR 0x89, CHR 0x50, CHR 0x4E, CHR 0x47, CHR 0x0D, CHR 0x0A, CHR 0x1A, CHR 0x0A]
      in normalise_payload id ''application/octet-stream'' png = Some (''image/png'', png))"

definition test_normalise_payload_non_image_non_uri_list_mime_is_untouched :: bool where
  "test_normalise_payload_non_image_non_uri_list_mime_is_untouched \<longleftrightarrow>
     normalise_payload id ''text/markdown'' ''# just text, not uri-list or an image'' =
       Some (''text/markdown'', ''# just text, not uri-list or an image'')"

lemma reading_tests_pass:
  test_read_pipe_payload_within_limit_returns_payload
  test_read_pipe_payload_exactly_at_limit_returns_payload
  test_read_pipe_payload_exceeding_limit_by_one_byte_is_discarded
  test_read_pipe_payload_massively_oversized_stream_is_discarded_not_truncated
  test_read_pipe_payload_empty_input_returns_none
  test_normalise_payload_plain_text_passes_through_unchanged
  test_normalise_payload_uri_list_is_normalised
  test_normalise_payload_uri_list_mime_with_parameters_is_still_recognised
  test_normalise_payload_uri_list_with_no_valid_paths_returns_none
  test_normalise_payload_reidentifies_image_by_magic_bytes
  test_normalise_payload_non_image_non_uri_list_mime_is_untouched
  by code_simp+

section \<open>The reader's hand-off\<close>

definition no_stats :: ingest_stats where "no_stats = \<lparr> shed_readers = 0, shed_queue = 0 \<rparr>"

definition one_permit :: reader_gate where "one_permit = \<lparr> gate_active = 1, gate_limit = 1 \<rparr>"

text \<open>A reader with the gate's one permit, no spooler, and a pipe that holds the bytes and is closed.\<close>

definition sends :: "(nat \<Rightarrow> qevent list) \<Rightarrow> bytes \<Rightarrow> nat \<Rightarrow> queue_world \<Rightarrow> reader_gate \<times> ingest_stats \<times> queue_world" where
  "sends events bs wait w = ingest_and_send id events on_time [RdData bs] ''text/plain'' wait None True one_permit no_stats w"

lemma sends_some:
  "d \<noteq> [] \<Longrightarrow> length d \<le> 20 \<Longrightarrow> detect_image_mime d = None \<Longrightarrow>
   sends events d wait w =
     (case enqueue_bounded events on_time wait (job_new ''text/plain'' d) w of
        (Shed, w') \<Rightarrow> (gate_release one_permit, snd (record_shed_queue no_stats), w')
      | (_, w') \<Rightarrow> (gate_release one_permit, no_stats, w'))"
proof -
  assume d: "d \<noteq> []" "length d \<le> 20" "detect_image_mime d = None"
  have mime: "\<not> mime_base_eq ''text/plain'' MIME_URI_LIST" "route_payload ''text/plain'' None = Inline" by code_simp+
  have "read_bounded [RdData d] MAX_PAYLOAD_BYTES = Inr d"
    using d by (simp add: read_bounded_def sat_add_def u64_max_def const_defs)
  with d mime have "ingest_job id [RdData d] ''text/plain'' None fs = (Some (job_new ''text/plain'' d), fs)" for fs
    by (simp add: ingest_job_def drain_pipe_def read_pipe_payload_def normalise_payload_def ok_opt_def)
  then show ?thesis by (simp add: sends_def ingest_and_send_def Let_def)
qed

lemma hello: "detect_image_mime ''hello'' = None" and newer: "detect_image_mime ''newer'' = None"
  by code_simp+

definition roomy :: nat where "roomy = 1000"

definition test_ingest_and_send_queues_the_normalised_payload_and_releases_the_permit :: bool where
  "test_ingest_and_send_queues_the_normalised_payload_and_releases_the_permit \<longleftrightarrow>
     (case sends idle ''hello'' 0 (queue_of 2 roomy) of
        (gate, stats, w) \<Rightarrow> map (\<lambda>j. (job_mime j, payload_as_bytes (job_payload j))) (qw_jobs w) = [(''text/plain'', Some ''hello'')] \<and>
          shed_queue stats = 0 \<and> gate_active gate = 0)"

definition older :: "queue_world \<Rightarrow> queue_world" where
  "older w = put (job_new ''text/plain'' ''older'') w"

definition queued_bytes :: "queue_world \<Rightarrow> bytes option list" where
  "queued_bytes w = map (\<lambda>j. payload_as_bytes (job_payload j)) (qw_jobs w)"

definition test_ingest_and_send_sheds_the_newest_payload_when_the_queue_stays_full :: bool where
  "test_ingest_and_send_sheds_the_newest_payload_when_the_queue_stays_full \<longleftrightarrow>
     (case sends idle ''newer'' 30 (older (queue_of 1 roomy)) of
        (gate, stats, w) \<Rightarrow> shed_queue stats = 1 \<and> queued_bytes w = [Some ''older''] \<and> gate_active gate = 0) \<and>
     (case sends (during ((30 - 1) div INGEST_ENQUEUE_POLL_MS) [WorkerTakes]) ''newer'' 30 (older (queue_of 1 roomy)) of
        (_, stats, w) \<Rightarrow> shed_queue stats = 0 \<and> queued_bytes w = [Some ''newer''])"

definition test_ingest_and_send_holds_its_permit_while_it_waits_for_queue_room :: bool where
  "test_ingest_and_send_holds_its_permit_while_it_waits_for_queue_room \<longleftrightarrow>
     gate_try_acquire one_permit = None \<and>
     (case sends (during 10 [WorkerTakes]) ''newer'' 10000 (older (queue_of 1 roomy)) of
        (gate, stats, w) \<Rightarrow> queued_bytes w = [Some ''newer''] \<and> shed_queue stats = 0 \<and> gate_active gate = 0)"

definition test_ingest_and_send_with_a_gone_worker_is_not_counted_as_overload :: bool where
  "test_ingest_and_send_with_a_gone_worker_is_not_counted_as_overload \<longleftrightarrow>
     (case sends idle ''hello'' 10000 (gone (queue_of 1 roomy)) of (gate, stats, w) \<Rightarrow> shed_queue stats = 0 \<and> gate_active gate = 0)"

definition test_ingest_and_send_charges_the_queued_payload_to_the_byte_budget_until_the_job_is_dropped :: bool where
  "test_ingest_and_send_charges_the_queued_payload_to_the_byte_budget_until_the_job_is_dropped \<longleftrightarrow>
     (case sends idle ''hello'' 0 (queue_of 2 1024) of
        (_, _, w) \<Rightarrow> used w = 5 \<and> used (apply_events [WorkerTakes, WorkerDrops] w) = 0)"

definition test_ingest_and_send_sheds_a_payload_that_exceeds_the_whole_budget_and_counts_it :: bool where
  "test_ingest_and_send_sheds_a_payload_that_exceeds_the_whole_budget_and_counts_it \<longleftrightarrow>
     (case sends idle ''hello'' 10000 (queue_of 2 4) of (_, stats, w) \<Rightarrow> shed_queue stats = 1 \<and> qw_jobs w = [] \<and> used w = 0)"

definition test_ingest_and_send_sheds_when_the_byte_budget_stays_full :: bool where
  "test_ingest_and_send_sheds_when_the_byte_budget_stays_full \<longleftrightarrow>
     (case sends idle ''hello'' 30 (apply_event (OtherReserves 6) (queue_of 2 8)) of
        (_, stats, w) \<Rightarrow> shed_queue stats = 1 \<and> qw_jobs w = [] \<and> used w = 6)"

lemma hand_off:
  "sends events ''hello'' wait w =
     (case enqueue_bounded events on_time wait (job_new ''text/plain'' ''hello'') w of
        (Shed, w') \<Rightarrow> (gate_release one_permit, snd (record_shed_queue no_stats), w')
      | (_, w') \<Rightarrow> (gate_release one_permit, no_stats, w'))"
  "sends events ''newer'' wait w =
     (case enqueue_bounded events on_time wait (job_new ''text/plain'' ''newer'') w of
        (Shed, w') \<Rightarrow> (gate_release one_permit, snd (record_shed_queue no_stats), w')
      | (_, w') \<Rightarrow> (gate_release one_permit, no_stats, w'))"
  by (rule sends_some; simp add: hello newer)+

lemma hand_off_tests_pass:
  test_ingest_and_send_queues_the_normalised_payload_and_releases_the_permit
  test_ingest_and_send_sheds_the_newest_payload_when_the_queue_stays_full
  test_ingest_and_send_charges_the_queued_payload_to_the_byte_budget_until_the_job_is_dropped
  test_ingest_and_send_sheds_when_the_byte_budget_stays_full
  unfolding test_ingest_and_send_queues_the_normalised_payload_and_releases_the_permit_def
    test_ingest_and_send_sheds_the_newest_payload_when_the_queue_stays_full_def
    test_ingest_and_send_charges_the_queued_payload_to_the_byte_budget_until_the_job_is_dropped_def
    test_ingest_and_send_sheds_when_the_byte_budget_stays_full_def hand_off
  by code_simp+

lemma within_a_tenth_sent:
  "fst (enqueue_bounded (during 10 [WorkerTakes]) on_time 100 (job_new ''text/plain'' ''newer'') (older (queue_of 1 roomy))) \<noteq> Shed"
  "fst (enqueue_bounded idle on_time 100 (job_new ''text/plain'' ''hello'') (gone (queue_of 1 roomy))) \<noteq> Shed"
  by code_simp+

lemma patient_hand_off_tests_pass:
  test_ingest_and_send_holds_its_permit_while_it_waits_for_queue_room
  test_ingest_and_send_with_a_gone_worker_is_not_counted_as_overload
  unfolding test_ingest_and_send_holds_its_permit_while_it_waits_for_queue_room_def
    test_ingest_and_send_with_a_gone_worker_is_not_counted_as_overload_def hand_off
    within_a_tenth_sent [THEN enqueue_bounded_patient, of 10000, simplified]
  by code_simp+

lemma oversized_hand_off_test_passes: test_ingest_and_send_sheds_a_payload_that_exceeds_the_whole_budget_and_counts_it
  by (simp add: test_ingest_and_send_sheds_a_payload_that_exceeds_the_whole_budget_and_counts_it_def hand_off
      enqueue_bounded_def accounted_bytes_def job_new_def payload_len_hint_def queue_of_def u64_max_def drop_job_def permit_bytes_def
      budget_release_def fetch_sub_def payload_drop_def used_def record_shed_queue_def no_stats_def wrap64_def Let_def)

definition test_ingest_and_send_discards_empty_transfers_without_counting_them_as_shed :: bool where
  "test_ingest_and_send_discards_empty_transfers_without_counting_them_as_shed \<longleftrightarrow>
     (case sends idle [] 0 (queue_of 1 roomy) of
        (gate, stats, w) \<Rightarrow> qw_jobs w = [] \<and> shed_queue stats = 0 \<and> gate_active gate = 0)"

lemma empty_transfer_test_passes: test_ingest_and_send_discards_empty_transfers_without_counting_them_as_shed
proof -
  have "route_payload ''text/plain'' None = Inline" by code_simp
  then show ?thesis
    by (simp add: test_ingest_and_send_discards_empty_transfers_without_counting_them_as_shed_def sends_def ingest_and_send_def
        ingest_job_def drain_pipe_def read_pipe_payload_def read_bounded_def sat_add_def u64_max_def const_defs ok_opt_def
        queue_of_def no_stats_def one_permit_def gate_release_def fetch_sub_def)
qed

end
