(* ===== verification/TestsImage.thy ===== *)
theory TestsImage
  imports Route
begin

text \<open>
  The unit tests of \<^verbatim>\<open>image/src/throttle.rs\<close>, \<^verbatim>\<open>image/src/breaker.rs\<close>, \<^verbatim>\<open>image/src/transcode.rs\<close> and \<^verbatim>\<open>image/src/route.rs\<close> that need no converter installed, translated
  assertion by assertion and evaluated on the model. A test that starts at \<^verbatim>\<open>Instant::now()\<close> is a predicate on that instant and holds for every one; a
  \<^verbatim>\<open>sleep\<close> is a later instant. Tests of many threads, of allocations, of poisoned locks and of the real converter have no counterpart here.
\<close>

section \<open>The process throttle\<close>

definition NO_WAIT :: nat where "NO_WAIT = 0"

text \<open>\<open>slots n t\<close>: \<open>n\<close> slots acquired one after another, if all were granted.\<close>

fun slots :: "nat \<Rightarrow> process_throttle \<Rightarrow> process_throttle option" where
  "slots 0 t = Some t"
| "slots (Suc n) t = Option.bind (throttle_acquire t) (slots n)"

definition test_admits_exactly_limit_slots_and_then_refuses :: bool where
  "test_admits_exactly_limit_slots_and_then_refuses \<longleftrightarrow>
     (case slots 2 (throttle_new 2 NO_WAIT) of None \<Rightarrow> False | Some t \<Rightarrow> in_use t = 2 \<and> throttle_acquire t = None)"

definition test_a_limit_of_zero_is_treated_as_one :: bool where
  "test_a_limit_of_zero_is_treated_as_one \<longleftrightarrow>
     (case throttle_acquire (throttle_new 0 NO_WAIT) of None \<Rightarrow> False | Some t \<Rightarrow> throttle_acquire t = None)"

definition test_dropping_a_slot_frees_it_for_reuse :: bool where
  "test_dropping_a_slot_frees_it_for_reuse \<longleftrightarrow>
     (case throttle_acquire (throttle_new 1 NO_WAIT) of
        None \<Rightarrow> False
      | Some t \<Rightarrow> in_use (slot_drop t) = 0 \<and> throttle_acquire (slot_drop t) \<noteq> None)"

text \<open>
  The waiting tests: the thread looks again at the given instants, in milliseconds, and finds the given number of slots taken. Looking at 119 it still
  waits; once the budget is over it gives up; a slot freed at 50 is taken there.
\<close>

definition test_a_saturated_throttle_waits_the_full_budget_before_giving_up :: bool where
  "test_a_saturated_throttle_waits_the_full_budget_before_giving_up \<longleftrightarrow>
     (case throttle_acquire (throttle_new 1 120) of
        None \<Rightarrow> False
      | Some t \<Rightarrow> throttle_acquire_waiting [(119, 1)] t = None \<and> throttle_acquire_waiting [(119, 1), (121, 1)] t = Some None \<and> in_use t = 1)"

definition test_a_waiter_is_woken_as_soon_as_a_slot_frees_up :: bool where
  "test_a_waiter_is_woken_as_soon_as_a_slot_frees_up \<longleftrightarrow>
     (case throttle_acquire (throttle_new 1 30000) of
        None \<Rightarrow> False
      | Some t \<Rightarrow> (case throttle_acquire_waiting [(50, in_use (slot_drop t))] t of
                     Some (Some t') \<Rightarrow> in_use (slot_drop t') = 0
                   | _ \<Rightarrow> False))"

lemma throttle_tests_pass:
  test_admits_exactly_limit_slots_and_then_refuses
  test_a_limit_of_zero_is_treated_as_one
  test_dropping_a_slot_frees_it_for_reuse
  test_a_saturated_throttle_waits_the_full_budget_before_giving_up
  by code_simp+

lemma woken_waiter_test_passes: test_a_waiter_is_woken_as_soon_as_a_slot_frees_up
  by (simp add: test_a_waiter_is_woken_as_soon_as_a_slot_frees_up_def throttle_new_def throttle_acquire_def throttle_acquire_waiting_def
      wait_timeout_while.simps slot_drop_def throttle_release_def)

section \<open>The circuit breaker\<close>

text \<open>Instants and durations in nanoseconds.\<close>

definition COOLDOWN :: nat where "COOLDOWN = 30 * 10 ^ 9"

definition breaker :: circuit_breaker where "breaker = breaker_new 3 COOLDOWN"

fun fail_n :: "circuit_breaker \<Rightarrow> nat \<Rightarrow> nat \<Rightarrow> bool \<Rightarrow> bool \<times> circuit_breaker" where
  "fail_n b 0 now tripped = (tripped, b)"
| "fail_n b (Suc n) now tripped =
     (case acquire_at now b of
        (Some p, b') \<Rightarrow> (case permit_failure_at p now b' of (tripped', b'') \<Rightarrow> fail_n b'' n now tripped')
      | (None, b') \<Rightarrow> (tripped, b'))"

definition failed_n :: "circuit_breaker \<Rightarrow> nat \<Rightarrow> nat \<Rightarrow> circuit_breaker" where
  "failed_n b n now = snd (fail_n b n now False)"

text \<open>\<open>with_permit now b f\<close>: a test's \<^verbatim>\<open>acquire_at(now).unwrap()\<close>.\<close>

definition with_permit :: "nat \<Rightarrow> circuit_breaker \<Rightarrow> (permit \<Rightarrow> circuit_breaker \<Rightarrow> bool) \<Rightarrow> bool" where
  "with_permit now b f = (case acquire_at now b of (Some p, b') \<Rightarrow> f p b' | (None, _) \<Rightarrow> False)"

definition refuses :: "nat \<Rightarrow> circuit_breaker \<Rightarrow> bool" where
  "refuses now b \<longleftrightarrow> fst (acquire_at now b) = None"

definition test_starts_closed_and_admits_regular_attempts :: "nat \<Rightarrow> bool" where
  "test_starts_closed_and_admits_regular_attempts now \<longleftrightarrow>
     breaker_state_of breaker = SClosed \<and> with_permit now breaker (\<lambda>p b. \<not> pm_canary p)"

definition test_trips_open_exactly_at_the_threshold :: "nat \<Rightarrow> bool" where
  "test_trips_open_exactly_at_the_threshold t0 \<longleftrightarrow>
     (case fail_n breaker 2 t0 False of
        (tripped, b) \<Rightarrow> \<not> tripped \<and> breaker_state_of b = SClosed \<and>
          (case fail_n b 1 t0 False of (tripped, b) \<Rightarrow> tripped \<and> breaker_state_of b = SOpen))"

definition test_open_rejects_everything_until_the_cooldown_has_elapsed :: "nat \<Rightarrow> bool" where
  "test_open_rejects_everything_until_the_cooldown_has_elapsed t0 \<longleftrightarrow>
     (let b = failed_n breaker 3 t0 in refuses t0 b \<and> refuses (t0 + COOLDOWN - 1) b \<and> breaker_state_of b = SOpen)"

definition test_after_the_cooldown_exactly_one_canary_is_admitted :: "nat \<Rightarrow> bool" where
  "test_after_the_cooldown_exactly_one_canary_is_admitted t0 \<longleftrightarrow>
     (let later = t0 + COOLDOWN
      in with_permit later (failed_n breaker 3 t0)
           (\<lambda>canary b. pm_canary canary \<and> breaker_state_of b = SHalfOpen \<and> refuses later b \<and> refuses (later + COOLDOWN) b))"

definition test_canary_success_closes_the_circuit_and_resets_the_failure_count :: "nat \<Rightarrow> bool" where
  "test_canary_success_closes_the_circuit_and_resets_the_failure_count t0 \<longleftrightarrow>
     (let later = t0 + COOLDOWN
      in with_permit later (failed_n breaker 3 t0) (\<lambda>p b.
           case permit_success p later b of
             (recovered, b) \<Rightarrow> recovered \<and> breaker_state_of b = SClosed \<and>
               (case fail_n b 2 later False of
                  (tripped, b) \<Rightarrow> \<not> tripped \<and> breaker_state_of b = SClosed \<and> fst (fail_n b 1 later False))))"

definition test_canary_failure_reopens_for_a_fresh_full_cooldown :: "nat \<Rightarrow> bool" where
  "test_canary_failure_reopens_for_a_fresh_full_cooldown t0 \<longleftrightarrow>
     (let t1 = t0 + COOLDOWN
      in with_permit t1 (failed_n breaker 3 t0) (\<lambda>p b.
           case permit_failure_at p t1 b of
             (tripped, b) \<Rightarrow> tripped \<and> breaker_state_of b = SOpen \<and> refuses (t1 + COOLDOWN - 1) b \<and>
               with_permit (t1 + COOLDOWN) b (\<lambda>p b. pm_canary p)))"

definition test_a_success_between_failures_resets_the_consecutive_count :: "nat \<Rightarrow> bool" where
  "test_a_success_between_failures_resets_the_consecutive_count t0 \<longleftrightarrow>
     with_permit t0 (failed_n breaker 2 t0) (\<lambda>p b.
       case permit_success p t0 b of (recovered, b) \<Rightarrow> \<not> recovered \<and> breaker_state_of (failed_n b 2 t0) = SClosed)"

definition released :: "nat \<Rightarrow> circuit_breaker \<Rightarrow> circuit_breaker" where
  "released now b = (case acquire_at now b of (Some p, b') \<Rightarrow> permit_release p now b' | (None, b') \<Rightarrow> b')"

definition test_neutral_releases_never_change_the_failure_count :: "nat \<Rightarrow> bool" where
  "test_neutral_releases_never_change_the_failure_count t0 \<longleftrightarrow>
     (let b = ((released t0) ^^ 10) (failed_n breaker 2 t0)
      in breaker_state_of b = SClosed \<and> fst (fail_n b 1 t0 False))"

definition test_releasing_the_canary_frees_the_probe_slot_without_a_new_cooldown :: "nat \<Rightarrow> bool" where
  "test_releasing_the_canary_frees_the_probe_slot_without_a_new_cooldown t0 \<longleftrightarrow>
     (let later = t0 + COOLDOWN; b = released later (failed_n breaker 3 t0)
      in breaker_state_of b = SHalfOpen \<and> with_permit later b (\<lambda>p b. pm_canary p))"

definition test_an_unresolved_permit_counts_as_a_failure :: "nat \<Rightarrow> bool" where
  "test_an_unresolved_permit_counts_as_a_failure now \<longleftrightarrow>
     with_permit now (breaker_new 1 COOLDOWN) (\<lambda>p b. breaker_state_of (permit_drop p now b) = SOpen)"

definition test_an_abandoned_canary_cannot_wedge_the_breaker_half_open :: "nat \<Rightarrow> bool" where
  "test_an_abandoned_canary_cannot_wedge_the_breaker_half_open t0 \<longleftrightarrow>
     with_permit (t0 + COOLDOWN) (failed_n breaker 3 t0) (\<lambda>p b. breaker_state_of (permit_drop p (t0 + COOLDOWN) b) = SOpen)"

definition test_a_late_report_from_before_the_trip_is_ignored :: "nat \<Rightarrow> bool" where
  "test_a_late_report_from_before_the_trip_is_ignored t0 \<longleftrightarrow>
     with_permit t0 breaker (\<lambda>stale b.
       let b = failed_n b 3 t0
       in breaker_state_of b = SOpen \<and>
          (case permit_success stale t0 b of (recovered, b) \<Rightarrow> \<not> recovered \<and> breaker_state_of b = SOpen))"

definition test_zero_threshold_is_treated_as_one :: "nat \<Rightarrow> bool" where
  "test_zero_threshold_is_treated_as_one now \<longleftrightarrow>
     with_permit now (breaker_new 0 COOLDOWN) (\<lambda>p b.
       case permit_failure p now b of (tripped, b) \<Rightarrow> tripped \<and> breaker_state_of b = SOpen)"

definition test_permit_resolve_dispatches_outcomes :: "nat \<Rightarrow> bool" where
  "test_permit_resolve_dispatches_outcomes now \<longleftrightarrow>
     with_permit now breaker (\<lambda>p b. case permit_resolve p PSuccess now b of ((tripped, recovered), b) \<Rightarrow>
       \<not> tripped \<and> \<not> recovered \<and> breaker_state_of b = SClosed \<and>
       with_permit now b (\<lambda>p b. case permit_resolve p PFailure now b of ((tripped, _), b) \<Rightarrow> \<not> tripped \<and>
       with_permit now b (\<lambda>p b. case permit_resolve p PFailure now b of ((tripped, _), b) \<Rightarrow> \<not> tripped \<and>
       with_permit now b (\<lambda>p b. case permit_resolve p PFailure now b of ((tripped, _), b) \<Rightarrow>
         tripped \<and> breaker_state_of b = SOpen))))"

lemmas breaker_eval = breaker_def breaker_new_def failed_n_def with_permit_def refuses_def released_def
  breaker_state_of_def acquire_at_def permit_new_def permit_success_def permit_failure_def permit_failure_at_def permit_release_def
  permit_resolve_def resolve_at_def permit_drop_def breaker_resolve_def numeral_2_eq_2 numeral_3_eq_3

lemma one_short_of_the_cooldown: "\<not> t + COOLDOWN \<le> t + COOLDOWN - Suc 0"
  and COOLDOWN_positive: "0 < COOLDOWN"
  by (simp_all add: COOLDOWN_def)

lemma three_fits: "Suc 0 \<le> u32_max" "Suc (Suc (Suc 0)) \<le> u32_max"
  by (simp_all add: u32_max_def)

lemma released_closed: "br_inner b = BClosed k \<Longrightarrow> (released now ^^ n) b = b"
  by (induction n) (simp_all add: released_def acquire_at_def permit_release_def permit_new_def breaker_resolve_def)

lemma breaker_tests_pass:
  "test_starts_closed_and_admits_regular_attempts now"
  "test_trips_open_exactly_at_the_threshold now"
  "test_open_rejects_everything_until_the_cooldown_has_elapsed now"
  "test_after_the_cooldown_exactly_one_canary_is_admitted now"
  "test_canary_success_closes_the_circuit_and_resets_the_failure_count now"
  "test_canary_failure_reopens_for_a_fresh_full_cooldown now"
  "test_a_success_between_failures_resets_the_consecutive_count now"
  "test_neutral_releases_never_change_the_failure_count now"
  "test_releasing_the_canary_frees_the_probe_slot_without_a_new_cooldown now"
  "test_an_unresolved_permit_counts_as_a_failure now"
  "test_an_abandoned_canary_cannot_wedge_the_breaker_half_open now"
  "test_a_late_report_from_before_the_trip_is_ignored now"
  "test_zero_threshold_is_treated_as_one now"
  "test_permit_resolve_dispatches_outcomes now"
  by (simp_all add: released_closed one_short_of_the_cooldown COOLDOWN_positive three_fits breaker_eval Let_def
      test_starts_closed_and_admits_regular_attempts_def
      test_trips_open_exactly_at_the_threshold_def
      test_open_rejects_everything_until_the_cooldown_has_elapsed_def
      test_after_the_cooldown_exactly_one_canary_is_admitted_def
      test_canary_success_closes_the_circuit_and_resets_the_failure_count_def
      test_canary_failure_reopens_for_a_fresh_full_cooldown_def
      test_a_success_between_failures_resets_the_consecutive_count_def
      test_neutral_releases_never_change_the_failure_count_def
      test_releasing_the_canary_frees_the_probe_slot_without_a_new_cooldown_def
      test_an_unresolved_permit_counts_as_a_failure_def
      test_an_abandoned_canary_cannot_wedge_the_breaker_half_open_def
      test_a_late_report_from_before_the_trip_is_ignored_def
      test_zero_threshold_is_treated_as_one_def
      test_permit_resolve_dispatches_outcomes_def)

section \<open>The argument vector\<close>

definition lossy :: "nat \<Rightarrow> output_format" where "lossy q = WebpLossy (quality_new q)"

definition ALL_INPUTS :: "input_format list" where "ALL_INPUTS = [Png, Jpeg, Gif, Webp, Bmp]"

definition all_jobs :: "transcode list" where
  "all_jobs = concat (map (\<lambda>i. map (\<lambda>out. \<lparr> tc_input = i, tc_output = out \<rparr>) [OutPng, WebpLossless, lossy 1, lossy 90, lossy 100]) ALL_INPUTS)"

definition args_of :: "input_format \<Rightarrow> output_format \<Rightarrow> string list" where
  "args_of i out = transcode_args \<lparr> tc_input = i, tc_output = out \<rparr>"

fun index_in :: "'a \<Rightarrow> 'a list \<Rightarrow> nat" where
  "index_in x [] = 0"
| "index_in x (y # ys) = (if y = x then 0 else Suc (index_in x ys))"

fun adjacent :: "'a \<Rightarrow> 'a \<Rightarrow> 'a list \<Rightarrow> bool" where
  "adjacent x y (a # b # xs) \<longleftrightarrow> (a = x \<and> b = y) \<or> adjacent x y (b # xs)"
| "adjacent x y _ \<longleftrightarrow> False"

definition test_the_capacity_hint_equals_the_longest_vector_so_construction_never_reallocates :: bool where
  "test_the_capacity_hint_equals_the_longest_vector_so_construction_never_reallocates \<longleftrightarrow>
     fold max (map (\<lambda>job. length (transcode_args job)) all_jobs) 0 = ARGS_CAPACITY"

definition test_the_internal_time_limit_is_shorter_than_the_outer_watchdog :: bool where
  "test_the_internal_time_limit_is_shorter_than_the_outer_watchdog \<longleftrightarrow>
     (let internal = parse_secs IMAGE_LIMIT_TIME_SECS; args = args_of Png OutPng; at = index_in ''time'' args
      in 1 \<le> internal \<and> internal < IMAGE_TRANSCODE_TIMEOUT_SECS \<and> at < length args \<and>
         args ! (at - 1) = ''-limit'' \<and> args ! (at + 1) = show_nat internal)"

definition test_the_png_compression_argument_names_a_valid_zlib_level :: bool where
  "test_the_png_compression_argument_names_a_valid_zlib_level \<longleftrightarrow>
     take 22 PNG_COMPRESSION_ARG = ''png:compression-level='' \<and>
     (case parse_unsigned 255 (drop 22 PNG_COMPRESSION_ARG) of None \<Rightarrow> False | Some n \<Rightarrow> 1 \<le> n \<and> n \<le> 9)"

definition test_the_spelled_out_lossless_quality_matches_the_constant :: bool where
  "test_the_spelled_out_lossless_quality_matches_the_constant \<longleftrightarrow> LOSSLESS_QUALITY_ARG = show_nat IMAGE_QUALITY_MAX"

definition test_every_pinned_input_names_its_own_coder_and_selects_the_first_frame :: bool where
  "test_every_pinned_input_names_its_own_coder_and_selects_the_first_frame \<longleftrightarrow>
     list_all (\<lambda>(i, token). pinned_input i = token \<and> List.member (args_of i OutPng) token)
       [(Png, ''png:-[0]''), (Jpeg, ''jpeg:-[0]''), (Gif, ''gif:-[0]''), (Webp, ''webp:-[0]''), (Bmp, ''bmp:-[0]'')]"

definition test_args_apply_limits_before_the_pinned_input_then_strip_then_encode :: bool where
  "test_args_apply_limits_before_the_pinned_input_then_strip_then_encode \<longleftrightarrow>
     (let args = args_of Jpeg (lossy 70); pos = (\<lambda>needle. index_in needle args)
      in list_all (\<lambda>name. pos name < length args \<and> args ! (pos name - 1) = ''-limit'' \<and> pos name < pos ''jpeg:-[0]'')
           [''width'', ''height'', ''memory'', ''map'', ''disk'', ''time''] \<and>
         pos ''jpeg:-[0]'' < pos ''-auto-orient'' \<and> pos ''-auto-orient'' < pos ''-strip'' \<and>
         pos ''-strip'' < pos ''webp:lossless=false'' \<and> pos ''webp:lossless=false'' < length args \<and>
         last args = ''webp:-'' \<and> args ! (pos ''-quality'' + 1) = ''70'')"

definition test_args_for_png_output_pin_no_webp_settings :: bool where
  "test_args_for_png_output_pin_no_webp_settings \<longleftrightarrow>
     (let args = args_of Png OutPng
      in last args = ''png:-'' \<and> list_all (\<lambda>a. \<not> contains_str a ''webp'') args \<and> List.member args ''-strip'')"

definition test_png_output_selects_the_fast_zlib_level_and_no_quality_flag :: bool where
  "test_png_output_selects_the_fast_zlib_level_and_no_quality_flag \<longleftrightarrow>
     list_all (\<lambda>i. let args = args_of i OutPng
       in adjacent ''-define'' ''png:compression-level=1'' args \<and> \<not> List.member args ''-quality'' \<and>
          \<not> List.member args ''png:compression-level=9'') ALL_INPUTS"

definition test_lossless_webp_args_ignore_quality_and_pin_the_exact_setting :: bool where
  "test_lossless_webp_args_ignore_quality_and_pin_the_exact_setting \<longleftrightarrow>
     (let args = args_of Png WebpLossless
      in adjacent ''-define'' ''webp:lossless=true'' args \<and> adjacent ''-quality'' ''100'' args \<and> last args = ''webp:-'')"

definition test_quality_is_clamped_into_range_at_both_ends :: bool where
  "test_quality_is_clamped_into_range_at_both_ends \<longleftrightarrow>
     q_raw (quality_new 0) = IMAGE_QUALITY_MIN \<and> q_raw (quality_new 1) = 1 \<and> q_raw (quality_new 100) = 100 \<and>
     q_raw (quality_new 101) = IMAGE_QUALITY_MAX \<and> q_raw (quality_new 255) = IMAGE_QUALITY_MAX \<and>
     q_raw quality_default = IMAGE_QUALITY_DEFAULT"

definition test_extreme_quality_values_reach_magick_already_clamped :: bool where
  "test_extreme_quality_values_reach_magick_already_clamped \<longleftrightarrow>
     adjacent ''-quality'' ''1'' (args_of Png (lossy 0)) \<and> adjacent ''-quality'' ''100'' (args_of Png (lossy 255))"

definition test_from_mime_ignores_case_and_parameters_and_rejects_vector_formats :: bool where
  "test_from_mime_ignores_case_and_parameters_and_rejects_vector_formats \<longleftrightarrow>
     from_mime ''image/png'' = Some Png \<and> from_mime ''IMAGE/JPEG; q=1'' = Some Jpeg \<and> from_mime ''image/jpg'' = Some Jpeg \<and>
     from_mime ''image/x-ms-bmp'' = Some Bmp \<and> from_mime ''image/svg+xml'' = None \<and> from_mime ''application/pdf'' = None \<and>
     from_mime ''text/plain'' = None \<and> from_mime [] = None"

definition svg_document :: bytes where
  "svg_document = ''<svg xmlns='' @ [CHR 0x22] @ ''http://www.w3.org/2000/svg'' @ [CHR 0x22] @ ''/>''"

definition test_sniff_trusts_bytes_and_refuses_svg_and_junk :: bool where
  "test_sniff_trusts_bytes_and_refuses_svg_and_junk \<longleftrightarrow>
     sniff [CHR 0x89, CHR 0x50, CHR 0x4E, CHR 0x47, CHR 0x0D, CHR 0x0A] = Some Png \<and>
     sniff [CHR 0xFF, CHR 0xD8, CHR 0xFF, CHR 0xE0] = Some Jpeg \<and>
     sniff svg_document = None \<and> sniff ''plain text'' = None \<and> sniff [] = None"

definition test_output_mime_matches_the_encoding :: bool where
  "test_output_mime_matches_the_encoding \<longleftrightarrow> output_mime OutPng = ''image/png'' \<and> output_mime WebpLossless = ''image/webp''"

lemma transcode_tests_pass:
  test_the_capacity_hint_equals_the_longest_vector_so_construction_never_reallocates
  test_the_internal_time_limit_is_shorter_than_the_outer_watchdog
  test_the_png_compression_argument_names_a_valid_zlib_level
  test_the_spelled_out_lossless_quality_matches_the_constant
  test_every_pinned_input_names_its_own_coder_and_selects_the_first_frame
  test_args_apply_limits_before_the_pinned_input_then_strip_then_encode
  test_args_for_png_output_pin_no_webp_settings
  test_png_output_selects_the_fast_zlib_level_and_no_quality_flag
  test_lossless_webp_args_ignore_quality_and_pin_the_exact_setting
  test_quality_is_clamped_into_range_at_both_ends
  test_extreme_quality_values_reach_magick_already_clamped
  test_from_mime_ignores_case_and_parameters_and_rejects_vector_formats
  test_sniff_trusts_bytes_and_refuses_svg_and_junk
  test_output_mime_matches_the_encoding
  by code_simp+

text \<open>The parser of the time limit; two of the expected values are too large to be counted up to.\<close>

definition test_the_seconds_parser_accepts_plain_numbers_and_rejects_everything_else :: bool where
  "test_the_seconds_parser_accepts_plain_numbers_and_rejects_everything_else \<longleftrightarrow>
     parse_secs ''10'' = 10 \<and> parse_secs ''0'' = 0 \<and> parse_secs ''007'' = 7 \<and>
     list_all (\<lambda>bad. parse_secs bad = u64_max) [[], ''ten'', ''10s'', ''-1'', ''1.5'', '' 10'', ''1e3''] \<and>
     parse_secs ''99999999999999999999999'' = u64_max"

lemma parse_secs_test_passes: test_the_seconds_parser_accepts_plain_numbers_and_rejects_everything_else
  by (simp add: test_the_seconds_parser_accepts_plain_numbers_and_rejects_everything_else_def parse_secs_def is_digit_def byte_val_def
      sat_add_def u64_max_def)

end
