(* ===== verification/TestsRoute.thy ===== *)
theory TestsRoute
  imports TestsImage
begin

text \<open>
  The unit tests of \<^verbatim>\<open>image/src/route.rs\<close> that need neither the real converter nor a second thread, with their recording converter: it notes the job it was
  called with and answers with the reply it was made for. Instants are those of the breaker's clock, in milliseconds where a test sleeps and in
  seconds elsewhere; what a test does without sleeping happens at one instant.
\<close>

section \<open>Fixtures\<close>

definition png_signature :: bytes where
  "png_signature = [CHR 0x89, CHR ''P'', CHR ''N'', CHR ''G'', CHR 0x0D, CHR 0x0A, CHR 0x1A, CHR 0x0A]"

definition fake_png :: bytes where "fake_png = png_signature @ ''payload''"

definition fake_webp :: bytes where "fake_webp = ''RIFF'' @ replicate 4 CHR 0x00 @ ''WEBP'' @ ''payload''"

definition fake_animated_webp :: bytes where
  "fake_animated_webp =
     ''RIFF'' @ replicate 4 CHR 0x00 @ ''WEBP'' @ ''VP8X'' @ replicate 4 CHR 0x00 @ [CHR 0x02] @ replicate 3 CHR 0x00 @ ''extra_frame_data''"

definition png_header :: bytes where "png_header = png_signature @ [CHR 0x01, CHR 0x02, CHR 0x03]"

definition jpeg_header :: bytes where "jpeg_header = [CHR 0xFF, CHR 0xD8, CHR 0xFF, CHR 0xE0, CHR 0x00, CHR 0x10]"

definition fresh_breaker :: circuit_breaker where "fresh_breaker = breaker_new 3 30"

text \<open>A single counted failure opens it.\<close>

definition strict_breaker :: circuit_breaker where "strict_breaker = breaker_new 1 30"

definition roomy_throttle :: process_throttle where "roomy_throttle = throttle_new 64 30"

definition other :: io_error where "other = OtherError ''x''"

definition failed :: pipeline_error where "failed = EFailed (Some 1) ''boom''"

type_synonym reply = "pipeline_error + bytes"

text \<open>The answer of a routing with what the converter was called with, and the guards it left.\<close>

type_synonym routed = "((string \<times> bytes) \<times> transcode option) \<times> guards"

definition route_through_at :: "nat \<Rightarrow> guards \<Rightarrow> string \<Rightarrow> bytes \<Rightarrow> reply \<Rightarrow> routed" where
  "route_through_at now g mime payload reply =
     (case route_with alone now now
             (\<lambda>job _ _. ((case reply of Inl e \<Rightarrow> (Inl e, []) | Inr bytes \<Rightarrow> (Inr \<lparr> bytes_in = 0, bytes_out = length bytes \<rparr>, bytes)), Some job))
             mime payload g None of
        (out, g', called) \<Rightarrow> ((out, called), g'))"

definition route_through :: "circuit_breaker \<Rightarrow> process_throttle \<Rightarrow> string \<Rightarrow> bytes \<Rightarrow> reply \<Rightarrow> routed" where
  "route_through b t mime payload reply = route_through_at 0 \<lparr> gd_breaker = b, gd_throttle = t \<rparr> mime payload reply"

definition route_recording :: "string \<Rightarrow> bytes \<Rightarrow> reply \<Rightarrow> (string \<times> bytes) \<times> transcode option" where
  "route_recording mime payload reply = fst (route_through fresh_breaker roomy_throttle mime payload reply)"

text \<open>\<open>after\<close> is the breaker once the routing is over.\<close>

definition after_at :: "nat \<Rightarrow> string \<Rightarrow> bytes \<Rightarrow> reply \<Rightarrow> circuit_breaker \<Rightarrow> circuit_breaker" where
  "after_at now mime payload reply b =
     gd_breaker (snd (route_through_at now \<lparr> gd_breaker = b, gd_throttle = roomy_throttle \<rparr> mime payload reply))"

abbreviation after :: "string \<Rightarrow> bytes \<Rightarrow> reply \<Rightarrow> circuit_breaker \<Rightarrow> circuit_breaker" where
  "after \<equiv> after_at 0"

definition after_failure :: "circuit_breaker \<Rightarrow> circuit_breaker" where
  "after_failure = after ''image/png'' png_header (Inl failed)"

definition route_on_at :: "nat \<Rightarrow> circuit_breaker \<Rightarrow> string \<Rightarrow> bytes \<Rightarrow> reply \<Rightarrow> (string \<times> bytes) \<times> transcode option" where
  "route_on_at now b mime payload reply =
     fst (route_through_at now \<lparr> gd_breaker = b, gd_throttle = roomy_throttle \<rparr> mime payload reply)"

definition untouched :: "(string \<times> bytes) \<times> transcode option \<Rightarrow> string \<times> bytes \<Rightarrow> bool" where
  "untouched r original \<longleftrightarrow> r = (original, None)"

section \<open>Bypass\<close>

definition japanese :: bytes where
  "japanese = [CHR 0xE6, CHR 0x97, CHR 0xA5, CHR 0xE6, CHR 0x9C, CHR 0xAC, CHR 0xE8, CHR 0xAA, CHR 0x9E, CHR 0xE3, CHR 0x81, CHR 0xAE,
     CHR 0xE3, CHR 0x83, CHR 0x86, CHR 0xE3, CHR 0x82, CHR 0xAD, CHR 0xE3, CHR 0x82, CHR 0xB9, CHR 0xE3, CHR 0x83, CHR 0x88]"

definition small_bytes :: "nat \<Rightarrow> nat \<Rightarrow> bytes" where "small_bytes i j = map char_of [i ..< j]"

definition test_non_raster_payloads_bypass_without_invoking_the_converter :: bool where
  "test_non_raster_payloads_bypass_without_invoking_the_converter \<longleftrightarrow>
     list_all (\<lambda>(mime, payload). untouched (route_recording mime payload (Inr fake_png)) (mime, payload))
       [(''text/plain'', ''hello world''), (''text/plain;charset=utf-8'', japanese), (''text/html'', ''<p>hi</p>''),
        (''text/uri-list'', ''/home/user/a.png''), (''application/json'', ''{'' @ [CHR 0x22] @ ''a'' @ [CHR 0x22] @ '':1}''),
        (''application/octet-stream'', small_bytes 0 6), (''image/svg+xml'', svg_document),
        (''image/svg+xml'', ''<?xml version='' @ [CHR 0x22] @ ''1.0'' @ [CHR 0x22] @ ''?><svg/>''), (''image/png'', svg_document)]"

definition test_avif_is_recognised_as_unsupported_and_bypassed :: bool where
  "test_avif_is_recognised_as_unsupported_and_bypassed \<longleftrightarrow>
     (let avif = [CHR 0x00, CHR 0x00, CHR 0x00, CHR 0x20] @ ''ftypavif'' @ replicate 16 CHR 0x00
      in untouched (route_recording ''image/avif'' avif (Inr fake_png)) (''image/avif'', avif))"

definition test_wants_transcode_agrees_with_route_with_on_every_kind_of_payload :: bool where
  "test_wants_transcode_agrees_with_route_with_on_every_kind_of_payload \<longleftrightarrow>
     list_all (\<lambda>(mime, payload). wants_transcode mime payload = (snd (route_recording mime payload (Inr fake_png)) \<noteq> None))
       [(''image/png'', fake_png), (''image/jpeg'', [CHR 0xFF, CHR 0xD8, CHR 0xFF, CHR 0xE0] @ small_bytes 1 9), (''image/webp'', fake_webp),
        (''image/webp'', fake_animated_webp), (''image/gif'', ''GIF89aframes''), (''image/svg+xml'', svg_document), (''image/png'', svg_document),
        (''image/bmp'', ''BM not detectable by signature''), (''application/octet-stream'', small_bytes 1 13),
        (''application/pdf'', ''%PDF-1.7 body''), (''text/plain'', ''plain'')]"

definition test_wants_transcode_needs_only_the_leading_bytes_and_never_panics_on_short_ones :: bool where
  "test_wants_transcode_needs_only_the_leading_bytes_and_never_panics_on_short_ones \<longleftrightarrow>
     wants_transcode ''application/octet-stream'' (take SNIFF_HEAD_BYTES (fake_png @ replicate 10000 CHR 0x00)) \<and>
     \<not> wants_transcode ''image/png'' []"

definition gif_pixel :: bytes where
  "gif_pixel = ''GIF89a'' @ [CHR 0x01, CHR 0x00, CHR 0x01, CHR 0x00, CHR 0x00, CHR 0x00, CHR 0x00] @ '';''"

definition test_gif_is_left_untouched_by_policy_so_its_animation_survives :: bool where
  "test_gif_is_left_untouched_by_policy_so_its_animation_survives \<longleftrightarrow>
     untouched (route_recording ''image/gif'' gif_pixel (Inr fake_png)) (''image/gif'', gif_pixel)"

definition test_animated_webp_is_left_untouched_by_policy_so_its_animation_survives :: bool where
  "test_animated_webp_is_left_untouched_by_policy_so_its_animation_survives \<longleftrightarrow>
     untouched (route_recording ''image/webp'' fake_animated_webp (Inr fake_png)) (''image/webp'', fake_animated_webp)"

definition test_empty_payload_bypasses_even_when_labelled_as_a_raster_image :: bool where
  "test_empty_payload_bypasses_even_when_labelled_as_a_raster_image \<longleftrightarrow>
     untouched (route_recording ''image/png'' [] (Inr fake_png)) (''image/png'', [])"

lemma bypass_tests_pass:
  test_non_raster_payloads_bypass_without_invoking_the_converter
  test_avif_is_recognised_as_unsupported_and_bypassed
  test_wants_transcode_agrees_with_route_with_on_every_kind_of_payload
  test_gif_is_left_untouched_by_policy_so_its_animation_survives
  test_animated_webp_is_left_untouched_by_policy_so_its_animation_survives
  test_empty_payload_bypasses_even_when_labelled_as_a_raster_image
  by code_simp+

lemma leading_bytes_test_passes: test_wants_transcode_needs_only_the_leading_bytes_and_never_panics_on_short_ones
proof -
  have "take SNIFF_HEAD_BYTES (fake_png @ replicate 10000 CHR 0x00) = fake_png @ replicate 497 CHR 0x00"
    by (simp add: fake_png_def png_signature_def SNIFF_HEAD_BYTES_def)
  moreover have "wants_transcode ''application/octet-stream'' (fake_png @ replicate 497 CHR 0x00)"
    by code_simp
  ultimately show ?thesis
    by (simp add: test_wants_transcode_needs_only_the_leading_bytes_and_never_panics_on_short_ones_def wants_transcode_def plan_def)
qed

section \<open>Policy and fallback\<close>

definition converted_from :: "input_format \<Rightarrow> (string \<times> bytes) \<times> transcode option \<Rightarrow> bool" where
  "converted_from input r \<longleftrightarrow> r = ((''image/png'', fake_png), Some \<lparr> tc_input = input, tc_output = OutPng \<rparr>)"

definition test_png_is_routed_to_png_and_the_bytes_are_replaced :: bool where
  "test_png_is_routed_to_png_and_the_bytes_are_replaced \<longleftrightarrow> converted_from Png (route_recording ''image/png'' png_header (Inr fake_png))"

definition test_jpeg_is_routed_to_lossless_png :: bool where
  "test_jpeg_is_routed_to_lossless_png \<longleftrightarrow> converted_from Jpeg (route_recording ''image/jpeg'' jpeg_header (Inr fake_png))"

definition test_webp_is_routed_to_lossless_png_so_that_it_can_be_pasted :: bool where
  "test_webp_is_routed_to_lossless_png_so_that_it_can_be_pasted \<longleftrightarrow>
     converted_from Webp (route_recording ''image/webp'' (fake_webp @ replicate 16 CHR 0x00) (Inr fake_png))"

definition test_bmp_without_a_signature_is_routed_by_its_declared_mime :: bool where
  "test_bmp_without_a_signature_is_routed_by_its_declared_mime \<longleftrightarrow>
     converted_from Bmp (route_recording ''image/bmp'' (''BM'' @ [CHR 0x36, CHR 0x00, CHR 0x00, CHR 0x00]) (Inr fake_png))"

definition test_every_raster_input_but_gif_targets_png_and_never_webp :: bool where
  "test_every_raster_input_but_gif_targets_png_and_never_webp \<longleftrightarrow>
     list_all (\<lambda>(input, expected). ingest_target input = expected)
       [(Png, Some OutPng), (Bmp, Some OutPng), (Jpeg, Some OutPng), (Webp, Some OutPng), (Gif, None)]"

definition test_recognised_bytes_outrank_a_wrong_label :: bool where
  "test_recognised_bytes_outrank_a_wrong_label \<longleftrightarrow>
     map_option tc_input (snd (route_recording ''image/png'' jpeg_header (Inr fake_png))) = Some Jpeg"

definition test_every_converter_failure_falls_back_to_the_original :: bool where
  "test_every_converter_failure_falls_back_to_the_original \<longleftrightarrow>
     (let original = png_signature @ replicate 3 CHR 0x09
      in list_all (\<lambda>reply. case route_recording ''image/png'' original reply of (r, called) \<Rightarrow> called \<noteq> None \<and> r = (''image/png'', original))
           [Inl (ESpawn NotFound), Inl failed, Inl (ESource other), Inl (ESink other), Inl (EChild other), Inr [],
            Inr ''not an image at all'', Inr fake_webp])"

lemma policy_tests_pass:
  test_png_is_routed_to_png_and_the_bytes_are_replaced
  test_jpeg_is_routed_to_lossless_png
  test_webp_is_routed_to_lossless_png_so_that_it_can_be_pasted
  test_bmp_without_a_signature_is_routed_by_its_declared_mime
  test_every_raster_input_but_gif_targets_png_and_never_webp
  test_recognised_bytes_outrank_a_wrong_label
  test_every_converter_failure_falls_back_to_the_original
  by code_simp+

section \<open>Behind the breaker\<close>

definition kept_png :: "(string \<times> bytes) \<times> transcode option \<Rightarrow> bool" where
  "kept_png r \<longleftrightarrow> fst r = (''image/png'', png_header)"

definition route_png :: "nat \<Rightarrow> circuit_breaker \<Rightarrow> reply \<Rightarrow> (string \<times> bytes) \<times> transcode option" where
  "route_png now b reply = route_on_at now b ''image/png'' png_header reply"

definition after_image :: "nat \<Rightarrow> reply \<Rightarrow> circuit_breaker \<Rightarrow> circuit_breaker" where
  "after_image now reply b = after_at now ''image/png'' png_header reply b"

text \<open>\<^verbatim>\<open>trip\<close>: three failures, each attempted, each keeping the original; the breaker they leave.\<close>

definition tripped :: "circuit_breaker \<Rightarrow> circuit_breaker" where
  "tripped = after_failure ^^ 3"

definition trips :: "circuit_breaker \<Rightarrow> bool" where
  "trips b \<longleftrightarrow>
     list_all (\<lambda>n. let r = route_png 0 ((after_failure ^^ n) b) (Inl failed) in snd r \<noteq> None \<and> kept_png r) [0, 1, 2] \<and>
     breaker_state_of (tripped b) = SOpen"

definition test_three_consecutive_failures_open_the_circuit_and_later_images_skip_the_converter :: bool where
  "test_three_consecutive_failures_open_the_circuit_and_later_images_skip_the_converter \<longleftrightarrow>
     trips fresh_breaker \<and> untouched (route_png 0 (tripped fresh_breaker) (Inr fake_png)) (''image/png'', png_header)"

definition test_every_kind_of_converter_fault_counts_toward_the_threshold :: bool where
  "test_every_kind_of_converter_fault_counts_toward_the_threshold \<longleftrightarrow>
     list_all (\<lambda>fault. kept_png (route_png 0 strict_breaker fault) \<and> breaker_state_of (after_image 0 fault strict_breaker) = SOpen)
       [Inl failed, Inl (EFailed None ''killed''), Inl (ETimeout 15), Inl (EChild BrokenPipe), Inr [], Inr ''not an image'']"

definition bypasses :: "circuit_breaker \<Rightarrow> circuit_breaker" where
  "bypasses b =
     fold (\<lambda>(mime, payload). after mime payload (Inl failed))
       [(''text/plain'', ''hello''), (''image/svg+xml'', ''<svg/>''), (''text/uri-list'', ''/a''), (''image/gif'', ''GIF89a....'')] b"

definition test_bypassed_payloads_neither_advance_nor_reset_the_failure_count :: bool where
  "test_bypassed_payloads_neither_advance_nor_reset_the_failure_count \<longleftrightarrow>
     (let b = (bypasses ^^ 20) ((after_failure ^^ 2) fresh_breaker)
      in breaker_state_of b = SClosed \<and> breaker_state_of (after_failure b) = SOpen)"

definition neutral_errors :: "circuit_breaker \<Rightarrow> circuit_breaker" where
  "neutral_errors b = fold (\<lambda>e. after_image 0 (Inl e)) [ESpawn NotFound, ESource other, ESink other] b"

definition test_a_missing_tool_and_caller_stream_errors_do_not_touch_the_counters :: bool where
  "test_a_missing_tool_and_caller_stream_errors_do_not_touch_the_counters \<longleftrightarrow>
     (let b = (neutral_errors ^^ 20) ((after_failure ^^ 2) fresh_breaker)
      in breaker_state_of b = SClosed \<and> breaker_state_of (after_failure b) = SOpen)"

definition refusal :: reply where "refusal = Inl (EIsolation (OtherError ''no private directory''))"

definition test_failing_to_isolate_is_neutral_and_keeps_the_original :: bool where
  "test_failing_to_isolate_is_neutral_and_keeps_the_original \<longleftrightarrow>
     list_all (\<lambda>n. let r = route_png 0 ((after_image 0 refusal ^^ n) strict_breaker) refusal in snd r \<noteq> None \<and> kept_png r) [0 ..< 20] \<and>
     breaker_state_of ((after_image 0 refusal ^^ 20) strict_breaker) = SClosed"

definition no_tool :: reply where "no_tool = Inl (ESpawn NotFound)"

definition test_a_missing_tool_alone_can_never_open_the_circuit :: bool where
  "test_a_missing_tool_alone_can_never_open_the_circuit \<longleftrightarrow>
     list_all (\<lambda>n. kept_png (route_png 0 ((after_image 0 no_tool ^^ n) fresh_breaker) no_tool)) [0 ..< 50] \<and>
     breaker_state_of ((after_image 0 no_tool ^^ 50) fresh_breaker) = SClosed"

definition test_a_successful_conversion_resets_the_consecutive_count :: bool where
  "test_a_successful_conversion_resets_the_consecutive_count \<longleftrightarrow>
     (let b = (after_failure ^^ 2) fresh_breaker
      in snd (fst (route_png 0 b (Inr fake_png))) = fake_png \<and>
         breaker_state_of ((after_failure ^^ 2) (after_image 0 (Inr fake_png) b)) = SClosed)"

definition test_after_the_cooldown_a_successful_canary_conversion_closes_the_circuit :: bool where
  "test_after_the_cooldown_a_successful_canary_conversion_closes_the_circuit \<longleftrightarrow>
     trips (breaker_new 3 40) \<and>
     (let b = tripped (breaker_new 3 40); b' = after_image 60 (Inr fake_png) b
      in converted_from Png (route_png 60 b (Inr fake_png)) \<and> breaker_state_of b' = SClosed \<and>
         converted_from Png (route_png 60 b' (Inr fake_png)))"

definition test_a_failed_canary_keeps_the_data_and_reopens_the_circuit :: bool where
  "test_a_failed_canary_keeps_the_data_and_reopens_the_circuit \<longleftrightarrow>
     (let b = tripped (breaker_new 3 40); b' = after_image 60 (Inl failed) b; r = route_png 60 b (Inl failed)
      in snd r \<noteq> None \<and> kept_png r \<and> breaker_state_of b' = SOpen \<and> snd (route_png 60 b' (Inr fake_png)) = None)"

text \<open>
  The second image arrives while the converter of the first runs, that is after \<^verbatim>\<open>acquire\<close> made the breaker half open: what it does to the guards is
  what \<open>others 1\<close> of the first attempt does.
\<close>

definition second_image :: "nat \<Rightarrow> guards \<Rightarrow> guards" where
  "second_image i g = (if i = 1 then snd (route_through_at 0 g ''image/png'' png_header (Inr fake_png)) else g)"

definition test_only_one_image_is_converted_while_the_canary_is_in_flight :: bool where
  "test_only_one_image_is_converted_while_the_canary_is_in_flight \<longleftrightarrow>
     (let b = tripped (breaker_new 3 0)
      in trips (breaker_new 3 0) \<and>
         untouched (route_png 0 (snd (acquire_at 0 b)) (Inr fake_png)) (''image/png'', png_header) \<and>
         (case route_with second_image 0 0
                 (\<lambda>job _ s. ((Inr \<lparr> bytes_in = 0, bytes_out = length fake_png \<rparr>, fake_png), s))
                 ''image/png'' png_header \<lparr> gd_breaker = b, gd_throttle = roomy_throttle \<rparr> () of
            (out, g, _) \<Rightarrow> snd out = fake_png \<and> breaker_state_of (gd_breaker g) = SClosed))"

lemma breaker_route_tests_pass:
  test_three_consecutive_failures_open_the_circuit_and_later_images_skip_the_converter
  test_every_kind_of_converter_fault_counts_toward_the_threshold
  test_a_successful_conversion_resets_the_consecutive_count
  test_after_the_cooldown_a_successful_canary_conversion_closes_the_circuit
  test_a_failed_canary_keeps_the_data_and_reopens_the_circuit
  test_only_one_image_is_converted_while_the_canary_is_in_flight
  by code_simp+

text \<open>The tests that repeat something harmless: each repetition leaves the breaker exactly as it was.\<close>

lemma repeated_harmless: "f b = b \<Longrightarrow> (f ^^ n) b = b"
  by (induction n) simp_all

lemma harmless_rounds:
  "bypasses ((after_failure ^^ 2) fresh_breaker) = (after_failure ^^ 2) fresh_breaker"
  "neutral_errors ((after_failure ^^ 2) fresh_breaker) = (after_failure ^^ 2) fresh_breaker"
  "after_image 0 refusal strict_breaker = strict_breaker"
  "after_image 0 no_tool fresh_breaker = fresh_breaker"
  by code_simp+

lemma harmless_states:
  "breaker_state_of ((after_failure ^^ 2) fresh_breaker) = SClosed \<and> breaker_state_of (after_failure ((after_failure ^^ 2) fresh_breaker)) = SOpen"
  "let r = route_png 0 strict_breaker refusal in snd r \<noteq> None \<and> kept_png r \<and> breaker_state_of strict_breaker = SClosed"
  "kept_png (route_png 0 fresh_breaker no_tool) \<and> breaker_state_of fresh_breaker = SClosed"
  by code_simp+

lemma repetition_tests_pass:
  test_bypassed_payloads_neither_advance_nor_reset_the_failure_count
  test_a_missing_tool_and_caller_stream_errors_do_not_touch_the_counters
  test_failing_to_isolate_is_neutral_and_keeps_the_original
  test_a_missing_tool_alone_can_never_open_the_circuit
  using harmless_states
  by (simp_all add: test_bypassed_payloads_neither_advance_nor_reset_the_failure_count_def
      test_a_missing_tool_and_caller_stream_errors_do_not_touch_the_counters_def
      test_failing_to_isolate_is_neutral_and_keeps_the_original_def test_a_missing_tool_alone_can_never_open_the_circuit_def
      repeated_harmless [of bypasses, OF harmless_rounds(1)] repeated_harmless [of neutral_errors, OF harmless_rounds(2)]
      repeated_harmless [of "after_image 0 refusal", OF harmless_rounds(3)]
      repeated_harmless [of "after_image 0 no_tool", OF harmless_rounds(4)] list_all_iff Let_def)

section \<open>Behind the throttle\<close>

definition would_succeed :: reply where "would_succeed = Inr fake_png"

text \<open>A throttle of one slot, which a test holds; none is given back while the attempt waits.\<close>

definition held :: "nat \<Rightarrow> process_throttle" where
  "held wait = (case throttle_acquire (throttle_new 1 wait) of Some t \<Rightarrow> t | None \<Rightarrow> throttle_new 1 wait)"

definition after_saturated :: "circuit_breaker \<Rightarrow> circuit_breaker" where
  "after_saturated b = gd_breaker (snd (route_through b (held 0) ''image/png'' png_header would_succeed))"

definition test_a_saturated_throttle_falls_back_to_the_original_without_invoking_the_converter :: bool where
  "test_a_saturated_throttle_falls_back_to_the_original_without_invoking_the_converter \<longleftrightarrow>
     (case route_through fresh_breaker (held 20) ''image/png'' png_header would_succeed of
        (r, g) \<Rightarrow> untouched r (''image/png'', png_header) \<and> in_use (gd_throttle g) = 1)"

definition test_saturation_never_counts_towards_the_breaker :: bool where
  "test_saturation_never_counts_towards_the_breaker \<longleftrightarrow>
     breaker_state_of ((after_saturated ^^ 50) strict_breaker) = SClosed"

definition test_saturation_neither_advances_nor_resets_the_failure_count :: bool where
  "test_saturation_neither_advances_nor_resets_the_failure_count \<longleftrightarrow>
     (let b = (after_saturated ^^ 20) ((after_failure ^^ 2) fresh_breaker)
      in breaker_state_of b = SClosed \<and> breaker_state_of (after_failure b) = SOpen)"

definition test_a_saturated_canary_hands_the_probe_back_instead_of_wedging_the_breaker :: bool where
  "test_a_saturated_canary_hands_the_probe_back_instead_of_wedging_the_breaker \<longleftrightarrow>
     trips (breaker_new 3 0) \<and>
     (case route_through (tripped (breaker_new 3 0)) (held 0) ''image/png'' png_header would_succeed of
        (r, g) \<Rightarrow> untouched r (''image/png'', png_header) \<and> breaker_state_of (gd_breaker g) = SHalfOpen \<and>
          (case route_through (gd_breaker g) (slot_drop (gd_throttle g)) ''image/png'' png_header would_succeed of
             (r, g) \<Rightarrow> converted_from Png r \<and> breaker_state_of (gd_breaker g) = SClosed))"

text \<open>An open circuit and a bypass do not even look at the throttle: they answer alike whatever it holds.\<close>

definition test_an_open_circuit_never_waits_for_a_slot :: bool where
  "test_an_open_circuit_never_waits_for_a_slot \<longleftrightarrow>
     (case route_through (tripped fresh_breaker) (held 30) ''image/png'' png_header would_succeed of
        (r, g) \<Rightarrow> untouched r (''image/png'', png_header) \<and> gd_throttle g = held 30)"

definition test_bypassed_payloads_never_take_or_wait_for_a_slot :: bool where
  "test_bypassed_payloads_never_take_or_wait_for_a_slot \<longleftrightarrow>
     list_all (\<lambda>(mime, payload). case route_through fresh_breaker (held 30) mime payload would_succeed of
         (r, g) \<Rightarrow> untouched r (mime, payload) \<and> gd_throttle g = held 30)
       [(''text/plain'', ''hello''), (''image/svg+xml'', ''<svg/>''), (''image/gif'', ''GIF89a....''), (''image/png'', [])]"

definition test_the_slot_is_released_after_every_kind_of_outcome :: bool where
  "test_the_slot_is_released_after_every_kind_of_outcome \<longleftrightarrow>
     list_all (\<lambda>reply. in_use (gd_throttle (snd (route_through (breaker_new 100 30) (throttle_new 1 0) ''image/png'' png_header reply))) = 0)
       [would_succeed, Inl failed, Inl (ETimeout 15), Inl (ESpawn NotFound), Inr []]"

text \<open>The slot held by another thread is given back while the attempt waits: that is what \<open>others 0\<close> does.\<close>

definition frees_the_slot :: "nat \<Rightarrow> guards \<Rightarrow> guards" where
  "frees_the_slot i g = (if i = 0 then g\<lparr> gd_throttle := slot_drop (gd_throttle g) \<rparr> else g)"

definition test_a_waiting_image_is_converted_once_a_slot_frees_up_in_time :: bool where
  "test_a_waiting_image_is_converted_once_a_slot_frees_up_in_time \<longleftrightarrow>
     (case route_with frees_the_slot 0 0 (\<lambda>job _ s. ((Inr \<lparr> bytes_in = 0, bytes_out = length fake_png \<rparr>, fake_png), Some job))
             ''image/png'' png_header \<lparr> gd_breaker = fresh_breaker, gd_throttle = held 30 \<rparr> None of
        (out, g, called) \<Rightarrow> converted_from Png (out, called) \<and> in_use (gd_throttle g) = 0)"

lemma throttle_route_tests_pass:
  test_a_saturated_throttle_falls_back_to_the_original_without_invoking_the_converter
  test_a_saturated_canary_hands_the_probe_back_instead_of_wedging_the_breaker
  test_an_open_circuit_never_waits_for_a_slot
  test_bypassed_payloads_never_take_or_wait_for_a_slot
  test_the_slot_is_released_after_every_kind_of_outcome
  test_a_waiting_image_is_converted_once_a_slot_frees_up_in_time
  by code_simp+

lemma saturated_rounds:
  "after_saturated strict_breaker = strict_breaker \<and> breaker_state_of strict_breaker = SClosed"
  "after_saturated ((after_failure ^^ 2) fresh_breaker) = (after_failure ^^ 2) fresh_breaker"
  by code_simp+

lemma saturation_tests_pass:
  test_saturation_never_counts_towards_the_breaker
  test_saturation_neither_advances_nor_resets_the_failure_count
  using harmless_states(1) saturated_rounds
  by (simp_all add: test_saturation_never_counts_towards_the_breaker_def repeated_harmless
      test_saturation_neither_advances_nor_resets_the_failure_count_def Let_def)

definition test_the_capacity_hint_follows_the_input_size_up_to_the_cap :: bool where
  "test_the_capacity_hint_follows_the_input_size_up_to_the_cap \<longleftrightarrow>
     output_capacity_hint 0 = 0 \<and> output_capacity_hint 1 = 1 \<and> output_capacity_hint 300000 = 300000 \<and>
     output_capacity_hint IMAGE_OUTPUT_HINT_CAP_BYTES = IMAGE_OUTPUT_HINT_CAP_BYTES \<and>
     output_capacity_hint (IMAGE_OUTPUT_HINT_CAP_BYTES + 1) = IMAGE_OUTPUT_HINT_CAP_BYTES \<and>
     output_capacity_hint u64_max = IMAGE_OUTPUT_HINT_CAP_BYTES"

lemma capacity_hint_test_passes: test_the_capacity_hint_follows_the_input_size_up_to_the_cap
  by (simp add: test_the_capacity_hint_follows_the_input_size_up_to_the_cap_def output_capacity_hint_def const_defs u64_max_def)

section \<open>The file road\<close>

text \<open>The artefact of a conversion is a plain number here.\<close>

definition ARTEFACT :: nat where "ARTEFACT = 7"

type_synonym file_reply = "pipeline_error + nat"

definition route_file_through ::
    "circuit_breaker \<Rightarrow> process_throttle \<Rightarrow> string \<Rightarrow> bytes \<Rightarrow> file_reply \<Rightarrow> (nat file_route \<times> transcode option) \<times> guards" where
  "route_file_through b t mime head reply =
     (case route_file_with alone 0 0 (\<lambda>job _. (reply, Some job)) mime head \<lparr> gd_breaker = b, gd_throttle = t \<rparr> None of
        (out, g, called) \<Rightarrow> ((out, called), g))"

definition route_file_on :: "circuit_breaker \<Rightarrow> string \<Rightarrow> bytes \<Rightarrow> file_reply \<Rightarrow> nat file_route \<times> transcode option" where
  "route_file_on b mime head reply = fst (route_file_through b roomy_throttle mime head reply)"

definition after_file :: "file_reply \<Rightarrow> circuit_breaker \<Rightarrow> circuit_breaker" where
  "after_file reply b = gd_breaker (snd (route_file_through b roomy_throttle ''image/png'' png_header reply))"

definition test_the_file_road_bypasses_what_the_memory_road_bypasses_without_invoking_the_converter :: bool where
  "test_the_file_road_bypasses_what_the_memory_road_bypasses_without_invoking_the_converter \<longleftrightarrow>
     list_all (\<lambda>(mime, head). route_file_on fresh_breaker mime head (Inr ARTEFACT) = (Original, None))
       [(''text/plain'', ''hello world''), (''text/uri-list'', ''/home/user/a.png''), (''application/octet-stream'', small_bytes 0 6),
        (''image/svg+xml'', svg_document), (''image/png'', svg_document), (''image/gif'', ''GIF89aframes''),
        (''image/webp'', fake_animated_webp), (''image/png'', [])]"

definition test_both_roads_hand_the_converter_the_same_job_for_every_kind_of_payload :: bool where
  "test_both_roads_hand_the_converter_the_same_job_for_every_kind_of_payload \<longleftrightarrow>
     list_all (\<lambda>(mime, payload).
         snd (route_file_on fresh_breaker mime payload (Inr ARTEFACT)) = snd (route_recording mime payload (Inr fake_png)))
       [(''image/png'', fake_png), (''image/jpeg'', [CHR 0xFF, CHR 0xD8, CHR 0xFF, CHR 0xE0] @ small_bytes 1 9), (''image/webp'', fake_webp),
        (''image/webp'', fake_animated_webp), (''image/gif'', ''GIF89a frames''), (''image/png'', svg_document),
        (''image/bmp'', ''BM not detectable by signature''), (''application/octet-stream'', fake_png),
        (''application/pdf'', ''%PDF-1.7 body''), (''text/plain'', ''plain'')]"

definition test_a_successful_file_conversion_returns_the_artefact_under_the_target_mime :: bool where
  "test_a_successful_file_conversion_returns_the_artefact_under_the_target_mime \<longleftrightarrow>
     route_file_on fresh_breaker ''image/jpeg'' jpeg_header (Inr ARTEFACT) =
       (Converted ''image/png'' ARTEFACT, Some \<lparr> tc_input = Jpeg, tc_output = OutPng \<rparr>)"

definition file_kept :: "nat file_route \<times> transcode option \<Rightarrow> bool" where
  "file_kept r \<longleftrightarrow> fst r = Original \<and> snd r \<noteq> None"

definition test_every_file_conversion_failure_falls_back_to_the_original :: bool where
  "test_every_file_conversion_failure_falls_back_to_the_original \<longleftrightarrow>
     list_all (\<lambda>e. file_kept (route_file_on fresh_breaker ''image/png'' png_header (Inl e)))
       [ESpawn NotFound, failed, ESource other, ESink other, EChild other, ETimeout 15, EIsolation other]"

definition trips_file_road :: "circuit_breaker \<Rightarrow> bool" where
  "trips_file_road b \<longleftrightarrow>
     list_all (\<lambda>n. file_kept (route_file_on ((after_file (Inl failed) ^^ n) b) ''image/png'' png_header (Inl failed))) [0, 1, 2] \<and>
     breaker_state_of ((after_file (Inl failed) ^^ 3) b) = SOpen"

definition test_three_file_conversion_failures_open_the_circuit_and_later_images_skip_the_converter :: bool where
  "test_three_file_conversion_failures_open_the_circuit_and_later_images_skip_the_converter \<longleftrightarrow>
     trips_file_road fresh_breaker \<and>
     route_file_on ((after_file (Inl failed) ^^ 3) fresh_breaker) ''image/png'' png_header (Inr ARTEFACT) = (Original, None)"

definition test_a_fault_on_either_road_counts_against_the_one_breaker :: bool where
  "test_a_fault_on_either_road_counts_against_the_one_breaker \<longleftrightarrow>
     (let b = (after_failure ^^ 2) fresh_breaker; b' = after_file (Inl failed) b
      in breaker_state_of b = SClosed \<and> breaker_state_of b' = SOpen \<and>
         snd (route_png 0 b' (Inr fake_png)) = None \<and> snd (route_file_on b' ''image/png'' png_header (Inr ARTEFACT)) = None)"

definition host_errors :: "circuit_breaker \<Rightarrow> circuit_breaker" where
  "host_errors b = fold (\<lambda>e. after_file (Inl e)) [ESpawn NotFound, ESource other, ESink other, EIsolation other] b"

definition test_a_missing_tool_and_the_hosts_own_errors_never_open_the_circuit_on_the_file_road :: bool where
  "test_a_missing_tool_and_the_hosts_own_errors_never_open_the_circuit_on_the_file_road \<longleftrightarrow>
     breaker_state_of ((host_errors ^^ 20) strict_breaker) = SClosed"

text \<open>The twenty rounds over one breaker and one throttle.\<close>

definition saturated_file_round :: "guards \<Rightarrow> guards" where
  "saturated_file_round g = snd (route_file_through (gd_breaker g) (gd_throttle g) ''image/png'' png_header (Inr ARTEFACT))"

definition strict_and_held :: guards where "strict_and_held = \<lparr> gd_breaker = strict_breaker, gd_throttle = held 0 \<rparr>"

definition test_a_saturated_throttle_keeps_the_original_on_the_file_road_without_counting_a_fault :: bool where
  "test_a_saturated_throttle_keeps_the_original_on_the_file_road_without_counting_a_fault \<longleftrightarrow>
     list_all (\<lambda>n. let g = (saturated_file_round ^^ n) strict_and_held
         in fst (route_file_through (gd_breaker g) (gd_throttle g) ''image/png'' png_header (Inr ARTEFACT)) = (Original, None)) [0 ..< 20] \<and>
     (let g = (saturated_file_round ^^ 20) strict_and_held
      in breaker_state_of (gd_breaker g) = SClosed \<and> in_use (gd_throttle g) = 1)"

definition test_the_slot_is_released_after_a_file_conversion_whatever_its_outcome :: bool where
  "test_the_slot_is_released_after_a_file_conversion_whatever_its_outcome \<longleftrightarrow>
     list_all (\<lambda>reply. in_use (gd_throttle (snd (route_file_through fresh_breaker (throttle_new 1 0) ''image/png'' png_header reply))) = 0)
       [Inr ARTEFACT, Inl failed, Inl (ESink other)]"

lemma file_road_tests_pass:
  test_the_file_road_bypasses_what_the_memory_road_bypasses_without_invoking_the_converter
  test_both_roads_hand_the_converter_the_same_job_for_every_kind_of_payload
  test_a_successful_file_conversion_returns_the_artefact_under_the_target_mime
  test_every_file_conversion_failure_falls_back_to_the_original
  test_three_file_conversion_failures_open_the_circuit_and_later_images_skip_the_converter
  test_a_fault_on_either_road_counts_against_the_one_breaker
  test_the_slot_is_released_after_a_file_conversion_whatever_its_outcome
  by code_simp+

lemma file_rounds:
  "host_errors strict_breaker = strict_breaker"
  "saturated_file_round strict_and_held = strict_and_held"
  "breaker_state_of (gd_breaker strict_and_held) = SClosed \<and> in_use (gd_throttle strict_and_held) = 1"
  "fst (route_file_through (gd_breaker strict_and_held) (gd_throttle strict_and_held) ''image/png'' png_header (Inr ARTEFACT)) = (Original, None)"
  by code_simp+

lemma file_repetition_tests_pass:
  test_a_missing_tool_and_the_hosts_own_errors_never_open_the_circuit_on_the_file_road
  test_a_saturated_throttle_keeps_the_original_on_the_file_road_without_counting_a_fault
  using file_rounds saturated_rounds(1)
  by (simp_all add: test_a_missing_tool_and_the_hosts_own_errors_never_open_the_circuit_on_the_file_road_def repeated_harmless list_all_iff
      test_a_saturated_throttle_keeps_the_original_on_the_file_road_without_counting_a_fault_def Let_def)

end
