(* ===== verification/TestsDb.thy ===== *)
theory TestsDb
  imports Search
begin

text \<open>
  The unit tests of \<^verbatim>\<open>storage/src/db.rs\<close> whose payloads are small, translated assertion by assertion and evaluated on the model: a store in memory, rows in
  the order of their timestamps, \<^verbatim>\<open>LIKE\<close> as \<open>like_ci\<close>. What the tests of chunked payloads say at their sizes is proved in general with the chunk
  tables.
\<close>

section \<open>The store under test\<close>

definition ok :: "stmt \<Rightarrow> bool" where "ok st = False"

definition wall_clock :: int where "wall_clock = 1700000000"

definition upserted :: "string \<Rightarrow> bytes \<Rightarrow> string \<Rightarrow> nat \<Rightarrow> sqlite_store \<Rightarrow> upsert_outcome \<times> sqlite_store" where
  "upserted mime data hash max_history s =
     (case upsert_record (\<lambda>d. d) order_by_ts_desc ok wall_clock mime data hash max_history s of
        (Inr outcome, s') \<Rightarrow> (outcome, s')
      | (Inl _, s') \<Rightarrow> (skipped_outcome, s'))"

definition detached :: "string \<Rightarrow> nat \<Rightarrow> string \<Rightarrow> nat \<Rightarrow> sqlite_store \<Rightarrow> upsert_outcome \<times> sqlite_store" where
  "detached mime len hash max_history s =
     (case upsert_detached (\<lambda>d. d) order_by_ts_desc ok wall_clock mime len hash max_history s of
        (Inr outcome, s') \<Rightarrow> (outcome, s')
      | (Inl _, s') \<Rightarrow> (skipped_outcome, s'))"

definition text_row :: "bytes \<Rightarrow> string \<Rightarrow> sqlite_store \<Rightarrow> sqlite_store" where
  "text_row data hash s = snd (upserted ''text/plain'' data hash 100 s)"

definition set_timestamp :: "string \<Rightarrow> int \<Rightarrow> sqlite_store \<Rightarrow> sqlite_store" where
  "set_timestamp hash ts s = s\<lparr> clipboard := map (\<lambda>r. if r_hash r = Some hash then r\<lparr> r_ts := ts \<rparr> else r) (clipboard s) \<rparr>"

definition id_of :: "string \<Rightarrow> sqlite_store \<Rightarrow> int" where
  "id_of hash s = (case find_hash hash s of Some i \<Rightarrow> i | None \<Rightarrow> 0)"

definition total :: "sqlite_store \<Rightarrow> nat" where "total s = get_total_count ok s"

section \<open>Rows built from a length alone\<close>

definition test_upsert_detached_builds_the_row_upsert_record_builds_for_an_image :: bool where
  "test_upsert_detached_builds_the_row_upsert_record_builds_for_an_image \<longleftrightarrow>
     (let data = replicate 4321 CHR 0x07;
          (a, s) = detached ''image/png'' (length data) ''h-img'' 100 empty_store;
          (b, s') = upserted ''image/png'' data ''h-img'' 100 empty_store
      in (real_id a, is_image a) = (real_id b, is_image b) \<and> clipboard s = clipboard s' \<and> map r_size (clipboard s) = [4321])"

definition test_upsert_detached_skips_what_upsert_record_skips :: bool where
  "test_upsert_detached_skips_what_upsert_record_skips \<longleftrightarrow>
     (let (a, s) = detached ''image/png'' 0 ''h-empty'' 100 empty_store; (b, s) = detached ''image/x-secret'' 10 ''h-secret'' 100 s
      in real_id a = - 1 \<and> real_id b = - 1 \<and> total s = 0)"

definition test_upsert_detached_touches_an_existing_row_and_rotates_like_any_insert :: bool where
  "test_upsert_detached_touches_an_existing_row_and_rotates_like_any_insert \<longleftrightarrow>
     (let (first, s) = detached ''image/png'' 10 ''h1'' 1 empty_store; (again, s) = detached ''image/png'' 10 ''h1'' 1 s;
          (second, s) = detached ''image/gif'' 20 ''h2'' 1 (set_timestamp ''h1'' 1 s)
      in real_id first = real_id again \<and> real_id second \<noteq> real_id first \<and> expired_hashes second = [''h1''] \<and> total s = 1)"

definition test_only_images_without_text_are_detachable :: bool where
  "test_only_images_without_text_are_detachable \<longleftrightarrow>
     list_all is_detachable [''image/png'', ''image/gif'', ''image/svg+xml'', ''application/x-gif''] \<and>
     list_all (\<lambda>m. \<not> is_detachable m) [''text/x-gif'', ''text/plain'', ''application/pdf'', []] \<and> is_cache_class ''text/x-gif''"

lemma detached_row_test_passes: test_upsert_detached_builds_the_row_upsert_record_builds_for_an_image
proof -
  have png: "is_cache_class ''image/png''" "\<not> is_text_like_mime ''image/png''" "\<not> list_ex (contains_str ''image/png'') SENSITIVE_MIME_HINTS"
    by code_simp+
  show ?thesis
    by (simp add: test_upsert_detached_builds_the_row_upsert_record_builds_for_an_image_def detached_def upserted_def upsert_detached_def
        upsert_record_def is_skipped_def png upsert_def place_record_def find_hash_def empty_store_def insert_row_def row_parts_def
        row_preview_def is_chunkable_def body_len_def fresh_row_def rotate_rows_def expiring_rows_def ok_def i64_max_def sql_offset_def
        as_i64_def order_by_ts_desc_def with_chunks_def delete_rows_def)
qed

lemma detached_tests_pass:
  test_upsert_detached_skips_what_upsert_record_skips
  test_upsert_detached_touches_an_existing_row_and_rotates_like_any_insert
  test_only_images_without_text_are_detachable
  by code_simp+

section \<open>Inserting and rotating\<close>

definition test_upsert_record_text_payload_is_stored_as_text_and_readable :: bool where
  "test_upsert_record_text_payload_is_stored_as_text_and_readable \<longleftrightarrow>
     (let (outcome, s) = upserted ''text/plain'' ''hello world'' ''h-text'' 100 empty_store
      in \<not> is_image outcome \<and> real_id outcome \<noteq> - 1 \<and>
         get_row_content ok (real_id outcome) s = Some (''text/plain'', Some ''hello world'', ''h-text''))"

definition test_upsert_record_image_payload_leaves_sqlite_content_null_for_file_cache_delegation :: bool where
  "test_upsert_record_image_payload_leaves_sqlite_content_null_for_file_cache_delegation \<longleftrightarrow>
     (let (outcome, s) = upserted ''image/png''
            [CHR 0x89, CHR 0x50, CHR 0x4E, CHR 0x47, CHR 0x01, CHR 0x02, CHR 0x03, CHR 0x04] ''h-img'' 100 empty_store
      in is_image outcome \<and> get_row_location ok (real_id outcome) s = Some (''image/png'', False, ''h-img''))"

definition test_upsert_record_text_mime_with_invalid_utf8_falls_back_to_blob_without_corruption :: bool where
  "test_upsert_record_text_mime_with_invalid_utf8_falls_back_to_blob_without_corruption \<longleftrightarrow>
     (let raw = [CHR 0xFF, CHR 0xFE, CHR 0xFD, CHR 0x00, CHR 0x01];
          (outcome, s) = upserted ''text/plain'' raw ''h-badutf8'' 100 empty_store
      in map_option (\<lambda>(_, content, _). content) (get_row_content ok (real_id outcome) s) = Some (Some raw))"

definition test_upsert_record_empty_payload_is_skipped_without_inserting :: bool where
  "test_upsert_record_empty_payload_is_skipped_without_inserting \<longleftrightarrow>
     (let (outcome, s) = upserted ''text/plain'' [] ''h-empty'' 100 empty_store in real_id outcome = - 1 \<and> total s = 0)"

definition test_upsert_record_sensitive_mime_is_skipped_without_inserting :: bool where
  "test_upsert_record_sensitive_mime_is_skipped_without_inserting \<longleftrightarrow>
     (let (outcome, s) = upserted ''x-kde-passwordManagerHint'' ''secret value'' ''h-sensitive'' 100 empty_store
      in real_id outcome = - 1 \<and> total s = 0)"

definition test_upsert_record_duplicate_hash_updates_existing_row_instead_of_duplicating :: bool where
  "test_upsert_record_duplicate_hash_updates_existing_row_instead_of_duplicating \<longleftrightarrow>
     (let (first, s) = upserted ''text/plain'' ''same content'' ''h-dup'' 100 empty_store;
          (second, s) = upserted ''text/plain'' ''same content'' ''h-dup'' 100 s
      in real_id first = real_id second \<and> total s = 1)"

definition two_rows :: sqlite_store where
  "two_rows = set_timestamp ''h2'' 2000 (text_row ''two'' ''h2'' (set_timestamp ''h1'' 1000 (text_row ''one'' ''h1'' empty_store)))"

definition test_upsert_record_rotation_evicts_oldest_unpinned_row_when_over_capacity :: bool where
  "test_upsert_record_rotation_evicts_oldest_unpinned_row_when_over_capacity \<longleftrightarrow>
     (let (outcome, s) = upserted ''text/plain'' ''three'' ''h3'' 2 two_rows
      in expired_hashes outcome = [''h1''] \<and> total s = 2 \<and> get_row_content ok (id_of ''h1'' two_rows) s = None \<and>
         get_row_content ok (id_of ''h2'' two_rows) s \<noteq> None)"

definition test_upsert_record_rotation_protects_pinned_rows_regardless_of_age :: bool where
  "test_upsert_record_rotation_protects_pinned_rows_regardless_of_age \<longleftrightarrow>
     (let three = set_timestamp ''h3'' 3000 (text_row ''three'' ''h3'' two_rows);
          (pinned, s) = set_pinned ok (id_of ''h1'' three) True three;
          (outcome, s) = upserted ''text/plain'' ''four'' ''h4'' 2 s
      in pinned = Inr True \<and> expired_hashes outcome = [''h2''] \<and> total s = 3 \<and>
         get_row_content ok (id_of ''h1'' three) s \<noteq> None \<and> get_row_content ok (id_of ''h2'' three) s = None \<and>
         get_row_content ok (id_of ''h3'' three) s \<noteq> None)"

definition test_upsert_record_rotation_is_a_noop_when_within_capacity :: bool where
  "test_upsert_record_rotation_is_a_noop_when_within_capacity \<longleftrightarrow>
     (let (outcome, s) = upserted ''text/plain'' ''two'' ''h2'' 100 (text_row ''one'' ''h1'' empty_store)
      in expired_hashes outcome = [] \<and> total s = 2)"

lemma upsert_tests_pass:
  test_upsert_record_text_payload_is_stored_as_text_and_readable
  test_upsert_record_image_payload_leaves_sqlite_content_null_for_file_cache_delegation
  test_upsert_record_text_mime_with_invalid_utf8_falls_back_to_blob_without_corruption
  test_upsert_record_empty_payload_is_skipped_without_inserting
  test_upsert_record_sensitive_mime_is_skipped_without_inserting
  test_upsert_record_duplicate_hash_updates_existing_row_instead_of_duplicating
  test_upsert_record_rotation_evicts_oldest_unpinned_row_when_over_capacity
  test_upsert_record_rotation_protects_pinned_rows_regardless_of_age
  test_upsert_record_rotation_is_a_noop_when_within_capacity
  by code_simp+

section \<open>Deleting and pinning\<close>

definition test_delete_by_id_removes_the_row_and_returns_its_hash :: bool where
  "test_delete_by_id_removes_the_row_and_returns_its_hash \<longleftrightarrow>
     (let (outcome, s) = upserted ''text/plain'' ''to be deleted'' ''h-del'' 100 empty_store; (r, s) = delete_by_id ok (real_id outcome) s
      in r = Inr (True, Some ''h-del'') \<and> total s = 0)"

definition test_delete_by_id_missing_id_returns_false_without_touching_other_rows :: bool where
  "test_delete_by_id_missing_id_returns_false_without_touching_other_rows \<longleftrightarrow>
     (let (r, s) = delete_by_id ok 999999 (text_row ''untouched'' ''h-keep'' empty_store) in r = Inr (False, None) \<and> total s = 1)"

definition test_wipe_clears_all_rows_including_pinned_ones :: bool where
  "test_wipe_clears_all_rows_including_pinned_ones \<longleftrightarrow>
     (let (outcome, s) = upserted ''text/plain'' ''keep?'' ''h-wipe'' 100 empty_store;
          (_, s) = set_pinned ok (real_id outcome) True s; (r, s) = store_wipe ok s
      in r = Inr () \<and> total s = 0)"

definition test_set_pinned_on_missing_id_returns_false :: bool where
  "test_set_pinned_on_missing_id_returns_false \<longleftrightarrow> fst (set_pinned ok 999999 True empty_store) = Inr False"

lemma delete_tests_pass:
  test_delete_by_id_removes_the_row_and_returns_its_hash
  test_delete_by_id_missing_id_returns_false_without_touching_other_rows
  test_wipe_clears_all_rows_including_pinned_ones
  test_set_pinned_on_missing_id_returns_false
  by code_simp+

section \<open>Searching\<close>

definition stored :: "(string \<times> bytes \<times> string) list \<Rightarrow> sqlite_store" where
  "stored entries = fold (\<lambda>(mime, data, hash) s. snd (upserted mime data hash 100 s)) entries empty_store"

definition found :: "string \<Rightarrow> sqlite_store \<Rightarrow> (nat \<times> meta_row) list" where
  "found word s = store_search_metadata like_ci order_by_ts_desc ok [word] 10 s"

definition mimes_of :: "(nat \<times> meta_row) list \<Rightarrow> string list" where
  "mimes_of hits = map (\<lambda>(_, _, _, mime, _). mime) hits"

definition ids_of :: "(nat \<times> meta_row) list \<Rightarrow> int list" where
  "ids_of hits = map (\<lambda>(_, rid, _). rid) hits"

definition test_search_metadata_matches_preview_or_content_ordered_newest_first_with_absolute_index :: bool where
  "test_search_metadata_matches_preview_or_content_ordered_newest_first_with_absolute_index \<longleftrightarrow>
     (let s = set_timestamp ''h3'' 3000 (text_row ''banana split'' ''h3'' (set_timestamp ''h2'' 2000 (text_row ''completely unrelated'' ''h2''
                (set_timestamp ''h1'' 1000 (text_row ''alpha banana'' ''h1'' empty_store)))));
          results = found ''banana'' s
      in ids_of results = [id_of ''h3'' s, id_of ''h1'' s] \<and> map fst results = [0, 2])"

definition test_search_metadata_empty_result_for_unmatched_keyword :: bool where
  "test_search_metadata_empty_result_for_unmatched_keyword \<longleftrightarrow>
     found ''nonexistent'' (stored [(''text/plain'', ''hello world'', ''h1'')]) = []"

definition test_validate_keywords_splits_present_and_absent_terms :: bool where
  "test_validate_keywords_splits_present_and_absent_terms \<longleftrightarrow>
     validate_keywords like_ci ok [''hello'', ''nonexistent''] (stored [(''text/plain'', ''hello world'', ''h1'')]) =
       ([''hello''], [''nonexistent''])"

definition in_quotes :: "string \<Rightarrow> string" where "in_quotes s = [CHR 0x22] @ s @ [CHR 0x22]"

definition json_object :: "string \<Rightarrow> string \<Rightarrow> string" where
  "json_object key val = ''{'' @ in_quotes key @ '': '' @ in_quotes val @ ''}''"

definition test_search_metadata_finds_json_payload :: bool where
  "test_search_metadata_finds_json_payload \<longleftrightarrow>
     mimes_of (found ''needle'' (stored [(''application/json'', json_object ''needle'' ''found'', ''h-json'')])) = [''application/json'']"

definition test_search_metadata_finds_xhtml_payload :: bool where
  "test_search_metadata_finds_xhtml_payload \<longleftrightarrow>
     mimes_of (found ''findable'' (stored [(''application/xhtml+xml'', ''<html><body>findable xhtml content</body></html>'', ''h-xhtml'')])) =
       [''application/xhtml+xml'']"

definition test_search_metadata_finds_xml_payload :: bool where
  "test_search_metadata_finds_xml_payload \<longleftrightarrow>
     mimes_of (found ''findable_recipient'' (stored [(''application/xml'', ''<note><to>findable_recipient</to></note>'', ''h-xml'')])) =
       [''application/xml'']"

definition test_search_metadata_finds_uri_list_payload :: bool where
  "test_search_metadata_finds_uri_list_payload \<longleftrightarrow>
     mimes_of (found ''findable-report'' (stored [(MIME_URI_LIST, ''/home/user/findable-report.pdf'', ''h-uri'')])) = [MIME_URI_LIST]"

definition test_search_metadata_finds_utf8_string_payload :: bool where
  "test_search_metadata_finds_utf8_string_payload \<longleftrightarrow>
     mimes_of (found ''findable'' (stored [(''UTF8_STRING'', ''findable utf8 selection'', ''h-utf8'')])) = [''UTF8_STRING'']"

definition test_search_metadata_finds_mime_with_charset_parameter :: bool where
  "test_search_metadata_finds_mime_with_charset_parameter \<longleftrightarrow>
     length (found ''findable'' (stored [(''text/plain;charset=utf-8'', ''findable charset payload'', ''h-charset'')])) = 1"

definition test_search_metadata_does_not_match_image_payload_even_with_matching_bytes :: bool where
  "test_search_metadata_does_not_match_image_payload_even_with_matching_bytes \<longleftrightarrow>
     found ''needle'' (stored [(''image/png'', ''needle-like-bytes-in-an-image'', ''h-img''),
       (''image/svg+xml'', ''<svg>needle-like-bytes-in-svg</svg>'', ''h-svg'')]) = []"

definition test_search_metadata_does_not_match_generic_binary_payload :: bool where
  "test_search_metadata_does_not_match_generic_binary_payload \<longleftrightarrow>
     found ''needle'' (stored [(''application/octet-stream'', ''needle-in-binary'', ''h-bin'')]) = []"

definition test_search_metadata_mixed_mimes_only_text_like_ones_are_in_scope :: bool where
  "test_search_metadata_mixed_mimes_only_text_like_ones_are_in_scope \<longleftrightarrow>
     set (mimes_of (found ''shared-term'' (stored [(''application/json'', json_object ''k'' ''shared-term'', ''h-json''),
       (''image/jpeg'', ''shared-term as raw jpeg bytes'', ''h-jpeg''), (''application/octet-stream'', ''shared-term as raw binary'', ''h-bin''),
       (''text/plain'', ''shared-term as plain text'', ''h-txt'')]))) = {''application/json'', ''text/plain''}"

definition test_validate_keywords_recognises_json_and_xhtml_terms :: bool where
  "test_validate_keywords_recognises_json_and_xhtml_terms \<longleftrightarrow>
     validate_keywords like_ci ok [''jsonterm'', ''xhtmlterm''] (stored [(''application/json'', json_object ''term'' ''jsonterm'', ''h-json''),
       (''application/xhtml+xml'', ''<p>xhtmlterm</p>'', ''h-xhtml'')]) = ([''jsonterm'', ''xhtmlterm''], [])"

definition test_validate_keywords_rejects_term_only_present_in_an_image_payload :: bool where
  "test_validate_keywords_rejects_term_only_present_in_an_image_payload \<longleftrightarrow>
     validate_keywords like_ci ok [''only-in-image-bytes''] (stored [(''image/png'', ''only-in-image-bytes'', ''h-img'')]) =
       ([], [''only-in-image-bytes''])"

lemma search_tests_pass:
  test_search_metadata_matches_preview_or_content_ordered_newest_first_with_absolute_index
  test_search_metadata_empty_result_for_unmatched_keyword
  test_validate_keywords_splits_present_and_absent_terms
  test_search_metadata_finds_json_payload
  test_search_metadata_finds_xhtml_payload
  test_search_metadata_finds_xml_payload
  test_search_metadata_finds_uri_list_payload
  test_search_metadata_finds_utf8_string_payload
  test_search_metadata_finds_mime_with_charset_parameter
  test_search_metadata_does_not_match_image_payload_even_with_matching_bytes
  test_search_metadata_does_not_match_generic_binary_payload
  test_search_metadata_mixed_mimes_only_text_like_ones_are_in_scope
  test_validate_keywords_recognises_json_and_xhtml_terms
  test_validate_keywords_rejects_term_only_present_in_an_image_payload
  by code_simp+

end
